(* ===== verification/Prelude.thy ===== *)
theory Prelude
  imports Main "HOL-Library.Sublist"
begin

text \<open>
  What every other theory shares: the exceptions of the Python code as values, the
  result type of code that may raise, the lemma collections of the development, and
  generic facts about lists, options and sums.
\<close>

named_theorems exn_simps \<open>evaluation of code that may raise\<close>
named_theorems dict_simps \<open>lookups in and updates of Python dictionaries\<close>
named_theorems act_rules \<open>properties of sequences of actions\<close>
named_theorems str_simps \<open>Python string operations\<close>

section \<open>Exceptions\<close>

text \<open>
  One constructor per exception class that the code raises or catches. The class
  hierarchy is read off the declarations in the source: for instance
  \<open>ProtocolError(ValueError)\<close> in \<open>agent/protocol.py\<close> and
  \<open>AgentError(RuntimeError)\<close> in \<open>agent/agent.py\<close>. \<open>OtherException\<close> stands for any
  further subclass of \<open>Exception\<close>, known by its class name.
\<close>

datatype exn_kind =
    TypeError | ValueError | OverflowError | KeyError | AttributeError | RuntimeError
  | OSError | TimeoutError
  | JSONDecodeError | UnicodeDecodeError | BinasciiError
  | ProtocolError | SessionError | ConfigError | HostServiceError
  | LLMRuntimeError | SkillsError | AgentError
  | FirecrackerConfigError | FirecrackerAPIError | VMBootError
  | RequestException string
  | OtherException string

datatype exn = Exn exn_kind string

fun exn_class :: "exn \<Rightarrow> exn_kind" where
  "exn_class (Exn k _) = k"

text \<open>\<open>str(exc)\<close>\<close>

fun exn_str :: "exn \<Rightarrow> string" where
  "exn_str (Exn _ msg) = msg"

text \<open>\<open>except ValueError\<close>: the class itself and the subclasses the program meets.\<close>

fun is_ValueError :: "exn_kind \<Rightarrow> bool" where
  "is_ValueError k =
     (k \<in> {ValueError, JSONDecodeError, UnicodeDecodeError, BinasciiError, ProtocolError,
           SessionError, ConfigError, FirecrackerConfigError})"

type_synonym 'a res = "exn + 'a"

definition raise :: "exn_kind \<Rightarrow> string \<Rightarrow> 'a res" where
  "raise k msg = Inl (Exn k msg)"

definition bind_res :: "'a res \<Rightarrow> ('a \<Rightarrow> 'b res) \<Rightarrow> 'b res" where
  "bind_res m f = (case m of Inl e \<Rightarrow> Inl e | Inr x \<Rightarrow> f x)"

definition is_ok :: "'a res \<Rightarrow> bool" where
  "is_ok m = (case m of Inl _ \<Rightarrow> False | Inr _ \<Rightarrow> True)"

text \<open>\<open>if not cond: raise ...\<close>\<close>

definition ensure :: "bool \<Rightarrow> exn_kind \<Rightarrow> string \<Rightarrow> unit res" where
  "ensure b k msg = (if b then Inr () else raise k msg)"

lemma bind_res_simps [simp, exn_simps]:
  "bind_res (Inl e) f = Inl e"
  "bind_res (Inr x) f = f x"
  "bind_res (raise k msg) f = raise k msg"
  by (simp_all add: bind_res_def raise_def)

lemma is_ok_simps [simp]: "\<not> is_ok (Inl e)" "is_ok (Inr x)" "\<not> is_ok (raise k msg)"
  by (simp_all add: is_ok_def raise_def)

lemma raise_neq_Inr [simp]: "raise k msg \<noteq> Inr x" "Inr x \<noteq> raise k msg"
  by (simp_all add: raise_def)

lemma bind_res_eq_Inr: "bind_res m f = Inr y \<longleftrightarrow> (\<exists>x. m = Inr x \<and> f x = Inr y)"
  by (cases m) (auto simp: bind_res_def)

lemma bind_res_eq_Inl:
  "bind_res m f = Inl e \<longleftrightarrow> m = Inl e \<or> (\<exists>x. m = Inr x \<and> f x = Inl e)"
  by (cases m) (auto simp: bind_res_def)

lemma bind_res_assoc: "bind_res (bind_res m f) g = bind_res m (\<lambda>x. bind_res (f x) g)"
  by (cases m) (auto simp: bind_res_def)

lemma is_ok_bind: "is_ok (bind_res m f) \<longleftrightarrow> (\<exists>x. m = Inr x \<and> is_ok (f x))"
  by (cases m) (auto simp: bind_res_def is_ok_def)

lemma is_ok_iff: "is_ok m \<longleftrightarrow> (\<exists>x. m = Inr x)"
  by (cases m) (auto simp: is_ok_def)

lemma ensure_simps [simp]:
  "ensure True k msg = Inr ()"
  "ensure False k msg = raise k msg"
  "ensure b k msg = Inr u \<longleftrightarrow> b"
  by (auto simp: ensure_def)

lemma ensure_bind: "bind_res (ensure b k msg) f = (if b then f () else raise k msg)"
  by (simp add: ensure_def)

lemma bind_res_cong [fundef_cong]:
  "m = m' \<Longrightarrow> (\<And>x. m' = Inr x \<Longrightarrow> f x = g x) \<Longrightarrow> bind_res m f = bind_res m' g"
  by (cases m') (auto simp: bind_res_def)

text \<open>
  What a call that waits for its environment ends in: a value, an exception, or no end
  because the modelled environment has nothing more to say.
\<close>

datatype 'a outcome = Done 'a | Raised exn | Blocked

fun outcome_of :: "'a res \<Rightarrow> 'a outcome" where
  "outcome_of (Inl e) = Raised e"
| "outcome_of (Inr x) = Done x"

text \<open>\<open>for x in xs: ...\<close> collecting results, stopping at the first exception.\<close>

fun map_res :: "('a \<Rightarrow> 'b res) \<Rightarrow> 'a list \<Rightarrow> 'b list res" where
  "map_res f [] = Inr []"
| "map_res f (x # xs) = bind_res (f x) (\<lambda>y. bind_res (map_res f xs) (\<lambda>ys. Inr (y # ys)))"

lemma map_res_Inr: "(\<And>x. x \<in> set xs \<Longrightarrow> f x = Inr (g x)) \<Longrightarrow> map_res f xs = Inr (map g xs)"
  by (induction xs) auto

lemma map_res_InrD:
  "map_res f xs = Inr ys \<Longrightarrow> length ys = length xs \<and> (\<forall>i < length xs. f (xs ! i) = Inr (ys ! i))"
  by (induction xs arbitrary: ys) (auto simp: bind_res_eq_Inr less_Suc_eq_0_disj)

lemma map_res_set:
  "map_res f xs = Inr ys \<Longrightarrow> y \<in> set ys \<Longrightarrow> \<exists>x \<in> set xs. f x = Inr y"
  by (induction xs arbitrary: ys) (auto simp: bind_res_eq_Inr)

lemma map_res_cong [fundef_cong]:
  "xs = ys \<Longrightarrow> (\<And>x. x \<in> set ys \<Longrightarrow> f x = g x) \<Longrightarrow> map_res f xs = map_res g ys"
  by (induction ys arbitrary: xs) (auto intro: bind_res_cong)

section \<open>Lists\<close>

lemma prefix_same_length: "prefix xs ys \<Longrightarrow> length xs = length ys \<Longrightarrow> xs = ys"
  by (auto simp: prefix_def)

text \<open>A separator that does not occur in \<open>t\<close> cuts every occurrence of \<open>t\<close>.\<close>

lemma sublist_Cons_iff: "sublist t (c # ys) \<longleftrightarrow> prefix t (c # ys) \<or> sublist t ys"
  by (auto simp: sublist_Cons_right)

lemma prefix_sep: "b \<notin> set t \<Longrightarrow> prefix t (xs @ b # ys) \<Longrightarrow> prefix t xs"
proof (induction xs arbitrary: t)
  case Nil
  then show ?case by (cases t) auto
next
  case (Cons x xs)
  then show ?case by (cases t) auto
qed

lemma sublist_sep:
  assumes "b \<notin> set t"
  shows "sublist t (xs @ b # ys) \<longleftrightarrow> sublist t xs \<or> sublist t ys"
proof (induction xs)
  case Nil
  show ?case
    using assms by (cases t) (auto simp: sublist_Cons_iff)
next
  case (Cons x xs)
  have "prefix t (x # xs @ b # ys) \<Longrightarrow> prefix t (x # xs)"
    using prefix_sep [OF assms, of "x # xs" ys] by simp
  moreover have "prefix t (x # xs) \<Longrightarrow> prefix t (x # xs @ b # ys)"
    by (metis append_Cons prefix_prefix)
  ultimately show ?case
    using Cons.IH by (auto simp: sublist_Cons_iff)
qed

lemma takeWhile_dropWhile_sep:
  "c \<notin> set xs \<Longrightarrow> takeWhile (\<lambda>x. x \<noteq> c) (xs @ c # ys) = xs
    \<and> dropWhile (\<lambda>x. x \<noteq> c) (xs @ c # ys) = c # ys"
  by (induction xs) auto

lemma drop_suffix_set: "x \<in> set (drop n xs) \<Longrightarrow> x \<in> set xs"
  by (meson set_drop_subset subsetD)

end
