(* ===== verification/PyStr.thy ===== *)
theory PyStr
  imports Prelude "HOL-Library.Char_ord" "HOL-Library.List_Lexorder"
begin

text \<open>
  The operations of Python's \<open>str\<close> the program uses, on HOL's \<open>string\<close> (a list of
  8-bit characters, read as the code points 0 to 255). Case mapping and stripping are
  Python's on ASCII text; the other operations are Python's on every string of this type.
\<close>

section \<open>Characters\<close>

definition code :: "char \<Rightarrow> nat" where
  "code c = of_char c"

definition py_space :: "char \<Rightarrow> bool" where
  "py_space c = (code c \<in> {9, 10, 11, 12, 13, 28, 29, 30, 31, 32})"

definition is_digit :: "char \<Rightarrow> bool" where
  "is_digit c = (48 \<le> code c \<and> code c \<le> 57)"

definition is_alpha :: "char \<Rightarrow> bool" where
  "is_alpha c = (65 \<le> code c \<and> code c \<le> 90 \<or> 97 \<le> code c \<and> code c \<le> 122)"

definition is_alnum :: "char \<Rightarrow> bool" where
  "is_alnum c = (is_alpha c \<or> is_digit c)"

definition to_lower :: "char \<Rightarrow> char" where
  "to_lower c = (if 65 \<le> code c \<and> code c \<le> 90 then char_of (code c + 32) else c)"

definition to_upper :: "char \<Rightarrow> char" where
  "to_upper c = (if 97 \<le> code c \<and> code c \<le> 122 then char_of (code c - 32) else c)"

lemma code_lt: "code c < 256"
  by (simp add: code_def)

lemma code_char_of: "n < 256 \<Longrightarrow> code (char_of n) = n"
  by (simp add: code_def)

lemma code_to_lower:
  "code (to_lower c) = (if 65 \<le> code c \<and> code c \<le> 90 then code c + 32 else code c)"
  by (simp add: to_lower_def code_char_of)

lemma code_inj: "code c = code d \<longleftrightarrow> c = d"
  by (simp add: code_def)

lemma to_lower_idem [simp]: "to_lower (to_lower c) = to_lower c"
  by (simp add: code_inj [symmetric] code_to_lower)

section \<open>Whole strings\<close>

definition lower :: "string \<Rightarrow> string" where
  "lower s = map to_lower s"

definition upper :: "string \<Rightarrow> string" where
  "upper s = map to_upper s"

definition lstrip :: "string \<Rightarrow> string" where
  "lstrip s = dropWhile py_space s"

definition rstrip :: "string \<Rightarrow> string" where
  "rstrip s = rev (dropWhile py_space (rev s))"

definition strip :: "string \<Rightarrow> string" where
  "strip s = rstrip (lstrip s)"

lemma lower_idem [simp]: "lower (lower s) = lower s"
  by (simp add: lower_def comp_def)

lemma length_lower [simp]: "length (lower s) = length s"
  by (simp add: lower_def)

lemma to_upper_idem [simp]: "to_upper (to_upper c) = to_upper c"
proof -
  have "code (to_upper c) = (if 97 \<le> code c \<and> code c \<le> 122 then code c - 32 else code c)"
    using code_lt [of c] by (auto simp: to_upper_def code_char_of)
  then show ?thesis
    by (auto simp: to_upper_def [of "to_upper c"])
qed

lemma upper_idem [simp]: "upper (upper s) = upper s"
  by (simp add: upper_def comp_def)

lemma dropWhile_all_or_hd: "dropWhile P xs = [] \<or> \<not> P (hd (dropWhile P xs))"
  by (induction xs) auto

lemma lstrip_fix: "lstrip s = s \<longleftrightarrow> s = [] \<or> \<not> py_space (hd s)"
proof (cases s)
  case (Cons c cs)
  have "length (dropWhile py_space cs) \<le> length cs"
    by (rule length_dropWhile_le)
  then have "dropWhile py_space cs \<noteq> c # cs"
    by (metis length_Cons not_less_eq_eq order_refl)
  then show ?thesis
    by (auto simp: lstrip_def Cons)
qed (simp add: lstrip_def)

lemma rstrip_fix: "rstrip s = s \<longleftrightarrow> s = [] \<or> \<not> py_space (last s)"
proof -
  have "rstrip s = s \<longleftrightarrow> lstrip (rev s) = rev s"
    unfolding rstrip_def lstrip_def by (metis rev_rev_ident)
  then show ?thesis
    by (auto simp: lstrip_fix hd_rev)
qed

lemma rstrip_prefix: "prefix (rstrip s) s"
proof -
  have "suffix (dropWhile py_space (rev s)) (rev s)"
    by (rule suffix_dropWhile)
  then show ?thesis
    by (simp add: rstrip_def suffix_to_prefix)
qed

lemma strip_hd_last:
  "strip s = [] \<or> (\<not> py_space (hd (strip s)) \<and> \<not> py_space (last (strip s)))"
proof (cases "strip s = []")
  case False
  let ?l = "lstrip s"
  have ne: "?l \<noteq> []"
    using False by (auto simp: strip_def rstrip_def)
  then have hd: "\<not> py_space (hd ?l)"
    using dropWhile_all_or_hd [of py_space s] by (auto simp: lstrip_def)
  obtain r where r: "?l = strip s @ r"
    using rstrip_prefix [of ?l] by (auto simp: strip_def prefix_def)
  then have h: "hd (strip s) = hd ?l"
    using False by (metis hd_append2)
  have "dropWhile py_space (rev ?l) \<noteq> []"
    using False by (simp add: strip_def rstrip_def)
  then have "\<not> py_space (last (strip s))"
    using dropWhile_all_or_hd [of py_space "rev ?l"]
    unfolding strip_def rstrip_def last_rev by blast
  with h hd show ?thesis by simp
qed simp

lemma strip_idem [simp]: "strip (strip s) = strip s"
proof (cases "strip s = []")
  case True
  moreover have "strip [] = []" by (simp add: strip_def lstrip_def rstrip_def)
  ultimately show ?thesis by simp
next
  case False
  with strip_hd_last [of s] have "lstrip (strip s) = strip s" and "rstrip (strip s) = strip s"
    by (auto simp: lstrip_fix rstrip_fix)
  then show ?thesis by (simp add: strip_def)
qed

lemma strip_nonspace:
  assumes "s \<noteq> []" and "\<not> py_space (hd s)" and "\<not> py_space (last s)"
  shows "strip s = s"
proof -
  have "lstrip s = s" and "rstrip s = s"
    using assms by (auto simp: lstrip_fix rstrip_fix)
  then show ?thesis by (simp add: strip_def)
qed

lemma set_strip: "set (strip s) \<subseteq> set s"
  unfolding strip_def rstrip_def lstrip_def by (auto dest!: set_dropWhileD)

section \<open>Searching and splitting\<close>

text \<open>\<open>s.partition(c)\<close> without the separator: what stands before and after the first \<open>c\<close>.\<close>

definition before :: "char \<Rightarrow> string \<Rightarrow> string" where
  "before c s = takeWhile (\<lambda>x. x \<noteq> c) s"

definition after :: "char \<Rightarrow> string \<Rightarrow> string" where
  "after c s = tl (dropWhile (\<lambda>x. x \<noteq> c) s)"

text \<open>\<open>s.rpartition(c)[2]\<close>: what stands after the last \<open>c\<close>, all of \<open>s\<close> without one.\<close>

definition after_last :: "char \<Rightarrow> string \<Rightarrow> string" where
  "after_last c s = rev (takeWhile (\<lambda>x. x \<noteq> c) (rev s))"

fun split_on :: "char \<Rightarrow> string \<Rightarrow> string list" where
  "split_on c [] = [[]]"
| "split_on c (x # xs) =
     (if x = c then [] # split_on c xs
      else (case split_on c xs of [] \<Rightarrow> [[x]] | p # ps \<Rightarrow> (x # p) # ps))"

fun join :: "string \<Rightarrow> string list \<Rightarrow> string" where
  "join sep [] = []"
| "join sep [x] = x"
| "join sep (x # y # ys) = x @ sep @ join sep (y # ys)"

lemma split_on_nonempty [simp]: "split_on c s \<noteq> []"
  by (induction s) (auto split: list.splits)

lemma join_split_on: "join [c] (split_on c s) = s"
proof (induction s)
  case (Cons x xs)
  show ?case
  proof (cases "split_on c xs")
    case Nil
    then show ?thesis by simp
  next
    case (Cons p ps)
    with Cons.IH show ?thesis by (cases ps) auto
  qed
qed simp

text \<open>A name in single quotes, as the f-strings of the messages put it.\<close>

definition quoted :: "string \<Rightarrow> string" where
  "quoted s = [CHR 0x27] @ s @ [CHR 0x27]"

section \<open>Replacing\<close>

text \<open>
  \<open>s.replace(old, new)\<close> for a non-empty \<open>old\<close>: a left-to-right scan for
  non-overlapping occurrences. With an empty \<open>old\<close> Python inserts \<open>new\<close> around every
  character.
\<close>

fun replace_scan :: "string \<Rightarrow> string \<Rightarrow> string \<Rightarrow> string" where
  "replace_scan old new [] = []"
| "replace_scan old new (c # cs) =
     (if prefix old (c # cs) then new @ replace_scan old new (drop (length old - 1) cs)
      else c # replace_scan old new cs)"

definition replace :: "string \<Rightarrow> string \<Rightarrow> string \<Rightarrow> string" where
  "replace old new s =
     (if old = [] then concat (map (\<lambda>c. new @ [c]) s) @ new else replace_scan old new s)"

text \<open>
  A prefix of the result without the character that starts \<open>new\<close> was copied from the
  input.
\<close>

lemma prefix_replace_scan:
  "b \<notin> set p \<Longrightarrow> prefix p (replace_scan old (b # new) s) \<Longrightarrow> prefix p s"
proof (induction old "b # new" s arbitrary: p rule: replace_scan.induct)
  case (1 old)
  then show ?case by simp
next
  case (2 old c cs)
  show ?case
  proof (cases "prefix old (c # cs)")
    case True
    with 2 have "prefix p (b # new @ replace_scan old (b # new) (drop (length old - 1) cs))"
      by simp
    with "2.prems"(1) show ?thesis by (cases p) auto
  next
    case False
    with 2 show ?thesis by (cases p) auto
  qed
qed

text \<open>
  The occurrences of \<open>u\<close> after a replacement by a bracketed marker: only those the input
  has already, or the marker's inside. \<open>u\<close> itself contains no bracket.
\<close>

lemma sublist_replace_scan:
  assumes "b \<notin> set u" and "d \<notin> set u" and "u \<noteq> []" and "\<not> sublist u mid"
  shows "sublist u (replace_scan old (b # mid @ [d]) s) \<Longrightarrow> sublist u s"
proof (induction old "b # mid @ [d]" s rule: replace_scan.induct)
  case (1 old)
  with assms show ?case by simp
next
  case (2 old c cs)
  show ?case
  proof (cases "prefix old (c # cs)")
    case True
    let ?rest = "replace_scan old (b # mid @ [d]) (drop (length old - 1) cs)"
    have "sublist u (b # mid @ d # ?rest)"
      using 2 True by simp
    then have "sublist u (mid @ d # ?rest)"
      using sublist_sep [OF assms(1), of "[]" "mid @ d # ?rest"] assms(3) by simp
    then have "sublist u ?rest"
      using sublist_sep [OF assms(2), of mid ?rest] assms(4) by simp
    then have "sublist u (drop (length old - 1) cs)"
      using 2 True by simp
    then have "sublist u cs"
      by (meson sublist_drop sublist_order.order_trans)
    then show ?thesis by (auto simp: sublist_Cons_iff)
  next
    case False
    let ?rest = "replace_scan old (b # mid @ [d]) cs"
    have "prefix u (c # ?rest) \<or> sublist u ?rest"
      using 2 False by (simp add: sublist_Cons_iff)
    then show ?thesis
    proof
      assume "prefix u (c # ?rest)"
      then have "prefix u (replace_scan old (b # mid @ [d]) (c # cs))"
        using False by simp
      then show ?thesis
        using prefix_replace_scan [OF assms(1)] by blast
    next
      assume "sublist u ?rest"
      then show ?thesis
        using 2 False by (auto simp: sublist_Cons_iff)
    qed
  qed
qed

text \<open>And the replaced string itself is gone.\<close>

lemma replace_scan_removes:
  "\<lbrakk> b \<notin> set t; d \<notin> set t; t \<noteq> []; \<not> sublist t mid \<rbrakk>
    \<Longrightarrow> \<not> sublist t (replace_scan t (b # mid @ [d]) s)"
proof (induction t "b # mid @ [d]" s rule: replace_scan.induct)
  case (1 t)
  then show ?case by simp
next
  case (2 t c cs)
  show ?case
  proof (cases "prefix t (c # cs)")
    case True
    let ?rest = "replace_scan t (b # mid @ [d]) (drop (length t - 1) cs)"
    have "\<not> sublist t ?rest"
      using 2 True by simp
    then have "\<not> sublist t (mid @ d # ?rest)"
      using sublist_sep [OF "2.prems"(2)] "2.prems"(4) by simp
    then show ?thesis
      using sublist_sep [OF "2.prems"(1), of "[]" "mid @ d # ?rest"] "2.prems"(3) True by simp
  next
    case False
    let ?rest = "replace_scan t (b # mid @ [d]) cs"
    have "\<not> sublist t ?rest"
      using 2 False by simp
    moreover have "\<not> prefix t (c # ?rest)"
      using prefix_replace_scan [OF "2.prems"(1), of t "mid @ [d]" "c # cs"] False by auto
    ultimately show ?thesis
      using False by (simp add: sublist_Cons_iff)
  qed
qed

text \<open>
  A text that the replacement marker cannot hide: no bracket in it, and not a part of the
  word in the brackets. Replacing it removes it, and replacing anything by the marker does
  not bring it in.
\<close>

definition plain_token :: "string \<Rightarrow> bool" where
  "plain_token t = (t \<noteq> [] \<and> CHR ''['' \<notin> set t \<and> CHR '']'' \<notin> set t \<and> \<not> sublist t ''REDACTED'')"

lemma replace_removes: "plain_token t \<Longrightarrow> \<not> sublist t (replace t ''[REDACTED]'' s)"
  using replace_scan_removes [of "CHR ''[''" t "CHR '']''" "''REDACTED''" s]
  by (simp add: plain_token_def replace_def)

lemma replace_introduces_nothing:
  "plain_token u \<Longrightarrow> t \<noteq> [] \<Longrightarrow> sublist u (replace t ''[REDACTED]'' s) \<Longrightarrow> sublist u s"
  using sublist_replace_scan [of "CHR ''[''" u "CHR '']''" "''REDACTED''" t s]
  by (simp add: plain_token_def replace_def)

end
