(* ===== verification/PyVal.thy ===== *)
theory PyVal
  imports PyStr Complex_Main "HOL-Library.AList"
begin

text \<open>
  The dynamic values of the Python code: what \<open>json.loads\<close> and \<open>yaml.safe_load\<close>
  produce and what events, configurations, policies and payloads are made of
  (\<open>dict[str, Any]\<close> in the source). A dictionary is an association list in insertion
  order. A float is its exact value: rounding to binary is not modelled.
\<close>

section \<open>Values\<close>

datatype pyfloat = FFin rat | FInf | FNegInf | FNan

datatype pykey = KStr string | KInt int | KBool bool | KFloat pyfloat | KNone

datatype pyval =
    VNone
  | VBool bool
  | VInt int
  | VFloat pyfloat
  | VStr string
  | VList "pyval list"
  | VDict "(pykey \<times> pyval) list"

type_synonym pydict = "(pykey \<times> pyval) list"

text \<open>The size of a value under a key, for recursion over dictionaries.\<close>

lemma size_dict_value [termination_simp]:
  "(k, v) \<in> set d \<Longrightarrow> size v < Suc (size_list (size_prod size size) d)"
proof (induction d)
  case (Cons p d)
  then show ?case by (cases p) (auto simp: less_Suc_eq_le)
qed simp

lemma size_dict_snd [termination_simp]:
  "p \<in> set d \<Longrightarrow> size (snd p) < Suc (size_list (size_prod size size) d)"
  using size_dict_value [of "fst p" "snd p" d] by simp

text \<open>\<open>isinstance\<close> tests\<close>

fun is_VStr :: "pyval \<Rightarrow> bool" where
  "is_VStr (VStr _) = True" | "is_VStr _ = False"

fun is_VBool :: "pyval \<Rightarrow> bool" where
  "is_VBool (VBool _) = True" | "is_VBool _ = False"

fun is_VDict :: "pyval \<Rightarrow> bool" where
  "is_VDict (VDict _) = True" | "is_VDict _ = False"

fun is_VList :: "pyval \<Rightarrow> bool" where
  "is_VList (VList _) = True" | "is_VList _ = False"

text \<open>\<open>isinstance(v, int)\<close>: a bool is an int in Python.\<close>

fun is_int_instance :: "pyval \<Rightarrow> bool" where
  "is_int_instance (VInt _) = True"
| "is_int_instance (VBool _) = True"
| "is_int_instance _ = False"

text \<open>\<open>bool(v)\<close>\<close>

fun truthy :: "pyval \<Rightarrow> bool" where
  "truthy VNone = False"
| "truthy (VBool b) = b"
| "truthy (VInt n) = (n \<noteq> 0)"
| "truthy (VFloat f) = (f \<noteq> FFin 0)"
| "truthy (VStr s) = (s \<noteq> [])"
| "truthy (VList xs) = (xs \<noteq> [])"
| "truthy (VDict d) = (d \<noteq> [])"

section \<open>Dictionaries\<close>

definition dlookup :: "pydict \<Rightarrow> string \<Rightarrow> pyval option" where
  "dlookup d k = map_of d (KStr k)"

text \<open>\<open>d.get(k, default)\<close>, \<open>d.get(k)\<close>, \<open>k in d\<close>, \<open>d[k] = v\<close>, \<open>d.pop(k, None)\<close>,
  \<open>d.setdefault(k, v)\<close>, \<open>{**d, **e}\<close>\<close>

definition dget_or :: "pydict \<Rightarrow> string \<Rightarrow> pyval \<Rightarrow> pyval" where
  "dget_or d k dflt = (case dlookup d k of None \<Rightarrow> dflt | Some v \<Rightarrow> v)"

definition dget :: "pydict \<Rightarrow> string \<Rightarrow> pyval" where
  "dget d k = dget_or d k VNone"

definition dhas :: "pydict \<Rightarrow> string \<Rightarrow> bool" where
  "dhas d k = (dlookup d k \<noteq> None)"

definition dset :: "pydict \<Rightarrow> string \<Rightarrow> pyval \<Rightarrow> pydict" where
  "dset d k v = AList.update (KStr k) v d"

definition dpop :: "pydict \<Rightarrow> string \<Rightarrow> pydict" where
  "dpop d k = AList.delete (KStr k) d"

definition dsetdefault :: "pydict \<Rightarrow> string \<Rightarrow> pyval \<Rightarrow> pydict" where
  "dsetdefault d k v = (if dhas d k then d else dset d k v)"

definition dmerge :: "pydict \<Rightarrow> pydict \<Rightarrow> pydict" where
  "dmerge d e = foldl (\<lambda>acc (k, v). AList.update k v acc) d e"

text \<open>A dictionary literal with string keys.\<close>

definition dict_of :: "(string \<times> pyval) list \<Rightarrow> pydict" where
  "dict_of kvs = map (\<lambda>(k, v). (KStr k, v)) kvs"

text \<open>The dictionary behind a value; \<open>{}\<close> for any other value.\<close>

fun as_dict :: "pyval \<Rightarrow> pydict" where
  "as_dict (VDict d) = d" | "as_dict _ = []"

lemma dlookup_dset [simp, dict_simps]:
  "dlookup (dset d k v) k' = (if k' = k then Some v else dlookup d k')"
  by (simp add: dlookup_def dset_def update_conv')

lemma dlookup_dpop [simp, dict_simps]:
  "dlookup (dpop d k) k' = (if k' = k then None else dlookup d k')"
  by (simp add: dlookup_def dpop_def delete_conv')

lemma dlookup_dsetdefault [simp, dict_simps]:
  "dlookup (dsetdefault d k v) k' =
     (if k' = k \<and> dlookup d k = None then Some v else dlookup d k')"
  by (auto simp: dsetdefault_def dhas_def)

lemma dlookup_dict_of [simp, dict_simps]: "dlookup (dict_of kvs) k = map_of kvs k"
  by (induction kvs) (auto simp: dict_of_def dlookup_def)

lemma dlookup_Nil [simp, dict_simps]: "dlookup [] k = None"
  by (simp add: dlookup_def)

lemma dget_Nil [simp, dict_simps]: "dget [] k = VNone" "dget_or [] k v = v" "\<not> dhas [] k"
  by (simp_all add: dget_def dget_or_def dhas_def)

lemma dlookup_Cons [dict_simps]:
  "dlookup ((k', v) # d) k = (if k' = KStr k then Some v else dlookup d k)"
  by (simp add: dlookup_def)

lemma dget_dset [simp, dict_simps]: "dget (dset d k v) k' = (if k' = k then v else dget d k')"
  by (simp add: dget_def dget_or_def)

lemma dget_or_dset [simp, dict_simps]:
  "dget_or (dset d k v) k' x = (if k' = k then v else dget_or d k' x)"
  by (simp add: dget_or_def)

lemma dhas_dset [simp, dict_simps]: "dhas (dset d k v) k' \<longleftrightarrow> k' = k \<or> dhas d k'"
  by (simp add: dhas_def)

lemma dget_dpop [simp, dict_simps]: "dget (dpop d k) k' = (if k' = k then VNone else dget d k')"
  by (simp add: dget_def dget_or_def)

lemma dlookup_dmerge_other: "KStr k \<notin> fst ` set e \<Longrightarrow> dlookup (dmerge d e) k = dlookup d k"
  by (induction e arbitrary: d) (auto simp: dmerge_def dlookup_def update_conv')

lemma dget_dmerge_other: "KStr k \<notin> fst ` set e \<Longrightarrow> dget (dmerge d e) k = dget d k"
  by (simp add: dget_def dget_or_def dlookup_dmerge_other)

lemma dlookup_dmerge_distinct:
  "distinct (map fst e) \<Longrightarrow>
    dlookup (dmerge d e) k = (case dlookup e k of Some v \<Rightarrow> Some v | None \<Rightarrow> dlookup d k)"
proof (induction e arbitrary: d)
  case (Cons p e)
  obtain a v where p: "p = (a, v)" by (cases p)
  have step: "dmerge d (p # e) = dmerge (AList.update a v d) e"
    by (simp add: dmerge_def p)
  have "a = KStr k \<Longrightarrow> dlookup e k = None"
    using Cons.prems by (simp add: dlookup_def map_of_eq_None_iff p)
  then show ?case
    unfolding step using Cons.IH [of "AList.update a v d"] Cons.prems
    by (cases "dlookup e k") (auto simp: p dlookup_def update_conv' simp del: map_of_eq_Some_iff)
qed (simp add: dmerge_def)

lemma dget_dict_of [simp]:
  "dget (dict_of kvs) k = (case map_of kvs k of None \<Rightarrow> VNone | Some v \<Rightarrow> v)"
  "dget_or (dict_of kvs) k d = (case map_of kvs k of None \<Rightarrow> d | Some v \<Rightarrow> v)"
  by (simp_all add: dget_def dget_or_def dlookup_dict_of)

lemma dhas_dict_of [simp]: "dhas (dict_of kvs) k = (map_of kvs k \<noteq> None)"
  by (simp add: dhas_def dlookup_dict_of)

text \<open>Distinct keys are what a Python dictionary has by construction.\<close>

definition wf_dict :: "pydict \<Rightarrow> bool" where
  "wf_dict d = distinct (map fst d)"

lemma wf_dset [simp]: "wf_dict d \<Longrightarrow> wf_dict (dset d k v)"
  by (simp add: wf_dict_def dset_def distinct_update)

lemma wf_dpop [simp]: "wf_dict d \<Longrightarrow> wf_dict (dpop d k)"
  by (simp add: wf_dict_def dpop_def distinct_delete)

section \<open>Numbers as text\<close>

definition digit_char :: "nat \<Rightarrow> char" where
  "digit_char n = char_of (48 + n)"

fun nat_str :: "nat \<Rightarrow> string" where
  "nat_str n = (if n < 10 then [digit_char n] else nat_str (n div 10) @ [digit_char (n mod 10)])"

declare nat_str.simps [simp del]

definition int_str :: "int \<Rightarrow> string" where
  "int_str n = (if n < 0 then ''-'' @ nat_str (nat (- n)) else nat_str (nat n))"

definition digits_val :: "string \<Rightarrow> nat" where
  "digits_val s = foldl (\<lambda>a c. 10 * a + (code c - 48)) 0 s"

lemma code_digit_char: "n < 10 \<Longrightarrow> code (digit_char n) = 48 + n"
  by (simp add: digit_char_def code_char_of)

lemma is_digit_digit_char: "n < 10 \<Longrightarrow> is_digit (digit_char n)"
  by (simp add: is_digit_def code_digit_char)

lemma nat_str_digits: "c \<in> set (nat_str n) \<Longrightarrow> is_digit c"
proof (induction n rule: nat_str.induct)
  case (1 n)
  then show ?case
    by (subst (asm) nat_str.simps) (auto simp: is_digit_digit_char split: if_splits)
qed

lemma nat_str_nonempty [simp]: "nat_str n \<noteq> []"
  by (subst nat_str.simps) simp

lemma digits_val_nat_str: "digits_val (nat_str n) = n"
proof (induction n rule: nat_str.induct)
  case (1 n)
  show ?case
  proof (cases "n < 10")
    case True
    then show ?thesis by (simp add: nat_str.simps digits_val_def code_digit_char)
  next
    case False
    with 1 have "digits_val (nat_str (n div 10)) = n div 10" by simp
    with False show ?thesis
      by (subst nat_str.simps) (simp add: digits_val_def code_digit_char)
  qed
qed

text \<open>No leading zero, but for zero itself.\<close>

lemma nat_str_hd: "0 < n \<Longrightarrow> hd (nat_str n) \<noteq> CHR ''0''"
proof (induction n rule: nat_str.induct)
  case (1 n)
  show ?case
  proof (cases "n < 10")
    case True
    have "code (digit_char n) \<noteq> code (CHR ''0'')"
      using True "1.prems" by (simp add: code_digit_char) (simp add: code_def)
    then show ?thesis using True by (subst nat_str.simps) (auto simp: code_inj)
  next
    case False
    then have "hd (nat_str (n div 10)) \<noteq> CHR ''0''" using 1 by simp
    with False show ?thesis by (subst nat_str.simps) simp
  qed
qed

text \<open>
  \<open>float.__repr__\<close>: the shortest decimal, with an exponent from \<open>1e16\<close> up and below
  \<open>1e-4\<close>.
\<close>

fun ilog10 :: "nat \<Rightarrow> rat \<Rightarrow> int" where
  "ilog10 0 x = 0"
| "ilog10 (Suc n) x =
     (if x \<ge> 10 then 1 + ilog10 n (x / 10) else if x < 1 then ilog10 n (x * 10) - 1 else 0)"

definition scale10 :: "rat \<Rightarrow> int \<Rightarrow> rat" where
  "scale10 x k = (if k \<ge> 0 then x * 10 ^ nat k else x / 10 ^ nat (- k))"

fun short_digits :: "nat \<Rightarrow> nat \<Rightarrow> rat \<Rightarrow> int \<Rightarrow> nat" where
  "short_digits 0 n x k = nat (round (scale10 x (16 - k)))"
| "short_digits (Suc m) n x k =
     (let y = scale10 x (int n - 1 - k)
      in if of_int \<lfloor>y\<rfloor> = y then nat \<lfloor>y\<rfloor> else short_digits m (Suc n) x k)"

definition decimal_repr :: "rat \<Rightarrow> string" where
  "decimal_repr x =
     (let k = ilog10 400 x; ds = nat_str (short_digits 16 1 x k)
      in if - 4 \<le> k \<and> k < 16 then
           (if k < 0 then ''0.'' @ List.replicate (nat (- k - 1)) (CHR ''0'') @ ds
            else if int (length ds) \<le> k + 1
              then ds @ List.replicate (nat (k + 1) - length ds) (CHR ''0'') @ ''.0''
            else take (nat (k + 1)) ds @ ''.'' @ drop (nat (k + 1)) ds)
         else
           [hd ds] @ (if tl ds = [] then [] else ''.'' @ tl ds) @ ''e''
           @ (if k < 0 then ''-'' else ''+'')
           @ (let e = nat_str (nat \<bar>k\<bar>) in if length e < 2 then ''0'' @ e else e))"

fun float_repr :: "pyfloat \<Rightarrow> string" where
  "float_repr (FFin q) =
     (if q = 0 then ''0.0'' else if q < 0 then ''-'' @ decimal_repr (- q) else decimal_repr q)"
| "float_repr FInf = ''inf''"
| "float_repr FNegInf = ''-inf''"
| "float_repr FNan = ''nan''"

section \<open>Conversions\<close>

text \<open>
  \<open>int(text)\<close>: surrounding whitespace, a sign, digits with single underscores between
  them.
\<close>

fun digits_us :: "string \<Rightarrow> string option" where
  "digits_us [] = None"
| "digits_us [c] = (if is_digit c then Some [c] else None)"
| "digits_us (c # d # cs) =
     (if \<not> is_digit c then None
      else if d = CHR ''_'' then map_option ((#) c) (digits_us cs)
      else map_option ((#) c) (digits_us (d # cs)))"

definition int_of_str :: "string \<Rightarrow> int option" where
  "int_of_str s =
     (case strip s of
        [] \<Rightarrow> None
      | c # cs \<Rightarrow>
          if c = CHR ''-'' then map_option (\<lambda>ds. - int (digits_val ds)) (digits_us cs)
          else if c = CHR ''+'' then map_option (\<lambda>ds. int (digits_val ds)) (digits_us cs)
          else map_option (\<lambda>ds. int (digits_val ds)) (digits_us (c # cs)))"

definition trunc_rat :: "rat \<Rightarrow> int" where
  "trunc_rat q = (if q < 0 then \<lceil>q\<rceil> else \<lfloor>q\<rfloor>)"

text \<open>\<open>int(v)\<close>\<close>

fun py_int :: "pyval \<Rightarrow> int res" where
  "py_int (VInt n) = Inr n"
| "py_int (VBool b) = Inr (if b then 1 else 0)"
| "py_int (VFloat (FFin q)) = Inr (trunc_rat q)"
| "py_int (VFloat FNan) = raise ValueError ''cannot convert float NaN to integer''"
| "py_int (VFloat _) = raise OverflowError ''cannot convert float infinity to integer''"
| "py_int (VStr s) =
     (case int_of_str s of
        Some n \<Rightarrow> Inr n
      | None \<Rightarrow> raise ValueError ''invalid literal for int() with base 10'')"
| "py_int _ = raise TypeError ''int() argument must be a string or a real number''"

text \<open>
  \<open>try: int(v) except (TypeError, ValueError): None\<close>. The \<open>OverflowError\<close> of an
  infinite float is neither of the two and escapes.
\<close>

definition int_or_none :: "pyval \<Rightarrow> int option res" where
  "int_or_none v =
     (case py_int v of
        Inr n \<Rightarrow> Inr (Some n)
      | Inl (Exn k msg) \<Rightarrow>
          if k = TypeError \<or> k = ValueError then Inr None else Inl (Exn k msg))"

text \<open>\<open>float(text)\<close> and \<open>float(v)\<close>\<close>

definition split_exp :: "string \<Rightarrow> string \<times> string option" where
  "split_exp s =
     (let m = takeWhile (\<lambda>c. c \<noteq> CHR ''e'') s
      in (m, if m = s then None else Some (drop (Suc (length m)) s)))"

definition unsigned_decimal :: "string \<Rightarrow> rat option" where
  "unsigned_decimal s =
     (case split_exp s of (m, e) \<Rightarrow>
        let ip = before (CHR ''.'') m; fp = after (CHR ''.'') m;
            ev = (case e of None \<Rightarrow> Some 0 | Some t \<Rightarrow> int_of_str t);
            ds = ip @ fp
        in if (case e of None \<Rightarrow> False | Some t \<Rightarrow> strip t \<noteq> t) then None
           else (case ((if ip = [] then Some [] else digits_us ip),
                       (if fp = [] then Some [] else digits_us fp), ev) of
             (Some a, Some b, Some k) \<Rightarrow>
               if ds = [] then None
               else Some (scale10 (of_nat (digits_val (a @ b))) (k - int (length b)))
           | _ \<Rightarrow> None))"

definition float_of_str :: "string \<Rightarrow> pyfloat option" where
  "float_of_str s0 =
     (let s = lower (strip s0);
          neg = (s \<noteq> [] \<and> hd s = CHR ''-'');
          t = (if s \<noteq> [] \<and> (hd s = CHR ''-'' \<or> hd s = CHR ''+'') then tl s else s)
      in if t = ''inf'' \<or> t = ''infinity'' then Some (if neg then FNegInf else FInf)
         else if t = ''nan'' then Some FNan
         else map_option (\<lambda>q. FFin (if neg then - q else q)) (unsigned_decimal t))"

fun py_float :: "pyval \<Rightarrow> pyfloat res" where
  "py_float (VInt n) = Inr (FFin (of_int n))"
| "py_float (VBool b) = Inr (FFin (if b then 1 else 0))"
| "py_float (VFloat f) = Inr f"
| "py_float (VStr s) =
     (case float_of_str s of
        Some f \<Rightarrow> Inr f
      | None \<Rightarrow> raise ValueError ''could not convert string to float'')"
| "py_float _ = raise TypeError ''float() argument must be a string or a real number''"

text \<open>\<open>f <= 0\<close> for a float; every comparison with NaN is false.\<close>

fun float_le_zero :: "pyfloat \<Rightarrow> bool" where
  "float_le_zero (FFin q) = (q \<le> 0)"
| "float_le_zero FNegInf = True"
| "float_le_zero _ = False"

section \<open>\<open>repr\<close> and \<open>str\<close>\<close>

definition hex_digit :: "nat \<Rightarrow> char" where
  "hex_digit n = (if n < 10 then char_of (48 + n) else char_of (87 + n))"

definition hex2 :: "nat \<Rightarrow> string" where
  "hex2 n = [hex_digit (n div 16), hex_digit (n mod 16)]"

definition repr_char :: "char \<Rightarrow> char \<Rightarrow> string" where
  "repr_char q c =
     (if c = q \<or> code c = 92 then [char_of (92::nat), c]
      else if code c = 9 then [char_of (92::nat), CHR ''t'']
      else if code c = 10 then [char_of (92::nat), CHR ''n'']
      else if code c = 13 then [char_of (92::nat), CHR ''r'']
      else if code c < 32 \<or> (127 \<le> code c \<and> code c \<le> 160) \<or> code c = 173
        then [char_of (92::nat), CHR ''x''] @ hex2 (code c)
      else [c])"

definition repr_str :: "string \<Rightarrow> string" where
  "repr_str s =
     (let q = (if char_of (39::nat) \<in> set s \<and> CHR 0x22 \<notin> set s then CHR 0x22 else char_of (39::nat))
      in [q] @ concat (map (repr_char q) s) @ [q])"

fun repr_key :: "pykey \<Rightarrow> string" where
  "repr_key (KStr s) = repr_str s"
| "repr_key (KInt n) = int_str n"
| "repr_key (KBool b) = (if b then ''True'' else ''False'')"
| "repr_key (KFloat f) = float_repr f"
| "repr_key KNone = ''None''"

fun py_repr :: "pyval \<Rightarrow> string" where
  "py_repr VNone = ''None''"
| "py_repr (VBool b) = (if b then ''True'' else ''False'')"
| "py_repr (VInt n) = int_str n"
| "py_repr (VFloat f) = float_repr f"
| "py_repr (VStr s) = repr_str s"
| "py_repr (VList xs) = ''['' @ join '', '' (map py_repr xs) @ '']''"
| "py_repr (VDict d) =
     ''{'' @ join '', '' (map (\<lambda>p. repr_key (fst p) @ '': '' @ py_repr (snd p)) d) @ ''}''"

fun py_str :: "pyval \<Rightarrow> string" where
  "py_str (VStr s) = s"
| "py_str v = py_repr v"

section \<open>Every string of a value\<close>

text \<open>The string values and the string keys of a value, at every depth.\<close>

fun key_strings :: "pykey \<Rightarrow> string list" where
  "key_strings (KStr s) = [s]" | "key_strings _ = []"

fun val_strings :: "pyval \<Rightarrow> string list" where
  "val_strings (VStr s) = [s]"
| "val_strings (VList xs) = concat (map val_strings xs)"
| "val_strings (VDict d) = concat (map (\<lambda>p. key_strings (fst p) @ val_strings (snd p)) d)"
| "val_strings _ = []"

text \<open>The values JSON text can carry exactly: string keys, distinct, and no floats.\<close>

fun key_is_str :: "pykey \<Rightarrow> bool" where
  "key_is_str (KStr _) = True" | "key_is_str _ = False"

fun json_exact :: "pyval \<Rightarrow> bool" where
  "json_exact (VFloat _) = False"
| "json_exact (VList xs) = list_all json_exact xs"
| "json_exact (VDict d) =
     (distinct (map fst d) \<and> list_all (\<lambda>p. key_is_str (fst p) \<and> json_exact (snd p)) d)"
| "json_exact _ = True"

end
