(* ===== verification/PyJson.thy ===== *)
theory PyJson
  imports PyVal
begin

text \<open>
  \<open>json.dumps\<close> and \<open>json.loads\<close> as the program uses them, and the proof that parsing
  undoes printing. The printer escapes as \<open>ensure_ascii=True\<close> does. The parser follows
  CPython's scanner; an escape above \<open>\u00ff\<close> has no character in the model's strings
  and is reported apart from Python's own error.
\<close>

section \<open>Printing\<close>

abbreviation quote :: char where "quote \<equiv> CHR 0x22"
abbreviation backslash :: char where "backslash \<equiv> CHR 0x5C"
abbreviation newline :: char where "newline \<equiv> CHR 0x0A"

definition json_escape_char :: "char \<Rightarrow> string" where
  "json_escape_char c =
     (if c = quote then [backslash, quote]
      else if c = backslash then [backslash, backslash]
      else if c = newline then [backslash, CHR ''n'']
      else if c = CHR 0x0D then [backslash, CHR ''r'']
      else if c = CHR 0x09 then [backslash, CHR ''t'']
      else if c = CHR 0x0C then [backslash, CHR ''f'']
      else if c = CHR 0x08 then [backslash, CHR ''b'']
      else if 32 \<le> code c \<and> code c \<le> 126 then [c]
      else [backslash, CHR ''u'', CHR ''0'', CHR ''0''] @ hex2 (code c))"

definition json_string :: "string \<Rightarrow> string" where
  "json_string s = [quote] @ concat (map json_escape_char s) @ [quote]"

fun json_float :: "pyfloat \<Rightarrow> string" where
  "json_float FInf = ''Infinity''"
| "json_float FNegInf = ''-Infinity''"
| "json_float FNan = ''NaN''"
| "json_float f = float_repr f"

fun json_key :: "pykey \<Rightarrow> string" where
  "json_key (KStr s) = s"
| "json_key (KInt n) = int_str n"
| "json_key (KBool b) = (if b then ''true'' else ''false'')"
| "json_key (KFloat f) = json_float f"
| "json_key KNone = ''null''"

text \<open>The separators are \<open>json.dumps(..., separators=(item, key))\<close>.\<close>

fun json_text :: "string \<Rightarrow> string \<Rightarrow> pyval \<Rightarrow> string" where
  "json_text i k VNone = ''null''"
| "json_text i k (VBool b) = (if b then ''true'' else ''false'')"
| "json_text i k (VInt n) = int_str n"
| "json_text i k (VFloat f) = json_float f"
| "json_text i k (VStr s) = json_string s"
| "json_text i k (VList xs) = ''['' @ join i (map (json_text i k) xs) @ '']''"
| "json_text i k (VDict d) =
     ''{'' @ join i (map (\<lambda>p. json_string (json_key (fst p)) @ k @ json_text i k (snd p)) d) @ ''}''"

definition dumps_compact :: "pyval \<Rightarrow> string" where
  "dumps_compact = json_text '','' '':''"

definition dumps_default :: "pyval \<Rightarrow> string" where
  "dumps_default = json_text '', '' '': ''"

section \<open>Parsing\<close>

definition json_err :: "'a res" where
  "json_err = raise JSONDecodeError ''Invalid JSON''"

definition outside_err :: "'a res" where
  "outside_err = raise (OtherException ''outside the model'') ''character above U+00FF''"

definition fuel_err :: "'a res" where
  "fuel_err = raise (OtherException ''fuel'') ''parser fuel''"

definition skip_ws :: "string \<Rightarrow> string" where
  "skip_ws s = dropWhile (\<lambda>c. c \<in> {CHR 0x20, CHR 0x09, newline, CHR 0x0D}) s"

definition hex_val :: "char \<Rightarrow> nat option" where
  "hex_val c =
     (if is_digit c then Some (code c - 48)
      else if 97 \<le> code c \<and> code c \<le> 102 then Some (code c - 87)
      else if 65 \<le> code c \<and> code c \<le> 70 then Some (code c - 55)
      else None)"

definition unescape :: "char \<Rightarrow> char option" where
  "unescape e =
     (if e = quote \<or> e = backslash \<or> e = CHR ''/'' then Some e
      else if e = CHR ''b'' then Some (CHR 0x08)
      else if e = CHR ''f'' then Some (CHR 0x0C)
      else if e = CHR ''n'' then Some newline
      else if e = CHR ''r'' then Some (CHR 0x0D)
      else if e = CHR ''t'' then Some (CHR 0x09)
      else None)"

definition cons_fst :: "'a \<Rightarrow> ('a list \<times> 'b) res \<Rightarrow> ('a list \<times> 'b) res" where
  "cons_fst x m = bind_res m (\<lambda>(xs, r). Inr (x # xs, r))"

lemma cons_fst_Inr [simp]: "cons_fst x (Inr (xs, r)) = Inr (x # xs, r)"
  by (simp add: cons_fst_def)

text \<open>The rest of a string literal, after its opening quote.\<close>

fun parse_string :: "string \<Rightarrow> (string \<times> string) res" where
  "parse_string [] = json_err"
| "parse_string (c # cs) =
     (if c = quote then Inr ([], cs)
      else if c = backslash then
        (case cs of
           [] \<Rightarrow> json_err
         | e # r \<Rightarrow>
             if e = CHR ''u'' then
               (case r of
                  a # b # x # y # r' \<Rightarrow>
                    (case (hex_val a, hex_val b, hex_val x, hex_val y) of
                       (Some h3, Some h2, Some h1, Some h0) \<Rightarrow>
                         if h3 = 0 \<and> h2 = 0
                         then cons_fst (char_of (16 * h1 + h0)) (parse_string r')
                         else outside_err
                     | _ \<Rightarrow> json_err)
                | _ \<Rightarrow> json_err)
             else
               (case unescape e of
                  Some x \<Rightarrow> cons_fst x (parse_string r)
                | None \<Rightarrow> json_err))
      else if code c < 32 then json_err
      else cons_fst c (parse_string cs))"

definition frac_part :: "string \<Rightarrow> string" where
  "frac_part s =
     (case s of
        d # r \<Rightarrow> if d = CHR ''.'' \<and> takeWhile is_digit r \<noteq> [] then d # takeWhile is_digit r else []
      | [] \<Rightarrow> [])"

definition exp_part :: "string \<Rightarrow> string" where
  "exp_part s =
     (case s of
        d # r \<Rightarrow>
          (let sg = (case r of x # _ \<Rightarrow> if x = CHR ''-'' \<or> x = CHR ''+'' then [x] else [] | [] \<Rightarrow> []);
               ds = takeWhile is_digit (drop (length sg) r)
           in if (d = CHR ''e'' \<or> d = CHR ''E'') \<and> ds \<noteq> [] then d # sg @ ds else [])
      | [] \<Rightarrow> [])"

text \<open>The integer part of a number, and what follows it.\<close>

definition int_part :: "string \<Rightarrow> string" where
  "int_part t = (if hd t = CHR ''0'' then [hd t] else takeWhile is_digit t)"

definition number_tail :: "bool \<Rightarrow> string \<Rightarrow> string \<Rightarrow> (pyval \<times> string) res" where
  "number_tail neg ip r1 =
     (let fp = frac_part r1; r2 = drop (length fp) r1;
          ep = exp_part r2; r3 = drop (length ep) r2;
          m = (if neg then ''-'' else []) @ ip @ fp @ ep
      in if fp = [] \<and> ep = []
         then Inr (VInt (if neg then - int (digits_val ip) else int (digits_val ip)), r3)
         else (case float_of_str m of Some f \<Rightarrow> Inr (VFloat f, r3) | None \<Rightarrow> json_err))"

definition parse_number :: "string \<Rightarrow> (pyval \<times> string) res" where
  "parse_number s =
     (let neg = (s \<noteq> [] \<and> hd s = CHR ''-''); t = (if neg then tl s else s)
      in if neg \<and> prefix ''Infinity'' t then Inr (VFloat FNegInf, drop 8 t)
         else if t = [] \<or> \<not> is_digit (hd t) then json_err
         else number_tail neg (int_part t) (drop (length (int_part t)) t))"

text \<open>A later duplicate of a key replaces the value in place, as a dictionary does.\<close>

fun parse_value :: "nat \<Rightarrow> string \<Rightarrow> (pyval \<times> string) res"
  and parse_elems :: "nat \<Rightarrow> string \<Rightarrow> (pyval list \<times> string) res"
  and parse_members :: "nat \<Rightarrow> string \<Rightarrow> (pydict \<times> string) res" where
  "parse_value 0 s = fuel_err"
| "parse_value (Suc n) s =
     (if s = [] then json_err
      else if hd s = quote then
        bind_res (parse_string (tl s)) (\<lambda>(x, r). Inr (VStr x, r))
      else if hd s = CHR ''{'' then
        (let t = skip_ws (tl s)
         in if t \<noteq> [] \<and> hd t = CHR ''}'' then Inr (VDict [], tl t)
            else bind_res (parse_members n t)
              (\<lambda>(d, r). Inr (VDict (foldl (\<lambda>acc (k, v). AList.update k v acc) [] d), r)))
      else if hd s = CHR ''['' then
        (let t = skip_ws (tl s)
         in if t \<noteq> [] \<and> hd t = CHR '']'' then Inr (VList [], tl t)
            else bind_res (parse_elems n t) (\<lambda>(xs, r). Inr (VList xs, r)))
      else if prefix ''null'' s then Inr (VNone, drop 4 s)
      else if prefix ''true'' s then Inr (VBool True, drop 4 s)
      else if prefix ''false'' s then Inr (VBool False, drop 5 s)
      else if prefix ''NaN'' s then Inr (VFloat FNan, drop 3 s)
      else if prefix ''Infinity'' s then Inr (VFloat FInf, drop 8 s)
      else parse_number s)"
| "parse_elems 0 s = fuel_err"
| "parse_elems (Suc n) s =
     bind_res (parse_value n s) (\<lambda>(v, r).
       let t = skip_ws r
       in if t = [] then json_err
          else if hd t = CHR '']'' then Inr ([v], tl t)
          else if hd t = CHR '','' then cons_fst v (parse_elems n (skip_ws (tl t)))
          else json_err)"
| "parse_members 0 s = fuel_err"
| "parse_members (Suc n) s =
     (if s = [] \<or> hd s \<noteq> quote then json_err
      else bind_res (parse_string (tl s)) (\<lambda>(k, r).
        let t = skip_ws r
        in if t = [] \<or> hd t \<noteq> CHR '':'' then json_err
           else bind_res (parse_value n (skip_ws (tl t))) (\<lambda>(v, r').
             let t' = skip_ws r'
             in if t' = [] then json_err
                else if hd t' = CHR ''}'' then Inr ([(KStr k, v)], tl t')
                else if hd t' = CHR '','' then
                  cons_fst (KStr k, v) (parse_members n (skip_ws (tl t')))
                else json_err)))"

definition json_loads :: "string \<Rightarrow> pyval res" where
  "json_loads s =
     bind_res (parse_value (2 * length s + 2) (skip_ws s)) (\<lambda>(v, r).
       if skip_ws r = [] then Inr v else json_err)"

declare parse_value.simps [simp del] parse_elems.simps [simp del] parse_members.simps [simp del]

section \<open>Strings survive\<close>

lemma code_eq_iff: "c = d \<longleftrightarrow> code c = code d"
  by (simp add: code_inj)

lemma code_quote [simp]: "code quote = 34" and code_backslash [simp]: "code backslash = 92"
  and code_newline [simp]: "code newline = 10"
  by (simp_all add: code_def)

lemma hex_val_digit: "n < 16 \<Longrightarrow> hex_val (hex_digit n) = Some n"
  by (auto simp: hex_val_def hex_digit_def is_digit_def code_char_of)

lemma hex_digit_printable: "n < 16 \<Longrightarrow> 48 \<le> code (hex_digit n) \<and> code (hex_digit n) \<le> 102"
  by (auto simp: hex_digit_def code_char_of)

lemma char_of_code: "char_of (code c) = c"
  by (simp add: code_def)

lemma parse_escaped_char:
  "parse_string (json_escape_char c @ s) = cons_fst c (parse_string s)"
proof -
  have h: "hex_val (hex_digit (code c div 16)) = Some (code c div 16)"
          "hex_val (hex_digit (code c mod 16)) = Some (code c mod 16)"
    using code_lt [of c] by (simp_all add: hex_val_digit)
  have z: "hex_val (CHR ''0'') = Some 0"
    by (simp add: hex_val_def is_digit_def code_def)
  have u: "char_of (16 * (code c div 16) + code c mod 16) = c"
    by (simp add: char_of_code)
  have lit: "\<And>d e. unescape e = Some d \<Longrightarrow> e \<noteq> CHR ''u'' \<Longrightarrow>
      parse_string (backslash # e # s) = cons_fst d (parse_string s)"
    by simp
  consider "c = quote" | "c = backslash" | "c = newline" | "c = CHR 0x0D" | "c = CHR 0x09"
    | "c = CHR 0x0C" | "c = CHR 0x08"
    | "c \<notin> {quote, backslash, newline, CHR 0x0D, CHR 0x09, CHR 0x0C, CHR 0x08}" by blast
  then show ?thesis
  proof cases
    case 8
    then show ?thesis
      using h z u by (auto simp: json_escape_char_def hex2_def)
  qed (simp_all add: json_escape_char_def unescape_def)
qed

lemma parse_json_string: "parse_string (tl (json_string s) @ r) = Inr (s, r)"
proof (induction s)
  case Nil
  show ?case by (simp add: json_string_def)
next
  case (Cons c s)
  have "parse_string (json_escape_char c @ tl (json_string s) @ r) = Inr (c # s, r)"
    unfolding parse_escaped_char Cons.IH by simp
  then show ?case by (simp add: json_string_def)
qed

lemma json_string_hd [simp]: "json_string s \<noteq> []" "hd (json_string s) = quote"
  by (simp_all add: json_string_def)

text \<open>Every printed character is printable ASCII: no newline, no control character.\<close>

definition printable :: "char \<Rightarrow> bool" where
  "printable c = (32 \<le> code c \<and> code c \<le> 126)"

lemma json_escape_printable: "x \<in> set (json_escape_char c) \<Longrightarrow> printable x"
proof -
  have n16: "code c div 16 < 16" "code c mod 16 < 16"
    using code_lt [of c] by auto
  assume "x \<in> set (json_escape_char c)"
  then show ?thesis
    using hex_digit_printable [OF n16(1)] hex_digit_printable [OF n16(2)]
    by (auto simp: json_escape_char_def printable_def hex2_def code_def split: if_splits)
qed

lemma json_string_printable: "x \<in> set (json_string s) \<Longrightarrow> printable x"
  by (auto simp: json_string_def dest: json_escape_printable) (simp_all add: printable_def)

section \<open>Numbers survive\<close>

text \<open>What may follow a printed value inside a text: a separator or the end.\<close>

definition delim :: "string \<Rightarrow> bool" where
  "delim r = (r = [] \<or> hd r \<in> {CHR '','', CHR '']'', CHR ''}'', newline})"

lemma delim_not_digit: "delim r \<Longrightarrow> takeWhile is_digit (ds @ r) = takeWhile is_digit ds"
  by (induction ds; cases r) (auto simp: delim_def is_digit_def code_def)

lemma delim_no_frac: "delim r \<Longrightarrow> frac_part r = [] \<and> exp_part r = []"
  by (cases r) (auto simp: delim_def frac_part_def exp_part_def Let_def)

lemma takeWhile_nat_str: "takeWhile is_digit (nat_str n) = nat_str n"
  by (auto simp: takeWhile_eq_all_conv dest: nat_str_digits)

lemma nat_str_0: "nat_str 0 = ''0''"
proof -
  have "code (digit_char 0) = code (CHR ''0'')"
    by (simp add: code_digit_char) (simp add: code_def)
  then have "digit_char 0 = CHR ''0''" by (simp only: code_inj)
  then show ?thesis by (simp add: nat_str.simps)
qed

lemma digits_val_0: "digits_val ''0'' = 0"
  by (simp add: digits_val_def code_def)

lemma int_part_nat_str: "delim r \<Longrightarrow> int_part (nat_str n @ r) = nat_str n"
proof (cases "n = 0")
  case True
  then show ?thesis by (simp add: nat_str_0 int_part_def)
next
  case False
  assume "delim r"
  from False have "hd (nat_str n) \<noteq> CHR ''0''" by (simp add: nat_str_hd)
  with \<open>delim r\<close> show ?thesis
    by (simp add: int_part_def delim_not_digit takeWhile_nat_str)
qed

lemma number_tail_int:
  "delim r \<Longrightarrow> number_tail neg (nat_str n) r = Inr (VInt (if neg then - int n else int n), r)"
  using delim_no_frac [of r] by (simp add: number_tail_def digits_val_nat_str)

lemma hd_nat_str: "is_digit (hd (nat_str n))"
  by (rule nat_str_digits [OF hd_in_set [OF nat_str_nonempty]])

lemma parse_number_nat:
  assumes "delim r"
  shows "parse_number (nat_str n @ r) = Inr (VInt (int n), r)"
    and "parse_number (CHR ''-'' # nat_str n @ r) = Inr (VInt (- int n), r)"
proof -
  have m: "hd (nat_str n) \<noteq> CHR ''-''" "hd (nat_str n) \<noteq> CHR ''I''"
    using hd_nat_str [of n] by (auto simp: is_digit_def code_def)
  have "\<not> prefix ''Infinity'' (nat_str n @ r)"
    using m(2) nat_str_nonempty [of n] by (cases "nat_str n") auto
  then show "parse_number (nat_str n @ r) = Inr (VInt (int n), r)"
    and "parse_number (CHR ''-'' # nat_str n @ r) = Inr (VInt (- int n), r)"
    using m hd_nat_str [of n]
    by (simp_all add: parse_number_def Let_def int_part_nat_str [OF assms] number_tail_int [OF assms])
qed

lemma int_str_hd:
  "int_str n \<noteq> []" "hd (int_str n) = CHR ''-'' \<or> is_digit (hd (int_str n))"
  using nat_str_digits [of "hd (nat_str (nat n))" "nat n"]
  by (auto simp: int_str_def)

lemma parse_int_str: "delim r \<Longrightarrow> parse_number (int_str n @ r) = Inr (VInt n, r)"
  using parse_number_nat [of r "nat n"] parse_number_nat [of r "nat (- n)"]
  by (auto simp: int_str_def)

section \<open>Values survive\<close>

text \<open>The first character of a printed value selects the parser's branch.\<close>

lemma json_text_hd:
  "json_exact v \<Longrightarrow> json_text i k v \<noteq> []
    \<and> hd (json_text i k v) \<notin> {CHR 0x20, CHR 0x09, newline, CHR 0x0D, CHR '']'', CHR ''}''}"
proof (cases v)
  case (VInt n)
  have "is_digit (hd (int_str n)) \<or> hd (int_str n) = CHR ''-''"
    using int_str_hd [of n] by auto
  then show ?thesis
    using VInt int_str_hd(1) [of n] by (auto simp: is_digit_def code_def)
qed (auto simp: json_string_def)

lemma skip_ws_dumps [simp]: "json_exact v \<Longrightarrow> skip_ws (json_text i k v @ r) = json_text i k v @ r"
  using json_text_hd [of v i k] by (cases "json_text i k v") (auto simp: skip_ws_def)

lemma skip_ws_nonspace [simp]:
  "c \<notin> {CHR 0x20, CHR 0x09, newline, CHR 0x0D} \<Longrightarrow> skip_ws (c # r) = c # r"
  by (simp add: skip_ws_def)

lemma skip_ws_Nil [simp]: "skip_ws [] = []"
  by (simp add: skip_ws_def)

lemma skip_ws_json_string [simp]: "skip_ws (json_string s @ r) = json_string s @ r"
  by (simp add: json_string_def)

lemma update_fresh: "k \<notin> fst ` set d \<Longrightarrow> AList.update k v d = d @ [(k, v)]"
  by (induction d) auto

lemma foldl_update_distinct:
  "distinct (map fst (acc @ d)) \<Longrightarrow> foldl (\<lambda>acc (k, v). AList.update k v acc) acc d = acc @ d"
proof (induction d arbitrary: acc)
  case (Cons p d)
  then show ?case by (cases p) (auto simp: update_fresh)
qed simp

definition reparses :: "pyval \<Rightarrow> bool" where
  "reparses v = (\<forall>r fuel. delim r \<longrightarrow> 2 * length (dumps_compact v) \<le> fuel \<longrightarrow>
     parse_value fuel (dumps_compact v @ r) = Inr (v, r))"

lemma reparsesD:
  "reparses v \<Longrightarrow> delim r \<Longrightarrow> 2 * length (dumps_compact v) \<le> fuel \<Longrightarrow>
    parse_value fuel (dumps_compact v @ r) = Inr (v, r)"
  by (simp add: reparses_def)

lemma delim_simps [simp]:
  "delim (CHR '','' # r)" "delim (CHR '']'' # r)" "delim (CHR ''}'' # r)" "delim []"
  "delim (newline # r)"
  by (simp_all add: delim_def)

lemma parse_elems_dumps:
  assumes "xs \<noteq> []" and "list_all json_exact xs" and "\<And>x. x \<in> set xs \<Longrightarrow> reparses x"
    and "2 * length (join '','' (map dumps_compact xs)) + 2 \<le> fuel"
  shows "parse_elems fuel (join '','' (map dumps_compact xs) @ CHR '']'' # r) = Inr (xs, r)"
  using assms
proof (induction xs arbitrary: fuel)
  case (Cons x xs)
  obtain n where n: "fuel = Suc n" using Cons.prems(4) by (cases fuel) auto
  have x: "reparses x" "json_exact x" using Cons.prems by auto
  show ?case
  proof (cases xs)
    case Nil
    then have "parse_value n (dumps_compact x @ CHR '']'' # r) = Inr (x, CHR '']'' # r)"
      using Cons.prems(4) n by (intro reparsesD [OF x(1)]) auto
    with Nil n show ?thesis by (simp add: parse_elems.simps)
  next
    case (Cons y ys)
    let ?rest = "join '','' (map dumps_compact xs) @ CHR '']'' # r"
    have v: "parse_value n (dumps_compact x @ CHR '','' # ?rest) = Inr (x, CHR '','' # ?rest)"
      using Cons.prems(4) n Cons by (intro reparsesD [OF x(1)]) auto
    have e: "parse_elems n ?rest = Inr (xs, r)"
      using Cons.IH [of n] Cons.prems Cons n by simp
    have "skip_ws ?rest = ?rest"
      using Cons Cons.prems(2) skip_ws_dumps [of y "'',''" "'':''"]
      by (cases ys) (auto simp: dumps_compact_def)
    with v e n Cons show ?thesis by (simp add: parse_elems.simps)
  qed
qed simp

definition member_text :: "pykey \<times> pyval \<Rightarrow> string" where
  "member_text p = json_string (json_key (fst p)) @ '':'' @ dumps_compact (snd p)"

lemma parse_member:
  assumes "reparses v" and "json_exact v" and "delim r"
    and "2 * length (dumps_compact v) \<le> n" and "r \<noteq> []" and "hd r \<noteq> newline"
  shows "parse_members (Suc n) (member_text (KStr k, v) @ r) =
    (if hd r = CHR ''}'' then Inr ([(KStr k, v)], tl r)
     else if hd r = CHR '','' then cons_fst (KStr k, v) (parse_members n (skip_ws (tl r)))
     else json_err)"
proof -
  have k: "parse_string (tl (json_string k @ CHR '':'' # dumps_compact v @ r))
      = Inr (k, CHR '':'' # dumps_compact v @ r)"
    using parse_json_string [of k "CHR '':'' # dumps_compact v @ r"] by simp
  have v: "parse_value n (dumps_compact v @ r) = Inr (v, r)"
    by (rule reparsesD [OF assms(1,3,4)])
  have w: "skip_ws (dumps_compact v @ r) = dumps_compact v @ r"
    using assms(2) by (simp add: dumps_compact_def)
  have d: "skip_ws r = r"
    using assms(3,5,6) by (cases r) (auto simp: delim_def)
  show ?thesis
    using k v w d assms(5) by (simp add: parse_members.simps member_text_def)
qed

lemma parse_members_dumps:
  assumes "d \<noteq> []" and "\<And>p. p \<in> set d \<Longrightarrow> key_is_str (fst p) \<and> json_exact (snd p) \<and> reparses (snd p)"
    and "2 * length (join '','' (map member_text d)) + 2 \<le> fuel"
  shows "parse_members fuel (join '','' (map member_text d) @ CHR ''}'' # r) = Inr (d, r)"
  using assms
proof (induction d arbitrary: fuel)
  case (Cons p d)
  obtain n where n: "fuel = Suc n" using Cons.prems(3) by (cases fuel) auto
  obtain k v where p: "p = (KStr k, v)" and v: "reparses v" "json_exact v"
    using Cons.prems(2) [of p] by (cases p; cases "fst p") auto
  show ?case
  proof (cases d)
    case Nil
    then show ?thesis
      using parse_member [OF v, of "CHR ''}'' # r" n k] Cons.prems(3) n p
      by (simp add: member_text_def)
  next
    case (Cons q qs)
    let ?rest = "join '','' (map member_text d) @ CHR ''}'' # r"
    have e: "parse_members n ?rest = Inr (d, r)"
      using Cons.IH [of n] Cons.prems Cons n by simp
    have "skip_ws ?rest = ?rest"
      using Cons by (cases qs) (simp_all add: member_text_def)
    then show ?thesis
      using parse_member [OF v, of "CHR '','' # ?rest" n k] Cons.prems(3) n p e Cons
      by (simp add: member_text_def [of "(KStr k, v)"])
  qed
qed simp

lemma dumps_compact_VList:
  "dumps_compact (VList xs) = CHR ''['' # join '','' (map dumps_compact xs) @ '']''"
  by (simp add: dumps_compact_def)

lemma dumps_compact_VDict:
  "dumps_compact (VDict d) = CHR ''{'' # join '','' (map member_text d) @ ''}''"
  by (simp add: dumps_compact_def member_text_def [abs_def])

lemma prefix_append_same [simp]: "prefix xs (xs @ ys)"
  by simp

lemma reparsesI:
  assumes "dumps_compact v \<noteq> []"
    and "\<And>r n. delim r \<Longrightarrow> 2 * length (dumps_compact v) \<le> Suc n \<Longrightarrow>
      parse_value (Suc n) (dumps_compact v @ r) = Inr (v, r)"
  shows "reparses v"
  unfolding reparses_def
proof (intro allI impI)
  fix r fuel assume "delim r" and f: "2 * length (dumps_compact v) \<le> fuel"
  moreover obtain n where "fuel = Suc n" using f assms(1) by (cases fuel) auto
  ultimately show "parse_value fuel (dumps_compact v @ r) = Inr (v, r)"
    using assms(2) by simp
qed

lemma reparses_atoms: "reparses VNone" "reparses (VBool b)" "reparses (VStr s)"
  using parse_json_string [of s]
  by (auto intro!: reparsesI simp: dumps_compact_def parse_value.simps split: if_splits)

lemma reparses_int: "reparses (VInt n)"
proof (rule reparsesI)
  fix r m assume d: "delim r"
  have ne: "int_str n \<noteq> []" and h: "hd (int_str n) = CHR ''-'' \<or> is_digit (hd (int_str n))"
    using int_str_hd by auto
  have c: "hd (int_str n @ r) = CHR ''-'' \<or> is_digit (hd (int_str n @ r))"
    using ne h by simp
  have pre: "\<And>x xs. x \<in> {quote, CHR ''{'', CHR ''['', CHR ''n'', CHR ''t'', CHR ''f'', CHR ''N'', CHR ''I''}
      \<Longrightarrow> hd (int_str n @ r) \<noteq> x \<and> \<not> prefix (x # xs) (int_str n @ r)"
    using c ne by (cases "int_str n") (auto simp: is_digit_def code_def)
  show "parse_value (Suc m) (dumps_compact (VInt n) @ r) = Inr (VInt n, r)"
    using pre ne by (simp add: dumps_compact_def parse_value.simps parse_int_str [OF d])
qed (simp add: dumps_compact_def int_str_hd)

theorem parse_dumps: "json_exact v \<Longrightarrow> reparses v"
proof (induction v)
  case (VList xs)
  show ?case
  proof (rule reparsesI)
    fix r n assume f: "2 * length (dumps_compact (VList xs)) \<le> Suc n"
    show "parse_value (Suc n) (dumps_compact (VList xs) @ r) = Inr (VList xs, r)"
    proof (cases xs)
      case Nil
      then show ?thesis by (simp add: dumps_compact_VList parse_value.simps)
    next
      case (Cons y ys)
      let ?t = "join '','' (map dumps_compact xs)"
      have ex: "list_all json_exact xs" using VList.prems by simp
      have "parse_elems n (?t @ CHR '']'' # r) = Inr (xs, r)"
        using Cons VList.IH ex f
        by (intro parse_elems_dumps) (auto simp: dumps_compact_VList list_all_iff)
      moreover have "?t \<noteq> [] \<and> skip_ws (?t @ CHR '']'' # r) = ?t @ CHR '']'' # r \<and> hd ?t \<noteq> CHR '']''"
        using Cons ex json_text_hd [of y "'',''" "'':''"] skip_ws_dumps [of y "'',''" "'':''"]
        by (cases ys) (auto simp: dumps_compact_def)
      ultimately show ?thesis
        by (simp add: dumps_compact_VList parse_value.simps)
    qed
  qed (simp add: dumps_compact_VList)
next
  case (VDict d)
  show ?case
  proof (rule reparsesI)
    fix r n assume f: "2 * length (dumps_compact (VDict d)) \<le> Suc n"
    have ok: "\<And>p. p \<in> set d \<Longrightarrow> key_is_str (fst p) \<and> json_exact (snd p) \<and> reparses (snd p)"
      using VDict.prems VDict.IH by (fastforce simp: list_all_iff snds.simps)
    have dist: "distinct (map fst d)" using VDict.prems by simp
    show "parse_value (Suc n) (dumps_compact (VDict d) @ r) = Inr (VDict d, r)"
    proof (cases d)
      case Nil
      then show ?thesis by (simp add: dumps_compact_VDict parse_value.simps)
    next
      case (Cons y ys)
      let ?t = "join '','' (map member_text d)"
      have "parse_members n (?t @ CHR ''}'' # r) = Inr (d, r)"
        using Cons ok f by (intro parse_members_dumps) (auto simp: dumps_compact_VDict)
      moreover have "?t \<noteq> [] \<and> skip_ws (?t @ CHR ''}'' # r) = ?t @ CHR ''}'' # r \<and> hd ?t = quote"
        using Cons by (cases ys) (auto simp: member_text_def)
      ultimately show ?thesis
        using foldl_update_distinct [of "[]" d] dist
        by (simp add: dumps_compact_VDict parse_value.simps)
    qed
  qed (simp add: dumps_compact_VDict)
qed (auto intro: reparses_atoms reparses_int)

theorem json_loads_dumps:
  assumes "json_exact v" and "r = [] \<or> r = [newline]"
  shows "json_loads (dumps_compact v @ r) = Inr v"
proof -
  have "delim r" using assms(2) by auto
  then have "parse_value (2 * length (dumps_compact v @ r) + 2) (dumps_compact v @ r) = Inr (v, r)"
    by (intro reparsesD parse_dumps assms(1)) auto
  moreover have "skip_ws (dumps_compact v @ r) = dumps_compact v @ r"
    using assms(1) by (simp add: dumps_compact_def)
  moreover have "skip_ws r = []" using assms(2) by (auto simp: skip_ws_def)
  ultimately show ?thesis by (simp add: json_loads_def)
qed

section \<open>What printed text looks like\<close>

lemma set_join: "x \<in> set (join sep xs) \<Longrightarrow> x \<in> set sep \<or> (\<exists>y \<in> set xs. x \<in> set y)"
  by (induction sep xs rule: join.induct) auto

lemma int_str_printable: "x \<in> set (int_str n) \<Longrightarrow> printable x"
  by (auto simp: int_str_def printable_def is_digit_def code_def
           dest!: nat_str_digits split: if_splits)

lemma json_text_printable:
  "json_exact v \<Longrightarrow> list_all printable i \<Longrightarrow> list_all printable k \<Longrightarrow>
    x \<in> set (json_text i k v) \<Longrightarrow> printable x"
proof (induction v)
  case (VList xs)
  then show ?case
    by (auto simp: list_all_iff printable_def code_def dest!: set_join)
next
  case (VDict d)
  from VDict.prems(4) consider "x \<in> {CHR ''{'', CHR ''}''}" | "x \<in> set i"
    | p where "p \<in> set d" "x \<in> set (json_string (json_key (fst p)) @ k @ json_text i k (snd p))"
    by (auto dest!: set_join)
  then show ?case
  proof cases
    case 1
    then show ?thesis by (auto simp: printable_def code_def)
  next
    case 2
    then show ?thesis using VDict.prems(2) by (simp add: list_all_iff)
  next
    case (3 p)
    moreover have "snd p \<in> Basic_BNFs.snds p" by (simp add: snds.simps prod_eq_iff)
    ultimately show ?thesis
      using VDict.IH [of p "snd p"] VDict.prems
      by (auto simp: list_all_iff dest: json_string_printable)
  qed
qed (auto simp: printable_def code_def dest: json_string_printable int_str_printable split: if_splits
       dest!: json_string_printable int_str_printable)

lemma newline_not_printable: "\<not> printable newline"
  by (simp add: printable_def)

lemma dumps_compact_no_newline: "json_exact v \<Longrightarrow> newline \<notin> set (dumps_compact v)"
  using json_text_printable [of v "'',''" "'':''" newline] newline_not_printable
  by (auto simp: dumps_compact_def printable_def code_def)

section \<open>The parser's fuel and errors\<close>

lemma bind_res_eq_fuel:
  "bind_res m f = fuel_err \<longleftrightarrow> m = fuel_err \<or> (\<exists>x. m = Inr x \<and> f x = fuel_err)"
  by (cases m) (auto simp: bind_res_def fuel_err_def raise_def)

lemma err_neq_fuel [simp]: "json_err \<noteq> fuel_err" "outside_err \<noteq> fuel_err" "Inr x \<noteq> fuel_err"
  by (simp_all add: json_err_def outside_err_def fuel_err_def raise_def)

lemma skip_ws_length: "length (skip_ws s) \<le> length s"
  by (simp add: skip_ws_def length_dropWhile_le)

lemma cons_fst_eq_Inr: "cons_fst x m = Inr (ys, r) \<longleftrightarrow> (\<exists>xs. m = Inr (xs, r) \<and> ys = x # xs)"
  by (cases m) (auto simp: cons_fst_def)

lemma cons_fst_neq_fuel: "m \<noteq> fuel_err \<Longrightarrow> cons_fst x m \<noteq> fuel_err"
  by (cases m) (auto simp: cons_fst_def fuel_err_def raise_def)

lemma parse_string_step:
  assumes "parse_string s = Inr (x, r)"
  shows "(\<exists>c. s = c # r) \<or> (\<exists>p y t. p \<noteq> [] \<and> s = p @ t \<and> parse_string t = Inr (y, r))"
proof (cases s)
  case Nil
  with assms show ?thesis by (simp add: json_err_def)
next
  case (Cons c cs)
  have shorter: ?thesis if "p \<noteq> []" "s = p @ t" "parse_string t = Inr (y, r)" for p t y
    using that by blast
  consider "c = quote" | "c \<noteq> quote" "c = backslash" | "c \<noteq> quote" "c \<noteq> backslash" by blast
  then show ?thesis
  proof cases
    case 1
    with assms Cons show ?thesis by simp
  next
    case 3
    then obtain y where "parse_string cs = Inr (y, r)"
      using assms Cons by (auto simp: json_err_def cons_fst_eq_Inr split: if_splits)
    then show ?thesis using Cons shorter [of "[c]" cs] by simp
  next
    case 2
    then obtain e t where cs: "cs = e # t"
      using assms Cons by (cases cs) (auto simp: json_err_def)
    show ?thesis
    proof (cases "e = CHR ''u''")
      case False
      then obtain y where "parse_string t = Inr (y, r)"
        using assms Cons cs 2 by (auto simp: json_err_def cons_fst_eq_Inr split: option.splits)
      then show ?thesis using Cons cs shorter [of "[c, e]" t] by simp
    next
      case True
      then obtain h k l m t' y where "t = h # k # l # m # t'" "parse_string t' = Inr (y, r)"
        using assms Cons cs 2
        by (auto simp: json_err_def outside_err_def cons_fst_eq_Inr split: list.splits option.splits if_splits)
      then show ?thesis using Cons cs shorter [of "[c, e, h, k, l, m]" t'] by simp
    qed
  qed
qed

lemma parse_string_length: "parse_string s = Inr (x, r) \<Longrightarrow> length r < length s"
proof (induction s arbitrary: x rule: length_induct)
  case (1 s)
  from parse_string_step [OF 1(2)] show ?case
  proof (elim disjE exE conjE)
    fix p y t assume t: "p \<noteq> []" "s = p @ t" "parse_string t = Inr (y, r)"
    then have "length r < length t" using 1(1) by simp
    with t show ?thesis by simp
  qed simp
qed

lemma four_or_less:
  "(\<And>a b x y r. t = a # b # x # y # r \<Longrightarrow> P) \<Longrightarrow> (t = [] \<Longrightarrow> P) \<Longrightarrow> (\<And>a. t = [a] \<Longrightarrow> P)
    \<Longrightarrow> (\<And>a b. t = [a, b] \<Longrightarrow> P) \<Longrightarrow> (\<And>a b x. t = [a, b, x] \<Longrightarrow> P) \<Longrightarrow> P"
  by (metis neq_Nil_conv)

lemma parse_string_no_fuel: "parse_string s \<noteq> fuel_err"
proof (induction s rule: length_induct)
  case (1 s)
  then have IH: "cons_fst z (parse_string t) \<noteq> fuel_err" if "length t < length s" for t z
    using that by (intro cons_fst_neq_fuel) simp
  show ?case
  proof (cases s)
    case (Cons c cs)
    show ?thesis
    proof (cases "c = backslash")
      case True
      show ?thesis
      proof (cases cs)
        case (Cons e t)
        have "cons_fst z (parse_string (drop 4 t)) \<noteq> fuel_err" "cons_fst z (parse_string t) \<noteq> fuel_err" for z
          using \<open>s = c # cs\<close> Cons by (intro IH; simp)+
        then show ?thesis
          unfolding \<open>s = c # cs\<close> True Cons
          by (cases t rule: four_or_less) (simp_all split: option.split)
      qed (use \<open>s = c # cs\<close> True in simp)
    next
      case False
      then show ?thesis using IH [of cs c] Cons by simp
    qed
  qed simp
qed

lemma number_tail_spec: "number_tail neg ip r1 \<noteq> fuel_err"
  "number_tail neg ip r1 = Inr (v, r) \<Longrightarrow> length r \<le> length r1"
  by (auto simp: number_tail_def Let_def json_err_def raise_def fuel_err_def split: if_splits option.splits)

lemma parse_number_spec: "parse_number s \<noteq> fuel_err"
  "parse_number s = Inr (v, r) \<Longrightarrow> length r \<le> length s"
proof -
  show "parse_number s \<noteq> fuel_err"
    by (auto simp: parse_number_def Let_def number_tail_spec)
  assume "parse_number s = Inr (v, r)"
  then show "length r \<le> length s"
    by (auto simp: parse_number_def Let_def json_err_def split: if_splits dest!: number_tail_spec(2))
qed

lemma length_tl_less: "s \<noteq> [] \<Longrightarrow> length (tl s) < length s"
  by (cases s) auto

lemma length_skip_tl: "s \<noteq> [] \<Longrightarrow> length (skip_ws (tl s)) < length s"
  using skip_ws_length [of "tl s"] length_tl_less [of s] by linarith


lemma parse_value_steps:
  assumes "parse_value (Suc n) s = Inr (v, r)"
  obtains (str) x where "parse_string (tl s) = Inr (x, r)" "s \<noteq> []"
    | (dict) t d where "length t < length s" "parse_members n t = Inr (d, r)"
    | (list) t xs where "length t < length s" "parse_elems n t = Inr (xs, r)"
    | (drop) "length r \<le> length s"
proof (cases "s = [] \<or> hd s = quote \<or> hd s = CHR ''{'' \<or> hd s = CHR ''[''")
  case False
  then have "length r \<le> length s"
    using assms by (auto simp: parse_value.simps split: if_splits dest: parse_number_spec(2))
  then show thesis by (rule drop)
next
  case True
  with assms have ne: "s \<noteq> []" by (auto simp: parse_value.simps json_err_def)
  have lt: "length (skip_ws (tl s)) < length s" "length (tl (skip_ws (tl s))) \<le> length s"
    using length_skip_tl [OF ne] by auto
  consider "hd s = quote" | "hd s \<noteq> quote" "hd s = CHR ''{''" | "hd s \<noteq> quote" "hd s = CHR ''[''"
    using True ne by blast
  then show thesis
  proof cases
    case 1
    with assms ne show thesis by (auto simp: parse_value.simps bind_res_eq_Inr intro: str)
  next
    case 2
    with assms ne lt show thesis
      by (auto simp: parse_value.simps bind_res_eq_Inr Let_def split: if_splits intro: dict drop)
  next
    case 3
    with assms ne lt show thesis
      by (auto simp: parse_value.simps bind_res_eq_Inr Let_def split: if_splits intro: list drop)
  qed
qed


lemma parse_elems_steps:
  assumes "parse_elems (Suc n) s = Inr (vs, r)"
  obtains v r1 where "parse_value n s = Inr (v, r1)" "length r \<le> length r1"
    | v r1 t ws where "parse_value n s = Inr (v, r1)" "length t < length r1"
        "parse_elems n t = Inr (ws, r)"
proof -
  obtain v r1 where v: "parse_value n s = Inr (v, r1)"
    using assms by (auto simp: parse_elems.simps bind_res_eq_Inr)
  let ?t = "skip_ws r1"
  have ne: "?t \<noteq> []" using assms v by (auto simp: parse_elems.simps json_err_def)
  have "length (skip_ws (tl ?t)) < length r1" "length (tl ?t) \<le> length r1"
    using length_skip_tl [OF ne] length_tl_less [OF ne] skip_ws_length [of r1] by auto
  then show thesis
    using assms v ne that
    by (auto simp: parse_elems.simps json_err_def cons_fst_eq_Inr Let_def split: if_splits)
qed

lemma parse_members_steps:
  assumes "parse_members (Suc n) s = Inr (d, r)"
  obtains t v r1 where "length t < length s" "parse_value n t = Inr (v, r1)" "length r \<le> length r1"
    | t v r1 t' e where "length t < length s" "parse_value n t = Inr (v, r1)" "length t' < length r1"
        "parse_members n t' = Inr (e, r)"
proof -
  have s: "s \<noteq> []" using assms by (auto simp: parse_members.simps json_err_def)
  obtain k r0 where k: "parse_string (tl s) = Inr (k, r0)"
    using assms by (auto simp: parse_members.simps bind_res_eq_Inr json_err_def split: if_splits)
  let ?t0 = "skip_ws r0"
  have t0: "?t0 \<noteq> []"
    using assms k by (auto simp: parse_members.simps json_err_def split: if_splits)
  let ?t = "skip_ws (tl ?t0)"
  obtain v r1 where v: "parse_value n ?t = Inr (v, r1)"
    using assms k by (auto simp: parse_members.simps bind_res_eq_Inr Let_def json_err_def split: if_splits)
  have lt: "length ?t < length s"
    using length_skip_tl [OF t0] skip_ws_length [of r0] parse_string_length [OF k]
      length_tl_less [OF s] by linarith
  let ?u = "skip_ws r1"
  have ne: "?u \<noteq> []"
    using assms v k by (auto simp: parse_members.simps json_err_def Let_def split: if_splits)
  have "length (skip_ws (tl ?u)) < length r1" "length (tl ?u) \<le> length r1"
    using length_skip_tl [OF ne] length_tl_less [OF ne] skip_ws_length [of r1] by auto
  then show thesis
    using assms v k ne that lt
    by (auto simp: parse_members.simps json_err_def cons_fst_eq_Inr Let_def split: if_splits)
qed

lemma parse_shrinks:
  "(parse_value n s = Inr (v, r) \<longrightarrow> length r \<le> length s)
   \<and> (parse_elems n s = Inr (vs, r) \<longrightarrow> length r \<le> length s)
   \<and> (parse_members n s = Inr (d, r) \<longrightarrow> length r \<le> length s)"
proof (induction n arbitrary: s v vs d r)
  case 0
  show ?case by (simp add: parse_value.simps parse_elems.simps parse_members.simps fuel_err_def)
next
  case (Suc n)
  note IHv = Suc.IH [THEN conjunct1, rule_format]
    and IHe = Suc.IH [THEN conjunct2, THEN conjunct1, rule_format]
    and IHm = Suc.IH [THEN conjunct2, THEN conjunct2, rule_format]
  show ?case
  proof (intro conjI impI)
    assume "parse_value (Suc n) s = Inr (v, r)"
    then show "length r \<le> length s"
    proof (cases rule: parse_value_steps)
      case (str x)
      then show ?thesis using parse_string_length length_tl_less by fastforce
    next
      case (dict t e)
      then show ?thesis using IHm [of t e r] by simp
    next
      case (list t xs)
      then show ?thesis using IHe [of t xs r] by simp
    qed
  next
    assume "parse_elems (Suc n) s = Inr (vs, r)"
    then show "length r \<le> length s"
      by (cases rule: parse_elems_steps) (fastforce dest: IHv IHe)+
  next
    assume "parse_members (Suc n) s = Inr (d, r)"
    then show "length r \<le> length s"
      by (cases rule: parse_members_steps) (fastforce dest: IHv IHm)+
  qed
qed

lemma parse_value_length: "parse_value n s = Inr (v, r) \<Longrightarrow> length r \<le> length s"
  using parse_shrinks by blast

lemma parse_no_fuel:
  "(2 * length s + 1 \<le> n \<longrightarrow> parse_value n s \<noteq> fuel_err)
   \<and> (2 * length s + 2 \<le> n \<longrightarrow> parse_elems n s \<noteq> fuel_err)
   \<and> (2 * length s + 2 \<le> n \<longrightarrow> parse_members n s \<noteq> fuel_err)"
proof (induction n arbitrary: s)
  case (Suc n)
  note IHv = Suc.IH [THEN conjunct1, rule_format]
    and IHe = Suc.IH [THEN conjunct2, THEN conjunct1, rule_format]
    and IHm = Suc.IH [THEN conjunct2, THEN conjunct2, rule_format]
  show ?case
  proof (intro conjI impI)
    assume n: "2 * length s + 1 \<le> Suc n"
    show "parse_value (Suc n) s \<noteq> fuel_err"
    proof (cases "s = []")
      case True
      then show ?thesis by (simp add: parse_value.simps)
    next
      case False
      have "parse_members n (skip_ws (tl s)) \<noteq> fuel_err" "parse_elems n (skip_ws (tl s)) \<noteq> fuel_err"
        using IHm [of "skip_ws (tl s)"] IHe [of "skip_ws (tl s)"] length_skip_tl [OF False] n by auto
      then show ?thesis
        using False by (auto simp: parse_value.simps Let_def parse_number_spec(1) parse_string_no_fuel bind_res_eq_fuel)
    qed
  next
    assume n: "2 * length s + 2 \<le> Suc n"
    have v: "parse_value n s \<noteq> fuel_err" using IHv [of s] n by simp
    have "cons_fst x (parse_elems n (skip_ws (tl (skip_ws r)))) \<noteq> fuel_err"
      if "parse_value n s = Inr (x, r)" "skip_ws r \<noteq> []" for x r
      using that n parse_value_length [OF that(1)] length_skip_tl [OF that(2)] skip_ws_length [of r]
      by (intro cons_fst_neq_fuel IHe) linarith
    with v show "parse_elems (Suc n) s \<noteq> fuel_err"
      by (auto simp: parse_elems.simps Let_def bind_res_eq_fuel split: if_splits)
  next
    assume n: "2 * length s + 2 \<le> Suc n"
    have v: "parse_value n (skip_ws (tl (skip_ws r))) \<noteq> fuel_err"
      if "s \<noteq> []" "parse_string (tl s) = Inr (k, r)" "skip_ws r \<noteq> []" for k r
      using parse_string_length [OF that(2)] length_tl_less [OF that(1)] length_skip_tl [OF that(3)]
        skip_ws_length [of r] n by (intro IHv) linarith
    have m: "cons_fst y (parse_members n (skip_ws (tl (skip_ws r')))) \<noteq> fuel_err"
      if "s \<noteq> []" "parse_string (tl s) = Inr (k, r)" "skip_ws r \<noteq> []"
        "parse_value n (skip_ws (tl (skip_ws r))) = Inr (x, r')" "skip_ws r' \<noteq> []" for y k r x r'
      using parse_string_length [OF that(2)] length_tl_less [OF that(1)] length_skip_tl [OF that(3)]
        skip_ws_length [of r] n parse_value_length [OF that(4)] length_skip_tl [OF that(5)]
        skip_ws_length [of r'] by (intro cons_fst_neq_fuel IHm) linarith
    show "parse_members (Suc n) s \<noteq> fuel_err"
      using v m by (auto simp: parse_members.simps Let_def parse_string_no_fuel bind_res_eq_fuel split: if_splits)
  qed
qed simp

text \<open>The fuel given to the parser is enough for every text.\<close>

lemma json_loads_no_fuel: "json_loads s \<noteq> fuel_err"
proof -
  have "parse_value (2 * length s + 2) (skip_ws s) \<noteq> fuel_err"
    using parse_no_fuel [of "skip_ws s" "2 * length s + 2"] skip_ws_length [of s] by simp
  then show ?thesis by (auto simp: json_loads_def bind_res_eq_fuel)
qed

text \<open>The exceptions of the parser are the three above.\<close>

definition parse_exns :: "exn set" where
  "parse_exns = {Exn JSONDecodeError ''Invalid JSON'',
     Exn (OtherException ''outside the model'') ''character above U+00FF'',
     Exn (OtherException ''fuel'') ''parser fuel''}"

lemma err_exns: "json_err = Inl e \<Longrightarrow> e \<in> parse_exns" "outside_err = Inl e \<Longrightarrow> e \<in> parse_exns"
  "fuel_err = Inl e \<Longrightarrow> e \<in> parse_exns"
  by (auto simp: json_err_def outside_err_def fuel_err_def raise_def parse_exns_def)

lemma cons_fst_eq_Inl: "cons_fst x m = Inl e \<longleftrightarrow> m = Inl e"
  by (cases m) (auto simp: cons_fst_def)

lemma parse_string_not_other: "e \<notin> parse_exns \<Longrightarrow> parse_string s \<noteq> Inl e"
proof (induction s rule: length_induct)
  case (1 s)
  have errs: "(json_err :: (string \<times> string) res) \<noteq> Inl e"
      "(outside_err :: (string \<times> string) res) \<noteq> Inl e"
    using 1(2) err_exns by blast+
  have IH: "cons_fst z (parse_string t) \<noteq> Inl e" if "length t < length s" for t z
    using 1 that by (simp add: cons_fst_eq_Inl)
  show ?case
  proof (cases s)
    case (Cons c cs)
    show ?thesis
    proof (cases "c = backslash")
      case True
      show ?thesis
      proof (cases cs)
        case (Cons d t)
        have "cons_fst z (parse_string (drop 4 t)) \<noteq> Inl e" "cons_fst z (parse_string t) \<noteq> Inl e" for z
          using \<open>s = c # cs\<close> Cons by (intro IH; simp)+
        then show ?thesis
          unfolding \<open>s = c # cs\<close> True Cons
          by (cases t rule: four_or_less) (simp_all add: errs split: option.split)
      qed (use \<open>s = c # cs\<close> True errs in simp)
    next
      case False
      then show ?thesis using IH [of cs c] Cons errs by simp
    qed
  qed (simp add: errs)
qed

lemma parse_string_exns: "parse_string s = Inl e \<Longrightarrow> e \<in> parse_exns"
  using parse_string_not_other by blast

lemma parse_number_exns: "parse_number s = Inl e \<Longrightarrow> e \<in> parse_exns"
  by (auto simp: parse_number_def number_tail_def Let_def dest: err_exns split: if_splits option.splits)

lemma parse_exns:
  "(parse_value n s = Inl e \<longrightarrow> e \<in> parse_exns)
   \<and> (parse_elems n s = Inl e \<longrightarrow> e \<in> parse_exns)
   \<and> (parse_members n s = Inl e \<longrightarrow> e \<in> parse_exns)"
proof (induction n arbitrary: s)
  case 0
  show ?case by (auto simp: parse_value.simps parse_elems.simps parse_members.simps dest: err_exns)
next
  case (Suc n)
  note IH = Suc.IH [THEN conjunct1, rule_format] Suc.IH [THEN conjunct2, THEN conjunct1, rule_format]
    Suc.IH [THEN conjunct2, THEN conjunct2, rule_format]
  show ?case
  proof (intro conjI impI)
    assume "parse_value (Suc n) s = Inl e"
    then show "e \<in> parse_exns"
      by (auto simp: parse_value.simps Let_def bind_res_eq_Inl split: if_splits
          dest: err_exns IH parse_string_exns parse_number_exns)
  next
    assume "parse_elems (Suc n) s = Inl e"
    then show "e \<in> parse_exns"
      by (auto simp: parse_elems.simps Let_def bind_res_eq_Inl cons_fst_eq_Inl split: if_splits
          dest: err_exns IH)
  next
    assume "parse_members (Suc n) s = Inl e"
    then show "e \<in> parse_exns"
      by (auto simp: parse_members.simps Let_def bind_res_eq_Inl cons_fst_eq_Inl split: if_splits
          dest: err_exns IH parse_string_exns)
  qed
qed

text \<open>Python's own error, or a character the model's strings cannot hold.\<close>

lemma json_loads_error:
  assumes "json_loads s = Inl e"
  shows "e = Exn JSONDecodeError ''Invalid JSON''
    \<or> e = Exn (OtherException ''outside the model'') ''character above U+00FF''"
proof -
  have "e \<in> parse_exns"
    using assms parse_exns by (auto simp: json_loads_def bind_res_eq_Inl split: if_splits dest: err_exns)
  moreover have "e \<noteq> Exn (OtherException ''fuel'') ''parser fuel''"
    using assms json_loads_no_fuel [of s] by (auto simp: fuel_err_def raise_def)
  ultimately show ?thesis by (auto simp: parse_exns_def)
qed

end
