(* ===== verification/Files.thy ===== *)
theory Files
  imports PyJson
begin

text \<open>
  What the program uses of the host's file system: absolute paths as lists of their
  components, a tree of directories and regular files, \<open>Path.resolve\<close>,
  \<open>Path.mkdir(parents=True, exist_ok=True)\<close>, \<open>write_bytes\<close> and \<open>read_bytes\<close>, and
  \<open>base64.b64decode(..., validate=True)\<close>. The tree has no symbolic links: the program
  creates none. A file holds bytes, written as the characters \<open>U+0000\<close> to \<open>U+00FF\<close>.
\<close>

section \<open>Paths\<close>

type_synonym path = "string list"

text \<open>\<open>str(path)\<close>\<close>

definition path_str :: "path \<Rightarrow> string" where
  "path_str p = (if p = [] then ''/'' else concat (map (\<lambda>c. CHR ''/'' # c) p))"

text \<open>\<open>(base / rel).resolve()\<close>: an absolute \<open>rel\<close> replaces \<open>base\<close>, dots are resolved.\<close>

fun resolve_parts :: "path \<Rightarrow> string list \<Rightarrow> path" where
  "resolve_parts base [] = base"
| "resolve_parts base (p # ps) =
     (if p = [] \<or> p = ''.'' then resolve_parts base ps
      else if p = ''..'' then resolve_parts (butlast base) ps
      else resolve_parts (base @ [p]) ps)"

definition resolve :: "path \<Rightarrow> string \<Rightarrow> path res" where
  "resolve base rel =
     (if CHR 0x00 \<in> set rel then raise ValueError ''embedded null byte''
      else Inr (resolve_parts (if prefix ''/'' rel then [] else base) (split_on (CHR ''/'') rel)))"

section \<open>The tree\<close>

datatype node = Dir | File string

type_synonym fs = "path \<Rightarrow> node option"

definition is_file :: "fs \<Rightarrow> path \<Rightarrow> bool" where
  "is_file f p = (case f p of Some (File _) \<Rightarrow> True | _ \<Rightarrow> False)"

definition mkdirs :: "path \<Rightarrow> fs \<Rightarrow> fs res" where
  "mkdirs p f =
     (if list_ex (is_file f) (prefixes p) then raise OSError ''File exists''
      else Inr (\<lambda>q. if q \<in> set (prefixes p) then Some Dir else f q))"

definition write_bytes :: "path \<Rightarrow> string \<Rightarrow> fs \<Rightarrow> fs res" where
  "write_bytes p bytes f =
     (if p = [] \<or> f p = Some Dir then raise OSError ''Is a directory''
      else if f (butlast p) \<noteq> Some Dir then raise OSError ''No such file or directory''
      else Inr (f(p \<mapsto> File bytes)))"

definition read_bytes :: "path \<Rightarrow> fs \<Rightarrow> string res" where
  "read_bytes p f =
     (case f p of
        None \<Rightarrow> raise OSError ''No such file or directory''
      | Some Dir \<Rightarrow> raise OSError ''Is a directory''
      | Some (File bytes) \<Rightarrow> Inr bytes)"

text \<open>Two trees that hold the same outside the directory \<open>d\<close> and the directories above it.\<close>

definition same_outside :: "path \<Rightarrow> fs \<Rightarrow> fs \<Rightarrow> bool" where
  "same_outside d f g = (\<forall>p. prefix d p \<or> prefix p d \<and> g p = Some Dir \<or> g p = f p)"

lemma same_outside_refl [simp]: "same_outside d f f"
  by (simp add: same_outside_def)

lemma same_outside_trans: "same_outside d f g \<Longrightarrow> same_outside d g h \<Longrightarrow> same_outside d f h"
  unfolding same_outside_def by metis

lemma mkdirs_outside:
  assumes "mkdirs p f = Inr g" and "prefix d p"
  shows "same_outside d f g"
  using assms
  by (auto simp: mkdirs_def same_outside_def split: if_splits) (meson prefix_same_cases)

lemma write_bytes_outside:
  "write_bytes p bytes f = Inr g \<Longrightarrow> prefix d p \<Longrightarrow> same_outside d f g"
  by (auto simp: write_bytes_def same_outside_def split: if_splits)

lemma mkdirs_Dir: "mkdirs p f = Inr g \<Longrightarrow> prefix q p \<Longrightarrow> g q = Some Dir"
  by (auto simp: mkdirs_def split: if_splits)

lemma mkdirs_file: "mkdirs p f = Inr g \<Longrightarrow> f q = Some (File b) \<Longrightarrow> g q = Some (File b)"
  by (force simp: mkdirs_def list_ex_iff is_file_def split: if_splits)

section \<open>Strict base64\<close>

definition b64_val :: "char \<Rightarrow> nat option" where
  "b64_val c =
     (if 65 \<le> code c \<and> code c \<le> 90 then Some (code c - 65)
      else if 97 \<le> code c \<and> code c \<le> 122 then Some (code c - 71)
      else if is_digit c then Some (code c + 4)
      else if c = CHR ''+'' then Some 62
      else if c = CHR ''/'' then Some 63
      else None)"

definition b64_char :: "nat \<Rightarrow> char" where
  "b64_char n =
     (if n < 26 then char_of (n + 65) else if n < 52 then char_of (n + 71)
      else if n < 62 then char_of (n - 4) else if n = 62 then CHR ''+'' else CHR ''/'')"

text \<open>
  CPython 3.11 and later decode in strict mode: groups of four, padding only in the last
  group, no other character; unused low bits are dropped without a check.
\<close>

fun b64_decode :: "string \<Rightarrow> string option" where
  "b64_decode [] = Some []"
| "b64_decode (a # b # c # d # r) =
     (if d = CHR ''='' then
        (if r \<noteq> [] then None
         else if c = CHR ''='' then
           (case (b64_val a, b64_val b) of
              (Some x, Some y) \<Rightarrow> Some [char_of (x * 4 + y div 16)]
            | _ \<Rightarrow> None)
         else
           (case (b64_val a, b64_val b, b64_val c) of
              (Some x, Some y, Some z) \<Rightarrow>
                Some [char_of (x * 4 + y div 16), char_of ((y mod 16) * 16 + z div 4)]
            | _ \<Rightarrow> None))
      else
        (case (b64_val a, b64_val b, b64_val c, b64_val d) of
           (Some x, Some y, Some z, Some w) \<Rightarrow>
             map_option
               (\<lambda>s. [char_of (x * 4 + y div 16), char_of ((y mod 16) * 16 + z div 4),
                      char_of ((z mod 4) * 64 + w)] @ s) (b64_decode r)
         | _ \<Rightarrow> None))"
| "b64_decode _ = None"

fun b64_encode :: "string \<Rightarrow> string" where
  "b64_encode [] = []"
| "b64_encode [a] = [b64_char (code a div 4), b64_char (code a mod 4 * 16), CHR ''='', CHR ''='']"
| "b64_encode [a, b] =
     [b64_char (code a div 4), b64_char (code a mod 4 * 16 + code b div 16),
      b64_char (code b mod 16 * 4), CHR ''='']"
| "b64_encode (a # b # c # r) =
     [b64_char (code a div 4), b64_char (code a mod 4 * 16 + code b div 16),
      b64_char (code b mod 16 * 4 + code c div 64), b64_char (code c mod 64)] @ b64_encode r"

lemma b64_val_char: "n < 64 \<Longrightarrow> b64_val (b64_char n) = Some n"
proof -
  assume n: "n < 64"
  have p: "code (CHR ''+'') = 43" and s: "code (CHR ''/'') = 47" by (simp_all add: code_def)
  consider "n < 26" | "26 \<le> n" "n < 52" | "52 \<le> n" "n < 62" | "n = 62" | "n = 63"
    using n by linarith
  then show ?thesis
    by cases (auto simp: b64_val_def b64_char_def is_digit_def code_char_of p s)
qed

lemma b64_char_not_pad: "n < 64 \<Longrightarrow> b64_char n \<noteq> CHR ''=''"
proof -
  have "b64_val (CHR ''='') = None" by code_simp
  then show "n < 64 \<Longrightarrow> b64_char n \<noteq> CHR ''=''" using b64_val_char [of n] by auto
qed

text \<open>Three bytes as four groups of six bits, and back.\<close>

lemma div_mod_pack: "y < k \<Longrightarrow> (x * k + y) div k = x \<and> (x * k + y) mod k = (y::nat)"
  by (simp add: div_add1_eq)

lemma pack_less: "x < m \<Longrightarrow> y < k \<Longrightarrow> x * k + y < m * (k::nat)"
  using mult_le_mono1 [of "Suc x" m k] by simp

lemma b64_groups:
  assumes "a < 256" and "b < 256" and "c < (256::nat)"
  shows "a div 4 < 64" "a mod 4 * 16 + b div 16 < 64" "b mod 16 * 4 + c div 64 < 64" "c mod 64 < 64"
    and "a div 4 * 4 + (a mod 4 * 16 + b div 16) div 16 = a"
    and "(a mod 4 * 16 + b div 16) mod 16 * 16 + (b mod 16 * 4 + c div 64) div 4 = b"
    and "(b mod 16 * 4 + c div 64) mod 4 * 64 + c mod 64 = c"
proof -
  have b: "b div 16 < 16" and c: "c div 64 < 4"
    using assms by (auto simp: less_mult_imp_div_less)
  note qb = div_mod_pack [OF b, of "a mod 4"] and qc = div_mod_pack [OF c, of "b mod 16"]
  show "a div 4 < 64" using assms by (simp add: less_mult_imp_div_less)
  show "a mod 4 * 16 + b div 16 < 64" using pack_less [of "a mod 4" 4, OF _ b] by simp
  show "b mod 16 * 4 + c div 64 < 64" using pack_less [of "b mod 16" 16, OF _ c] by simp
  show "c mod 64 < 64" by simp
  show "a div 4 * 4 + (a mod 4 * 16 + b div 16) div 16 = a"
    unfolding conjunct1 [OF qb] by (rule div_mult_mod_eq)
  show "(a mod 4 * 16 + b div 16) mod 16 * 16 + (b mod 16 * 4 + c div 64) div 4 = b"
    unfolding conjunct2 [OF qb] conjunct1 [OF qc] by (rule div_mult_mod_eq)
  show "(b mod 16 * 4 + c div 64) mod 4 * 64 + c mod 64 = c"
    unfolding conjunct2 [OF qc] by (rule div_mult_mod_eq)
qed

lemma b64_decode_encode: "b64_decode (b64_encode s) = Some s"
proof (induction s rule: b64_encode.induct)
  case (2 a)
  define p q where "p = code a div 4" and "q = code a mod 4 * 16"
  have "p < 64" "q < 64" "char_of (p * 4 + q div 16) = a"
    using b64_groups [of "code a" 0 0] code_lt [of a] by (simp_all add: p_def q_def char_of_code)
  then show ?case
    by (simp add: b64_val_char b64_char_not_pad flip: p_def q_def)
next
  case (3 a b)
  define p q u where "p = code a div 4" and "q = code a mod 4 * 16 + code b div 16"
    and "u = code b mod 16 * 4"
  have "p < 64" "q < 64" "u < 64" "char_of (p * 4 + q div 16) = a"
    "char_of (q mod 16 * 16 + u div 4) = b"
    using b64_groups [of "code a" "code b" 0] code_lt [of a] code_lt [of b]
    by (simp_all add: p_def q_def u_def char_of_code)
  then show ?case
    by (simp add: b64_val_char b64_char_not_pad flip: p_def q_def u_def)
next
  case (4 a b c r)
  define p q u v where "p = code a div 4" and "q = code a mod 4 * 16 + code b div 16"
    and "u = code b mod 16 * 4 + code c div 64" and "v = code c mod 64"
  have "p < 64" "q < 64" "u < 64" "v < 64" "char_of (p * 4 + q div 16) = a"
    "char_of (q mod 16 * 16 + u div 4) = b" "char_of (u mod 4 * 64 + v) = c"
    using b64_groups [of "code a" "code b" "code c"] code_lt [of a] code_lt [of b] code_lt [of c]
    by (simp_all add: p_def q_def u_def v_def char_of_code)
  then show ?case
    using 4 by (simp add: b64_val_char b64_char_not_pad flip: p_def q_def u_def v_def)
qed simp

end
