(* ===== verification/Protocol.thy ===== *)
theory Protocol
  imports PyJson
begin

text \<open>
  \<open>agent/protocol.py\<close>: validation of events and their encoding as one JSON line. The
  interface \<open>line_codec\<close> is what the transports rely on; the codec of the protocol
  provides it.
\<close>

section \<open>Validation\<close>

definition EVENT_TYPES :: "string list" where
  "EVENT_TYPES =
     [''task'', ''user_reply'', ''stop'', ''agent_ready'', ''message'', ''action'', ''done'',
      ''broker_request'', ''broker_response'']"

definition MESSAGE_ROLES :: "string list" where
  "MESSAGE_ROLES = [''plan'', ''clarification'', ''status'', ''reply'']"

definition require_str :: "pydict \<Rightarrow> string \<Rightarrow> string res" where
  "require_str event key =
     (case dget event key of
        VStr s \<Rightarrow> Inr s
      | _ \<Rightarrow> raise ProtocolError
          (''Event field '' @ quoted key @ '' is required and must be a string.''))"

definition require_bool :: "pydict \<Rightarrow> string \<Rightarrow> bool res" where
  "require_bool event key =
     (case dget event key of
        VBool b \<Rightarrow> Inr b
      | _ \<Rightarrow> raise ProtocolError
          (''Event field '' @ quoted key @ '' is required and must be a boolean.''))"

definition require_dict :: "pydict \<Rightarrow> string \<Rightarrow> pydict res" where
  "require_dict event key =
     (case dget event key of
        VDict d \<Rightarrow> Inr d
      | _ \<Rightarrow> raise ProtocolError
          (''Event field '' @ quoted key @ '' is required and must be an object.''))"

text \<open>The branches of \<open>validate_event\<close>, one per event type, each up to its \<open>return\<close>.\<close>

definition validate_task :: "pydict \<Rightarrow> unit res" where
  "validate_task event =
     bind_res (require_str event ''text'') (\<lambda>_.
     bind_res (require_str event ''session_id'') (\<lambda>_.
     bind_res (require_str event ''approval_mode'') (\<lambda>_.
     ensure (\<not> dhas event ''llm'') ProtocolError
       (''Event field '' @ quoted ''llm'' @ '' is not supported on task events. ''
        @ ''Pass LLM config at agent construction time.''))))"

definition validate_user_reply :: "pydict \<Rightarrow> unit res" where
  "validate_user_reply event =
     bind_res (require_str event ''text'') (\<lambda>_.
     bind_res (require_bool event ''approved'') (\<lambda>_. Inr ()))"

definition validate_message :: "pydict \<Rightarrow> unit res" where
  "validate_message event =
     bind_res (require_str event ''role'') (\<lambda>role.
     bind_res (ensure (role \<in> set MESSAGE_ROLES) ProtocolError
                 (''Unsupported message role: '' @ role)) (\<lambda>_.
     ensure (dhas event ''content'') ProtocolError
       (''Event field '' @ quoted ''content'' @ '' is required for message events.'')))"

definition validate_action :: "pydict \<Rightarrow> unit res" where
  "validate_action event =
     bind_res (require_str event ''tool'') (\<lambda>_.
     bind_res (require_dict event ''args'') (\<lambda>_.
     bind_res (require_dict event ''result'') (\<lambda>_. Inr ())))"

definition validate_done :: "pydict \<Rightarrow> unit res" where
  "validate_done event =
     bind_res (require_bool event ''success'') (\<lambda>_.
     bind_res (require_str event ''reply'') (\<lambda>_.
     bind_res (require_dict event ''state'') (\<lambda>_.
     ensure (dget event ''files'' = VNone \<or> is_VList (dget event ''files'')) ProtocolError
       (''Event field '' @ quoted ''files'' @ '' must be an array when provided.''))))"

definition validate_broker_request :: "pydict \<Rightarrow> unit res" where
  "validate_broker_request event =
     bind_res (require_str event ''request_id'') (\<lambda>_.
     bind_res (require_str event ''service'') (\<lambda>_.
     bind_res (require_dict event ''payload'') (\<lambda>_. Inr ())))"

definition validate_broker_response :: "pydict \<Rightarrow> unit res" where
  "validate_broker_response event =
     bind_res (require_str event ''request_id'') (\<lambda>_.
     bind_res (require_bool event ''success'') (\<lambda>success.
       if success then bind_res (require_dict event ''payload'') (\<lambda>_. Inr ())
       else bind_res (require_str event ''error'') (\<lambda>_. Inr ())))"

definition validate_event :: "pydict \<Rightarrow> unit res" where
  "validate_event event =
     (case dget event ''type'' of
        VStr event_type \<Rightarrow>
          if event_type \<notin> set EVENT_TYPES then
            raise ProtocolError (''Unsupported event type: '' @ event_type)
          else if event_type = ''task'' then validate_task event
          else if event_type = ''user_reply'' then validate_user_reply event
          else if event_type = ''stop'' then Inr ()
          else if event_type = ''agent_ready'' then Inr ()
          else if event_type = ''message'' then validate_message event
          else if event_type = ''action'' then validate_action event
          else if event_type = ''done'' then validate_done event
          else if event_type = ''broker_request'' then validate_broker_request event
          else if event_type = ''broker_response'' then validate_broker_response event
          else Inr ()
      | _ \<Rightarrow> raise ProtocolError
          (''Event field '' @ quoted ''type'' @ '' is required and must be a string.''))"

section \<open>Encoding and decoding\<close>

definition encode_event :: "pydict \<Rightarrow> string res" where
  "encode_event event =
     bind_res (validate_event event) (\<lambda>_. Inr (dumps_compact (VDict event) @ [newline]))"

definition decode_event :: "string \<Rightarrow> pydict res" where
  "decode_event line =
     (let text = strip line
      in if text = [] then raise ProtocolError ''Cannot decode empty event line.''
         else
           (case json_loads text of
              Inl (Exn k msg) \<Rightarrow>
                if k = JSONDecodeError then raise ProtocolError (''Invalid JSON event: '' @ msg)
                else Inl (Exn k msg)
            | Inr parsed \<Rightarrow>
                (case parsed of
                   VDict event \<Rightarrow> bind_res (validate_event event) (\<lambda>_. Inr event)
                 | _ \<Rightarrow> raise ProtocolError ''Decoded event must be a JSON object.'')))"

text \<open>The events that reach the wire unchanged: valid, with JSON-exact contents.\<close>

definition transmittable :: "pydict \<Rightarrow> bool" where
  "transmittable event = (is_ok (validate_event event) \<and> json_exact (VDict event))"

lemma require_InrD:
  "require_str e k = Inr s \<Longrightarrow> dget e k = VStr s"
  "require_bool e k = Inr b \<Longrightarrow> dget e k = VBool b"
  "require_dict e k = Inr d \<Longrightarrow> dget e k = VDict d"
  by (auto simp: require_str_def require_bool_def require_dict_def split: pyval.splits)

text \<open>What a valid event of each type is known to carry.\<close>

lemmas validate_defs =
  validate_task_def validate_user_reply_def validate_message_def validate_action_def
  validate_done_def validate_broker_request_def validate_broker_response_def

lemma validate_event_type:
  "validate_event e = Inr u \<Longrightarrow> \<exists>t. dget e ''type'' = VStr t \<and> t \<in> set EVENT_TYPES"
  by (auto simp: validate_event_def split: pyval.splits if_splits)

section \<open>The interface the transports use\<close>

text \<open>
  A codec of events into lines: an encoded event is one line, closed by the only newline
  in it, and decodes to itself.
\<close>

locale line_codec =
  fixes encode :: "'e \<Rightarrow> string res"
    and decode :: "string \<Rightarrow> 'e res"
    and ok :: "'e \<Rightarrow> bool"
  assumes encode_line: "ok e \<Longrightarrow> \<exists>body. encode e = Inr (body @ [newline]) \<and> newline \<notin> set body"
    and decode_encode: "ok e \<Longrightarrow> encode e = Inr l \<Longrightarrow> decode l = Inr e"
begin

definition line_of :: "'e \<Rightarrow> string" where
  "line_of e = (case encode e of Inl _ \<Rightarrow> [] | Inr l \<Rightarrow> l)"

lemma encode_line_of: "ok e \<Longrightarrow> encode e = Inr (line_of e)"
  using encode_line by (fastforce simp: line_of_def)

lemma line_of_shape: "ok e \<Longrightarrow> \<exists>body. line_of e = body @ [newline] \<and> newline \<notin> set body"
  using encode_line by (fastforce simp: line_of_def)

lemma decode_line_of: "ok e \<Longrightarrow> decode (line_of e) = Inr e"
  using decode_encode encode_line_of by blast

lemma line_of_inj: "ok e \<Longrightarrow> ok f \<Longrightarrow> line_of e = line_of f \<Longrightarrow> e = f"
  by (metis decode_line_of sum.inject(2))

end

lemma strip_compact_line:
  assumes "json_exact (VDict e)"
  shows "strip (dumps_compact (VDict e) @ [newline]) = dumps_compact (VDict e)"
proof -
  let ?b = "dumps_compact (VDict e)"
  have b: "?b = CHR ''{'' # join '','' (map member_text e) @ ''}''"
    by (rule dumps_compact_VDict)
  then have h: "hd ?b = CHR ''{''" and l: "last ?b = CHR ''}''" and ne: "?b \<noteq> []"
    by simp_all
  have "lstrip (?b @ [newline]) = ?b @ [newline]"
    using h ne by (simp add: lstrip_fix py_space_def code_def)
  moreover have "rstrip (?b @ [newline]) = rstrip ?b"
    by (simp add: rstrip_def py_space_def)
  moreover have "rstrip ?b = ?b"
    using l ne by (simp add: rstrip_fix py_space_def code_def)
  ultimately show ?thesis by (simp add: strip_def)
qed

lemma decode_encode_event:
  assumes "transmittable e" and "encode_event e = Inr l"
  shows "decode_event l = Inr e"
proof -
  have ex: "json_exact (VDict e)" and v: "validate_event e = Inr ()"
    using assms(1) by (auto simp: transmittable_def is_ok_iff)
  have l: "l = dumps_compact (VDict e) @ [newline]"
    using assms(2) v by (simp add: encode_event_def)
  have ne: "dumps_compact (VDict e) \<noteq> []"
    by (simp add: dumps_compact_VDict)
  have "json_loads (dumps_compact (VDict e)) = Inr (VDict e)"
    using json_loads_dumps [OF ex, of "[]"] by simp
  with v ne show ?thesis
    by (simp add: decode_event_def l strip_compact_line [OF ex])
qed

interpretation events: line_codec encode_event decode_event transmittable
proof unfold_locales
  fix e assume t: "transmittable e"
  then have "newline \<notin> set (dumps_compact (VDict e))"
    by (intro dumps_compact_no_newline) (simp add: transmittable_def)
  then show "\<exists>body. encode_event e = Inr (body @ [newline]) \<and> newline \<notin> set body"
    using t by (auto simp: transmittable_def is_ok_iff encode_event_def)
qed (rule decode_encode_event)

text \<open>What comes out of the decoder is always a valid event.\<close>

lemma decode_event_valid: "decode_event l = Inr e \<Longrightarrow> validate_event e = Inr ()"
  by (auto simp: decode_event_def Let_def bind_res_eq_Inr
           split: if_splits sum.splits exn.splits pyval.splits)

section \<open>Properties\<close>

lemma decode_event_error:
  assumes "decode_event l = Inl e"
  shows "exn_class e = ProtocolError \<or> exn_class e = OtherException ''outside the model''"
proof (cases "strip l = []")
  case True
  with assms show ?thesis by (auto simp: decode_event_def raise_def)
next
  case False
  have v: "exn_class x = ProtocolError" if "validate_event d = Inl x" for d x
    using that
    by (auto simp: validate_event_def validate_defs require_str_def require_bool_def
        require_dict_def bind_res_eq_Inl raise_def ensure_def split: pyval.splits if_splits)
  show ?thesis
    using assms False json_loads_error [of "strip l"] v
    by (fastforce simp: decode_event_def raise_def bind_res_eq_Inl
        split: sum.splits exn.splits pyval.splits if_splits)
qed

text \<open>
  C30. The wire protocol is lossless: a valid event with JSON-exact contents encodes to one
  line, closed by its only newline and made of ASCII bytes, and decoding that line gives
  the same event back.
\<close>

theorem wire_roundtrip:
  "transmittable e \<Longrightarrow>
    \<exists>body. encode_event e = Inr (body @ [newline]) \<and> newline \<notin> set body
      \<and> list_all printable body \<and> decode_event (body @ [newline]) = Inr e"
proof -
  assume t: "transmittable e"
  then obtain body where b: "encode_event e = Inr (body @ [newline])" "newline \<notin> set body"
    using events.encode_line by blast
  have "body = dumps_compact (VDict e)"
    using b(1) t by (auto simp: encode_event_def transmittable_def is_ok_iff)
  then have "list_all printable body"
    using t json_text_printable [of "VDict e" "'',''" "'':''"]
    by (fastforce simp: list_all_iff dumps_compact_def transmittable_def printable_def code_def)
  with b decode_encode_event [OF t b(1)] show ?thesis by blast
qed

theorem wire_roundtrip_witness:
  "\<exists>body. encode_event (dict_of [(''type'', VStr ''message''), (''role'', VStr ''status''),
        (''content'', VList [VStr [newline, quote], VInt (-3)])]) = Inr (body @ [newline])
      \<and> newline \<notin> set body \<and> list_all printable body
      \<and> decode_event (body @ [newline]) = Inr (dict_of [(''type'', VStr ''message''),
        (''role'', VStr ''status''), (''content'', VList [VStr [newline, quote], VInt (-3)])])"
  by (rule wire_roundtrip) (code_simp)

text \<open>
  Decoding a line is total and safe: it ends, within the fuel of the model, in a valid
  event or in a protocol error. The one other outcome is a character the model's strings
  cannot hold.
\<close>

theorem decode_total:
  "(\<exists>e. decode_event l = Inr e \<and> validate_event e = Inr ())
    \<or> (\<exists>msg. decode_event l = Inl (Exn ProtocolError msg))
    \<or> (\<exists>msg. decode_event l = Inl (Exn (OtherException ''outside the model'') msg))"
proof (cases "decode_event l")
  case (Inr e)
  then show ?thesis using decode_event_valid by blast
next
  case (Inl x)
  then show ?thesis using decode_event_error [OF Inl] by (cases x) auto
qed

end
