(* ===== verification/Session.thy ===== *)
theory Session
  imports Files Protocol "HOL-Library.List_Lexorder" "HOL-Library.Char_ord"
begin

text \<open>
  Session persistence: \<open>session.py\<close> (session directories, the saved state) and
  \<open>adapters/session_persistence.py\<close> (redaction, the \<open>done\<close> event's state and output
  files, the event journal). Every operation is a function on the file tree; the tree is
  part of its result also when it raises, since earlier writes stay.
\<close>

section \<open>JSON text as the session files hold it\<close>

text \<open>
  \<open>json.dumps(..., sort_keys=True)\<close> on values whose keys are all strings, the only ones
  that reach it: \<open>redact_sensitive\<close> has called \<open>key.lower()\<close> on every key. Strings compare
  by code point.
\<close>

fun string_keys :: "pyval \<Rightarrow> bool" where
  "string_keys (VList xs) = list_all string_keys xs"
| "string_keys (VDict d) = list_all (\<lambda>p. key_is_str (fst p) \<and> string_keys (snd p)) d"
| "string_keys _ = True"

fun key_text :: "pykey \<Rightarrow> string" where
  "key_text (KStr s) = s" | "key_text _ = []"

fun sort_keys :: "pyval \<Rightarrow> pyval" where
  "sort_keys (VList xs) = VList (map sort_keys xs)"
| "sort_keys (VDict d) = VDict (sort_key (key_text \<circ> fst) (map (map_prod id sort_keys) d))"
| "sort_keys v = v"

definition indent_line :: "nat \<Rightarrow> string" where
  "indent_line n = newline # List.replicate (2 * n) (CHR 0x20)"

text \<open>\<open>indent=2\<close>\<close>

fun json_pretty :: "nat \<Rightarrow> pyval \<Rightarrow> string" where
  "json_pretty n (VList xs) =
     (if xs = [] then ''[]''
      else ''['' @ indent_line (Suc n)
        @ join ('','' @ indent_line (Suc n)) (map (json_pretty (Suc n)) xs) @ indent_line n @ '']'')"
| "json_pretty n (VDict d) =
     (if d = [] then ''{}''
      else ''{'' @ indent_line (Suc n)
        @ join ('','' @ indent_line (Suc n))
            (map (\<lambda>p. json_string (json_key (fst p)) @ '': '' @ json_pretty (Suc n) (snd p)) d)
        @ indent_line n @ ''}'')"
| "json_pretty n v = json_text [] [] v"

definition dumps_pretty_sorted :: "pyval \<Rightarrow> string res" where
  "dumps_pretty_sorted v = (if string_keys v then Inr (json_pretty 0 (sort_keys v)) else outside_err)"

definition dumps_sorted :: "pyval \<Rightarrow> string res" where
  "dumps_sorted v = (if string_keys v then Inr (dumps_default (sort_keys v)) else outside_err)"

section \<open>session.py\<close>

definition validate_session_id :: "string \<Rightarrow> unit res" where
  "validate_session_id s =
     (if s \<noteq> [] \<and> list_all (\<lambda>c. is_alnum c \<or> c = CHR ''-'') s then Inr ()
      else raise SessionError
        ''Invalid session_id. Allowed characters: letters, numbers, hyphen.'')"

definition session_dir :: "path \<Rightarrow> string \<Rightarrow> path" where
  "session_dir home sid = home @ [''.strangeclaw'', ''sessions'', sid]"

definition session_create :: "path \<Rightarrow> string \<Rightarrow> fs \<Rightarrow> path res \<times> fs" where
  "session_create home sid f =
     (case validate_session_id sid of
        Inl e \<Rightarrow> (Inl e, f)
      | Inr _ \<Rightarrow>
          (case mkdirs (session_dir home sid) f of
             Inl e \<Rightarrow> (Inl e, f)
           | Inr g \<Rightarrow> (Inr (session_dir home sid), g)))"

text \<open>
  The text is written to a temporary file beside \<open>state.json\<close>, which \<open>os.replace\<close> puts
  in its place: either the old or the new state is there.
\<close>

definition session_save :: "path \<Rightarrow> pydict \<Rightarrow> fs \<Rightarrow> unit res \<times> fs" where
  "session_save dir state f =
     (case mkdirs dir f of
        Inl e \<Rightarrow> (Inl e, f)
      | Inr g \<Rightarrow>
          (case dumps_pretty_sorted (VDict state) of
             Inl e \<Rightarrow> (Inl e, g)
           | Inr payload \<Rightarrow>
               (case write_bytes (dir @ [''state.json'']) (payload @ [newline]) g of
                  Inl e \<Rightarrow> (Inl e, g)
                | Inr h \<Rightarrow> (Inr (), h))))"

definition session_load :: "path \<Rightarrow> fs \<Rightarrow> pydict option res" where
  "session_load dir f =
     (if f (dir @ [''state.json'']) = None then Inr None
      else
        bind_res (read_bytes (dir @ [''state.json'']) f) (\<lambda>text.
        bind_res (if list_all (\<lambda>c. code c < 128) text then json_loads text else outside_err) (\<lambda>v.
        (case v of
           VDict d \<Rightarrow> Inr (Some d)
         | _ \<Rightarrow> raise SessionError ''Session state must be a JSON object.''))))"

section \<open>Redaction\<close>

definition sensitive_key :: "string \<Rightarrow> bool" where
  "sensitive_key key =
     (let k = lower key
      in k = ''api_key'' \<or> sublist ''authorization'' k \<or> suffix ''token'' k \<or> k = ''token''
         \<or> suffix ''_secret'' k)"

fun redact_sensitive :: "pyval \<Rightarrow> pyval res" where
  "redact_sensitive (VDict d) =
     bind_res
       (map_res (\<lambda>p. case fst p of
            KStr k \<Rightarrow>
              if sensitive_key k then Inr (KStr k, VStr ''[REDACTED]'')
              else bind_res (redact_sensitive (snd p)) (\<lambda>v. Inr (KStr k, v))
          | _ \<Rightarrow> raise AttributeError ''object has no attribute lower'') d)
       (\<lambda>e. Inr (VDict e))"
| "redact_sensitive (VList xs) = bind_res (map_res redact_sensitive xs) (\<lambda>ys. Inr (VList ys))"
| "redact_sensitive v = Inr v"

text \<open>\<open>redact_sensitive\<close> of a dictionary, at the type of the callers.\<close>

definition redact_dict :: "pydict \<Rightarrow> pydict res" where
  "redact_dict d = bind_res (redact_sensitive (VDict d)) (\<lambda>v. Inr (as_dict v))"

definition state_for_follow_up :: "pydict \<Rightarrow> pydict res" where
  "state_for_follow_up state = bind_res (redact_dict state) (\<lambda>s. Inr (dpop s ''plan''))"

section \<open>The done event\<close>

definition safe_output_path :: "path \<Rightarrow> string \<Rightarrow> path res" where
  "safe_output_path outputs_dir rel =
     bind_res (resolve outputs_dir rel) (\<lambda>candidate.
       if candidate \<noteq> outputs_dir \<and> \<not> strict_prefix outputs_dir candidate
       then raise ValueError (''Invalid output file path: '' @ rel)
       else Inr candidate)"

definition write_output :: "path \<Rightarrow> string \<Rightarrow> string \<Rightarrow> fs \<Rightarrow> unit res \<times> fs" where
  "write_output outputs_dir rel content_b64 f =
     (case safe_output_path outputs_dir rel of
        Inl e \<Rightarrow> (Inl e, f)
      | Inr p \<Rightarrow>
          (case mkdirs (butlast p) f of
             Inl e \<Rightarrow> (Inl e, f)
           | Inr g \<Rightarrow>
               if \<not> list_all (\<lambda>c. code c < 128) content_b64
               then (raise ValueError ''string argument should contain only ASCII characters'', g)
               else (case b64_decode content_b64 of
                       None \<Rightarrow> (raise ValueError (''Invalid base64 content for output file: '' @ rel), g)
                     | Some bytes \<Rightarrow>
                         (case write_bytes p bytes g of
                            Inl e \<Rightarrow> (Inl e, g)
                          | Inr h \<Rightarrow> (Inr (), h)))))"

fun persist_files :: "path \<Rightarrow> pyval list \<Rightarrow> fs \<Rightarrow> unit res \<times> fs" where
  "persist_files outputs_dir [] f = (Inr (), f)"
| "persist_files outputs_dir (VDict item # items) f =
     (case (dget item ''path'', dget item ''content_b64'') of
        (VStr rel, VStr content) \<Rightarrow>
          if rel = [] then persist_files outputs_dir items f
          else (case write_output outputs_dir rel content f of
                  (Inl e, g) \<Rightarrow> (Inl e, g)
                | (Inr _, g) \<Rightarrow> persist_files outputs_dir items g)
      | _ \<Rightarrow> persist_files outputs_dir items f)"
| "persist_files outputs_dir (_ # items) f = persist_files outputs_dir items f"

definition persist_outputs :: "path \<Rightarrow> pydict \<Rightarrow> fs \<Rightarrow> unit res \<times> fs" where
  "persist_outputs outputs_dir event f =
     (case mkdirs outputs_dir f of
        Inl e \<Rightarrow> (Inl e, f)
      | Inr g \<Rightarrow>
          (case dget event ''files'' of
             VList items \<Rightarrow> persist_files outputs_dir items g
           | _ \<Rightarrow> (Inr (), g)))"

definition persist_done_event :: "path \<Rightarrow> string \<Rightarrow> pydict \<Rightarrow> fs \<Rightarrow> pydict option res \<times> fs" where
  "persist_done_event home sid event f =
     (case dget event ''state'' of
        VDict state \<Rightarrow>
          (case redact_dict state of
             Inl e \<Rightarrow> (Inl e, f)
           | Inr redacted \<Rightarrow>
               (case session_create home sid f of
                  (Inl e, f1) \<Rightarrow> (Inl e, f1)
                | (Inr dir, f1) \<Rightarrow>
                    (case session_save dir redacted f1 of
                       (Inl e, f2) \<Rightarrow> (Inl e, f2)
                     | (Inr _, f2) \<Rightarrow>
                         (case persist_outputs (dir @ [''outputs'']) event f2 of
                            (Inl e, f3) \<Rightarrow> (Inl e, f3)
                          | (Inr _, f3) \<Rightarrow> (Inr (Some redacted), f3)))))
      | _ \<Rightarrow> (Inr None, f))"

section \<open>The journal\<close>

text \<open>\<open>xs[-n:]\<close> for \<open>n \<ge> 0\<close>: all of \<open>xs\<close> when \<open>n\<close> is zero.\<close>

definition last_n :: "nat \<Rightarrow> string \<Rightarrow> string" where
  "last_n n xs = (if n = 0 then xs else drop (length xs - n) xs)"

definition journal_line :: "string \<Rightarrow> pydict \<Rightarrow> string res" where
  "journal_line ts event =
     bind_res (redact_dict event) (\<lambda>e.
     bind_res (dumps_sorted (VDict (dict_of [(''ts'', VStr ts), (''event'', VDict e)]))) (\<lambda>t.
     Inr (t @ [newline])))"

text \<open>What the file holds after \<open>line\<close> is appended, oldest lines first to go.\<close>

definition journal_payload :: "nat \<Rightarrow> string \<Rightarrow> string \<Rightarrow> string" where
  "journal_payload max_bytes existing line =
     (let budget = max_bytes - length line
      in (if length existing > budget
          then let kept = last_n budget existing
               in if newline \<in> set kept then after newline kept else []
          else existing) @ line)"

text \<open>
  The whole body stands in \<open>try ... except Exception: return\<close>; \<open>disk_ok\<close> says whether the
  file system accepts the temporary file and its renaming.
\<close>

definition append_session_event_journal ::
    "path \<Rightarrow> string \<Rightarrow> bool \<Rightarrow> string \<Rightarrow> pydict \<Rightarrow> bool \<Rightarrow> int \<Rightarrow> string \<Rightarrow> fs \<Rightarrow> fs" where
  "append_session_event_journal home ts disk_ok sid event enabled max_bytes file_name f =
     (if \<not> enabled \<or> max_bytes \<le> 0 then f
      else
        (case session_create home sid f of
           (Inl _, g) \<Rightarrow> g
         | (Inr dir, g) \<Rightarrow>
             (case journal_line ts event of
                Inl _ \<Rightarrow> g
              | Inr line \<Rightarrow>
                  if int (length line) > max_bytes then g
                  else
                    (case (if g (dir @ [file_name]) = None then Inr []
                           else read_bytes (dir @ [file_name]) g) of
                       Inl _ \<Rightarrow> g
                     | Inr existing \<Rightarrow>
                         if \<not> disk_ok then g
                         else
                           (case write_bytes (dir @ [file_name])
                                   (journal_payload (nat max_bytes) existing line) g of
                              Inl _ \<Rightarrow> g
                            | Inr h \<Rightarrow> h)))))"

section \<open>Redaction hides every sensitive value and nothing else\<close>

datatype step = Key string | Index nat

text \<open>The value at a path into a JSON value.\<close>

fun at_path :: "pyval \<Rightarrow> step list \<Rightarrow> pyval option" where
  "at_path v [] = Some v"
| "at_path (VDict d) (Key k # p) = (case dlookup d k of None \<Rightarrow> None | Some v \<Rightarrow> at_path v p)"
| "at_path (VList xs) (Index i # p) = (if i < length xs then at_path (xs ! i) p else None)"
| "at_path _ _ = None"

fun leaf :: "pyval \<Rightarrow> bool" where
  "leaf (VDict _) = False" | "leaf (VList _) = False" | "leaf _ = True"

definition open_path :: "step list \<Rightarrow> bool" where
  "open_path p = list_all (\<lambda>s. case s of Key k \<Rightarrow> \<not> sensitive_key k | Index _ \<Rightarrow> True) p"

lemma open_path_simps [simp]:
  "open_path []" "open_path (Key k # p) \<longleftrightarrow> \<not> sensitive_key k \<and> open_path p"
  "open_path (Index i # p) \<longleftrightarrow> open_path p"
  by (simp_all add: open_path_def)

text \<open>The result, as a function: on string keys nothing raises.\<close>

fun redacted :: "pyval \<Rightarrow> pyval" where
  "redacted (VDict d) =
     VDict (map (\<lambda>p. (fst p, if sensitive_key (key_text (fst p)) then VStr ''[REDACTED]''
                              else redacted (snd p))) d)"
| "redacted (VList xs) = VList (map redacted xs)"
| "redacted v = v"

lemma redact_sensitive_redacted: "string_keys v \<Longrightarrow> redact_sensitive v = Inr (redacted v)"
proof (induction v)
  case (VList xs)
  then show ?case by (simp add: list_all_iff map_res_Inr)
next
  case (VDict d)
  show ?case
    unfolding redact_sensitive.simps
  proof (subst map_res_Inr)
    fix p assume p: "p \<in> set d"
    then have "key_is_str (fst p)" using VDict.prems by (simp add: list_all_iff)
    then obtain k x where kx: "p = (KStr k, x)"
      by (metis key_is_str.elims(2) prod.collapse)
    have "\<not> sensitive_key k \<Longrightarrow> redact_sensitive x = Inr (redacted x)"
      using VDict p kx by (fastforce simp: list_all_iff snds.simps)
    then show "(case fst p of
            KStr k \<Rightarrow>
              if sensitive_key k then Inr (KStr k, VStr ''[REDACTED]'')
              else bind_res (redact_sensitive (snd p)) (\<lambda>v. Inr (KStr k, v))
          | _ \<Rightarrow> raise AttributeError ''object has no attribute lower'') =
        Inr (fst p, if sensitive_key (key_text (fst p)) then VStr ''[REDACTED]'' else redacted (snd p))"
      using kx by simp
  qed simp
qed simp_all

lemma redact_dict_redacted:
  "string_keys (VDict d) \<Longrightarrow> redact_dict d = Inr (as_dict (redacted (VDict d)))"
  by (simp only: redact_dict_def redact_sensitive_redacted bind_res_simps)

lemma redacted_string_keys: "string_keys v \<Longrightarrow> string_keys (redacted v)"
proof (induction v)
  case (VDict d)
  then show ?case by (fastforce simp: list_all_iff snds.simps)
qed (auto simp: list_all_iff)

lemma redacted_idem: "redacted (redacted v) = redacted v"
proof (induction v)
  case (VDict d)
  then show ?case by (fastforce simp: snds.simps)
qed auto

lemma dlookup_redacted:
  "dlookup (as_dict (redacted (VDict d))) k =
    (if sensitive_key k then map_option (\<lambda>_. VStr ''[REDACTED]'') (dlookup d k)
     else map_option redacted (dlookup d k))"
  by (induction d) (auto simp: dlookup_def)

lemma redacted_leaf: "leaf (redacted v) = leaf v" "leaf v \<Longrightarrow> redacted v = v"
  by (cases v; simp)+

lemma redacted_at_open: "open_path p \<Longrightarrow> at_path (redacted v) p = map_option redacted (at_path v p)"
proof (induction v p rule: at_path.induct)
  case (2 d k p)
  then show ?case
    using dlookup_redacted [of d k] by (simp split: option.split)
qed (simp_all add: open_path_def)

lemma at_path_leaf: "leaf v \<Longrightarrow> at_path v (p @ [s]) = None"
  by (cases v; cases p) auto

lemma redacted_at_sensitive:
  "at_path (redacted v) (p @ [Key k]) = Some x \<Longrightarrow> sensitive_key k \<Longrightarrow> x = VStr ''[REDACTED]''"
proof (induction v p rule: at_path.induct)
  case (1 v)
  then show ?case
    using dlookup_redacted [of "as_dict v" k] by (cases v) (auto split: option.splits)
next
  case (2 d k' p)
  then show ?case
    using dlookup_redacted [of d k']
    by (cases "dlookup d k'") (auto split: if_splits simp: at_path_leaf)
next
  case (3 xs i p)
  then show ?case by (auto split: if_splits)
qed (auto split: if_splits)

text \<open>
  Redaction of an event or a state never raises, applying it twice changes nothing, no
  key that names a credential keeps its value at any depth, and every value that is not
  below such a key is left as it was.
\<close>

theorem redaction_complete:
  assumes "string_keys v"
  shows "\<exists>w. redact_sensitive v = Inr w \<and> redact_sensitive w = Inr w
    \<and> (\<forall>p k x. at_path w (p @ [Key k]) = Some x \<and> sensitive_key k \<longrightarrow> x = VStr ''[REDACTED]'')
    \<and> (\<forall>p x. open_path p \<and> leaf x \<longrightarrow> (at_path w p = Some x \<longleftrightarrow> at_path v p = Some x))"
proof (intro exI conjI allI impI)
  show "redact_sensitive v = Inr (redacted v)"
    by (rule redact_sensitive_redacted [OF assms])
  show "redact_sensitive (redacted v) = Inr (redacted v)"
    using redact_sensitive_redacted [OF redacted_string_keys [OF assms]]
    by (simp add: redacted_idem)
next
  fix p k x
  assume "at_path (redacted v) (p @ [Key k]) = Some x \<and> sensitive_key k"
  then show "x = VStr ''[REDACTED]''" by (auto dest: redacted_at_sensitive)
next
  fix p x assume "open_path p \<and> leaf x"
  then show "at_path (redacted v) p = Some x \<longleftrightarrow> at_path v p = Some x"
    by (auto simp: redacted_at_open redacted_leaf(2)) (metis redacted_leaf)
qed

theorem redaction_complete_witness:
  "\<exists>w. redact_sensitive (VList [VDict (dict_of [(''API_KEY'', VStr ''k''), (''goal'', VStr ''g'')])]) = Inr w
    \<and> at_path w [Index 0, Key ''API_KEY''] \<noteq> Some (VStr ''k'') \<and> at_path w [Index 0, Key ''goal''] = Some (VStr ''g'')"
proof -
  let ?v = "VList [VDict (dict_of [(''API_KEY'', VStr ''k''), (''goal'', VStr ''g'')])]"
  have s: "sensitive_key ''API_KEY''" and o: "open_path [Index 0, Key ''goal'']"
    and v: "string_keys ?v" and g: "at_path ?v [Index 0, Key ''goal''] = Some (VStr ''g'')"
    by code_simp+
  obtain w where w: "redact_sensitive ?v = Inr w"
    and h: "\<And>p k x. at_path w (p @ [Key k]) = Some x \<and> sensitive_key k \<Longrightarrow> x = VStr ''[REDACTED]''"
    and l: "\<And>p x. open_path p \<and> leaf x \<Longrightarrow> (at_path w p = Some x \<longleftrightarrow> at_path ?v p = Some x)"
    using redaction_complete [OF v] by blast
  have "at_path w [Index 0, Key ''API_KEY''] \<noteq> Some (VStr ''k'')"
    using h [of "[Index 0]" "''API_KEY''" "VStr ''k''"] s by auto
  then show ?thesis using w l [of "[Index 0, Key ''goal'']" "VStr ''g''"] o g by auto
qed

section \<open>A done event writes inside its session directory\<close>

lemma safe_output_path_prefix: "safe_output_path d rel = Inr p \<Longrightarrow> prefix d p"
  by (auto simp: safe_output_path_def bind_res_eq_Inr strict_prefix_def split: if_splits)

lemma write_output_outside:
  assumes "write_output d rel file_content f = (r, g)"
  shows "same_outside d f g"
proof (cases "safe_output_path d rel")
  case (Inr p)
  then have d: "prefix d p" by (rule safe_output_path_prefix)
  have parent: "same_outside d f h" if m: "mkdirs (butlast p) f = Inr h" for h
  proof (cases "p = d")
    case True
    then show ?thesis
      using m by (auto simp: same_outside_def mkdirs_def split: if_splits)
        (meson prefixeq_butlast prefix_order.trans)
  next
    case False
    then have "prefix d (butlast p)"
      using d by (metis append_butlast_last_id prefix_snoc prefix_Nil)
    with m show ?thesis by (rule mkdirs_outside)
  qed
  show ?thesis
    using assms Inr d parent
    by (auto simp: write_output_def split: sum.splits if_splits option.splits
        intro: write_bytes_outside same_outside_trans)
qed (use assms in \<open>simp add: write_output_def\<close>)

lemma persist_files_outside: "persist_files d items f = (r, g) \<Longrightarrow> same_outside d f g"
proof (induction d items f arbitrary: r g rule: persist_files.induct)
  case (2 d item items f)
  then show ?case
    by (fastforce split: pyval.splits if_splits prod.splits sum.splits
        dest: write_output_outside intro: same_outside_trans)
qed auto

lemma persist_outputs_outside: "persist_outputs d event f = (r, g) \<Longrightarrow> same_outside d f g"
  by (auto simp: persist_outputs_def split: sum.splits pyval.splits
      dest!: persist_files_outside intro: same_outside_trans mkdirs_outside)

lemma session_create_cases:
  assumes "session_create home sid f = (r, g)"
  obtains (failed) e where "r = Inl e" "g = f"
    | (made) "r = Inr (session_dir home sid)" "mkdirs (session_dir home sid) f = Inr g"
        "validate_session_id sid = Inr ()"
  using assms by (auto simp: session_create_def split: sum.splits)

lemma session_save_outside:
  "session_save d state f = (r, g) \<Longrightarrow> same_outside d f g"
  by (auto simp: session_save_def split: sum.splits intro: mkdirs_outside)
    (meson same_outside_trans mkdirs_outside write_bytes_outside prefix_append_same prefix_order.refl)

lemma session_save_text:
  assumes "session_save d state f = (Inr u, g)"
  shows "\<exists>payload. dumps_pretty_sorted (VDict state) = Inr payload
    \<and> g (d @ [''state.json'']) = Some (File (payload @ [newline]))"
  using assms by (auto simp: session_save_def write_bytes_def split: sum.splits if_splits)

lemma same_outside_sub: "same_outside (d @ e) f g \<Longrightarrow> same_outside d f g"
  unfolding same_outside_def by (meson append_prefixD prefix_same_cases prefix_append_same)

lemma persist_done_facts:
  "same_outside (session_dir home sid) f (snd (persist_done_event home sid event f)) \<and>
   (\<forall>st. fst (persist_done_event home sid event f) = Inr (Some st) \<longrightarrow>
      (\<exists>state payload. dget event ''state'' = VDict state \<and> redact_dict state = Inr st
        \<and> dumps_pretty_sorted (VDict st) = Inr payload
        \<and> snd (persist_done_event home sid event f) (session_dir home sid @ [''state.json''])
            = Some (File (payload @ [newline]))))"
proof (cases "dget event ''state''")
  case (VDict state)
  note ev = VDict
  show ?thesis
  proof (cases "redact_dict state")
    case (Inl e)
    then show ?thesis using ev by (simp add: persist_done_event_def)
  next
    case (Inr red)
    note red = Inr
    let ?d = "session_dir home sid"
    obtain r1 f1 where c: "session_create home sid f = (r1, f1)" by fastforce
    show ?thesis
    using c proof (cases rule: session_create_cases)
      case (failed e)
      then show ?thesis using ev red c by (simp add: persist_done_event_def)
    next
      case made
      obtain r2 f2 where s: "session_save ?d red f1 = (r2, f2)" by fastforce
      have o1: "same_outside ?d f f2"
        using mkdirs_outside [OF made(2) prefix_order.refl] session_save_outside [OF s]
        by (rule same_outside_trans)
      show ?thesis
      proof (cases r2)
        case (Inl e)
        then show ?thesis using ev red c made s o1 by (simp add: persist_done_event_def)
      next
        case (Inr u)
        then obtain payload where t: "dumps_pretty_sorted (VDict red) = Inr payload"
            "f2 (?d @ [''state.json'']) = Some (File (payload @ [newline]))"
          using session_save_text s by blast
        obtain r3 f3 where p: "persist_outputs (?d @ [''outputs'']) event f2 = (r3, f3)" by fastforce
        then have o3: "same_outside (?d @ [''outputs'']) f2 f3" by (rule persist_outputs_outside)
        have "f3 (?d @ [''state.json'']) = Some (File (payload @ [newline]))"
          using o3 t(2) unfolding same_outside_def
          by (auto dest!: spec [of _ "?d @ [''state.json'']"] dest: prefix_length_le)
        moreover have "same_outside ?d f f3"
          using o1 same_outside_sub [OF o3] by (rule same_outside_trans)
        ultimately show ?thesis
          using ev red c made s Inr t p by (auto simp: persist_done_event_def split: sum.splits)
      qed
    qed
  qed
qed (simp_all add: persist_done_event_def)

lemma persist_done_saved:
  assumes "persist_done_event home sid event f = (Inr (Some st), g)"
  obtains state payload where "dget event ''state'' = VDict state" "redact_dict state = Inr st"
    "dumps_pretty_sorted (VDict st) = Inr payload"
    "g (session_dir home sid @ [''state.json'']) = Some (File (payload @ [newline]))"
  using persist_done_facts [of home sid f event] assms by auto

text \<open>
  C20. Whatever a \<open>done\<close> event contains, persisting it changes nothing outside the session's
  own directory, also when it fails halfway. When it succeeds, what it returns is the
  redacted state of the event, and \<open>state.json\<close> holds exactly that state.
\<close>

theorem persist_confined:
  "same_outside (session_dir home sid) f (snd (persist_done_event home sid event f)) \<and>
   (\<forall>st. fst (persist_done_event home sid event f) = Inr (Some st) \<longrightarrow>
      (\<exists>state payload. dget event ''state'' = VDict state \<and> redact_dict state = Inr st
        \<and> dumps_pretty_sorted (VDict st) = Inr payload
        \<and> snd (persist_done_event home sid event f) (session_dir home sid @ [''state.json''])
            = Some (File (payload @ [newline]))))"
  by (rule persist_done_facts)

theorem persist_confined_witness:
  "\<exists>payload. snd (persist_done_event [] ''s1'' (dict_of [(''state'', VDict (dict_of [(''goal'', VStr ''g'')]))])
      Map.empty) [''.strangeclaw'', ''sessions'', ''s1'', ''state.json''] = Some (File (payload @ [newline]))"
proof -
  let ?e = "dict_of [(''state'', VDict (dict_of [(''goal'', VStr ''g'')]))]"
  have "fst (persist_done_event [] ''s1'' ?e Map.empty) = Inr (Some (dict_of [(''goal'', VStr ''g'')]))"
    by code_simp
  then show ?thesis
    using persist_confined [of "[]" "''s1''" Map.empty ?e] by (auto simp: session_dir_def)
qed

section \<open>The journal stays within its bound\<close>

definition whole_lines :: "string \<Rightarrow> bool" where
  "whole_lines s = (s = [] \<or> last s = newline)"

lemma whole_lines_suffix: "whole_lines s \<Longrightarrow> suffix t s \<Longrightarrow> whole_lines t"
  by (cases "t = []") (auto simp: whole_lines_def suffix_def)

lemma suffix_last_n: "suffix (last_n n s) s"
  by (simp add: last_n_def suffix_drop)

lemma suffix_after: "suffix (after c s) s"
  unfolding after_def by (metis suffix_dropWhile suffix_order.trans suffix_tl)

lemma length_after: "c \<in> set s \<Longrightarrow> length (after c s) < length s"
proof -
  assume "c \<in> set s"
  then have "dropWhile (\<lambda>x. x \<noteq> c) s \<noteq> []" by simp
  then show ?thesis
    using length_dropWhile_le [of "\<lambda>x. x \<noteq> c" s] unfolding after_def
    by (cases "dropWhile (\<lambda>x. x \<noteq> c) s") auto
qed

lemma journal_payload_kept:
  "\<exists>kept. journal_payload mb old line = kept @ line \<and> suffix kept old
    \<and> (length line < mb \<longrightarrow> length (kept @ line) \<le> mb)
    \<and> (length old + length line \<le> mb \<longrightarrow> kept = old)"
proof -
  let ?b = "mb - length line"
  let ?kept = "if length old > ?b
     then if newline \<in> set (last_n ?b old) then after newline (last_n ?b old) else [] else old"
  have "suffix ?kept old"
    using suffix_order.trans [OF suffix_after suffix_last_n] by auto
  moreover have "length (?kept @ line) \<le> mb" if "length line < mb"
    using that length_after [of newline "last_n ?b old"] by (auto simp: last_n_def)
  ultimately show ?thesis
    by (intro exI [of _ ?kept]) (auto simp: journal_payload_def Let_def)
qed

lemma sort_keys_exact: "json_exact v \<Longrightarrow> json_exact (sort_keys v) \<and> string_keys v"
proof (induction v)
  case (VDict d)
  let ?d = "map (map_prod id sort_keys) d"
  have "map fst ?d = map fst d" by simp
  then have "distinct (map fst ?d)" using VDict.prems by simp
  then have "distinct (map fst (sort_key (key_text \<circ> fst) ?d))"
    by (simp only: distinct_map distinct_sort set_sort)
  then show ?case using VDict by (fastforce simp: list_all_iff snds.simps)
qed (auto simp: list_all_iff)

lemma redacted_exact: "json_exact v \<Longrightarrow> json_exact (redacted v)"
proof (induction v)
  case (VDict d)
  then show ?case by (fastforce simp: list_all_iff snds.simps comp_def)
qed (auto simp: list_all_iff)

text \<open>One journal entry is one line.\<close>

lemma journal_line_shape:
  assumes "json_exact (VDict event)"
  shows "\<exists>body. journal_line ts event = Inr (body @ [newline]) \<and> newline \<notin> set body"
proof -
  let ?v = "VDict (dict_of [(''ts'', VStr ts), (''event'', redacted (VDict event))])"
  have "json_exact ?v"
    using redacted_exact [OF assms] by (simp add: dict_of_def)
  then have e: "json_exact (sort_keys ?v)" and s: "string_keys ?v"
    using sort_keys_exact by blast+
  have "newline \<notin> set (dumps_default (sort_keys ?v))"
    using json_text_printable [OF e, of "'', ''" "'': ''" newline] newline_not_printable
    by (auto simp: dumps_default_def printable_def code_def)
  moreover have "redact_dict event = Inr (as_dict (redacted (VDict event)))"
    using sort_keys_exact [OF assms] by (intro redact_dict_redacted) simp
  ultimately show ?thesis
    using s by (simp add: journal_line_def dumps_sorted_def)
qed

text \<open>What a regular file holds; nothing where there is none.\<close>

definition file_content :: "fs \<Rightarrow> path \<Rightarrow> string" where
  "file_content f p = (case f p of Some (File b) \<Rightarrow> b | _ \<Rightarrow> [])"

text \<open>
  Appending to the journal keeps it a sequence of whole lines: it ends unchanged, or
  with some of its last lines followed by the line of the new event, without a line break
  of its own; nothing is dropped while the file fits. Unless that line fills the limit
  exactly, the file is then no longer than \<open>max_bytes\<close>. No file outside the session's
  directory changes.
\<close>

theorem journal_bounded:
  assumes "json_exact (VDict event)"
    and "whole_lines (file_content f (session_dir home sid @ [file_name]))"
  shows "let p = session_dir home sid @ [file_name];
      g = append_session_event_journal home ts disk_ok sid event enabled max_bytes file_name f
    in whole_lines (file_content g p) \<and> same_outside (session_dir home sid) f g
      \<and> (file_content g p = file_content f p \<or>
         (\<exists>kept body. journal_line ts event = Inr (body @ [newline]) \<and> newline \<notin> set body
           \<and> file_content g p = kept @ body @ [newline] \<and> suffix kept (file_content f p) \<and> whole_lines kept
           \<and> (int (length (file_content f p) + length body) < max_bytes \<longrightarrow> kept = file_content f p)
           \<and> (int (length body) + 1 \<noteq> max_bytes \<longrightarrow> int (length (file_content g p)) \<le> max_bytes)))"
proof -
  let ?d = "session_dir home sid" and ?p = "session_dir home sid @ [file_name]"
  let ?g = "append_session_event_journal home ts disk_ok sid event enabled max_bytes file_name f"
  obtain body where b: "journal_line ts event = Inr (body @ [newline])" "newline \<notin> set body"
    using journal_line_shape [OF assms(1)] by blast
  obtain r f1 where c: "session_create home sid f = (r, f1)" by fastforce
  then have f1: "same_outside ?d f f1" "file_content f1 ?p = file_content f ?p"
    by (auto elim!: session_create_cases simp: mkdirs_outside mkdirs_def file_content_def
        split: if_splits dest: prefix_length_le)
  have unchanged: ?thesis if "?g = f \<or> ?g = f1"
    using that f1 assms(2) by (auto simp: Let_def)
  show ?thesis
  proof (cases "enabled \<and> max_bytes > 0 \<and> r = Inr ?d \<and> int (length body) < max_bytes
      \<and> f1 ?p \<noteq> Some Dir \<and> disk_ok
      \<and> is_ok (write_bytes ?p (journal_payload (nat max_bytes) (file_content f1 ?p) (body @ [newline])) f1)")
    case True
    then obtain h where h:
        "write_bytes ?p (journal_payload (nat max_bytes) (file_content f1 ?p) (body @ [newline])) f1 = Inr h"
      by (auto simp: is_ok_iff)
    then have g: "?g = h"
      using True c b by (auto simp: append_session_event_journal_def file_content_def read_bytes_def
          split: option.splits node.splits)
    obtain kept where k: "journal_payload (nat max_bytes) (file_content f ?p) (body @ [newline])
          = kept @ body @ [newline]" "suffix kept (file_content f ?p)"
        "Suc (length body) < nat max_bytes \<Longrightarrow> length (kept @ body @ [newline]) \<le> nat max_bytes"
        "length (file_content f ?p) + Suc (length body) \<le> nat max_bytes \<Longrightarrow> kept = file_content f ?p"
      using journal_payload_kept [of "nat max_bytes" "file_content f ?p" "body @ [newline]"] by auto
    have "file_content h ?p = kept @ body @ [newline]"
      using h k(1) f1(2) by (auto simp: write_bytes_def file_content_def split: if_splits)
    moreover have "same_outside ?d f h"
      using f1(1) write_bytes_outside [OF h] same_outside_trans by auto
    moreover have "whole_lines kept" using whole_lines_suffix assms(2) k(2) by blast
    moreover have "int (length body) + 1 \<noteq> max_bytes \<Longrightarrow> int (length (kept @ body @ [newline])) \<le> max_bytes"
      using k(3) True by linarith
    moreover have "int (length (file_content f ?p) + length body) < max_bytes \<Longrightarrow> kept = file_content f ?p"
      using k(4) by simp
    ultimately show ?thesis
      using b k(2) unfolding Let_def g by (auto simp: whole_lines_def)
  next
    case False
    then have "?g = f \<or> ?g = f1"
      using c b by (auto simp: append_session_event_journal_def file_content_def read_bytes_def is_ok_def
          elim: session_create_cases split: option.splits node.splits sum.splits)
    then show ?thesis by (rule unchanged)
  qed
qed

theorem journal_bounded_witness:
  "length (file_content (append_session_event_journal [] ''t'' True ''s1'' (dict_of [(''type'', VStr ''stop'')])
      True 80 ''events.jsonl'' (Map.empty([''.strangeclaw'', ''sessions'', ''s1'', ''events.jsonl''] \<mapsto>
        File (List.replicate 90 (CHR ''x'') @ [newline]))))
      [''.strangeclaw'', ''sessions'', ''s1'', ''events.jsonl'']) \<le> 91"
proof -
  let ?p = "[''.strangeclaw'', ''sessions'', ''s1'', ''events.jsonl'']"
  let ?e = "dict_of [(''type'', VStr ''stop'')]" and ?old = "List.replicate 90 (CHR ''x'') @ [newline]"
  have e: "json_exact (VDict ?e)" by code_simp
  have o: "file_content (Map.empty(?p \<mapsto> File ?old)) ?p = ?old"
    by (simp add: file_content_def)
  have w: "whole_lines (file_content (Map.empty(?p \<mapsto> File ?old)) (session_dir [] ''s1'' @ [''events.jsonl'']))"
    by (simp add: file_content_def session_dir_def whole_lines_def)
  have l: "journal_line ''t'' ?e = Inr (b @ [newline]) \<Longrightarrow> length b + 1 \<noteq> 80" for b
  proof -
    have "(case journal_line ''t'' ?e of Inl _ \<Rightarrow> 0 | Inr l \<Rightarrow> length l) = 39" by code_simp
    then show "journal_line ''t'' ?e = Inr (b @ [newline]) \<Longrightarrow> length b + 1 \<noteq> 80" by simp
  qed
  show ?thesis
    using journal_bounded [OF e w, of "''t''" True True 80] l o
    by (auto simp: Let_def session_dir_def)
qed

end
