(* ===== verification/Coordinator.thy ===== *)
theory Coordinator
  imports Session
begin

text \<open>
  \<open>coordinator.py\<close>: the table of sessions, the workers that relay a sandbox's events, and
  the operations adapters call. Each block under \<open>self._lock\<close> is one function on the state;
  what happens outside the lock (stopping a sandbox, joining a worker) is an operation in
  flight, \<open>ops\<close>, so that other threads can run in between. Workers and sandboxes are
  numbered in the order they are made. A sandbox is what the coordinator sees of one: its
  class and whether it runs; what it answers to a call is an argument of the function that
  makes the call.
\<close>

section \<open>State\<close>

datatype start_status = Started | StartBusy | AtCapacity

record srec =
  worker :: "nat option"
  pending_role :: "string option"
  latest_state :: "pydict option"
  sink :: "nat option"
  sandbox :: "nat option"
  sandbox_stopping :: bool
  last_task_completed_at :: "rat option"

definition new_srec :: srec where
  "new_srec = \<lparr>worker = None, pending_role = None, latest_state = None, sink = None,
     sandbox = None, sandbox_stopping = False, last_task_completed_at = None\<rparr>"

text \<open>
  Where the thread of a worker is: before its first message; at the head of the loop and in
  \<open>receive\<close>; at the head of the loop that waits for the user and in its \<open>get\<close>; past the
  loop and about to call \<open>on_exit\<close>; past \<open>on_exit\<close>; ended.
\<close>

datatype wphase = Starting | Receiving | Polling | Waiting | Getting | Exiting | Leaving | Gone

record sworker =
  w_session :: string
  w_sandbox :: nat
  w_task :: pydict
  w_started :: bool
  w_replies :: "pydict option list"
  w_stop :: bool
  w_phase :: wphase

record box =
  b_session :: string
  b_fire :: bool
  b_up :: bool

datatype op_kind = StopSession | StopAll | Reap | Retire

record stop_op =
  op_kind :: op_kind
  op_session :: string
  op_worker :: "nat option"
  op_box :: "nat option"

record coord =
  recs :: "(string \<times> srec) list"
  workers :: "sworker list"
  boxes :: "box list"
  ops :: "stop_op list"
  to_sandbox :: "(nat \<times> pydict) list"
  disk :: fs
  delivered :: "(nat \<times> pydict) list"

record coord_cfg =
  c_approval_mode :: string
  c_max_active :: "int option"
  c_journal_enabled :: bool
  c_journal_max_bytes :: int
  c_fire_status :: bool
  c_idle_timeout :: int
  c_home :: path

text \<open>The clocks and the disk at one moment.\<close>

record tick =
  t_now :: rat
  t_stamp :: string
  t_disk_ok :: bool

text \<open>
  \<open>Coordinator.__init__\<close>: its checks. A timeout that is a bool is refused, any other number
  from zero up is taken; the journal limit goes through \<open>int\<close>.
\<close>

definition new_coordinator ::
    "path \<Rightarrow> string \<Rightarrow> int option \<Rightarrow> pydict option \<Rightarrow> bool \<Rightarrow> pyval \<Rightarrow> rat \<Rightarrow> coord_cfg res" where
  "new_coordinator home approval_mode max_active journal fire_status idle_timeout reaper_interval =
     (if (case max_active of None \<Rightarrow> False | Some m \<Rightarrow> m \<le> 0)
      then raise ValueError ''max_active_sessions must be positive when set.''
      else
        (case idle_timeout of
           VInt t \<Rightarrow>
             if t < 0
             then raise ValueError ''session_idle_timeout_seconds must be a non-negative integer.''
             else if reaper_interval \<le> 0
             then raise ValueError ''_idle_reaper_interval_seconds must be greater than zero.''
             else
               (let j = (case journal of None \<Rightarrow> [] | Some d \<Rightarrow> d)
                in bind_res (py_int (dget_or j ''max_bytes'' (VInt 1048576))) (\<lambda>mb.
                   Inr \<lparr>c_approval_mode = approval_mode, c_max_active = max_active,
                        c_journal_enabled = truthy (dget_or j ''enabled'' (VBool False)),
                        c_journal_max_bytes = mb, c_fire_status = fire_status,
                        c_idle_timeout = t, c_home = home\<rparr>))
         | _ \<Rightarrow> raise ValueError ''session_idle_timeout_seconds must be a non-negative integer.''))"

definition initial_coord :: "fs \<Rightarrow> coord" where
  "initial_coord d = \<lparr>recs = [], workers = [], boxes = [], ops = [], to_sandbox = [], disk = d, delivered = []\<rparr>"

text \<open>\<open>self._sessions.get\<close>, \<open>setdefault\<close>, and the update of one record.\<close>

definition get_rec :: "coord \<Rightarrow> string \<Rightarrow> srec option" where
  "get_rec st sid = map_of (recs st) sid"

definition rec_of :: "coord \<Rightarrow> string \<Rightarrow> srec" where
  "rec_of st sid = (case get_rec st sid of None \<Rightarrow> new_srec | Some r \<Rightarrow> r)"

definition put_rec :: "string \<Rightarrow> srec \<Rightarrow> coord \<Rightarrow> coord" where
  "put_rec sid r st = st\<lparr>recs := AList.update sid r (recs st)\<rparr>"

definition worker_running :: "coord \<Rightarrow> nat \<Rightarrow> bool" where
  "worker_running st w = (w < length (workers st) \<and> w_phase (workers st ! w) \<noteq> Gone)"

definition box_up :: "coord \<Rightarrow> nat \<Rightarrow> bool" where
  "box_up st b = (b < length (boxes st) \<and> b_up (boxes st ! b))"

definition box_fire :: "coord \<Rightarrow> nat \<Rightarrow> bool" where
  "box_fire st b = (b < length (boxes st) \<and> b_fire (boxes st ! b))"

definition set_box_up :: "bool \<Rightarrow> nat \<Rightarrow> coord \<Rightarrow> coord" where
  "set_box_up u b st =
     (if b < length (boxes st) then st\<lparr>boxes := (boxes st)[b := (boxes st ! b)\<lparr>b_up := u\<rparr>]\<rparr> else st)"

definition map_worker :: "(sworker \<Rightarrow> sworker) \<Rightarrow> nat \<Rightarrow> coord \<Rightarrow> coord" where
  "map_worker f w st =
     (if w < length (workers st) then st\<lparr>workers := (workers st)[w := f (workers st ! w)]\<rparr> else st)"

definition send_to :: "nat \<Rightarrow> pydict \<Rightarrow> coord \<Rightarrow> coord" where
  "send_to b event st = st\<lparr>to_sandbox := to_sandbox st @ [(b, event)]\<rparr>"

section \<open>Capacity\<close>

definition has_running_worker :: "coord \<Rightarrow> srec \<Rightarrow> bool" where
  "has_running_worker st r = (case worker r of None \<Rightarrow> False | Some w \<Rightarrow> worker_running st w)"

definition record_counts_toward_capacity :: "coord \<Rightarrow> srec \<Rightarrow> bool" where
  "record_counts_toward_capacity st r =
     (if sandbox_stopping r then True
      else if has_running_worker st r then True
      else (case sandbox r of
              None \<Rightarrow> False
            | Some b \<Rightarrow> if \<not> box_fire st b then False else box_up st b))"

definition active_session_count :: "coord \<Rightarrow> nat" where
  "active_session_count st = length (filter (\<lambda>p. record_counts_toward_capacity st (snd p)) (recs st))"

section \<open>Events of a worker\<close>

definition seed_state :: "string \<Rightarrow> pydict \<Rightarrow> coord \<Rightarrow> coord" where
  "seed_state sid state st = put_rec sid ((rec_of st sid)\<lparr>latest_state := Some state\<rparr>) st"

text \<open>The role a message leaves pending.\<close>

definition role_after :: "coord_cfg \<Rightarrow> pydict \<Rightarrow> string option \<Rightarrow> string option" where
  "role_after cfg event old =
     (if dget event ''type'' = VStr ''message'' then
        if dget event ''role'' = VStr ''plan'' \<and> c_approval_mode cfg = ''review'' then Some ''plan''
        else if dget event ''role'' = VStr ''clarification'' then Some ''clarification''
        else old
      else old)"

definition deliver :: "string \<Rightarrow> pydict \<Rightarrow> coord \<Rightarrow> coord" where
  "deliver sid event st =
     (case sink (rec_of st sid) of
        None \<Rightarrow> st
      | Some k \<Rightarrow> st\<lparr>delivered := delivered st @ [(k, event)]\<rparr>)"

definition handle_worker_event :: "coord_cfg \<Rightarrow> tick \<Rightarrow> string \<Rightarrow> pydict \<Rightarrow> coord \<Rightarrow> unit res \<times> coord" where
  "handle_worker_event cfg t sid event st =
     (let st1 = st\<lparr>disk := append_session_event_journal (c_home cfg) (t_stamp t) (t_disk_ok t) sid event
                     (c_journal_enabled cfg) (c_journal_max_bytes cfg) ''events.jsonl'' (disk st)\<rparr>;
          r1 = (rec_of st1 sid)\<lparr>pending_role := role_after cfg event (pending_role (rec_of st1 sid))\<rparr>
      in if dget event ''type'' = VStr ''done'' then
           (case persist_done_event (c_home cfg) sid event (disk st1) of
              (Inl e, d) \<Rightarrow>
                (Inl e, (put_rec sid (r1\<lparr>pending_role := None\<rparr>) st1)\<lparr>disk := d\<rparr>)
            | (Inr state, d) \<Rightarrow>
                (Inr (),
                 deliver sid event
                   ((put_rec sid
                      (r1\<lparr>pending_role := None,
                          latest_state := (case state of None \<Rightarrow> latest_state r1 | Some s \<Rightarrow> Some s),
                          last_task_completed_at := Some (t_now t)\<rparr>) st1)\<lparr>disk := d\<rparr>)))
         else (Inr (), deliver sid event (put_rec sid r1 st1)))"

definition status_message :: "string \<Rightarrow> pydict" where
  "status_message content =
     dict_of [(''type'', VStr ''message''), (''role'', VStr ''status''), (''content'', VStr content)]"

definition error_done :: "string \<Rightarrow> pydict" where
  "error_done reply =
     dict_of [(''type'', VStr ''done''), (''success'', VBool False), (''reply'', VStr reply),
              (''state'', VDict []), (''files'', VList [])]"

definition handle_worker_error :: "coord_cfg \<Rightarrow> tick \<Rightarrow> string \<Rightarrow> exn \<Rightarrow> coord \<Rightarrow> unit res \<times> coord" where
  "handle_worker_error cfg t sid error st =
     (let txt = ''Sandbox runtime error: '' @ exn_str error
      in case handle_worker_event cfg t sid (status_message txt) st of
           (Inl e, st1) \<Rightarrow> (Inl e, st1)
         | (Inr _, st1) \<Rightarrow> handle_worker_event cfg t sid (error_done txt) st1)"

definition handle_worker_exit :: "string \<Rightarrow> coord \<Rightarrow> coord" where
  "handle_worker_exit sid st =
     (case get_rec st sid of
        None \<Rightarrow> st
      | Some r \<Rightarrow> put_rec sid (r\<lparr>worker := None, pending_role := None\<rparr>) st)"

section \<open>The worker's thread\<close>

text \<open>What \<open>receive\<close> gives: nothing within its timeout, an event, an exception.\<close>

datatype received = RNothing | REvent pydict | RFailure exn

definition set_phase :: "wphase \<Rightarrow> nat \<Rightarrow> coord \<Rightarrow> coord" where
  "set_phase ph w st = map_worker (\<lambda>k. k\<lparr>w_phase := ph\<rparr>) w st"

text \<open>An exception in the loop: \<open>on_error\<close>, then \<open>finally\<close>, also when \<open>on_error\<close> raises.\<close>

definition worker_failed :: "coord_cfg \<Rightarrow> tick \<Rightarrow> exn \<Rightarrow> nat \<Rightarrow> coord \<Rightarrow> coord" where
  "worker_failed cfg t e w st =
     set_phase Exiting w (snd (handle_worker_error cfg t (w_session (workers st ! w)) e st))"

text \<open>\<open>on_event\<close>, and the phase after it when it does not raise.\<close>

definition worker_emit :: "coord_cfg \<Rightarrow> tick \<Rightarrow> pydict \<Rightarrow> wphase \<Rightarrow> nat \<Rightarrow> coord \<Rightarrow> coord" where
  "worker_emit cfg t event ph w st =
     (case handle_worker_event cfg t (w_session (workers st ! w)) event st of
        (Inl e, st1) \<Rightarrow> worker_failed cfg t e w st1
      | (Inr _, st1) \<Rightarrow> set_phase ph w st1)"

text \<open>Whether the loop waits for the user after an event.\<close>

definition waits_after :: "pydict \<Rightarrow> pydict \<Rightarrow> bool" where
  "waits_after task event =
     (dget event ''type'' = VStr ''message''
      \<and> (dget event ''role'' = VStr ''plan'' \<and> dget task ''approval_mode'' = VStr ''review''
         \<or> dget event ''role'' = VStr ''clarification''))"

definition receive_step :: "coord_cfg \<Rightarrow> tick \<Rightarrow> received \<Rightarrow> nat \<Rightarrow> coord \<Rightarrow> coord" where
  "receive_step cfg t rcv w st =
     (case rcv of
        RNothing \<Rightarrow> set_phase Receiving w st
      | RFailure e \<Rightarrow> worker_failed cfg t e w st
      | REvent event \<Rightarrow>
          worker_emit cfg t event
            (if dget event ''type'' = VStr ''done'' then Exiting
             else if waits_after (w_task (workers st ! w)) event then Waiting
             else Receiving) w st)"

text \<open>\<open>while not self._stop_event.is_set()\<close>\<close>

definition check_stop :: "wphase \<Rightarrow> nat \<Rightarrow> coord \<Rightarrow> coord" where
  "check_stop ph w st = set_phase (if w_stop (workers st ! w) then Exiting else ph) w st"

definition user_reply :: "pydict \<Rightarrow> pydict" where
  "user_reply reply = dmerge (dict_of [(''type'', VStr ''user_reply'')]) reply"

definition wait_step :: "coord_cfg \<Rightarrow> tick \<Rightarrow> unit res \<Rightarrow> nat \<Rightarrow> coord \<Rightarrow> coord" where
  "wait_step cfg t sent w st =
     (case w_replies (workers st ! w) of
        [] \<Rightarrow> set_phase Waiting w st
      | None # rest \<Rightarrow> map_worker (\<lambda>k. k\<lparr>w_replies := rest, w_phase := Exiting\<rparr>) w st
      | Some reply # rest \<Rightarrow>
          (let st1 = map_worker (\<lambda>k. k\<lparr>w_replies := rest\<rparr>) w st
           in case sent of
                Inl e \<Rightarrow> worker_failed cfg t e w st1
              | Inr _ \<Rightarrow>
                  set_phase Receiving w (send_to (w_sandbox (workers st ! w)) (user_reply reply) st1)))"

definition emit_fire_status_message :: "coord_cfg \<Rightarrow> tick \<Rightarrow> string \<Rightarrow> nat \<Rightarrow> coord \<Rightarrow> coord" where
  "emit_fire_status_message cfg t txt w st =
     (if \<not> c_fire_status cfg then set_phase Receiving w st
      else if \<not> box_fire st (w_sandbox (workers st ! w)) then set_phase Receiving w st
      else worker_emit cfg t (status_message txt) Receiving w st)"

text \<open>One turn of the thread \<open>w\<close>.\<close>

definition worker_step :: "coord_cfg \<Rightarrow> tick \<Rightarrow> received \<Rightarrow> unit res \<Rightarrow> nat \<Rightarrow> coord \<Rightarrow> coord" where
  "worker_step cfg t rcv sent w st =
     (if w < length (workers st) then
        (case w_phase (workers st ! w) of
           Starting \<Rightarrow>
             if w_started (workers st ! w)
             then emit_fire_status_message cfg t ''Firecracker sandbox started successfully.'' w st
             else set_phase Receiving w st
         | Receiving \<Rightarrow> check_stop Polling w st
         | Polling \<Rightarrow> receive_step cfg t rcv w st
         | Waiting \<Rightarrow> check_stop Getting w st
         | Getting \<Rightarrow> wait_step cfg t sent w st
         | Exiting \<Rightarrow> set_phase Leaving w (handle_worker_exit (w_session (workers st ! w)) st)
         | Leaving \<Rightarrow> set_phase Gone w st
         | Gone \<Rightarrow> st)
      else st)"

section \<open>Starting a task\<close>

text \<open>
  What the sandbox answers while a task starts: the factory and \<open>start\<close> (for a new one, of
  class \<open>FireSandbox\<close> or not), \<open>send_task\<close>, and the start of the worker's thread.
\<close>

record launch =
  l_factory :: "unit res"
  l_start :: "unit res"
  l_fire :: bool
  l_send :: "unit res"
  l_thread :: "unit res"

definition task_event :: "coord_cfg \<Rightarrow> string \<Rightarrow> string \<Rightarrow> pydict option \<Rightarrow> pydict res" where
  "task_event cfg sid txt state =
     (let task = dict_of [(''type'', VStr ''task''), (''text'', VStr (strip txt)),
                          (''session_id'', VStr sid), (''approval_mode'', VStr (c_approval_mode cfg))]
      in case state of
           None \<Rightarrow> Inr task
         | Some s \<Rightarrow> bind_res (state_for_follow_up s) (\<lambda>n. Inr (dset task ''state'' (VDict n))))"

text \<open>\<open>sandbox_factory()\<close> and \<open>sandbox.start(...)\<close>: the number of the sandbox that runs.\<close>

definition launch_sandbox :: "string \<Rightarrow> launch \<Rightarrow> coord \<Rightarrow> nat res \<times> coord" where
  "launch_sandbox sid l st =
     (case l_factory l of
        Inl e \<Rightarrow> (Inl e, st)
      | Inr _ \<Rightarrow>
          (let b = length (boxes st)
           in case l_start l of
                Inl e \<Rightarrow> (Inl e, st\<lparr>boxes := boxes st @ [\<lparr>b_session = sid, b_fire = l_fire l, b_up = False\<rparr>]\<rparr>)
              | Inr _ \<Rightarrow> (Inr b, st\<lparr>boxes := boxes st @ [\<lparr>b_session = sid, b_fire = l_fire l, b_up = True\<rparr>]\<rparr>)))"

text \<open>\<open>_SessionWorker(...)\<close> and \<open>worker.start()\<close>\<close>

definition spawn_worker :: "string \<Rightarrow> nat \<Rightarrow> pydict \<Rightarrow> bool \<Rightarrow> coord \<Rightarrow> coord" where
  "spawn_worker sid b task started st =
     st\<lparr>workers := workers st @ [\<lparr>w_session = sid, w_sandbox = b, w_task = task, w_started = started,
                                   w_replies = [], w_stop = False, w_phase = Starting\<rparr>]\<rparr>"

text \<open>
  The \<open>except\<close> branch: a sandbox started for this task is stopped and forgotten, and no
  worker is registered.
\<close>

definition undo_start :: "string \<Rightarrow> nat option \<Rightarrow> coord \<Rightarrow> coord" where
  "undo_start sid fresh st =
     (let st1 = (case fresh of None \<Rightarrow> st | Some b \<Rightarrow> set_box_up False b st);
          r = rec_of st1 sid
      in put_rec sid
           (r\<lparr>sandbox := (if fresh \<noteq> None \<and> sandbox r = fresh then None else sandbox r),
              worker := None, pending_role := None\<rparr>) st1)"

text \<open>The block under the lock, once no check refuses the task.\<close>

definition run_task :: "string \<Rightarrow> pydict \<Rightarrow> launch \<Rightarrow> coord \<Rightarrow> exn option \<times> coord" where
  "run_task sid task l st =
     (let old = sandbox (rec_of st sid);
          fresh = (case old of None \<Rightarrow> True | Some b \<Rightarrow> \<not> box_up st b)
      in case (if fresh then launch_sandbox sid l st else (Inr (the old), st)) of
           (Inl e, st1) \<Rightarrow> (Some e, undo_start sid None st1)
         | (Inr b, st1) \<Rightarrow>
             (let st2 = (if fresh then put_rec sid ((rec_of st1 sid)\<lparr>sandbox := Some b\<rparr>) st1 else st1);
                  undo = (if fresh then Some b else None)
              in case l_send l of
                   Inl e \<Rightarrow> (Some e, undo_start sid undo st2)
                 | Inr _ \<Rightarrow>
                     (case l_thread l of
                        Inl e \<Rightarrow> (Some e, undo_start sid undo (send_to b task st2))
                      | Inr _ \<Rightarrow>
                          (None,
                           put_rec sid ((rec_of st2 sid)\<lparr>worker := Some (length (workers st2)), pending_role := None\<rparr>)
                             (spawn_worker sid b task fresh (send_to b task st2))))))"

text \<open>
  The block under the lock. The second component is the exception the block caught, which
  \<open>start_task\<close> reports after it has left the lock; \<open>Inl\<close> is an exception that leaves it.
\<close>

definition start_locked ::
    "coord_cfg \<Rightarrow> string \<Rightarrow> string \<Rightarrow> nat \<Rightarrow> launch \<Rightarrow> coord \<Rightarrow> (start_status \<times> exn option) res \<times> coord" where
  "start_locked cfg sid txt snk l st =
     (let r = rec_of st sid; st0 = put_rec sid r st
      in if has_running_worker st0 r then (Inr (StartBusy, None), st0)
         else if sandbox_stopping r then (Inr (StartBusy, None), st0)
         else if (case c_max_active cfg of
                    None \<Rightarrow> False
                  | Some m \<Rightarrow> int (active_session_count st0) \<ge> m \<and> \<not> record_counts_toward_capacity st0 r)
         then (Inr (AtCapacity, None), st0)
         else
           (case task_event cfg sid txt (latest_state r) of
              Inl e \<Rightarrow> (Inl e, st0)
            | Inr task \<Rightarrow>
                (case run_task sid task l (put_rec sid (r\<lparr>sink := Some snk\<rparr>) st0) of
                   (err, st1) \<Rightarrow> (Inr (Started, err), st1))))"

section \<open>Replies\<close>

definition pending_role_of :: "string \<Rightarrow> coord \<Rightarrow> string option" where
  "pending_role_of sid st = (case get_rec st sid of None \<Rightarrow> None | Some r \<Rightarrow> pending_role r)"

definition submit_reply :: "string \<Rightarrow> bool \<Rightarrow> string \<Rightarrow> coord \<Rightarrow> bool \<times> coord" where
  "submit_reply sid approved txt st =
     (case get_rec st sid of
        None \<Rightarrow> (False, st)
      | Some r \<Rightarrow>
          (case (worker r, pending_role r) of
             (Some w, Some _) \<Rightarrow>
               (True,
                map_worker (\<lambda>k. k\<lparr>w_replies := w_replies k @
                    [Some (dict_of [(''approved'', VBool approved), (''text'', VStr txt)])]\<rparr>) w
                  (put_rec sid (r\<lparr>pending_role := None\<rparr>) st))
           | _ \<Rightarrow> (False, st)))"

section \<open>Stopping\<close>

text \<open>
  \<open>worker.stop()\<close> up to the join. A \<open>send\<close> that raises is ignored; the log then holds an
  event that did not arrive.
\<close>

definition worker_stop :: "nat \<Rightarrow> coord \<Rightarrow> coord" where
  "worker_stop w st =
     (if w < length (workers st)
      then send_to (w_sandbox (workers st ! w)) (dict_of [(''type'', VStr ''stop'')])
             (map_worker (\<lambda>k. k\<lparr>w_stop := True, w_replies := w_replies k @ [None]\<rparr>) w st)
      else st)"

definition begin_op :: "stop_op \<Rightarrow> coord \<Rightarrow> coord" where
  "begin_op p st = st\<lparr>ops := ops st @ [p]\<rparr>"

definition stop_session_begin :: "string \<Rightarrow> coord \<Rightarrow> coord" where
  "stop_session_begin sid st =
     (case get_rec st sid of
        None \<Rightarrow> st
      | Some r \<Rightarrow>
          begin_op \<lparr>op_kind = StopSession, op_session = sid, op_worker = worker r, op_box = sandbox r\<rparr>
            (put_rec sid
              (r\<lparr>pending_role := None, worker := None,
                 sandbox_stopping := (sandbox r \<noteq> None \<or> sandbox_stopping r),
                 last_task_completed_at := None\<rparr>) st))"

text \<open>
  What ends an operation, under the lock again: the sandbox it stopped is forgotten, if it
  is still the session's, and the session may start again. \<open>stop_all\<close> does so only for the
  sessions that had a sandbox.
\<close>

definition finish_op :: "stop_op \<Rightarrow> coord \<Rightarrow> coord" where
  "finish_op p st =
     (let st1 = st\<lparr>ops := remove1 p (ops st)\<rparr>
      in if op_kind p = StopAll \<and> op_box p = None then st1
         else
           (case get_rec st1 (op_session p) of
              None \<Rightarrow> st1
            | Some r \<Rightarrow>
                put_rec (op_session p)
                  (r\<lparr>sandbox := (if sandbox r = op_box p then None else sandbox r),
                     sandbox_stopping := False\<rparr>) st1))"

fun stop_all_records :: "(string \<times> srec) list \<Rightarrow> (string \<times> srec) list \<times> stop_op list" where
  "stop_all_records [] = ([], [])"
| "stop_all_records ((sid, r) # rs) =
     (case stop_all_records rs of
        (rs', ps) \<Rightarrow>
          ((sid, r\<lparr>worker := None, sandbox_stopping := (sandbox r \<noteq> None \<or> sandbox_stopping r),
                   pending_role := None, last_task_completed_at := None\<rparr>) # rs',
           (if worker r = None \<and> sandbox r = None then ps
            else \<lparr>op_kind = StopAll, op_session = sid, op_worker = worker r, op_box = sandbox r\<rparr> # ps)))"

definition stop_all_begin :: "coord \<Rightarrow> coord" where
  "stop_all_begin st =
     (case stop_all_records (recs st) of (rs, ps) \<Rightarrow> st\<lparr>recs := rs, ops := ops st @ ps\<rparr>)"

text \<open>One round of the idle reaper, under the lock.\<close>

definition reap_now :: "coord_cfg \<Rightarrow> rat \<Rightarrow> coord \<Rightarrow> srec \<Rightarrow> bool" where
  "reap_now cfg now st r =
     (case sandbox r of
        None \<Rightarrow> False
      | Some b \<Rightarrow>
          \<not> sandbox_stopping r \<and> box_up st b \<and> \<not> has_running_worker st r \<and>
          (case last_task_completed_at r of
             None \<Rightarrow> False
           | Some done_at \<Rightarrow> \<not> now - done_at \<le> of_int (c_idle_timeout cfg)))"

fun reap_records ::
    "coord_cfg \<Rightarrow> rat \<Rightarrow> coord \<Rightarrow> (string \<times> srec) list \<Rightarrow> (string \<times> srec) list \<times> stop_op list" where
  "reap_records cfg now st [] = ([], [])"
| "reap_records cfg now st ((sid, r) # rs) =
     (case reap_records cfg now st rs of
        (rs', ps) \<Rightarrow>
          if reap_now cfg now st r
          then ((sid, r\<lparr>sandbox_stopping := True, last_task_completed_at := None\<rparr>) # rs',
                \<lparr>op_kind = Reap, op_session = sid, op_worker = None, op_box = sandbox r\<rparr> # ps)
          else ((sid, r) # rs', ps))"

definition reap_begin :: "coord_cfg \<Rightarrow> rat \<Rightarrow> coord \<Rightarrow> coord" where
  "reap_begin cfg now st =
     (if c_idle_timeout cfg = 0 then st
      else (case reap_records cfg now st (recs st) of
              (rs, ps) \<Rightarrow> st\<lparr>recs := rs, ops := ops st @ ps\<rparr>))"

text \<open>\<open>_retire_stale_sandbox\<close>: the sandbox of a session that no longer runs.\<close>

definition retire_begin :: "string \<Rightarrow> coord \<Rightarrow> coord" where
  "retire_begin sid st =
     (case get_rec st sid of
        None \<Rightarrow> st
      | Some r \<Rightarrow>
          if sandbox_stopping r then st
          else (case sandbox r of
                  None \<Rightarrow> st
                | Some b \<Rightarrow>
                    if box_up st b then st
                    else begin_op \<lparr>op_kind = Retire, op_session = sid, op_worker = None, op_box = Some b\<rparr>
                           (put_rec sid (r\<lparr>sandbox_stopping := True\<rparr>) st)))"

section \<open>Whole calls\<close>

text \<open>
  What an operation in flight does outside the lock: the worker is told to stop, the
  sandbox is stopped. \<open>stops\<close> says whether \<open>sandbox.stop()\<close> ends the sandbox or raises.
\<close>

definition op_outside :: "bool \<Rightarrow> stop_op \<Rightarrow> coord \<Rightarrow> coord" where
  "op_outside stops p st =
     (let st1 = (case op_worker p of None \<Rightarrow> st | Some w \<Rightarrow> worker_stop w st)
      in case op_box p of None \<Rightarrow> st1 | Some b \<Rightarrow> if stops then set_box_up False b st1 else st1)"

definition complete_op :: "bool \<Rightarrow> stop_op \<Rightarrow> coord \<Rightarrow> coord" where
  "complete_op stops p st = finish_op p (op_outside stops p st)"

definition complete_new_ops :: "bool \<Rightarrow> coord \<Rightarrow> coord \<Rightarrow> coord" where
  "complete_new_ops stops before_st st = fold (complete_op stops) (drop (length (ops before_st)) (ops st)) st"

definition retire_stale_sandbox :: "bool \<Rightarrow> string \<Rightarrow> coord \<Rightarrow> coord" where
  "retire_stale_sandbox stops sid st = complete_new_ops stops st (retire_begin sid st)"

definition stop_session :: "bool \<Rightarrow> string \<Rightarrow> coord \<Rightarrow> coord" where
  "stop_session stops sid st = complete_new_ops stops st (stop_session_begin sid st)"

definition stop_all :: "bool \<Rightarrow> coord \<Rightarrow> coord" where
  "stop_all stops st = complete_new_ops stops st (stop_all_begin st)"

definition start_task ::
    "coord_cfg \<Rightarrow> tick \<Rightarrow> bool \<Rightarrow> string \<Rightarrow> string \<Rightarrow> nat \<Rightarrow> launch \<Rightarrow> coord \<Rightarrow> start_status res \<times> coord" where
  "start_task cfg t stops sid txt snk l st =
     (if strip txt = [] then (raise ValueError ''Task text cannot be empty.'', st)
      else
        (case start_locked cfg sid txt snk l (retire_stale_sandbox stops sid st) of
           (Inl e, st1) \<Rightarrow> (Inl e, st1)
         | (Inr (status, None), st1) \<Rightarrow> (Inr status, st1)
         | (Inr (status, Some e), st1) \<Rightarrow>
             (case handle_worker_error cfg t sid e st1 of
                (Inl e', st2) \<Rightarrow> (Inl e', st2)
              | (Inr _, st2) \<Rightarrow> (Inr Started, st2))))"

section \<open>The task a session is resumed with\<close>

lemma follow_up_redacted:
  "string_keys (VDict s) \<Longrightarrow> state_for_follow_up s = Inr (dpop (as_dict (redacted (VDict s))) ''plan'')"
  by (simp add: state_for_follow_up_def redact_dict_redacted del: redacted.simps)

lemma redacted_dpop: "as_dict (redacted (VDict (dpop d k))) = dpop (as_dict (redacted (VDict d))) k"
  by (induction d) (auto simp: dpop_def)

lemma string_keys_dpop: "string_keys (VDict d) \<Longrightarrow> string_keys (VDict (dpop d k))"
  by (induction d) (auto simp: dpop_def)

text \<open>
  The task that resumes a session is a valid protocol event. It carries the saved state
  with every credential redacted and without its plan, so that the agent plans again; all
  else is the saved value.
\<close>

theorem follow_up_task:
  assumes "string_keys (VDict s)"
  shows "\<exists>task n. task_event cfg sid tx (Some s) = Inr task \<and> validate_event task = Inr ()
    \<and> dget task ''text'' = VStr (strip tx) \<and> dget task ''state'' = VDict n
    \<and> \<not> dhas n ''plan'' \<and> redact_dict n = Inr n
    \<and> (\<forall>k. k \<noteq> ''plan'' \<and> \<not> sensitive_key k \<longrightarrow> dlookup n k = map_option redacted (dlookup s k))"
proof -
  define m where "m = as_dict (redacted (VDict s))"
  let ?n = "dpop m ''plan''"
  have m: "redacted (VDict s) = VDict m" by (simp add: m_def)
  have sk: "string_keys (VDict ?n)"
    using redacted_string_keys [OF assms] unfolding m by (rule string_keys_dpop)
  have "as_dict (redacted (VDict ?n)) = ?n"
    using redacted_idem [of "VDict s"] unfolding redacted_dpop m by simp
  then have "redact_dict ?n = Inr ?n" using redact_dict_redacted [OF sk] by (simp only:)
  moreover have "\<forall>k. k \<noteq> ''plan'' \<and> \<not> sensitive_key k \<longrightarrow> dlookup ?n k = map_option redacted (dlookup s k)"
    using dlookup_redacted [of s] by (simp add: m_def)
  moreover define task where "task = dset (dict_of [(''type'', VStr ''task''), (''text'', VStr (strip tx)),
      (''session_id'', VStr sid), (''approval_mode'', VStr (c_approval_mode cfg))]) ''state'' (VDict ?n)"
  have "task_event cfg sid tx (Some s) = Inr task"
    using follow_up_redacted [OF assms] unfolding m by (simp add: task_event_def task_def Let_def)
  moreover have "validate_event task = Inr () \<and> dget task ''text'' = VStr (strip tx) \<and> dget task ''state'' = VDict ?n"
    unfolding task_def by (simp add: validate_event_def validate_task_def require_str_def EVENT_TYPES_def)
  moreover have "\<not> dhas ?n ''plan''" by (simp add: dhas_def)
  ultimately show ?thesis
    using \<open>redact_dict ?n = Inr ?n\<close> by blast
qed

theorem follow_up_task_witness:
  "\<exists>task n. task_event \<lparr>c_approval_mode = ''auto'', c_max_active = None, c_journal_enabled = False,
      c_journal_max_bytes = 0, c_fire_status = False, c_idle_timeout = 0, c_home = []\<rparr> ''s'' ''more''
      (Some (dict_of [(''plan'', VStr ''p''), (''goal'', VStr ''g'')])) = Inr task
    \<and> dget task ''state'' = VDict n \<and> dlookup n ''goal'' = Some (VStr ''g'')"
proof -
  have "string_keys (VDict (dict_of [(''plan'', VStr ''p''), (''goal'', VStr ''g'')]))"
    and g: "\<not> sensitive_key ''goal''" by code_simp+
  from follow_up_task [OF this(1), of "\<lparr>c_approval_mode = ''auto'', c_max_active = None, c_journal_enabled = False,
      c_journal_max_bytes = 0, c_fire_status = False, c_idle_timeout = 0, c_home = []\<rparr>" "''s''" "''more''"] g
  obtain task n where "task_event \<lparr>c_approval_mode = ''auto'', c_max_active = None, c_journal_enabled = False,
      c_journal_max_bytes = 0, c_fire_status = False, c_idle_timeout = 0, c_home = []\<rparr> ''s'' ''more''
      (Some (dict_of [(''plan'', VStr ''p''), (''goal'', VStr ''g'')])) = Inr task"
    and "dget task ''state'' = VDict n" and "\<forall>k. k \<noteq> ''plan'' \<and> \<not> sensitive_key k \<longrightarrow>
      dlookup n k = map_option redacted (dlookup (dict_of [(''plan'', VStr ''p''), (''goal'', VStr ''g'')]) k)"
    by blast
  moreover from this(3) g have "dlookup n ''goal'' = Some (VStr ''g'')" by simp
  ultimately show ?thesis by blast
qed

text \<open>
  A runtime error of the sandbox, and any exception while an event is persisted, overwrites
  the session's saved state: when the disk accepts it, both the record and \<open>state.json\<close> then
  hold the empty state, whatever was saved before.
\<close>

theorem worker_error_erases_state:
  assumes "handle_worker_error cfg t sid e st = (Inr u, st')"
  shows "latest_state (rec_of st' sid) = Some []
    \<and> disk st' (session_dir (c_home cfg) sid @ [''state.json'']) = Some (File (''{}'' @ [newline]))"
proof -
  let ?x = "''Sandbox runtime error: '' @ exn_str e"
  obtain r1 st1 where m: "handle_worker_event cfg t sid (status_message ?x) st = (r1, st1)" by fastforce
  with assms have d: "handle_worker_event cfg t sid (error_done ?x) st1 = (Inr u, st')"
    by (auto simp: handle_worker_error_def Let_def split: sum.splits)
  let ?f = "append_session_event_journal (c_home cfg) (t_stamp t) (t_disk_ok t) sid (error_done ?x)
      (c_journal_enabled cfg) (c_journal_max_bytes cfg) ''events.jsonl'' (disk st1)"
  obtain st'' f' where p: "persist_done_event (c_home cfg) sid (error_done ?x) ?f = (Inr st'', f')"
    using d by (auto simp: handle_worker_event_def Let_def error_done_def split: prod.splits sum.splits)
  have empty: "dumps_pretty_sorted (VDict []) = Inr ''{}''" by code_simp
  have st: "st'' = Some []"
    using p by (auto simp: persist_done_event_def error_done_def redact_dict_def split: prod.splits sum.splits)
  then have s: "f' (session_dir (c_home cfg) sid @ [''state.json'']) = Some (File (''{}'' @ [newline]))"
    using p empty by (auto elim: persist_done_saved)
  show ?thesis
    using d p s st
    by (auto simp: handle_worker_event_def Let_def error_done_def deliver_def put_rec_def rec_of_def get_rec_def
        update_conv' split: option.splits)
qed

theorem worker_error_erases_state_witness:
  "let cfg = \<lparr>c_approval_mode = ''auto'', c_max_active = None, c_journal_enabled = False,
      c_journal_max_bytes = 0, c_fire_status = False, c_idle_timeout = 0, c_home = []\<rparr>;
     st = seed_state ''s'' (dict_of [(''goal'', VStr ''g'')]) (initial_coord Map.empty)
   in latest_state (rec_of (snd (handle_worker_error cfg \<lparr>t_now = 0, t_stamp = [], t_disk_ok = True\<rparr> ''s''
       (Exn RuntimeError ''gone'') st)) ''s'') = Some []"
proof -
  let ?cfg = "\<lparr>c_approval_mode = ''auto'', c_max_active = None, c_journal_enabled = False,
      c_journal_max_bytes = 0, c_fire_status = False, c_idle_timeout = 0, c_home = []\<rparr>"
  let ?st = "seed_state ''s'' (dict_of [(''goal'', VStr ''g'')]) (initial_coord Map.empty)"
  let ?run = "handle_worker_error ?cfg \<lparr>t_now = 0, t_stamp = [], t_disk_ok = True\<rparr> ''s''
       (Exn RuntimeError ''gone'') ?st"
  have "fst ?run = Inr ()" by code_simp
  then have "?run = (Inr (), snd ?run)" by (metis prod.collapse)
  then show ?thesis using worker_error_erases_state by (metis (no_types))
qed

end
