(* ===== verification/CoordinatorSafety.thy ===== *)
theory CoordinatorSafety
  imports Coordinator
begin

text \<open>
  The coordinator under every interleaving of its locked blocks: a step relation over the
  operations of \<open>Coordinator\<close>, and what holds in every reachable state.
\<close>

section \<open>Steps\<close>

text \<open>
  \<open>start_task\<close> without its retirement of a dead sandbox, which is an operation in flight
  of its own.
\<close>

definition start_and_report ::
    "coord_cfg \<Rightarrow> tick \<Rightarrow> string \<Rightarrow> string \<Rightarrow> nat \<Rightarrow> launch \<Rightarrow> coord \<Rightarrow> coord" where
  "start_and_report cfg t sid txt snk l st =
     (case start_locked cfg sid txt snk l st of
        (Inr (_, Some e), st1) \<Rightarrow> snd (handle_worker_error cfg t sid e st1)
      | (_, st1) \<Rightarrow> st1)"

text \<open>No call of the session's own adapter is in flight; the reaper may be.\<close>

definition adapter_idle :: "coord \<Rightarrow> string \<Rightarrow> bool" where
  "adapter_idle st sid = list_all (\<lambda>p. op_session p = sid \<longrightarrow> op_kind p = Reap) (ops st)"

definition op_joined :: "coord \<Rightarrow> stop_op \<Rightarrow> bool" where
  "op_joined st p = (case op_worker p of None \<Rightarrow> True | Some w \<Rightarrow> \<not> worker_running st w)"

text \<open>
  An adapter calls for one session at a time. \<open>late\<close> allows the join of a stopped worker
  to time out, so that the operation ends while the thread still runs.
\<close>

inductive coord_step :: "bool \<Rightarrow> coord_cfg \<Rightarrow> coord \<Rightarrow> coord \<Rightarrow> bool" for late cfg where
  start: "adapter_idle st sid \<Longrightarrow> coord_step late cfg st (start_and_report cfg t sid txt snk l st)"
| retire: "adapter_idle st sid \<Longrightarrow> coord_step late cfg st (retire_begin sid st)"
| stop: "adapter_idle st sid \<Longrightarrow> coord_step late cfg st (stop_session_begin sid st)"
| stop_all: "(\<And>sid. adapter_idle st sid) \<Longrightarrow> coord_step late cfg st (stop_all_begin st)"
| reap: "coord_step late cfg st (reap_begin cfg now st)"
| reply: "coord_step late cfg st (snd (submit_reply sid approved txt st))"
| seed: "coord_step late cfg st (seed_state sid state st)"
| work: "coord_step late cfg st (worker_step cfg t rcv sent w st)"
| outside: "p \<in> set (ops st) \<Longrightarrow> coord_step late cfg st (op_outside stops p st)"
| finish: "p \<in> set (ops st) \<Longrightarrow> late \<or> op_joined st p \<Longrightarrow> coord_step late cfg st (finish_op p st)"
| crash: "coord_step late cfg st (set_box_up False b st)"

inductive reachable :: "bool \<Rightarrow> coord_cfg \<Rightarrow> coord \<Rightarrow> bool" for late cfg where
  init: "reachable late cfg (initial_coord d)"
| step: "reachable late cfg st \<Longrightarrow> coord_step late cfg st st' \<Longrightarrow> reachable late cfg st'"

section \<open>What the operations leave alone\<close>

lemma rec_of_put [simp]: "rec_of (put_rec sid r st) s = (if s = sid then r else rec_of st s)"
  by (simp add: rec_of_def get_rec_def put_rec_def update_conv')

lemma get_rec_put [simp]: "get_rec (put_rec sid r st) = (get_rec st)(sid \<mapsto> r)"
  by (simp add: get_rec_def put_rec_def update_conv' fun_eq_iff)

lemma put_rec_fields [simp]:
  "workers (put_rec sid r st) = workers st" "boxes (put_rec sid r st) = boxes st"
  "ops (put_rec sid r st) = ops st"
  by (simp_all add: put_rec_def)

lemma put_rec_running [simp]:
  "worker_running (put_rec sid r st) = worker_running st" "box_up (put_rec sid r st) = box_up st"
  "box_fire (put_rec sid r st) = box_fire st"
  by (simp_all add: fun_eq_iff worker_running_def box_up_def box_fire_def)

text \<open>Updates of the other fields, as seen through the views on records.\<close>

lemma view_update [simp]:
  "get_rec (st\<lparr>workers := ws\<rparr>) = get_rec st" "get_rec (st\<lparr>boxes := bs\<rparr>) = get_rec st"
  "get_rec (st\<lparr>ops := ps\<rparr>) = get_rec st" "get_rec (st\<lparr>disk := d\<rparr>) = get_rec st"
  "get_rec (st\<lparr>delivered := v\<rparr>) = get_rec st" "get_rec (st\<lparr>to_sandbox := v\<rparr>) = get_rec st"
  "rec_of (st\<lparr>workers := ws\<rparr>) = rec_of st" "rec_of (st\<lparr>boxes := bs\<rparr>) = rec_of st"
  "rec_of (st\<lparr>ops := ps\<rparr>) = rec_of st" "rec_of (st\<lparr>disk := d\<rparr>) = rec_of st"
  "rec_of (st\<lparr>delivered := v\<rparr>) = rec_of st" "rec_of (st\<lparr>to_sandbox := v\<rparr>) = rec_of st"
  by (simp_all add: get_rec_def rec_of_def fun_eq_iff)

lemma map_worker_fields [simp]:
  "get_rec (map_worker f w st) = get_rec st" "rec_of (map_worker f w st) = rec_of st"
  "recs (map_worker f w st) = recs st" "boxes (map_worker f w st) = boxes st"
  "ops (map_worker f w st) = ops st" "length (workers (map_worker f w st)) = length (workers st)"
  by (simp_all add: map_worker_def)

lemma map_worker_nth:
  "v < length (workers st) \<Longrightarrow>
    workers (map_worker f w st) ! v = (if v = w then f (workers st ! v) else workers st ! v)"
  by (simp add: map_worker_def)

lemma set_box_fields [simp]:
  "get_rec (set_box_up u b st) = get_rec st" "rec_of (set_box_up u b st) = rec_of st"
  "recs (set_box_up u b st) = recs st" "workers (set_box_up u b st) = workers st"
  "ops (set_box_up u b st) = ops st" "length (boxes (set_box_up u b st)) = length (boxes st)"
  by (simp_all add: set_box_up_def)

lemma rec_of_get: "get_rec st sid = Some r \<Longrightarrow> rec_of st sid = r"
  by (simp add: rec_of_def)

lemma new_srec_simps [simp]: "worker new_srec = None" "sandbox new_srec = None"
  "\<not> sandbox_stopping new_srec" "pending_role new_srec = None"
  by (simp_all add: new_srec_def)

section \<open>Steps that start nothing\<close>

text \<open>
  From \<open>st\<close> to \<open>st'\<close> no worker or sandbox appears or comes back, and a session's worker and
  sandbox stay the same or are given up.
\<close>

definition calm_recs :: "coord \<Rightarrow> coord \<Rightarrow> bool" where
  "calm_recs st st' =
     (\<forall>sid. (worker (rec_of st' sid) = None \<or> worker (rec_of st' sid) = worker (rec_of st sid))
          \<and> (sandbox (rec_of st' sid) = None \<or> sandbox (rec_of st' sid) = sandbox (rec_of st sid)))"

definition calm_workers :: "sworker list \<Rightarrow> sworker list \<Rightarrow> bool" where
  "calm_workers = list_all2 (\<lambda>k k'. w_session k' = w_session k \<and> w_sandbox k' = w_sandbox k
     \<and> (w_phase k = Gone \<longrightarrow> w_phase k' = Gone))"

definition calm_boxes :: "box list \<Rightarrow> box list \<Rightarrow> bool" where
  "calm_boxes = list_all2 (\<lambda>b b'. b_session b' = b_session b \<and> b_fire b' = b_fire b \<and> (b_up b' \<longrightarrow> b_up b))"

definition calm :: "coord \<Rightarrow> coord \<Rightarrow> bool" where
  "calm st st' \<longleftrightarrow> (distinct (map fst (recs st)) \<longrightarrow> distinct (map fst (recs st')))
     \<and> calm_recs st st' \<and> calm_workers (workers st) (workers st') \<and> calm_boxes (boxes st) (boxes st')"

lemma calm_refl [simp]: "calm st st"
  by (auto simp: calm_def calm_recs_def calm_workers_def calm_boxes_def intro: list_all2_refl)

lemma calm_parts_trans:
  "calm_workers as bs \<Longrightarrow> calm_workers bs cs \<Longrightarrow> calm_workers as cs"
  "calm_boxes us vs \<Longrightarrow> calm_boxes vs ws \<Longrightarrow> calm_boxes us ws"
  unfolding calm_workers_def calm_boxes_def
  by (rule list_all2_trans, simp_all)+

lemma calm_trans:
  assumes "calm st st1" and "calm st1 st2"
  shows "calm st st2"
proof -
  have "calm_recs st st2"
    using assms unfolding calm_def calm_recs_def by metis
  moreover have "calm_workers (workers st) (workers st2)"
    using assms unfolding calm_def by (blast intro: calm_parts_trans)
  moreover have "calm_boxes (boxes st) (boxes st2)"
    using assms unfolding calm_def by (blast intro: calm_parts_trans)
  ultimately show ?thesis using assms by (simp add: calm_def)
qed

lemma calm_parts_refl [simp]: "calm_recs st st" "calm_workers ws ws" "calm_boxes bs bs"
  by (auto simp: calm_recs_def calm_workers_def calm_boxes_def intro: list_all2_refl)

lemma distinct_put: "distinct (map fst (recs st)) \<Longrightarrow> distinct (map fst (recs (put_rec sid r st)))"
  by (simp add: put_rec_def distinct_update)

lemma calm_put:
  "worker r = None \<or> worker r = worker (rec_of st sid) \<Longrightarrow>
   sandbox r = None \<or> sandbox r = sandbox (rec_of st sid) \<Longrightarrow> calm st (put_rec sid r st)"
  by (auto simp: calm_def calm_recs_def distinct_put)

lemma calm_other [simp]:
  "calm st (st\<lparr>ops := ps\<rparr>)" "calm st (st\<lparr>disk := d\<rparr>)" "calm st (st\<lparr>delivered := v\<rparr>)"
  "calm st (st\<lparr>to_sandbox := v\<rparr>)"
  by (simp_all add: calm_def calm_recs_def)

lemma calm_map_worker:
  "(\<And>k. w_session (f k) = w_session k \<and> w_sandbox (f k) = w_sandbox k) \<Longrightarrow>
   (w < length (workers st) \<Longrightarrow> w_phase (workers st ! w) = Gone \<Longrightarrow> w_phase (f (workers st ! w)) = Gone) \<Longrightarrow>
   calm st (map_worker f w st)"
  by (auto simp: calm_def calm_recs_def calm_workers_def list_all2_conv_all_nth map_worker_nth)

lemma calm_set_box: "calm st (set_box_up False b st)"
  by (auto simp: calm_def calm_recs_def calm_boxes_def list_all2_conv_all_nth set_box_up_def nth_list_update)

text \<open>Events and errors reach the record of their session only, and no worker or sandbox.\<close>

definition relays :: "string \<Rightarrow> coord \<Rightarrow> coord \<Rightarrow> bool" where
  "relays sid st st' \<longleftrightarrow>
     workers st' = workers st \<and> boxes st' = boxes st \<and> ops st' = ops st
   \<and> (distinct (map fst (recs st)) \<longrightarrow> distinct (map fst (recs st')))
   \<and> (\<forall>s. s \<noteq> sid \<longrightarrow> rec_of st' s = rec_of st s)
   \<and> worker (rec_of st' sid) = worker (rec_of st sid)
   \<and> sandbox (rec_of st' sid) = sandbox (rec_of st sid)
   \<and> sandbox_stopping (rec_of st' sid) = sandbox_stopping (rec_of st sid)"

lemma relays_workers: "relays sid st st' \<Longrightarrow> workers st' = workers st"
  by (simp add: relays_def)

lemma relays_trans: "relays sid st st1 \<Longrightarrow> relays sid st1 st2 \<Longrightarrow> relays sid st st2"
  by (simp add: relays_def)

lemma relays_calm: "relays sid st st' \<Longrightarrow> calm st st'"
  by (force simp: relays_def calm_def calm_recs_def)

lemma deliver_fields [simp]:
  "workers (deliver sid e st) = workers st" "boxes (deliver sid e st) = boxes st"
  "ops (deliver sid e st) = ops st" "recs (deliver sid e st) = recs st"
  "rec_of (deliver sid e st) = rec_of st" "get_rec (deliver sid e st) = get_rec st"
  by (simp_all add: deliver_def split: option.split)

lemma relays_event: "relays sid st (snd (handle_worker_event cfg t sid e st))"
  by (auto simp: handle_worker_event_def Let_def relays_def distinct_put split: prod.split sum.split)

lemma relays_error: "relays sid st (snd (handle_worker_error cfg t sid e st))"
proof -
  let ?m = "status_message (''Sandbox runtime error: '' @ exn_str e)"
  obtain r st1 where m: "handle_worker_event cfg t sid ?m st = (r, st1)" by fastforce
  then have "relays sid st st1"
    using relays_event [of sid st cfg t ?m] by simp
  with m show ?thesis
    using relays_trans relays_event
    by (auto simp: handle_worker_error_def Let_def split: sum.split)
qed

section \<open>Every operation but the start is calm\<close>

named_theorems calm_intros \<open>operations that start nothing\<close>

lemma calm_set_phase [calm_intros]:
  "w_phase (workers st ! w) \<noteq> Gone \<or> ph = Gone \<Longrightarrow> calm st (set_phase ph w st)"
  by (auto simp: set_phase_def intro: calm_map_worker)

lemma calm_exit [calm_intros]: "calm st (handle_worker_exit sid st)"
  by (auto simp: handle_worker_exit_def rec_of_get intro: calm_put split: option.split)

lemma handle_worker_exit_workers [simp]: "workers (handle_worker_exit sid st) = workers st"
  by (simp add: handle_worker_exit_def split: option.split)

lemma calm_failed [calm_intros]:
  "w_phase (workers st ! w) \<noteq> Gone \<Longrightarrow> calm st (worker_failed cfg t e w st)"
proof -
  assume "w_phase (workers st ! w) \<noteq> Gone"
  moreover note r = relays_error [of "w_session (workers st ! w)" st cfg t e]
  ultimately show ?thesis
    unfolding worker_failed_def
    by (intro calm_trans [OF relays_calm [OF r]] calm_set_phase) (simp add: relays_workers [OF r])
qed

lemma calm_emit [calm_intros]:
  assumes "w_phase (workers st ! w) \<noteq> Gone"
  shows "calm st (worker_emit cfg t event ph w st)"
proof -
  obtain r st1 where e: "handle_worker_event cfg t (w_session (workers st ! w)) event st = (r, st1)"
    by fastforce
  then have r: "relays (w_session (workers st ! w)) st st1"
    using relays_event [of "w_session (workers st ! w)" st cfg t event] by simp
  note c = relays_calm [OF r] and ws = relays_workers [OF r]
  show ?thesis
  proof (cases r)
    case (Inl x)
    have "calm st (worker_failed cfg t x w st1)"
      by (intro calm_trans [OF c] calm_failed) (simp add: ws assms)
    then show ?thesis using e Inl by (simp add: worker_emit_def)
  next
    case (Inr u)
    have "calm st (set_phase ph w st1)"
      by (intro calm_trans [OF c] calm_set_phase) (simp add: ws assms)
    then show ?thesis using e Inr by (simp add: worker_emit_def)
  qed
qed

lemma send_to_fields [simp]:
  "workers (send_to b e st) = workers st" "boxes (send_to b e st) = boxes st"
  "ops (send_to b e st) = ops st" "rec_of (send_to b e st) = rec_of st"
  "get_rec (send_to b e st) = get_rec st" "recs (send_to b e st) = recs st"
  by (simp_all add: send_to_def)

lemma calm_send [calm_intros]: "calm st (send_to b e st)"
  by (simp add: send_to_def)

lemma calm_worker_step: "calm st (worker_step cfg t rcv sent w st)"
proof (cases "w < length (workers st) \<and> w_phase (workers st ! w) \<noteq> Gone")
  case True
  have pop: "calm st (map_worker (\<lambda>k. k\<lparr>w_replies := rest\<rparr>) w st)" for rest
    by (rule calm_map_worker) auto
  have "calm st (receive_step cfg t rcv w st)"
    using True by (auto simp: receive_step_def intro: calm_intros split: received.split)
  moreover have "calm st (wait_step cfg t sent w st)"
  proof (cases "w_replies (workers st ! w)")
    case (Cons m rest)
    have pop: "calm st (map_worker (\<lambda>k. k\<lparr>w_replies := rest\<rparr>) w st)"
      by (rule calm_map_worker) auto
    have "calm st (map_worker (\<lambda>k. k\<lparr>w_replies := rest, w_phase := Exiting\<rparr>) w st)"
      using True by (auto intro: calm_map_worker)
    moreover have "calm st (worker_failed cfg t e w (map_worker (\<lambda>k. k\<lparr>w_replies := rest\<rparr>) w st))" for e
      using True by (intro calm_trans [OF pop] calm_failed) (simp add: map_worker_nth)
    moreover have "calm st (set_phase Receiving w (send_to b d (map_worker (\<lambda>k. k\<lparr>w_replies := rest\<rparr>) w st)))" for b d
      by (rule calm_trans [OF pop], rule calm_trans [OF calm_send], rule calm_set_phase)
        (simp add: map_worker_nth True)
    ultimately show ?thesis
      using Cons by (cases m; cases sent) (simp_all add: wait_step_def Let_def)
  qed (use True in \<open>auto simp: wait_step_def intro: calm_intros\<close>)
  moreover have "calm st (emit_fire_status_message cfg t s w st)" for s
    using True by (auto simp: emit_fire_status_message_def intro: calm_intros)
  moreover have "calm st (set_phase Leaving w (handle_worker_exit (w_session (workers st ! w)) st))"
    by (rule calm_trans [OF calm_exit], rule calm_set_phase) (simp add: True)
  moreover have "calm st (check_stop ph w st)" for ph
    using True by (simp add: check_stop_def calm_set_phase)
  ultimately show ?thesis
    using True by (auto simp: worker_step_def intro: calm_intros split: wphase.split)
qed (auto simp: worker_step_def)

lemma calm_reply [calm_intros]: "calm st (snd (submit_reply sid approved txt st))"
  by (auto simp: submit_reply_def rec_of_get split: option.split
      intro!: calm_trans [OF calm_put calm_map_worker])

lemma calm_seed [calm_intros]: "calm st (seed_state sid state st)"
  by (auto simp: seed_state_def intro: calm_put)

lemma calm_begin_op [calm_intros]: "calm st (begin_op p st)"
  by (simp add: begin_op_def)

lemma calm_put_op: "calm st (put_rec sid r st) \<Longrightarrow> calm st (begin_op p (put_rec sid r st))"
  by (rule calm_trans [OF _ calm_begin_op])

lemma calm_stop_session [calm_intros]: "calm st (stop_session_begin sid st)"
  by (auto simp: stop_session_begin_def rec_of_get intro!: calm_put_op calm_put split: option.split)

lemma calm_retire [calm_intros]: "calm st (retire_begin sid st)"
  by (auto simp: retire_begin_def rec_of_get intro!: calm_put_op calm_put split: option.split)

lemma calm_finish [calm_intros]: "calm st (finish_op p st)"
  by (auto simp: finish_op_def Let_def rec_of_get split: option.split
      intro!: calm_trans [OF calm_other(1) calm_put])

lemma calm_worker_stop [calm_intros]: "calm st (worker_stop w st)"
  by (auto simp: worker_stop_def intro!: calm_trans [OF calm_map_worker calm_send])

lemma calm_outside [calm_intros]: "calm st (op_outside stops p st)"
proof -
  have "calm st (case op_worker p of None \<Rightarrow> st | Some w \<Rightarrow> worker_stop w st)"
    by (auto intro: calm_intros split: option.split)
  then show ?thesis
    by (auto simp: op_outside_def Let_def intro: calm_trans calm_set_box split: option.split)
qed

text \<open>The two operations on the whole table.\<close>

lemma calm_table:
  assumes "map fst rs = map fst (recs st)"
    and "\<And>sid r r'. map_of rs sid = Some r' \<Longrightarrow> map_of (recs st) sid = Some r \<Longrightarrow>
      (worker r' = None \<or> worker r' = worker r) \<and> (sandbox r' = None \<or> sandbox r' = sandbox r)"
  shows "calm st (st\<lparr>recs := rs, ops := ps\<rparr>)"
proof -
  have "calm_recs st (st\<lparr>recs := rs, ops := ps\<rparr>)"
    unfolding calm_recs_def
  proof
    fix sid
    have "(map_of rs sid = None) = (map_of (recs st) sid = None)"
      using assms(1) by (simp add: map_of_eq_None_iff flip: set_map)
    then show "(worker (rec_of (st\<lparr>recs := rs, ops := ps\<rparr>) sid) = None \<or>
        worker (rec_of (st\<lparr>recs := rs, ops := ps\<rparr>) sid) = worker (rec_of st sid)) \<and>
       (sandbox (rec_of (st\<lparr>recs := rs, ops := ps\<rparr>) sid) = None \<or>
        sandbox (rec_of (st\<lparr>recs := rs, ops := ps\<rparr>) sid) = sandbox (rec_of st sid))"
      using assms(2) [of sid] by (auto simp: rec_of_def get_rec_def split: option.split)
  qed
  then show ?thesis using assms(1) by (simp add: calm_def)
qed

lemma stop_all_records_eq:
  "stop_all_records rs =
    (map (\<lambda>(sid, r). (sid, r\<lparr>worker := None, sandbox_stopping := (sandbox r \<noteq> None \<or> sandbox_stopping r),
        pending_role := None, last_task_completed_at := None\<rparr>)) rs,
     map (\<lambda>(sid, r). \<lparr>op_kind = StopAll, op_session = sid, op_worker = worker r, op_box = sandbox r\<rparr>)
       (filter (\<lambda>(sid, r). worker r \<noteq> None \<or> sandbox r \<noteq> None) rs))"
proof (induction rs)
  case (Cons p rs)
  then show ?case by (cases p; cases "worker (snd p)"; cases "sandbox (snd p)") auto
qed simp

lemma reap_records_eq:
  "reap_records cfg now st rs =
    (map (\<lambda>(sid, r). (sid, if reap_now cfg now st r
        then r\<lparr>sandbox_stopping := True, last_task_completed_at := None\<rparr> else r)) rs,
     map (\<lambda>(sid, r). \<lparr>op_kind = Reap, op_session = sid, op_worker = None, op_box = sandbox r\<rparr>)
       (filter (\<lambda>(sid, r). reap_now cfg now st r) rs))"
  by (induction rs) auto

lemma map_of_map_snd: "map_of (map (\<lambda>(k, v). (k, f v)) xs) k = map_option f (map_of xs k)"
  by (induction xs) auto

lemma rec_of_stop_all:
  "rec_of (stop_all_begin st) sid = (rec_of st sid)\<lparr>worker := None,
     sandbox_stopping := (sandbox (rec_of st sid) \<noteq> None \<or> sandbox_stopping (rec_of st sid)),
     pending_role := None, last_task_completed_at := None\<rparr>"
  by (simp add: stop_all_begin_def stop_all_records_eq rec_of_def get_rec_def map_of_map_snd new_srec_def
      split: option.split)

lemma calm_stop_all [calm_intros]: "calm st (stop_all_begin st)"
  unfolding stop_all_begin_def stop_all_records_eq
  by (auto simp: map_of_map_snd comp_def split_beta intro!: calm_table)

lemma calm_reap [calm_intros]: "calm st (reap_begin cfg now st)"
  unfolding reap_begin_def reap_records_eq
  by (auto simp: map_of_map_snd comp_def split_beta intro!: calm_table split: if_splits)

section \<open>What a start adds\<close>

text \<open>
  From \<open>st\<close> to \<open>st'\<close> only the session \<open>sid\<close> changes: at most one sandbox and one worker are
  added, both made for \<open>sid\<close>, and the worker is the one the session registers.
\<close>

definition starts :: "string \<Rightarrow> (pydict \<Rightarrow> bool) \<Rightarrow> coord \<Rightarrow> coord \<Rightarrow> bool" where
  "starts sid good st st' \<longleftrightarrow>
     (distinct (map fst (recs st)) \<longrightarrow> distinct (map fst (recs st')))
   \<and> ops st' = ops st \<and> (\<forall>s. s \<noteq> sid \<longrightarrow> rec_of st' s = rec_of st s)
   \<and> (\<exists>bs. boxes st' = boxes st @ bs \<and> (\<forall>b \<in> set bs. b_session b = sid))
   \<and> (sandbox (rec_of st' sid) = None \<or> sandbox (rec_of st' sid) = sandbox (rec_of st sid)
      \<or> sandbox (rec_of st' sid) = Some (length (boxes st)) \<and> length (boxes st) < length (boxes st'))
   \<and> (workers st' = workers st \<and> worker (rec_of st' sid) = None
      \<or> (\<exists>k. workers st' = workers st @ [k] \<and> w_session k = sid \<and> good (w_task k) \<and> w_phase k = Starting
           \<and> \<not> w_stop k \<and> w_replies k = [] \<and> sandbox (rec_of st' sid) = Some (w_sandbox k)
           \<and> worker (rec_of st' sid) = Some (length (workers st)) \<and> pending_role (rec_of st' sid) = None))"

lemma set_box_up_last: "b = length (boxes st) \<Longrightarrow>
    set_box_up u b (st'\<lparr>boxes := boxes st @ [x]\<rparr>) = st'\<lparr>boxes := boxes st @ [x\<lparr>b_up := u\<rparr>]\<rparr>"
  by (simp add: set_box_up_def)

lemma run_task_starts: "run_task sid task l st = (e, st') \<Longrightarrow> good task \<Longrightarrow> starts sid good st st'"
  by (cases "sandbox (rec_of st sid)")
    (auto simp: run_task_def launch_sandbox_def undo_start_def spawn_worker_def Let_def starts_def
      set_box_up_def distinct_put list_update_append
      split: sum.splits if_splits option.splits)

lemma starts_relays: "starts sid good st st1 \<Longrightarrow> relays sid st1 st2 \<Longrightarrow> starts sid good st st2 \<or>
    (\<exists>k. workers st2 = workers st @ [k])"
  by (auto simp: starts_def relays_def)

text \<open>The refusals, and the accepted start.\<close>

lemma start_locked_cases:
  assumes "start_locked cfg sid txt snk l st = (r, st')"
  obtains (refused) "calm st st'" "ops st' = ops st" "workers st' = workers st"
      "\<And>s. rec_of st' s = rec_of st s" "\<And>s e. r \<noteq> Inr (s, Some e)"
    | (accepted) task e st0 where "task_event cfg sid txt (latest_state (rec_of st sid)) = Inr task"
      "r = Inr (Started, e)" "run_task sid task l st0 = (e, st')"
      "st0 = put_rec sid ((rec_of st sid)\<lparr>sink := Some snk\<rparr>) (put_rec sid (rec_of st sid) st)"
      "\<not> has_running_worker st (rec_of st sid)" "\<not> sandbox_stopping (rec_of st sid)"
      "\<And>m. c_max_active cfg = Some m \<Longrightarrow>
        int (active_session_count (put_rec sid (rec_of st sid) st)) < m
        \<or> record_counts_toward_capacity st (rec_of st sid)"
proof -
  let ?st0 = "put_rec sid (rec_of st sid) st"
  have same: "has_running_worker ?st0 r = has_running_worker st r"
    "record_counts_toward_capacity ?st0 r = record_counts_toward_capacity st r" for r
    by (simp_all add: has_running_worker_def record_counts_toward_capacity_def split: option.split)
  have c: "calm st ?st0" by (rule calm_put) auto
  show thesis
    using assms that c
    by (auto simp: start_locked_def Let_def same split: if_splits sum.splits option.splits prod.splits)
qed

text \<open>What the worker's task says about approval.\<close>

definition approval_task :: "coord_cfg \<Rightarrow> pydict \<Rightarrow> bool" where
  "approval_task cfg task \<longleftrightarrow> dget task ''approval_mode'' = VStr (c_approval_mode cfg)"

lemma task_event_approval: "task_event cfg sid txt s = Inr task \<Longrightarrow> approval_task cfg task"
  by (auto simp: task_event_def approval_task_def Let_def bind_res_eq_Inr split: option.splits)

lemma relays_put: "worker r = worker (rec_of st sid) \<Longrightarrow> sandbox r = sandbox (rec_of st sid) \<Longrightarrow>
    sandbox_stopping r = sandbox_stopping (rec_of st sid) \<Longrightarrow> relays sid st (put_rec sid r st)"
  by (auto simp: relays_def distinct_put)

lemma relays_starts: "relays sid st st1 \<Longrightarrow> starts sid good st1 st2 \<Longrightarrow> starts sid good st st2"
  by (auto simp: starts_def relays_def)

text \<open>
  A start either changes nothing but the table's keys, or starts a task that \<open>cfg\<close> allows;
  an error it reports afterwards only relays.
\<close>

lemma start_and_report_cases:
  obtains (refused) "calm st (start_and_report cfg t sid tx snk l st)"
      "ops (start_and_report cfg t sid tx snk l st) = ops st"
      "workers (start_and_report cfg t sid tx snk l st) = workers st"
      "\<And>s. rec_of (start_and_report cfg t sid tx snk l st) s = rec_of st s"
    | (accepted) st1 where "starts sid (approval_task cfg) st st1"
      "start_and_report cfg t sid tx snk l st = st1
        \<or> workers st1 = workers st \<and> relays sid st1 (start_and_report cfg t sid tx snk l st)"
      "\<not> has_running_worker st (rec_of st sid)" "\<not> sandbox_stopping (rec_of st sid)"
      "\<And>m. c_max_active cfg = Some m \<Longrightarrow>
        int (active_session_count (put_rec sid (rec_of st sid) st)) < m
        \<or> record_counts_toward_capacity st (rec_of st sid)"
proof -
  obtain r st1 where s: "start_locked cfg sid tx snk l st = (r, st1)" by fastforce
  show thesis
    using s
  proof (cases rule: start_locked_cases)
    case refused
    then have "start_and_report cfg t sid tx snk l st = st1"
      using s by (auto simp: start_and_report_def split: sum.split option.split prod.split)
    then show thesis using refused that(1) by simp
  next
    case (accepted task e st0)
    have "relays sid st st0"
      unfolding accepted(4) by (rule relays_trans; rule relays_put) auto
    moreover have "starts sid (approval_task cfg) st0 st1"
      using run_task_starts [OF accepted(3)] task_event_approval [OF accepted(1)] by simp
    ultimately have "starts sid (approval_task cfg) st st1" by (rule relays_starts)
    moreover have "workers st1 = workers st" if "e = Some x" for x
      using accepted(3,4) that
      by (auto simp: run_task_def launch_sandbox_def undo_start_def Let_def set_box_up_def
          split: sum.splits if_splits option.splits)
    ultimately show thesis
      using that(2) [of st1] s accepted relays_error
      by (cases e) (auto simp: start_and_report_def)
  qed
qed

section \<open>Capacity\<close>

text \<open>The sessions that hold a resource: a running worker or a running Firecracker sandbox.\<close>

definition occupied :: "coord \<Rightarrow> string \<Rightarrow> bool" where
  "occupied st sid \<longleftrightarrow> has_running_worker st (rec_of st sid)
     \<or> (case sandbox (rec_of st sid) of None \<Rightarrow> False | Some b \<Rightarrow> box_fire st b \<and> box_up st b)"

lemma calm_running: "calm st st' \<Longrightarrow> worker_running st' w \<Longrightarrow> worker_running st w"
  by (auto simp: calm_def calm_workers_def worker_running_def list_all2_conv_all_nth)

lemma calm_box: "calm st st' \<Longrightarrow> box_fire st' b \<and> box_up st' b \<Longrightarrow> box_fire st b \<and> box_up st b"
  by (auto simp: calm_def calm_boxes_def box_fire_def box_up_def list_all2_conv_all_nth)

lemma calm_recD:
  "calm st st' \<Longrightarrow> worker (rec_of st' sid) = Some w \<Longrightarrow> worker (rec_of st sid) = Some w"
  "calm st st' \<Longrightarrow> sandbox (rec_of st' sid) = Some b \<Longrightarrow> sandbox (rec_of st sid) = Some b"
  unfolding calm_def calm_recs_def by (metis option.discI)+

lemma occupied_iff:
  "occupied st sid \<longleftrightarrow> (\<exists>w. worker (rec_of st sid) = Some w \<and> worker_running st w)
     \<or> (\<exists>b. sandbox (rec_of st sid) = Some b \<and> box_fire st b \<and> box_up st b)"
  by (auto simp: occupied_def has_running_worker_def split: option.splits)

lemma calm_occupied: "calm st st' \<Longrightarrow> occupied st' sid \<Longrightarrow> occupied st sid"
  unfolding occupied_iff by (blast dest: calm_recD calm_running calm_box)

lemma relays_occupied: "relays sid st st' \<Longrightarrow> occupied st' s \<Longrightarrow> occupied st s"
  by (rule calm_occupied [OF relays_calm])

lemma starts_occupied:
  assumes "starts sid good st st'" and "occupied st' s" and "s \<noteq> sid"
    and "\<And>s b. sandbox (rec_of st s) = Some b \<Longrightarrow> b < length (boxes st)"
    and "\<And>s w. worker (rec_of st s) = Some w \<Longrightarrow> w < length (workers st)"
  shows "occupied st s"
proof -
  have "rec_of st' s = rec_of st s" using assms(1,3) by (simp add: starts_def)
  moreover have "worker_running st' w \<Longrightarrow> w < length (workers st) \<Longrightarrow> worker_running st w" for w
    using assms(1) by (auto simp: starts_def worker_running_def nth_append)
  moreover have "box_fire st' b \<and> box_up st' b \<Longrightarrow> b < length (boxes st) \<Longrightarrow> box_fire st b \<and> box_up st b" for b
    using assms(1) by (auto simp: starts_def box_fire_def box_up_def nth_append)
  ultimately show ?thesis
    using assms(2,4,5) unfolding occupied_iff by metis
qed

lemma occupied_finite: "{sid. occupied st sid} \<subseteq> set (map fst (recs st))"
proof -
  have "rec_of st sid = new_srec" if "sid \<notin> set (map fst (recs st))" for sid
  proof -
    have "map_of (recs st) sid = None" using that by (simp add: map_of_eq_None_iff)
    then show ?thesis by (simp add: rec_of_def get_rec_def)
  qed
  then show ?thesis by (fastforce simp: occupied_iff)
qed

lemma occupied_counts: "occupied st sid \<Longrightarrow> record_counts_toward_capacity st (rec_of st sid)"
  by (auto simp: occupied_def record_counts_toward_capacity_def split: option.splits)

lemma active_session_count_card:
  "card {sid. occupied st sid} \<le> active_session_count st"
proof -
  let ?f = "filter (\<lambda>p. record_counts_toward_capacity st (snd p)) (recs st)"
  have "{sid. occupied st sid} \<subseteq> set (map fst ?f)"
  proof
    fix sid assume o: "sid \<in> {sid. occupied st sid}"
    then obtain r where "map_of (recs st) sid = Some r"
      using occupied_finite [of st] by (auto simp: dest!: weak_map_of_SomeI subsetD)
    then show "sid \<in> set (map fst ?f)"
      using o occupied_counts [of st sid]
      by (auto simp: rec_of_def get_rec_def dest!: map_of_SomeD intro!: rev_image_eqI)
  qed
  then have "card {sid. occupied st sid} \<le> card (set (map fst ?f))"
    by (intro card_mono) auto
  also have "\<dots> \<le> length ?f" using card_length [of "map fst ?f"] by simp
  finally show ?thesis by (simp add: active_session_count_def)
qed

section \<open>Ownership\<close>

text \<open>Workers, sandboxes and operations in flight belong to the session that names them.\<close>

definition owned :: "coord \<Rightarrow> bool" where
  "owned st \<longleftrightarrow> distinct (map fst (recs st))
   \<and> (\<forall>sid w. worker (rec_of st sid) = Some w \<longrightarrow>
        w < length (workers st) \<and> w_session (workers st ! w) = sid)
   \<and> (\<forall>sid b. sandbox (rec_of st sid) = Some b \<longrightarrow>
        b < length (boxes st) \<and> b_session (boxes st ! b) = sid)
   \<and> (\<forall>w < length (workers st). w_sandbox (workers st ! w) < length (boxes st)
        \<and> b_session (boxes st ! w_sandbox (workers st ! w)) = w_session (workers st ! w))"

lemma owned_initial: "owned (initial_coord d)"
  by (simp add: owned_def initial_coord_def rec_of_def get_rec_def)

lemma calm_owned:
  assumes "calm st st'" and "owned st"
  shows "owned st'"
proof -
  note parts = assms(1) [unfolded calm_def calm_workers_def calm_boxes_def list_all2_conv_all_nth]
  show ?thesis
    unfolding owned_def
  proof (intro conjI allI impI)
    show "distinct (map fst (recs st'))" using parts assms(2) by (simp add: owned_def)
  next
    fix sid w assume "worker (rec_of st' sid) = Some w"
    then have "worker (rec_of st sid) = Some w" by (rule calm_recD(1) [OF assms(1)])
    then show "w < length (workers st')" "w_session (workers st' ! w) = sid"
      using parts assms(2) by (simp_all add: owned_def)
  next
    fix sid b assume "sandbox (rec_of st' sid) = Some b"
    then have "sandbox (rec_of st sid) = Some b" by (rule calm_recD(2) [OF assms(1)])
    then show "b < length (boxes st')" "b_session (boxes st' ! b) = sid"
      using parts assms(2) by (simp_all add: owned_def)
  next
    fix w assume "w < length (workers st')"
    then show "w_sandbox (workers st' ! w) < length (boxes st')"
      "b_session (boxes st' ! w_sandbox (workers st' ! w)) = w_session (workers st' ! w)"
      using parts assms(2) by (simp_all add: owned_def)
  qed
qed

lemma starts_nth:
  assumes "starts sid good st st'"
  shows "w < length (workers st) \<Longrightarrow> workers st' ! w = workers st ! w"
    and "b < length (boxes st) \<Longrightarrow> boxes st' ! b = boxes st ! b"
    and "length (workers st) \<le> length (workers st')" "length (boxes st) \<le> length (boxes st')"
    and "length (boxes st) \<le> b \<Longrightarrow> b < length (boxes st') \<Longrightarrow> b_session (boxes st' ! b) = sid"
  using assms by (auto simp: starts_def nth_append)

lemma starts_box:
  assumes "starts sid good st st'" and "sandbox (rec_of st' s) = Some b"
  shows "sandbox (rec_of st s) = Some b
    \<or> s = sid \<and> b = length (boxes st) \<and> b < length (boxes st')"
proof (cases "s = sid")
  case True
  have "sandbox (rec_of st' sid) = None \<or> sandbox (rec_of st' sid) = sandbox (rec_of st sid)
      \<or> sandbox (rec_of st' sid) = Some (length (boxes st)) \<and> length (boxes st) < length (boxes st')"
    using assms(1) by (simp add: starts_def)
  then show ?thesis using True assms(2) by fastforce
qed (use assms in \<open>simp add: starts_def\<close>)

lemma starts_owned:
  assumes "starts sid good st st'" and "owned st"
  shows "owned st'"
proof -
  note nth = starts_nth [OF assms(1)]
  have box: "b < length (boxes st') \<and> b_session (boxes st' ! b) = s"
    if sb: "sandbox (rec_of st' s) = Some b" for s b
  proof -
    consider "sandbox (rec_of st s) = Some b"
      | "s = sid" "b = length (boxes st)" "b < length (boxes st')"
      using starts_box [OF assms(1) sb] by blast
    then show ?thesis
    proof cases
      case 1
      then have "b < length (boxes st) \<and> b_session (boxes st ! b) = s"
        using assms(2) by (simp add: owned_def)
      then show ?thesis using nth(2,4) by fastforce
    next
      case 2
      then show ?thesis using nth(5) by simp
    qed
  qed
  have old: "w_sandbox (workers st' ! w) < length (boxes st')
      \<and> b_session (boxes st' ! w_sandbox (workers st' ! w)) = w_session (workers st' ! w)"
    if "w < length (workers st)" for w
    using that assms(2) nth by (fastforce simp: owned_def)
  have new: "w_session (workers st' ! w) = sid \<and> sandbox (rec_of st' sid) = Some (w_sandbox (workers st' ! w))"
    if "\<not> w < length (workers st)" "w < length (workers st')" for w
    using that assms(1) by (auto simp: starts_def nth_append)
  show ?thesis
    unfolding owned_def
  proof (intro conjI allI impI)
    show "distinct (map fst (recs st'))" using assms by (simp add: starts_def owned_def)
  next
    fix s w assume w: "worker (rec_of st' s) = Some w"
    show "w < length (workers st')" "w_session (workers st' ! w) = s"
      using w assms by (cases "s = sid"; force simp: starts_def owned_def nth_append)+
  next
    fix s b assume "sandbox (rec_of st' s) = Some b"
    then show "b < length (boxes st')" "b_session (boxes st' ! b) = s" using box by auto
  next
    fix w assume "w < length (workers st')"
    then show "w_sandbox (workers st' ! w) < length (boxes st')"
      "b_session (boxes st' ! w_sandbox (workers st' ! w)) = w_session (workers st' ! w)"
      using old [of w] new [of w] box by auto
  qed
qed

lemma coord_step_calm:
  assumes "coord_step late cfg st st'"
  obtains (calm) "calm st st'"
    | (start) sid t tx snk l where "adapter_idle st sid" "st' = start_and_report cfg t sid tx snk l st"
  using assms by (cases rule: coord_step.cases) (auto intro: calm_intros calm_worker_step calm_set_box)

lemma start_owned:
  assumes "owned st"
  shows "owned (start_and_report cfg t sid tx snk l st)"
proof (cases rule: start_and_report_cases [where cfg = cfg and t = t and sid = sid and tx = tx and snk = snk and l = l and st = st])
  case refused
  then show ?thesis using assms calm_owned by blast
next
  case (accepted st1)
  then have "owned st1" using assms starts_owned by blast
  then show ?thesis using accepted(2) calm_owned relays_calm by metis
qed

lemma reachable_owned: "reachable late cfg st \<Longrightarrow> owned st"
  by (induction rule: reachable.induct)
    (auto intro: owned_initial calm_owned start_owned elim!: coord_step_calm)

lemma start_occupied_bound:
  assumes "owned st" and "c_max_active cfg = Some m" and "int (card {s. occupied st s}) \<le> m"
  shows "int (card {s. occupied (start_and_report cfg t sid tx snk l st) s}) \<le> m"
proof (cases rule: start_and_report_cases [where cfg = cfg and t = t and sid = sid and tx = tx and snk = snk and l = l and st = st])
  case refused
  then have "{s. occupied (start_and_report cfg t sid tx snk l st) s} \<subseteq> {s. occupied st s}"
    using calm_occupied by blast
  then have "card {s. occupied (start_and_report cfg t sid tx snk l st) s} \<le> card {s. occupied st s}"
    by (intro card_mono finite_subset [OF occupied_finite]) auto
  then show ?thesis using assms(3) by simp
next
  case (accepted st1)
  let ?o = "{s. occupied st s}" and ?o' = "{s. occupied (start_and_report cfg t sid tx snk l st) s}"
  have fin: "finite ?o" by (rule finite_subset [OF occupied_finite]) simp
  have "?o' \<subseteq> {s. occupied st1 s}"
    using accepted(2) relays_occupied by auto
  also have "\<dots> \<subseteq> insert sid ?o"
    using starts_occupied [OF accepted(1)] assms(1) by (auto simp: owned_def)
  finally have sub: "card ?o' \<le> card (insert sid ?o)"
    by (intro card_mono) (simp_all add: fin)
  have "{s. occupied (put_rec sid (rec_of st sid) st) s} = ?o"
    by (auto simp: occupied_def has_running_worker_def split: option.splits)
  then have count: "card ?o \<le> active_session_count (put_rec sid (rec_of st sid) st)"
    using active_session_count_card [of "put_rec sid (rec_of st sid) st"] by simp
  show ?thesis
  proof (cases "record_counts_toward_capacity st (rec_of st sid)")
    case True
    then have "occupied st sid"
      using accepted(3,4)
      by (auto simp: record_counts_toward_capacity_def occupied_def split: option.splits if_splits)
    then have "insert sid ?o = ?o" by auto
    then show ?thesis using sub assms(3) by simp
  next
    case False
    then have "int (card ?o) < m" using accepted(5) [OF assms(2)] count by simp
    then show ?thesis using sub fin
      by (simp add: card_insert_if split: if_splits)
  qed
qed

text \<open>
  C1. However the calls of the adapters, the workers and the idle reaper interleave, and also
  when a stopped worker outlives its join, no more sessions than \<open>max_active_sessions\<close> hold
  a running worker or a running Firecracker VM.
\<close>

theorem capacity_respected:
  assumes "reachable late cfg st" and "c_max_active cfg = Some m" and "0 < m"
  shows "int (card {sid. occupied st sid}) \<le> m"
  using assms(1)
proof (induction rule: reachable.induct)
  case (init d)
  then show ?case
    using assms(3) by (simp add: occupied_iff rec_of_def get_rec_def initial_coord_def)
next
  case (step st st')
  from step.hyps(2) show ?case
  proof (cases rule: coord_step_calm)
    case calm
    then have "card {s. occupied st' s} \<le> card {s. occupied st s}"
      using calm_occupied by (intro card_mono finite_subset [OF occupied_finite]) auto
    then show ?thesis using step.IH by simp
  next
    case start
    then show ?thesis
      using start_occupied_bound [OF reachable_owned [OF step.hyps(1)] assms(2) step.IH] by simp
  qed
qed

section \<open>A small run\<close>

text \<open>A small configuration, a start and a question.\<close>

definition demo_cfg :: coord_cfg where
  "demo_cfg = \<lparr>c_approval_mode = ''review'', c_max_active = Some 1, c_journal_enabled = False,
     c_journal_max_bytes = 0, c_fire_status = False, c_idle_timeout = 10, c_home = []\<rparr>"

definition demo_launch :: launch where
  "demo_launch = \<lparr>l_factory = Inr (), l_start = Inr (), l_fire = False, l_send = Inr (), l_thread = Inr ()\<rparr>"

definition demo_tick :: tick where
  "demo_tick = \<lparr>t_now = 0, t_stamp = ''now'', t_disk_ok = True\<rparr>"

definition demo_started :: coord where
  "demo_started = start_and_report demo_cfg demo_tick ''s'' ''go'' 0 demo_launch (initial_coord Map.empty)"

definition demo_asked :: coord where
  "demo_asked =
     worker_step demo_cfg demo_tick
       (REvent (dict_of [(''type'', VStr ''message''), (''role'', VStr ''clarification''), (''content'', VStr ''?'')]))
       (Inr ()) 0
       (worker_step demo_cfg demo_tick RNothing (Inr ()) 0
         (worker_step demo_cfg demo_tick RNothing (Inr ()) 0 demo_started))"

lemma reachable_started: "reachable late demo_cfg demo_started"
  unfolding demo_started_def
  by (rule reachable.step [OF reachable.init coord_step.start]) (simp add: adapter_idle_def initial_coord_def)

lemma reachable_asked: "reachable late demo_cfg demo_asked"
  unfolding demo_asked_def
  by (rule reachable.step [OF reachable.step [OF reachable.step
        [OF reachable_started coord_step.work] coord_step.work] coord_step.work])

theorem capacity_respected_witness: "card {sid. occupied demo_started sid} \<le> 1"
  using capacity_respected [OF reachable_started [of True], of 1] by (simp add: demo_cfg_def)

end
