(* ===== verification/CoordinatorOrder.thy ===== *)
theory CoordinatorOrder
  imports CoordinatorSafety
begin

text \<open>
  What the coordinator guarantees when a stopped worker ends before its stop operation does
  (\<open>late = False\<close>): one worker per session at a time, and no reply lost or doubled. And what
  goes wrong when a worker outlives the two seconds of its join.
\<close>

section \<open>The invariant\<close>

text \<open>A worker whose thread has not yet called \<open>on_exit\<close>.\<close>

definition active :: "coord \<Rightarrow> nat \<Rightarrow> bool" where
  "active st w \<longleftrightarrow> w < length (workers st) \<and> w_phase (workers st ! w) \<notin> {Leaving, Gone}"

definition registered :: "coord \<Rightarrow> nat \<Rightarrow> bool" where
  "registered st w \<longleftrightarrow> worker (rec_of st (w_session (workers st ! w))) = Some w"

definition in_flight :: "coord \<Rightarrow> nat \<Rightarrow> bool" where
  "in_flight st w \<longleftrightarrow> (\<exists>p \<in> set (ops st). op_worker p = Some w)"

text \<open>
  How a worker's phase, the role its session waits for and the queued replies agree: a
  waiting worker has asked and not been answered, or has exactly one answer queued.
\<close>

definition reply_ok :: "sworker \<Rightarrow> string option \<Rightarrow> bool" where
  "reply_ok k role =
     (case w_phase k of
        Waiting \<Rightarrow> role \<noteq> None \<and> w_replies k = [] \<or> role = None \<and> (\<exists>d. w_replies k = [Some d])
      | Getting \<Rightarrow> role \<noteq> None \<and> w_replies k = [] \<or> role = None \<and> (\<exists>d. w_replies k = [Some d])
      | Starting \<Rightarrow> role = None \<and> w_replies k = []
      | Receiving \<Rightarrow> role = None \<and> w_replies k = []
      | Polling \<Rightarrow> role = None \<and> w_replies k = []
      | Exiting \<Rightarrow> role = None
      | _ \<Rightarrow> True)"

definition served :: "coord_cfg \<Rightarrow> coord \<Rightarrow> nat \<Rightarrow> bool" where
  "served cfg st w \<longleftrightarrow> \<not> w_stop (workers st ! w) \<and> approval_task cfg (w_task (workers st ! w))
     \<and> reply_ok (workers st ! w) (pending_role (rec_of st (w_session (workers st ! w))))"

definition op_sound :: "coord \<Rightarrow> stop_op \<Rightarrow> bool" where
  "op_sound st p \<longleftrightarrow> (\<forall>w. op_worker p = Some w \<longrightarrow>
     w < length (workers st) \<and> w_session (workers st ! w) = op_session p
     \<and> op_kind p \<noteq> Reap \<and> worker (rec_of st (op_session p)) \<noteq> Some w)"

definition orderly :: "coord_cfg \<Rightarrow> coord \<Rightarrow> bool" where
  "orderly cfg st \<longleftrightarrow>
     (\<forall>w. active st w \<longrightarrow> registered st w \<or> in_flight st w)
   \<and> (\<forall>w v. active st w \<longrightarrow> active st v \<longrightarrow> w_session (workers st ! w) = w_session (workers st ! v) \<longrightarrow> w = v)
   \<and> (\<forall>p \<in> set (ops st). op_sound st p)
   \<and> (\<forall>w. active st w \<longrightarrow> registered st w \<longrightarrow> served cfg st w)"

lemma orderly_initial: "orderly cfg (initial_coord d)"
  by (simp add: orderly_def initial_coord_def active_def)

lemma orderlyD:
  assumes "orderly cfg st"
  shows "active st w \<Longrightarrow> registered st w \<or> in_flight st w"
    and "active st w \<Longrightarrow> active st v \<Longrightarrow> w_session (workers st ! w) = w_session (workers st ! v) \<Longrightarrow> w = v"
    and "p \<in> set (ops st) \<Longrightarrow> op_sound st p"
    and "active st w \<Longrightarrow> registered st w \<Longrightarrow> served cfg st w"
  using assms unfolding orderly_def by blast+

section \<open>Steps that keep workers and registrations\<close>

lemma orderly_quiet:
  assumes "orderly cfg st" and "workers st' = workers st"
    and "\<And>s. worker (rec_of st' s) = worker (rec_of st s) \<and> pending_role (rec_of st' s) = pending_role (rec_of st s)"
    and "ops st' = ops st @ ps" and "\<And>p. p \<in> set ps \<Longrightarrow> op_worker p = None"
  shows "orderly cfg st'"
proof -
  have "active st' = active st" "registered st' = registered st" "served cfg st' = served cfg st"
    "in_flight st' = in_flight st"
    using assms(2-5) by (force simp: fun_eq_iff active_def registered_def served_def in_flight_def)+
  moreover have "op_sound st' p" if "p \<in> set (ops st')" for p
    using that assms orderlyD(3) [OF assms(1)] by (auto simp: op_sound_def)
  ultimately show ?thesis
    using assms(1,2) by (simp add: orderly_def)
qed

lemma orderly_seed: "orderly cfg st \<Longrightarrow> orderly cfg (seed_state sid state st)"
  by (rule orderly_quiet [where ps = "[]"]) (auto simp: seed_state_def)

lemma orderly_crash: "orderly cfg st \<Longrightarrow> orderly cfg (set_box_up u b st)"
  by (rule orderly_quiet [where ps = "[]"]) auto

lemma begin_op_fields [simp]:
  "workers (begin_op p st) = workers st" "rec_of (begin_op p st) = rec_of st"
  "ops (begin_op p st) = ops st @ [p]"
  by (simp_all add: begin_op_def)

lemma retire_ops: "\<exists>ps. ops (retire_begin sid st) = ops st @ ps \<and> (\<forall>p \<in> set ps. op_worker p = None)"
  by (auto simp: retire_begin_def split: option.split)

lemma orderly_retire: "orderly cfg st \<Longrightarrow> orderly cfg (retire_begin sid st)"
  using retire_ops [of sid st]
  by (auto intro!: orderly_quiet [of cfg st "retire_begin sid st"])
     (auto simp: retire_begin_def rec_of_get split: option.splits)

lemma rec_of_reap:
  "rec_of (reap_begin cfg now st) sid =
    (let r = rec_of st sid
     in if c_idle_timeout cfg \<noteq> 0 \<and> get_rec st sid \<noteq> None \<and> reap_now cfg now st r
        then r\<lparr>sandbox_stopping := True, last_task_completed_at := None\<rparr> else r)"
  by (auto simp: reap_begin_def reap_records_eq rec_of_def get_rec_def map_of_map_snd Let_def
      split: option.split)

lemma reap_ops: "\<exists>ps. ops (reap_begin cfg now st) = ops st @ ps \<and> (\<forall>p \<in> set ps. op_worker p = None)"
  by (auto simp: reap_begin_def reap_records_eq)

lemma reap_workers [simp]: "workers (reap_begin cfg now st) = workers st"
  by (simp add: reap_begin_def split: prod.split)

lemma orderly_reap:
  assumes "orderly cfg st"
  shows "orderly cfg (reap_begin cfg' now st)"
proof -
  obtain ps where "ops (reap_begin cfg' now st) = ops st @ ps" "\<forall>p \<in> set ps. op_worker p = None"
    using reap_ops by blast
  then show ?thesis
    by (intro orderly_quiet [OF assms]) (auto simp: rec_of_reap Let_def)
qed

section \<open>Replies and stops\<close>

text \<open>
  One worker and the record of its session change, and no other active worker is
  registered there.
\<close>

lemma orderly_change:
  assumes "orderly cfg st" and "active st' w \<Longrightarrow> active st w"
    and alone: "\<And>v. rec_of st' (w_session (workers st ! w)) \<noteq> rec_of st (w_session (workers st ! w))
      \<Longrightarrow> active st v \<Longrightarrow> v \<noteq> w \<Longrightarrow> w_session (workers st ! v) = w_session (workers st ! w)
      \<Longrightarrow> \<not> registered st v"
    and "ops st' = ops st" and "length (workers st') = length (workers st)"
    and "\<And>v. v < length (workers st) \<Longrightarrow> v \<noteq> w \<Longrightarrow> workers st' ! v = workers st ! v"
    and "w_session (workers st' ! w) = w_session (workers st ! w)"
    and "\<And>s. s \<noteq> w_session (workers st ! w) \<Longrightarrow> rec_of st' s = rec_of st s"
    and "worker (rec_of st' (w_session (workers st ! w))) = worker (rec_of st (w_session (workers st ! w)))"
    and "registered st w \<Longrightarrow> active st' w \<Longrightarrow> served cfg st' w"
  shows "orderly cfg st'"
proof -
  let ?s = "w_session (workers st ! w)"
  have act: "active st v" if "active st' v" for v
    using that assms(2,5,6) by (cases "v = w") (auto simp: active_def)
  have ses: "w_session (workers st' ! v) = w_session (workers st ! v)" if "v < length (workers st)" for v
    using that assms(6,7) by (cases "v = w") auto
  have wk: "worker (rec_of st' s) = worker (rec_of st s)" for s
    using assms(8,9) by (cases "s = ?s") auto
  have reg: "registered st' v = registered st v" if "v < length (workers st)" for v
    using that ses wk by (simp add: registered_def)
  show ?thesis
    unfolding orderly_def
  proof (intro conjI allI impI ballI)
    fix v assume "active st' v"
    then show "registered st' v \<or> in_flight st' v"
      using orderlyD(1) [OF assms(1) act] reg act assms(4) by (auto simp: in_flight_def active_def)
  next
    fix v u assume "active st' v" "active st' u" "w_session (workers st' ! v) = w_session (workers st' ! u)"
    then show "v = u"
      using orderlyD(2) [OF assms(1) act act] ses act by (metis active_def)
  next
    fix p assume "p \<in> set (ops st')"
    then show "op_sound st' p"
      using orderlyD(3) [OF assms(1), of p] assms(4,5) ses wk by (auto simp: op_sound_def)
  next
    fix v assume v: "active st' v" "registered st' v"
    have "v < length (workers st)" using act [OF v(1)] by (simp add: active_def)
    then have r: "registered st v" using v(2) reg by simp
    show "served cfg st' v"
    proof (cases "v = w")
      case True
      then show ?thesis using assms(10) v r by simp
    next
      case False
      then have "rec_of st' (w_session (workers st ! v)) = rec_of st (w_session (workers st ! v))"
        using alone act v(1) r assms(8) by (cases "w_session (workers st ! v) = ?s") force+
      then show ?thesis
        using orderlyD(4) [OF assms(1) act [OF v(1)] r] False assms(6) \<open>v < length (workers st)\<close>
        by (simp add: served_def)
    qed
  qed
qed

lemma alone_active:
  "orderly cfg st \<Longrightarrow> active st w \<Longrightarrow> active st v \<Longrightarrow> v \<noteq> w \<Longrightarrow>
    w_session (workers st ! v) = w_session (workers st ! w) \<Longrightarrow> \<not> registered st v"
  using orderlyD(2) by blast

lemma alone_registered:
  "registered st w \<Longrightarrow> v \<noteq> w \<Longrightarrow> w_session (workers st ! v) = w_session (workers st ! w) \<Longrightarrow> \<not> registered st v"
  by (simp add: registered_def)

lemma orderly_reply:
  assumes "orderly cfg st" and "owned st"
  shows "orderly cfg (snd (submit_reply sid approved tx st))"
proof (cases "get_rec st sid")
  case None
  then show ?thesis using assms by (simp add: submit_reply_def)
next
  case (Some r)
  note r = Some and ro = rec_of_get [OF Some]
  show ?thesis
  proof (cases "worker r = None \<or> pending_role r = None")
    case True
    then show ?thesis using assms r by (auto simp: submit_reply_def split: option.split)
  next
    case False
    then obtain w role where w: "worker r = Some w" "pending_role r = Some role" by auto
    then have own: "w < length (workers st)" "w_session (workers st ! w) = sid"
      using assms(2) ro by (auto simp: owned_def)
    then have reg: "registered st w" using ro w by (simp add: registered_def)
    let ?d = "dict_of [(''approved'', VBool approved), (''text'', VStr tx)]"
    let ?st' = "map_worker (\<lambda>k. k\<lparr>w_replies := w_replies k @ [Some ?d]\<rparr>) w
      (put_rec sid (r\<lparr>pending_role := None\<rparr>) st)"
    have eq: "snd (submit_reply sid approved tx st) = ?st'"
      using r w by (simp add: submit_reply_def)
    have served: "served cfg ?st' w" if "active st w"
      using orderlyD(4) [OF assms(1) that reg] w ro own unfolding served_def
      by (auto simp: map_worker_nth reply_ok_def split: wphase.splits)
    show ?thesis
      unfolding eq
      by (rule orderly_change [OF assms(1), where w = w])
        (use own ro served in \<open>auto simp: map_worker_nth active_def dest: alone_registered [OF reg]\<close>)
  qed
qed

section \<open>The worker's turns\<close>

lemma orderly_moved:
  assumes "orderly cfg st" and "active st w" and "ops st' = ops st"
    and "\<And>s. s \<noteq> w_session (workers st ! w) \<Longrightarrow> rec_of st' s = rec_of st s"
    and "worker (rec_of st' (w_session (workers st ! w))) = worker (rec_of st (w_session (workers st ! w)))"
    and "workers st' = (workers st)[w := k]" and "w_session k = w_session (workers st ! w)"
    and "w_stop k = w_stop (workers st ! w)" and "w_task k = w_task (workers st ! w)"
    and "served cfg st w \<Longrightarrow> reply_ok k (pending_role (rec_of st' (w_session k)))"
  shows "orderly cfg st'"
proof -
  have w: "w < length (workers st)" using assms(2) by (simp add: active_def)
  have "served cfg st' w" if "registered st w"
    using orderlyD(4) [OF assms(1,2) that] assms(6-10) w by (simp add: served_def)
  then show ?thesis
    using assms(2-7) w
    by (intro orderly_change [OF assms(1), where w = w] alone_active [OF assms(1,2)]) auto
qed

lemma relays_recs:
  "relays sid st st' \<Longrightarrow> ops st' = ops st \<and> (s \<noteq> sid \<longrightarrow> rec_of st' s = rec_of st s)
    \<and> worker (rec_of st' s) = worker (rec_of st s)"
  by (cases "s = sid") (simp_all add: relays_def)

lemma reply_ok_Exiting [simp]: "reply_ok (k\<lparr>w_phase := Exiting\<rparr>) role = (role = None)"
  by (simp add: reply_ok_def)

lemma map_worker_workers:
  "w < length (workers st) \<Longrightarrow> workers (map_worker f w st) = (workers st)[w := f (workers st ! w)]"
  by (simp add: map_worker_def)

text \<open>The end of the loop, after events the worker relayed and replies it took.\<close>

lemma orderly_to_Exiting:
  assumes "orderly cfg st" and "active st w" and "relays (w_session (workers st ! w)) st0 st1"
    and "st0 = st \<or> (\<exists>rest. st0 = map_worker (\<lambda>k. k\<lparr>w_replies := rest\<rparr>) w st)"
    and "served cfg st w \<Longrightarrow> pending_role (rec_of st1 (w_session (workers st ! w))) = None"
  shows "orderly cfg (set_phase Exiting w st1)"
proof -
  have w: "w < length (workers st)" using assms(2) by (simp add: active_def)
  then obtain rest where "workers st1 = (workers st)[w := (workers st ! w)\<lparr>w_replies := rest\<rparr>]"
    using assms(4) relays_workers [OF assms(3)] by (auto simp: map_worker_workers)
      (metis list_update_id sworker.surjective sworker.update_convs(5))
  then show ?thesis
    using relays_recs [OF assms(3)] assms(4,5) w
    by (intro orderly_moved [OF assms(1,2), where k = "(workers st ! w)\<lparr>w_replies := rest, w_phase := Exiting\<rparr>"])
      (auto simp: set_phase_def map_worker_workers)
qed

lemma event_done_pending:
  "dget e ''type'' = VStr ''done'' \<Longrightarrow> pending_role (rec_of (snd (handle_worker_event cfg t sid e st)) sid) = None"
  by (auto simp: handle_worker_event_def Let_def split: prod.splits sum.splits)

lemma error_pending: "pending_role (rec_of (snd (handle_worker_error cfg t sid e st)) sid) = None"
proof -
  have "fst (handle_worker_event cfg t sid (status_message m) st) = Inr ()" for m
    by (simp add: handle_worker_event_def Let_def status_message_def)
  then show ?thesis
    by (auto simp: handle_worker_error_def Let_def error_done_def intro!: event_done_pending
        split: prod.splits sum.splits) (metis fst_conv sum.distinct(1))
qed

lemma orderly_failed:
  assumes "orderly cfg st" and "active st w" and "relays (w_session (workers st ! w)) st0 st1"
    and "st0 = st \<or> (\<exists>rest. st0 = map_worker (\<lambda>k. k\<lparr>w_replies := rest\<rparr>) w st)"
  shows "orderly cfg (worker_failed cfg t e w st1)"
proof -
  have "w_session (workers st1 ! w) = w_session (workers st ! w)"
    using assms(2,4) relays_workers [OF assms(3)] by (auto simp: map_worker_nth active_def)
  then show ?thesis
    unfolding worker_failed_def
    using orderly_to_Exiting [OF assms(1,2) relays_trans [OF assms(3) relays_error] assms(4)] error_pending by simp
qed

lemma event_pending:
  "handle_worker_event cfg t sid e st = (Inr u, st1) \<Longrightarrow>
    pending_role (rec_of st1 sid) =
      (if dget e ''type'' = VStr ''done'' then None else role_after cfg e (pending_role (rec_of st sid)))"
  by (auto simp: handle_worker_event_def Let_def split: prod.splits sum.splits if_splits)

lemma orderly_emit:
  assumes "orderly cfg st" and "active st w"
    and "served cfg st w \<Longrightarrow> reply_ok ((workers st ! w)\<lparr>w_phase := ph\<rparr>)
      (if dget e ''type'' = VStr ''done'' then None
       else role_after cfg e (pending_role (rec_of st (w_session (workers st ! w)))))"
  shows "orderly cfg (worker_emit cfg t e ph w st)"
proof -
  let ?s = "w_session (workers st ! w)"
  obtain r st1 where ev: "handle_worker_event cfg t ?s e st = (r, st1)" by fastforce
  then have rel: "relays ?s st st1" using relays_event [of ?s st cfg t e] by simp
  show ?thesis
  proof (cases r)
    case (Inl x)
    then show ?thesis
      using ev orderly_failed [OF assms(1,2) rel] by (simp add: worker_emit_def)
  next
    case (Inr u)
    have w: "w < length (workers st)" using assms(2) by (simp add: active_def)
    have "orderly cfg (set_phase ph w st1)"
      using relays_recs [OF rel] relays_workers [OF rel] event_pending [OF ev [unfolded Inr]] assms(3) w
      by (intro orderly_moved [OF assms(1,2), where k = "(workers st ! w)\<lparr>w_phase := ph\<rparr>"])
        (auto simp: set_phase_def map_worker_workers)
    then show ?thesis using ev Inr by (simp add: worker_emit_def)
  qed
qed

text \<open>The coordinator and the worker agree on which messages wait for the user.\<close>

lemma role_after_waits:
  "approval_task cfg task \<Longrightarrow>
    (role_after cfg e None \<noteq> None) = waits_after task e"
  by (auto simp: role_after_def waits_after_def approval_task_def)

lemma orderly_phase:
  assumes "orderly cfg st" and "active st w"
    and "reply_ok (workers st ! w) (pending_role (rec_of st (w_session (workers st ! w)))) \<Longrightarrow>
      reply_ok ((workers st ! w)\<lparr>w_phase := ph\<rparr>) (pending_role (rec_of st (w_session (workers st ! w))))"
  shows "orderly cfg (set_phase ph w st)"
proof -
  have w: "w < length (workers st)" using assms(2) by (simp add: active_def)
  then show ?thesis
    using assms(3) by (intro orderly_moved [OF assms(1,2), where k = "(workers st ! w)\<lparr>w_phase := ph\<rparr>"])
      (auto simp: set_phase_def map_worker_workers served_def)
qed

lemma orderly_check:
  assumes "orderly cfg st" and "active st w"
    and "(w_phase (workers st ! w), ph) \<in> {(Receiving, Polling), (Waiting, Getting)}"
  shows "orderly cfg (check_stop ph w st)"
proof (cases "w_stop (workers st ! w)")
  case True
  have "orderly cfg (set_phase Exiting w st)"
    by (rule orderly_to_Exiting [OF assms(1,2), where ?st0.0 = st]) (use True in \<open>auto simp: relays_def served_def\<close>)
  then show ?thesis using True by (simp add: check_stop_def)
next
  case False
  then show ?thesis
    using assms(3) by (auto simp: check_stop_def reply_ok_def intro!: orderly_phase [OF assms(1,2)])
qed

lemma orderly_receive:
  assumes "orderly cfg st" and "active st w" and "w_phase (workers st ! w) = Polling"
  shows "orderly cfg (receive_step cfg t rcv w st)"
proof -
  have again: "orderly cfg (set_phase Receiving w st)"
    using assms(3) by (intro orderly_phase [OF assms(1,2)]) (simp add: reply_ok_def)
  have fail: "orderly cfg (worker_failed cfg t e w st)" for e
    by (rule orderly_failed [OF assms(1,2), where ?st0.0 = st]) (auto simp: relays_def)
  have emit: "orderly cfg (worker_emit cfg t e
      (if dget e ''type'' = VStr ''done'' then Exiting
       else if waits_after (w_task (workers st ! w)) e then Waiting else Receiving) w st)" for e
    using role_after_waits [of cfg "w_task (workers st ! w)" e] assms(3)
    by (intro orderly_emit [OF assms(1,2)]) (auto simp: served_def reply_ok_def)
  show ?thesis
    using again fail emit assms(1)
    by (auto simp: receive_step_def split: received.split)
qed

lemma orderly_wait:
  assumes "orderly cfg st" and "active st w" and "w_phase (workers st ! w) = Getting"
  shows "orderly cfg (wait_step cfg t sent w st)"
proof -
  have w: "w < length (workers st)" using assms(2) by (simp add: active_def)
  have again: "orderly cfg (set_phase Waiting w st)"
    using assms(3) by (intro orderly_phase [OF assms(1,2)]) (simp add: reply_ok_def)
  show ?thesis
  proof (cases "w_replies (workers st ! w)")
    case Nil
    then show ?thesis using again by (simp add: wait_step_def)
  next
    case (Cons m rest)
    let ?st0 = "map_worker (\<lambda>k. k\<lparr>w_replies := rest\<rparr>) w st"
    have "m = None \<Longrightarrow> orderly cfg (map_worker (\<lambda>k. k\<lparr>w_replies := rest, w_phase := Exiting\<rparr>) w st)"
      using w Cons assms(3) by (intro orderly_moved [OF assms(1,2), where k = "(workers st ! w)\<lparr>w_replies := rest, w_phase := Exiting\<rparr>"])
        (auto simp: map_worker_workers served_def reply_ok_def)
    moreover have "orderly cfg (worker_failed cfg t e w ?st0)" for e
      by (rule orderly_failed [OF assms(1,2), where ?st0.0 = ?st0]) (auto simp: relays_def)
    moreover have "orderly cfg (set_phase Receiving w (send_to b d ?st0))" for b d
      using w assms(3) Cons
      by (intro orderly_moved [OF assms(1,2), where k = "(workers st ! w)\<lparr>w_replies := rest, w_phase := Receiving\<rparr>"])
        (auto simp: set_phase_def map_worker_workers served_def reply_ok_def)
    ultimately show ?thesis
      using Cons by (cases m; cases sent) (simp_all add: wait_step_def Let_def)
  qed
qed

lemma orderly_begin:
  assumes "orderly cfg st" and "active st w" and "w_phase (workers st ! w) = Starting"
  shows "orderly cfg (set_phase Receiving w st)" "orderly cfg (emit_fire_status_message cfg t s w st)"
proof -
  have w: "w < length (workers st)" using assms(2) by (simp add: active_def)
  show r: "orderly cfg (set_phase Receiving w st)"
    using w assms(3) by (intro orderly_moved [OF assms(1,2), where k = "(workers st ! w)\<lparr>w_phase := Receiving\<rparr>"])
      (auto simp: set_phase_def map_worker_workers served_def reply_ok_def)
  have "orderly cfg (worker_emit cfg t (status_message s) Receiving w st)"
    using assms(3) by (intro orderly_emit [OF assms(1,2)])
      (auto simp: served_def reply_ok_def role_after_def status_message_def)
  then show "orderly cfg (emit_fire_status_message cfg t s w st)"
    using r by (simp add: emit_fire_status_message_def)
qed

lemma rec_of_exit:
  "rec_of (handle_worker_exit sid st) s =
    (if s = sid then (rec_of st s)\<lparr>worker := None, pending_role := None\<rparr> else rec_of st s)"
  by (auto simp: handle_worker_exit_def rec_of_get split: option.split) (simp add: rec_of_def new_srec_def)

lemma handle_worker_exit_ops [simp]: "ops (handle_worker_exit sid st) = ops st"
  by (simp add: handle_worker_exit_def split: option.split)

lemma orderly_exit:
  assumes "orderly cfg st" and "active st w"
  shows "orderly cfg (set_phase Leaving w (handle_worker_exit (w_session (workers st ! w)) st))"
    (is "orderly cfg ?st'")
proof -
  let ?s = "w_session (workers st ! w)"
  have w: "w < length (workers st)" using assms(2) by (simp add: active_def)
  have ws: "workers ?st' = (workers st)[w := (workers st ! w)\<lparr>w_phase := Leaving\<rparr>]" "ops ?st' = ops st"
    using w by (simp_all add: set_phase_def map_worker_workers)
  have r: "rec_of ?st' s = (if s = ?s then (rec_of st s)\<lparr>worker := None, pending_role := None\<rparr> else rec_of st s)" for s
    by (simp add: set_phase_def rec_of_exit)
  have keep: "length (workers ?st') = length (workers st)"
    "w_session (workers ?st' ! v) = w_session (workers st ! v)"
    "worker (rec_of ?st' s) = None \<or> worker (rec_of ?st' s) = worker (rec_of st s)" for v s
    using w unfolding ws(1) r by (auto simp: nth_list_update)
  have act: "active st v \<and> v \<noteq> w" if "active st' v" "workers st' = workers ?st'" for v st'
    using that w ws by (cases "v = w") (auto simp: active_def)
  have other: "w_session (workers st ! v) \<noteq> ?s" if "active ?st' v" for v
    using orderlyD(2) [OF assms(1) _ assms(2)] act [OF that refl] by blast
  show ?thesis
    unfolding orderly_def
  proof (intro conjI allI impI ballI)
    fix v assume v: "active ?st' v"
    then show "registered ?st' v \<or> in_flight ?st' v"
      using orderlyD(1) [OF assms(1)] act [OF v refl] other [OF v] ws r
      by (auto simp: registered_def in_flight_def)
  next
    fix v u assume v: "active ?st' v" "active ?st' u" "w_session (workers ?st' ! v) = w_session (workers ?st' ! u)"
    then show "v = u"
      using orderlyD(2) [OF assms(1)] act [OF v(1) refl] act [OF v(2) refl] ws by auto
  next
    fix p assume "p \<in> set (ops ?st')"
    then have "op_sound st p" using orderlyD(3) [OF assms(1)] ws(2) by simp
    then show "op_sound ?st' p"
      using keep(3) [of "op_session p"] unfolding op_sound_def keep(1,2) by auto
  next
    fix v assume v: "active ?st' v" "registered ?st' v"
    have "registered st v" using v(2) other [OF v(1)] act [OF v(1) refl] ws r by (simp add: registered_def)
    then show "served cfg ?st' v"
      using orderlyD(4) [OF assms(1)] act [OF v(1) refl] other [OF v(1)] ws r by (simp add: served_def)
  qed
qed

lemma orderly_gone:
  assumes "orderly cfg st" and "w < length (workers st)" and "w_phase (workers st ! w) = Leaving"
  shows "orderly cfg (set_phase Gone w st)"
  by (rule orderly_change [OF assms(1), where w = w])
    (use assms in \<open>auto simp: set_phase_def map_worker_nth active_def\<close>)

lemma orderly_worker_step:
  assumes "orderly cfg st"
  shows "orderly cfg (worker_step cfg t rcv sent w st)"
proof (cases "w < length (workers st)")
  case True
  note w = True
  show ?thesis
  proof (cases "w_phase (workers st ! w)")
    case Starting
    with w show ?thesis
      using orderly_begin [OF assms, of w] by (simp add: worker_step_def active_def)
  next
    case Receiving
    with w show ?thesis
      using orderly_check [OF assms, of w Polling] by (simp add: worker_step_def active_def)
  next
    case Polling
    with w show ?thesis
      using orderly_receive [OF assms, of w] by (simp add: worker_step_def active_def)
  next
    case Waiting
    with w show ?thesis
      using orderly_check [OF assms, of w Getting] by (simp add: worker_step_def active_def)
  next
    case Getting
    with w show ?thesis
      using orderly_wait [OF assms, of w] by (simp add: worker_step_def active_def)
  next
    case Exiting
    with w show ?thesis
      using orderly_exit [OF assms, of w] by (simp add: worker_step_def active_def)
  next
    case Leaving
    with w show ?thesis
      using orderly_gone [OF assms] by (simp add: worker_step_def)
  next
    case Gone
    with w assms show ?thesis by (simp add: worker_step_def)
  qed
qed (simp add: worker_step_def assms)

section \<open>Operations in flight\<close>

lemma orderly_worker_stop:
  assumes "orderly cfg st" and "\<not> registered st w"
  shows "orderly cfg (worker_stop w st)"
  using assms
  by (auto simp: worker_stop_def intro!: orderly_change [OF assms(1), where w = w])
    (auto simp: map_worker_nth active_def split: if_splits)

lemma worker_stop_fields [simp]:
  "rec_of (worker_stop w st) = rec_of st" "ops (worker_stop w st) = ops st"
  by (simp_all add: worker_stop_def)

lemma orderly_outside:
  assumes "orderly cfg st" and "p \<in> set (ops st)"
  shows "orderly cfg (op_outside stops p st)"
proof -
  have "orderly cfg (case op_worker p of None \<Rightarrow> st | Some w \<Rightarrow> worker_stop w st)"
    using assms orderlyD(3) [OF assms]
    by (auto simp: op_sound_def registered_def intro!: orderly_worker_stop split: option.split)
  then show ?thesis
    by (auto simp: op_outside_def Let_def intro: orderly_crash split: option.split)
qed

lemma finish_op_fields:
  "workers (finish_op p st) = workers st" "ops (finish_op p st) = remove1 p (ops st)"
  "worker (rec_of (finish_op p st) s) = worker (rec_of st s)
    \<and> pending_role (rec_of (finish_op p st) s) = pending_role (rec_of st s)"
  by (auto simp: finish_op_def Let_def rec_of_get split: option.split)

lemma orderly_finish:
  assumes "orderly cfg st" and "op_joined st p"
  shows "orderly cfg (finish_op p st)"
proof -
  let ?st' = "finish_op p st"
  have eq: "active ?st' = active st" "registered ?st' = registered st" "served cfg ?st' = served cfg st"
    by (auto simp: fun_eq_iff active_def registered_def served_def finish_op_fields)
  have "in_flight ?st' w" if fl: "in_flight st w" and ac: "active st w" for w
  proof -
    obtain q where q: "q \<in> set (ops st)" "op_worker q = Some w" using fl by (auto simp: in_flight_def)
    have "q \<noteq> p" using assms(2) ac q(2) by (auto simp: op_joined_def worker_running_def active_def)
    then show ?thesis using q by (auto simp: in_flight_def finish_op_fields in_set_remove1)
  qed
  moreover have "op_sound ?st' q" if "q \<in> set (ops ?st')" for q
    using orderlyD(3) [OF assms(1), of q] that set_remove1_subset [of p "ops st"]
    by (auto simp: op_sound_def finish_op_fields)
  ultimately show ?thesis
    using assms(1) eq by (auto simp: orderly_def finish_op_fields(1))
qed

text \<open>
  Taking the workers of some sessions out of the table into operations in flight. None of
  these sessions had an operation of its own before.
\<close>

lemma orderly_take:
  assumes "orderly cfg st" and "owned st" and "workers st' = workers st" and "ops st' = ops st @ ps"
    and "\<And>s. s \<in> S \<Longrightarrow> worker (rec_of st' s) = None"
    and "\<And>s. s \<notin> S \<Longrightarrow> worker (rec_of st' s) = worker (rec_of st s)
        \<and> pending_role (rec_of st' s) = pending_role (rec_of st s)"
    and taken: "\<And>s w. s \<in> S \<Longrightarrow> worker (rec_of st s) = Some w \<Longrightarrow> \<exists>p \<in> set ps. op_worker p = Some w"
    and ps: "\<And>p w. p \<in> set ps \<Longrightarrow> op_worker p = Some w \<Longrightarrow>
        op_session p \<in> S \<and> worker (rec_of st (op_session p)) = Some w \<and> op_kind p \<noteq> Reap"
  shows "orderly cfg st'"
proof -
  have act: "active st' = active st" using assms(3) by (simp add: fun_eq_iff active_def)
  have reg: "registered st' w \<longleftrightarrow> registered st w \<and> w_session (workers st ! w) \<notin> S" for w
    using assms(3,5,6) by (cases "w_session (workers st ! w) \<in> S") (auto simp: registered_def)
  have fly: "in_flight st' w" if "in_flight st w \<or> registered st w \<and> w_session (workers st ! w) \<in> S" for w
    using that taken assms(4) by (auto simp: in_flight_def registered_def)
  have old: "op_sound st' p" if "op_sound st p" for p
    using that assms(3,5,6) by (cases "op_session p \<in> S") (auto simp: op_sound_def)
  have new: "op_sound st' p" if "p \<in> set ps" for p
    using ps [OF that] assms(2,3,5) by (auto simp: op_sound_def owned_def)
  show ?thesis
    unfolding orderly_def
  proof (intro conjI allI impI ballI)
    fix w assume "active st' w"
    then show "registered st' w \<or> in_flight st' w"
      using orderlyD(1) [OF assms(1), of w] act reg fly by metis
  next
    fix w v assume "active st' w" "active st' v" "w_session (workers st' ! w) = w_session (workers st' ! v)"
    then show "w = v" using orderlyD(2) [OF assms(1)] act assms(3) by metis
  next
    fix p assume "p \<in> set (ops st')"
    then show "op_sound st' p" using old new orderlyD(3) [OF assms(1)] assms(4) by auto
  next
    fix w assume "active st' w" "registered st' w"
    then show "served cfg st' w"
      using orderlyD(4) [OF assms(1)] act reg assms(3,6) by (auto simp: served_def)
  qed
qed

lemma orderly_stop_session:
  assumes "orderly cfg st" and "owned st"
  shows "orderly cfg (stop_session_begin sid st)"
proof (cases "get_rec st sid")
  case (Some r)
  then show ?thesis
    by (intro orderly_take [OF assms, where S = "{sid}"
          and ps = "[\<lparr>op_kind = StopSession, op_session = sid, op_worker = worker r, op_box = sandbox r\<rparr>]"])
      (auto simp: stop_session_begin_def rec_of_get)
qed (simp add: stop_session_begin_def assms)

lemma orderly_stop_all:
  assumes "orderly cfg st" and "owned st"
  shows "orderly cfg (stop_all_begin st)"
proof (rule orderly_take [OF assms, where S = UNIV and ps = "snd (stop_all_records (recs st))"])
  show "workers (stop_all_begin st) = workers st" "ops (stop_all_begin st) = ops st @ snd (stop_all_records (recs st))"
    by (simp_all add: stop_all_begin_def split: prod.split)
next
  fix s w assume w: "worker (rec_of st s) = Some w"
  then obtain r where "map_of (recs st) s = Some r" "worker r = Some w"
    by (auto simp: rec_of_def get_rec_def split: option.splits)
  then show "\<exists>p \<in> set (snd (stop_all_records (recs st))). op_worker p = Some w"
    by (force simp: stop_all_records_eq dest!: map_of_SomeD)
next
  fix p w assume p: "p \<in> set (snd (stop_all_records (recs st)))" "op_worker p = Some w"
  then obtain r where r: "(op_session p, r) \<in> set (recs st)" "worker r = Some w" "op_kind p = StopAll"
    by (auto simp: stop_all_records_eq)
  then have "map_of (recs st) (op_session p) = Some r"
    using assms(2) by (auto simp: owned_def intro: map_of_is_SomeI)
  then show "op_session p \<in> UNIV \<and> worker (rec_of st (op_session p)) = Some w \<and> op_kind p \<noteq> Reap"
    using r by (simp add: rec_of_def get_rec_def)
qed (simp_all add: rec_of_stop_all)

section \<open>Starts\<close>

lemma orderly_added:
  assumes "orderly cfg st" and "owned st" and none: "\<And>w. active st w \<Longrightarrow> w_session (workers st ! w) \<noteq> sid"
    and "ops st' = ops st" and "\<And>s. s \<noteq> sid \<Longrightarrow> rec_of st' s = rec_of st s"
    and new: "workers st' = workers st \<and> worker (rec_of st' sid) = None
      \<or> (\<exists>k. workers st' = workers st @ [k] \<and> w_session k = sid \<and> approval_task cfg (w_task k)
           \<and> w_phase k = Starting \<and> \<not> w_stop k \<and> w_replies k = []
           \<and> worker (rec_of st' sid) = Some (length (workers st)) \<and> pending_role (rec_of st' sid) = None)"
  shows "orderly cfg st'"
proof -
  have le: "length (workers st) \<le> length (workers st')" using new by auto
  have nth: "workers st' ! w = workers st ! w" if "w < length (workers st)" for w
    using new that by (auto simp: nth_append)
  have act: "active st' w \<longleftrightarrow> active st w" if "w < length (workers st)" for w
    using that le nth by (simp add: active_def)
  have last: "w_session (workers st' ! w) = sid \<and> registered st' w \<and> served cfg st' w \<and> w = length (workers st)"
    if "active st' w" "\<not> w < length (workers st)" for w
    using that new by (auto simp: active_def registered_def served_def reply_ok_def nth_append)
  have reg: "registered st' w \<longleftrightarrow> registered st w" and srv: "served cfg st' w \<longleftrightarrow> served cfg st w" if "active st w" for w
    using that none [OF that] nth [of w] assms(5) by (simp_all add: registered_def served_def active_def)
  show ?thesis
    unfolding orderly_def
  proof (intro conjI allI impI ballI)
    fix w assume "active st' w"
    then show "registered st' w \<or> in_flight st' w"
      using orderlyD(1) [OF assms(1)] act reg last assms(4) by (cases "w < length (workers st)") (auto simp: in_flight_def)
  next
    fix w v assume a: "active st' w" "active st' v" "w_session (workers st' ! w) = w_session (workers st' ! v)"
    show "w = v"
    proof (cases "w < length (workers st) \<and> v < length (workers st)")
      case True
      then show ?thesis using orderlyD(2) [OF assms(1)] a act nth by simp
    next
      case False
      have "u = length (workers st)" if "active st' u" "w_session (workers st' ! u) = sid" for u
        using that last act nth none by (cases "u < length (workers st)") auto
      moreover have "w_session (workers st' ! w) = sid \<and> w_session (workers st' ! v) = sid"
        using False last a by metis
      ultimately show ?thesis using a by metis
    qed
  next
    fix p assume "p \<in> set (ops st')"
    then have p: "op_sound st p" using orderlyD(3) [OF assms(1)] assms(4) by simp
    show "op_sound st' p"
      unfolding op_sound_def
    proof (intro allI impI)
      fix w assume w: "op_worker p = Some w"
      have "worker (rec_of st' (op_session p)) \<noteq> Some w"
        using p w assms(5) new by (cases "op_session p = sid") (auto simp: op_sound_def)
      then show "w < length (workers st') \<and> w_session (workers st' ! w) = op_session p
          \<and> op_kind p \<noteq> Reap \<and> worker (rec_of st' (op_session p)) \<noteq> Some w"
        using p w nth le by (simp add: op_sound_def)
    qed
  next
    fix w assume "active st' w" "registered st' w"
    then show "served cfg st' w"
      using orderlyD(4) [OF assms(1)] act reg srv last by (cases "w < length (workers st)") auto
  qed
qed

lemma no_active_in_idle:
  assumes "orderly cfg st" and "adapter_idle st sid" and "\<not> has_running_worker st (rec_of st sid)" and "active st w"
  shows "w_session (workers st ! w) \<noteq> sid"
proof
  assume s: "w_session (workers st ! w) = sid"
  have "\<not> registered st w"
    using assms(3,4) s by (auto simp: registered_def has_running_worker_def worker_running_def active_def)
  then obtain p where p: "p \<in> set (ops st)" "op_worker p = Some w"
    using orderlyD(1) [OF assms(1,4)] by (auto simp: in_flight_def)
  then have "op_session p = sid \<and> op_kind p \<noteq> Reap"
    using orderlyD(3) [OF assms(1) p(1)] s by (auto simp: op_sound_def)
  then show False using assms(2) p(1) by (auto simp: adapter_idle_def list_all_iff)
qed

lemma orderly_start:
  assumes "orderly cfg st" and "owned st" and "adapter_idle st sid"
  shows "orderly cfg (start_and_report cfg t sid tx snk l st)"
proof (cases rule: start_and_report_cases [where cfg = cfg and t = t and sid = sid and tx = tx
      and snk = snk and l = l and st = st])
  case refused
  then show ?thesis by (intro orderly_quiet [OF assms(1), where ps = "[]"]) auto
next
  case (accepted st1)
  let ?st' = "start_and_report cfg t sid tx snk l st"
  note none = no_active_in_idle [OF assms(1,3) accepted(3)]
  have new: "workers st1 = workers st \<and> worker (rec_of st1 sid) = None
      \<or> (\<exists>k. workers st1 = workers st @ [k] \<and> w_session k = sid \<and> approval_task cfg (w_task k)
           \<and> w_phase k = Starting \<and> \<not> w_stop k \<and> w_replies k = []
           \<and> worker (rec_of st1 sid) = Some (length (workers st)) \<and> pending_role (rec_of st1 sid) = None)"
    and same: "ops st1 = ops st" "\<And>s. s \<noteq> sid \<Longrightarrow> rec_of st1 s = rec_of st s"
    using accepted(1) by (auto simp: starts_def)
  from accepted(2) show ?thesis
  proof
    assume "?st' = st1"
    then show ?thesis using orderly_added [OF assms(1,2) none] same new by simp
  next
    assume "workers st1 = workers st \<and> relays sid st1 ?st'"
    then have r: "workers st1 = workers st" "relays sid st1 ?st'" by auto
    then have "worker (rec_of st1 sid) = None" using new by simp
    then show ?thesis
      using r same by (intro orderly_added [OF assms(1,2) none]) (auto simp: relays_def)
  qed
qed

lemma reachable_orderly: "reachable False cfg st \<Longrightarrow> orderly cfg st"
proof (induction rule: reachable.induct)
  case (init d)
  show ?case by (rule orderly_initial)
next
  case (step st st')
  note ow = reachable_owned [OF step.hyps(1)]
  from step.hyps(2) show ?case
    by (cases rule: coord_step.cases)
      (use step.IH ow in \<open>auto intro: orderly_start orderly_retire orderly_stop_session orderly_stop_all
        orderly_reap orderly_reply orderly_seed orderly_worker_step orderly_outside orderly_finish orderly_crash\<close>)
qed

section \<open>Properties\<close>

text \<open>
  C6. Two sessions never hold the same sandbox, and a worker reads only the sandbox of its own
  session, in every reachable state.
\<close>

theorem sandboxes_isolated:
  assumes "reachable late cfg st"
  shows "(sandbox (rec_of st s1) = Some b \<and> sandbox (rec_of st s2) = Some b \<longrightarrow> s1 = s2)
    \<and> (w < length (workers st) \<and> sandbox (rec_of st s) = Some (w_sandbox (workers st ! w)) \<longrightarrow>
      s = w_session (workers st ! w))"
  using reachable_owned [OF assms] unfolding owned_def by metis

theorem sandboxes_isolated_witness:
  "sandbox (rec_of demo_started ''s'') = Some 0 \<and> sandbox (rec_of demo_started ''t'') \<noteq> Some 0"
proof -
  have "sandbox (rec_of demo_started ''s'') = Some 0" by code_simp
  then show ?thesis
    using sandboxes_isolated [OF reachable_started [of True], of "''s''" 0 "''t''"] by auto
qed

text \<open>
  C21. When stopped workers end in time, a session has at most one active worker, no two
  active workers read the same sandbox, and each is registered with its session or being
  stopped.
\<close>

theorem one_worker_per_session:
  assumes "reachable False cfg st" and "active st w" and "active st v"
    and "w_session (workers st ! w) = w_session (workers st ! v)
      \<or> w_sandbox (workers st ! w) = w_sandbox (workers st ! v)"
  shows "w = v \<and> (registered st w \<or> in_flight st w)"
proof -
  note o = reachable_orderly [OF assms(1)]
  have "w_session (workers st ! w) = w_session (workers st ! v)"
    using assms(2-4) reachable_owned [OF assms(1)] unfolding owned_def active_def by metis
  then show ?thesis using orderlyD(1,2) [OF o] assms(2,3) by blast
qed

theorem one_worker_per_session_witness: "registered demo_started 0 \<or> in_flight demo_started 0"
proof -
  have "active demo_started 0" by code_simp
  then show ?thesis using one_worker_per_session [OF reachable_started] by blast
qed

text \<open>The turn of a waiting worker that has its answer.\<close>

lemma getting_turn:
  assumes "w < length (workers st)" and "w_phase (workers st ! w) = Getting"
    and "w_replies (workers st ! w) = [Some d]"
  shows "to_sandbox (worker_step cfg t rcv (Inr ()) w st) =
      to_sandbox st @ [(w_sandbox (workers st ! w), user_reply d)]
    \<and> w_phase (workers (worker_step cfg t rcv (Inr ()) w st) ! w) = Receiving"
  using assms by (simp add: worker_step_def wait_step_def Let_def set_phase_def send_to_def map_worker_def)

lemma answered_turns:
  assumes "w < length (workers st)" and "w_phase (workers st ! w) \<in> {Waiting, Getting}"
    and "\<not> w_stop (workers st ! w)" and "w_replies (workers st ! w) = [Some d]"
    and "turn = worker_step cfg t rcv (Inr ()) w"
    and "st' = (if w_phase (workers st ! w) = Waiting then turn (turn st) else turn st)"
  shows "to_sandbox st' = to_sandbox st @ [(w_sandbox (workers st ! w), user_reply d)]
    \<and> w_phase (workers st' ! w) = Receiving"
proof (cases "w_phase (workers st ! w) = Waiting")
  case True
  let ?g = "set_phase Getting w st"
  have t: "turn st = ?g"
    using assms(1,3,5) True by (simp add: worker_step_def check_stop_def)
  have g: "workers ?g ! w = (workers st ! w)\<lparr>w_phase := Getting\<rparr>" "length (workers ?g) = length (workers st)"
      "to_sandbox ?g = to_sandbox st"
    using assms(1) by (simp_all add: set_phase_def map_worker_def)
  show ?thesis
    using getting_turn [of w ?g d cfg t rcv] g assms(1,4,5,6) True t by simp
next
  case False
  then show ?thesis using getting_turn [of w st d cfg t rcv] assms by simp
qed

text \<open>
  C9. A reply is taken exactly when the session's worker waits and has not been answered; it is
  then the only one queued, a second is refused, and the worker's next turns, one in \<open>get\<close> or
  two from the head of its loop, send it to the sandbox and go back to receiving.
\<close>

theorem replies_accounted:
  assumes "reachable False cfg st" and "active st w" and "registered st w"
    and "sid = w_session (workers st ! w)" and "submit_reply sid a tx st = (taken, st')"
    and "turn = worker_step cfg t rcv (Inr ()) w"
    and "after_turns = (if w_phase (workers st ! w) = Waiting then turn (turn st') else turn st')"
  shows "(taken \<longleftrightarrow> w_phase (workers st ! w) \<in> {Waiting, Getting} \<and> w_replies (workers st ! w) = [])
    \<and> (taken \<longrightarrow> \<not> fst (submit_reply sid a' tx' st')
      \<and> to_sandbox after_turns = to_sandbox st @
          [(w_sandbox (workers st ! w), user_reply (dict_of [(''approved'', VBool a), (''text'', VStr tx)]))]
      \<and> w_phase (workers after_turns ! w) = Receiving)"
proof -
  have len: "w < length (workers st)" and ph: "w_phase (workers st ! w) \<notin> {Leaving, Gone}"
    using assms(2) by (auto simp: active_def)
  obtain r where r: "get_rec st sid = Some r" "worker r = Some w"
    using assms(3,4) by (auto simp: registered_def rec_of_def split: option.splits)
  have "served cfg st w"
    using orderlyD(4) [OF reachable_orderly [OF assms(1)] assms(2,3)] .
  then have ok: "\<not> w_stop (workers st ! w)" "reply_ok (workers st ! w) (pending_role r)"
    using assms(4) rec_of_get [OF r(1)] by (auto simp: served_def)
  have "taken \<longleftrightarrow> pending_role r \<noteq> None"
    using assms(5) r by (auto simp: submit_reply_def split: option.splits)
  then have iff: "taken \<longleftrightarrow> w_phase (workers st ! w) \<in> {Waiting, Getting} \<and> w_replies (workers st ! w) = []"
    using ok(2) ph by (auto simp: reply_ok_def split: wphase.splits)
  let ?d = "dict_of [(''approved'', VBool a), (''text'', VStr tx)]"
  have "\<not> fst (submit_reply sid a' tx' st')
      \<and> to_sandbox after_turns = to_sandbox st @ [(w_sandbox (workers st ! w), user_reply ?d)]
      \<and> w_phase (workers after_turns ! w) = Receiving" if tk: "taken"
  proof -
    have st': "st' = map_worker (\<lambda>k. k\<lparr>w_replies := w_replies k @ [Some ?d]\<rparr>) w
        (put_rec sid (r\<lparr>pending_role := None\<rparr>) st)"
      using assms(5) tk r by (auto simp: submit_reply_def split: option.splits)
    then have k: "workers st' ! w = (workers st ! w)\<lparr>w_replies := [Some ?d]\<rparr>"
        "length (workers st') = length (workers st)" "to_sandbox st' = to_sandbox st"
      using len tk iff by (simp_all add: map_worker_def put_rec_def)
    have "get_rec st' sid = Some (r\<lparr>pending_role := None\<rparr>)" by (simp add: st')
    then have "\<not> fst (submit_reply sid a' tx' st')" by (simp add: submit_reply_def split: option.split)
    then show ?thesis
      using answered_turns [of w st' ?d turn cfg t rcv after_turns] k len tk iff ok(1) assms(6,7) by simp
  qed
  with iff show ?thesis by blast
qed

theorem replies_accounted_witness:
  "fst (submit_reply ''s'' True ''yes'' demo_asked)
   \<and> \<not> fst (submit_reply ''s'' True ''yes'' (snd (submit_reply ''s'' True ''yes'' demo_asked)))"
proof -
  have a: "active demo_asked 0" and r: "registered demo_asked 0" and s: "''s'' = w_session (workers demo_asked ! 0)"
    and p: "w_phase (workers demo_asked ! 0) = Waiting \<and> w_replies (workers demo_asked ! 0) = []"
    by code_simp+
  obtain taken st' where e: "submit_reply ''s'' True ''yes'' demo_asked = (taken, st')" by fastforce
  show ?thesis
    using replies_accounted [OF reachable_asked a r s e refl refl, of True "''yes''"] p e by simp
qed

text \<open>
  C37. When a stopped worker outlives its join, the session can start again before that thread
  calls \<open>on_exit\<close>, and the late call then unregisters the new worker: the next task is sent to
  the same sandbox and two active workers read it.
\<close>

theorem late_worker_shares_sandbox:
  "\<exists>st w v. reachable True demo_cfg st \<and> active st w \<and> active st v \<and> w \<noteq> v
    \<and> w_sandbox (workers st ! w) = w_sandbox (workers st ! v)"
proof -
  let ?go = "start_and_report demo_cfg demo_tick ''s'' ''go'' 0 demo_launch"
  let ?turn = "worker_step demo_cfg demo_tick RNothing (Inr ()) 0"
  let ?p = "\<lparr>op_kind = StopSession, op_session = ''s'', op_worker = Some 0, op_box = Some 0\<rparr>"
  let ?st1 = "stop_session_begin ''s'' demo_started"
  let ?st2 = "op_outside True ?p ?st1"
  let ?st3 = "finish_op ?p ?st2"
  let ?st4 = "?go ?st3"
  let ?st5 = "?turn (?turn (?turn ?st4))"
  note step = reachable.step [where late = True and cfg = demo_cfg]
  have 1: "reachable True demo_cfg ?st1"
    by (rule step [OF reachable_started coord_step.stop]) code_simp
  have 2: "reachable True demo_cfg ?st2"
    by (rule step [OF 1 coord_step.outside]) code_simp
  have 3: "reachable True demo_cfg ?st3"
    by (rule step [OF 2 coord_step.finish]) (code_simp, simp)
  have 4: "reachable True demo_cfg ?st4"
    by (rule step [OF 3 coord_step.start]) code_simp
  have 5: "reachable True demo_cfg ?st5"
    by (rule step [OF step [OF step [OF 4 coord_step.work] coord_step.work] coord_step.work])
  have 6: "reachable True demo_cfg (?go ?st5)"
    by (rule step [OF 5 coord_step.start]) code_simp
  have "active (?go ?st5) 1 \<and> active (?go ?st5) 2
      \<and> w_sandbox (workers (?go ?st5) ! 1) = w_sandbox (workers (?go ?st5) ! 2)"
    by code_simp
  then show ?thesis using 6 by (intro exI [of _ "?go ?st5"] exI [of _ 1] exI [of _ 2]) simp
qed

end
