(* ===== verification/Transport.thy ===== *)
theory Transport
  imports Protocol
begin

text \<open>
  \<open>agent/transport.py\<close>: the in-process pair of queues and the newline-framed socket.
  A queue is a list in a store shared by the two ends; the socket's other side is a
  script of what \<open>recv\<close> does next.
\<close>

section \<open>Framing\<close>

text \<open>\<open>_extract_line\<close>: the first complete line of the buffer, with its newline.\<close>

definition extract_line :: "string \<Rightarrow> (string \<times> string) option" where
  "extract_line buffer =
     (if newline \<in> set buffer
      then Some (takeWhile (\<lambda>c. c \<noteq> newline) buffer @ [newline],
                 tl (dropWhile (\<lambda>c. c \<noteq> newline) buffer))
      else None)"

lemma extract_line_append:
  "newline \<notin> set b \<Longrightarrow> extract_line (b @ newline # r) = Some (b @ [newline], r)"
  using takeWhile_dropWhile_sep [of newline b r] by (simp add: extract_line_def)

lemma extract_line_None: "extract_line b = None \<longleftrightarrow> newline \<notin> set b"
  by (simp add: extract_line_def)

lemma extract_line_Some:
  "extract_line b = Some (l, r) \<Longrightarrow> b = l @ r \<and> (\<exists>x. l = x @ [newline] \<and> newline \<notin> set x)"
proof -
  assume a: "extract_line b = Some (l, r)"
  then have "newline \<in> set b" by (auto simp: extract_line_def split: if_splits)
  then obtain x y where xy: "b = x @ newline # y" "newline \<notin> set x"
    by (meson split_list_first)
  with a extract_line_append [OF xy(2), of y] show ?thesis by auto
qed

section \<open>The in-process transport\<close>

text \<open>
  The queues are shared objects: a store maps queue numbers to their contents, and an
  end of a transport names its two queues.
\<close>

type_synonym queues = "nat \<Rightarrow> string list"

record inproc =
  ip_incoming :: nat
  ip_outgoing :: nat
  ip_closed :: bool

definition inproc_pair :: "nat \<Rightarrow> nat \<Rightarrow> inproc \<times> inproc" where
  "inproc_pair a_to_b b_to_a =
     (\<lparr>ip_incoming = b_to_a, ip_outgoing = a_to_b, ip_closed = False\<rparr>,
      \<lparr>ip_incoming = a_to_b, ip_outgoing = b_to_a, ip_closed = False\<rparr>)"

definition inproc_send :: "inproc \<Rightarrow> queues \<Rightarrow> pydict \<Rightarrow> queues res" where
  "inproc_send t qs event =
     (if ip_closed t then raise RuntimeError ''Transport is closed.''
      else bind_res (encode_event event) (\<lambda>line.
             Inr (qs(ip_outgoing t := qs (ip_outgoing t) @ [line]))))"

text \<open>
  \<open>queue.get()\<close> on an empty queue waits for another thread to put a line: without a
  timeout the modelled run stops there.
\<close>

definition inproc_receive ::
    "inproc \<Rightarrow> queues \<Rightarrow> rat option \<Rightarrow> pydict option outcome \<times> queues" where
  "inproc_receive t qs timeout =
     (if ip_closed t then (Raised (Exn RuntimeError ''Transport is closed.''), qs)
      else if (case timeout of Some s \<Rightarrow> s < 0 | None \<Rightarrow> False)
        then (Raised (Exn ValueError ''timeout_seconds must be >= 0.''), qs)
      else (case qs (ip_incoming t) of
              [] \<Rightarrow> (if timeout = None then Blocked else Done None, qs)
            | line # rest \<Rightarrow>
                (case decode_event line of
                   Inl e \<Rightarrow> Raised e
                 | Inr event \<Rightarrow> Done (Some event), qs(ip_incoming t := rest))))"

definition inproc_close :: "inproc \<Rightarrow> inproc" where
  "inproc_close t = t\<lparr>ip_closed := True\<rparr>"

fun inproc_send_all :: "inproc \<Rightarrow> queues \<Rightarrow> pydict list \<Rightarrow> queues res" where
  "inproc_send_all t qs [] = Inr qs"
| "inproc_send_all t qs (e # es) = bind_res (inproc_send t qs e) (\<lambda>qs'. inproc_send_all t qs' es)"

fun inproc_receive_n :: "nat \<Rightarrow> inproc \<Rightarrow> queues \<Rightarrow> (pydict option outcome) list \<times> queues" where
  "inproc_receive_n 0 t qs = ([], qs)"
| "inproc_receive_n (Suc n) t qs =
     (case inproc_receive t qs None of (r, qs') \<Rightarrow>
        case inproc_receive_n n t qs' of (rs, qs'') \<Rightarrow> (r # rs, qs''))"

lemma inproc_send_all_queue:
  assumes "list_all transmittable es" and "\<not> ip_closed t"
  shows "inproc_send_all t qs es
    = Inr (qs(ip_outgoing t := qs (ip_outgoing t) @ map events.line_of es))"
  using assms
proof (induction es arbitrary: qs)
  case (Cons e es)
  then have "inproc_send t qs e = Inr (qs(ip_outgoing t := qs (ip_outgoing t) @ [events.line_of e]))"
    by (simp add: inproc_send_def events.encode_line_of)
  with Cons show ?case by (simp add: fun_eq_iff)
qed simp

lemma inproc_receive_n_queue:
  assumes "list_all transmittable es" and "\<not> ip_closed t"
    and "qs (ip_incoming t) = map events.line_of es @ rest"
  shows "inproc_receive_n (length es) t qs
    = (map (\<lambda>e. Done (Some e)) es, qs(ip_incoming t := rest))"
  using assms
proof (induction es arbitrary: qs)
  case (Cons e es)
  then have "inproc_receive t qs None
      = (Done (Some e), qs(ip_incoming t := map events.line_of es @ rest))"
    by (simp add: inproc_receive_def events.decode_line_of)
  with Cons show ?case by (simp add: fun_eq_iff)
qed auto

section \<open>The socket transport\<close>

text \<open>
  What the loop of \<open>VsockTransport.receive\<close> meets at each round: the deadline has
  passed, or \<open>recv\<close> times out, fails, or returns a chunk (empty when the peer closed).
\<close>

datatype sock_step = DeadlinePassed | RecvTimeout | RecvError string | RecvChunk string

text \<open>\<open>chunk.decode("utf-8", errors="strict")\<close> on the ASCII bytes the encoder emits.\<close>

definition decode_ascii :: "string \<Rightarrow> string res" where
  "decode_ascii chunk = (if list_all (\<lambda>c. code c < 128) chunk then Inr chunk else outside_err)"

fun vsock_loop ::
    "bool \<Rightarrow> string \<Rightarrow> sock_step list \<Rightarrow> pydict option outcome \<times> string \<times> sock_step list" where
  "vsock_loop has_deadline buf [] = (Blocked, buf, [])"
| "vsock_loop has_deadline buf (DeadlinePassed # st) =
     (if has_deadline then (Done None, buf, st) else vsock_loop has_deadline buf st)"
| "vsock_loop has_deadline buf (RecvTimeout # st) = (Done None, buf, st)"
| "vsock_loop has_deadline buf (RecvError msg # st) =
     (Raised (Exn RuntimeError (''Failed to receive event on socket transport: '' @ msg)), buf, st)"
| "vsock_loop has_deadline buf (RecvChunk chunk # st) =
     (if chunk = [] then
        (Raised (Exn RuntimeError ''Socket transport peer closed the connection.''), buf, st)
      else
        (case decode_ascii chunk of
           Inl e \<Rightarrow> (Raised e, buf, st)
         | Inr text \<Rightarrow>
             (case extract_line (buf @ text) of
                Some (line, rest) \<Rightarrow>
                  (case decode_event line of
                     Inl e \<Rightarrow> (Raised e, rest, st)
                   | Inr event \<Rightarrow> (Done (Some event), rest, st))
              | None \<Rightarrow> vsock_loop has_deadline (buf @ text) st)))"

record vsock =
  vs_buffer :: string
  vs_closed :: bool

definition vsock_receive ::
    "vsock \<Rightarrow> rat option \<Rightarrow> sock_step list \<Rightarrow> pydict option outcome \<times> vsock \<times> sock_step list" where
  "vsock_receive t timeout st =
     (if vs_closed t then (Raised (Exn RuntimeError ''Transport is closed.''), t, st)
      else if (case timeout of Some s \<Rightarrow> s < 0 | None \<Rightarrow> False)
        then (Raised (Exn ValueError ''timeout_seconds must be >= 0.''), t, st)
      else (case extract_line (vs_buffer t) of
              Some (line, rest) \<Rightarrow>
                (case decode_event line of
                   Inl e \<Rightarrow> (Raised e, t\<lparr>vs_buffer := rest\<rparr>, st)
                 | Inr event \<Rightarrow> (Done (Some event), t\<lparr>vs_buffer := rest\<rparr>, st))
            | None \<Rightarrow>
                (case vsock_loop (timeout \<noteq> None) (vs_buffer t) st of
                   (r, buf, st') \<Rightarrow> (r, t\<lparr>vs_buffer := buf\<rparr>, st'))))"

text \<open>
  \<open>send\<close> hands the encoded line to \<open>sendall\<close>, which writes all of it or fails with an
  \<open>OSError\<close>; the model returns what is written.
\<close>

definition vsock_send :: "vsock \<Rightarrow> string option \<Rightarrow> pydict \<Rightarrow> string res" where
  "vsock_send t oserror event =
     (if vs_closed t then raise RuntimeError ''Transport is closed.''
      else bind_res (encode_event event) (\<lambda>payload.
        case oserror of
          None \<Rightarrow> Inr payload
        | Some msg \<Rightarrow> raise RuntimeError (''Failed to send event on socket transport: '' @ msg)))"

fun vsock_receive_n ::
    "nat \<Rightarrow> vsock \<Rightarrow> sock_step list \<Rightarrow> pydict option outcome list \<times> vsock \<times> sock_step list" where
  "vsock_receive_n 0 t st = ([], t, st)"
| "vsock_receive_n (Suc n) t st =
     (case vsock_receive t None st of (r, t', st') \<Rightarrow>
        case vsock_receive_n n t' st' of (rs, t'', st'') \<Rightarrow> (r # rs, t'', st''))"

text \<open>
  One call consumes exactly one line of what is buffered and what is still to arrive,
  however the bytes are cut into chunks.
\<close>

definition ascii_line :: "string \<Rightarrow> bool" where
  "ascii_line l = ((\<exists>b. l = b @ [newline] \<and> newline \<notin> set b) \<and> list_all (\<lambda>c. code c < 128) l)"

lemma line_prefix_of_stream:
  assumes "l = b @ [newline]" and "newline \<notin> set b" and "newline \<in> set p" and "p @ q = l @ s"
  shows "\<exists>r. p = l @ r \<and> r @ q = s"
proof -
  obtain x y where p: "p = x @ newline # y" "newline \<notin> set x"
    using assms(3) by (meson split_list_first)
  have e: "x @ newline # (y @ q) = b @ newline # s"
    using assms(1,4) p(1) by simp
  have "x = takeWhile (\<lambda>c. c \<noteq> newline) (x @ newline # (y @ q))"
    using takeWhile_dropWhile_sep [OF p(2), of "y @ q"] by (rule conjE) (rule sym)
  also have "\<dots> = b"
    unfolding e using takeWhile_dropWhile_sep [OF assms(2), of s] by (rule conjE)
  finally have "x = b" .
  then have "p = l @ y" and "y @ q = s"
    using e p(1) assms(1) by simp_all
  then show ?thesis by blast
qed

lemma vsock_loop_line:
  assumes "ascii_line l" and "decode_event l = Inr e"
    and "buf @ concat cs = l @ s" and "newline \<notin> set buf"
    and "list_all (\<lambda>c. c \<noteq> [] \<and> list_all (\<lambda>x. code x < 128) c) cs"
  shows "\<exists>buf' cs'. vsock_loop dl buf (map RecvChunk cs) = (Done (Some e), buf', map RecvChunk cs')
    \<and> buf' @ concat cs' = s \<and> (\<exists>us. cs = us @ cs')"
  using assms
proof (induction cs arbitrary: buf)
  case Nil
  then have "newline \<in> set buf" by (auto simp: ascii_line_def)
  with Nil.prems(4) show ?case by simp
next
  case (Cons c cs)
  have c: "c \<noteq> []" "decode_ascii c = Inr c"
    using Cons.prems(5) by (auto simp: decode_ascii_def)
  show ?case
  proof (cases "newline \<in> set (buf @ c)")
    case True
    obtain b where b: "l = b @ [newline]" "newline \<notin> set b"
      using Cons.prems(1) by (auto simp: ascii_line_def)
    obtain r where r: "buf @ c = l @ r" "r @ concat cs = s"
      using line_prefix_of_stream [OF b True, of "concat cs" s] Cons.prems(3) by auto
    have "extract_line (buf @ c) = Some (l, r)"
      using extract_line_append [OF b(2), of r] r(1) b(1) by simp
    then have "vsock_loop dl buf (map RecvChunk (c # cs)) = (Done (Some e), r, map RecvChunk cs)"
      using c Cons.prems(2) by simp
    moreover have "\<exists>us. c # cs = us @ cs" by (rule exI [of _ "[c]"]) simp
    ultimately show ?thesis using r(2) by blast
  next
    case False
    then have step: "vsock_loop dl buf (map RecvChunk (c # cs)) = vsock_loop dl (buf @ c) (map RecvChunk cs)"
      using c extract_line_None [of "buf @ c"] by simp
    have "\<exists>buf' cs'. vsock_loop dl (buf @ c) (map RecvChunk cs)
        = (Done (Some e), buf', map RecvChunk cs') \<and> buf' @ concat cs' = s \<and> (\<exists>us. cs = us @ cs')"
      using Cons.prems False by (intro Cons.IH) auto
    then show ?thesis
      unfolding step by (metis append_Cons)
  qed
qed

lemma vsock_receive_line:
  assumes "ascii_line l" and "decode_event l = Inr e" and "\<not> vs_closed t"
    and "vs_buffer t @ concat cs = l @ s"
    and "list_all (\<lambda>c. c \<noteq> [] \<and> list_all (\<lambda>x. code x < 128) c) cs"
  shows "\<exists>buf' cs'. vsock_receive t None (map RecvChunk cs)
      = (Done (Some e), t\<lparr>vs_buffer := buf'\<rparr>, map RecvChunk cs')
    \<and> buf' @ concat cs' = s \<and> (\<exists>us. cs = us @ cs')"
proof (cases "newline \<in> set (vs_buffer t)")
  case True
  obtain b where b: "l = b @ [newline]" "newline \<notin> set b"
    using assms(1) by (auto simp: ascii_line_def)
  obtain r where r: "vs_buffer t = l @ r" "r @ concat cs = s"
    using line_prefix_of_stream [OF b True assms(4)] by auto
  then have "extract_line (vs_buffer t) = Some (l, r)"
    using extract_line_append [OF b(2), of r] b(1) by simp
  with r(2) assms(2,3) show ?thesis
    by (intro exI [of _ r] exI [of _ cs]) (simp add: vsock_receive_def)
next
  case False
  then have "extract_line (vs_buffer t) = None" by (simp add: extract_line_None)
  with vsock_loop_line [OF assms(1,2,4) False assms(5), of False] assms(3) show ?thesis
    by (fastforce simp: vsock_receive_def)
qed

lemma ascii_line_of: "transmittable e \<Longrightarrow> ascii_line (events.line_of e)"
proof -
  assume t: "transmittable e"
  then obtain b where b: "events.line_of e = b @ [newline]" "newline \<notin> set b"
    using events.line_of_shape by blast
  have ex: "json_exact (VDict e)" using t by (simp add: transmittable_def)
  have "events.line_of e = dumps_compact (VDict e) @ [newline]"
    using events.encode_line_of [OF t] t
    by (auto simp: encode_event_def transmittable_def is_ok_iff)
  moreover have "list_all (\<lambda>c. code c < 128) (dumps_compact (VDict e))"
    using json_text_printable [OF ex, of "'',''" "'':''"]
    by (fastforce simp: list_all_iff dumps_compact_def printable_def code_def)
  ultimately show ?thesis
    using b by (simp add: ascii_line_def)
qed

lemma vsock_receive_n_lines:
  assumes "list_all transmittable es" and "\<not> vs_closed t"
    and "vs_buffer t @ concat cs = concat (map events.line_of es) @ s"
    and "list_all (\<lambda>c. c \<noteq> [] \<and> list_all (\<lambda>x. code x < 128) c) cs"
  shows "\<exists>buf' cs'. vsock_receive_n (length es) t (map RecvChunk cs)
      = (map (\<lambda>e. Done (Some e)) es, t\<lparr>vs_buffer := buf'\<rparr>, map RecvChunk cs')
    \<and> buf' @ concat cs' = s"
  using assms
proof (induction es arbitrary: t cs)
  case Nil
  then show ?case by (intro exI [of _ "vs_buffer t"] exI [of _ cs]) simp
next
  case (Cons e es)
  have e: "transmittable e" using Cons.prems(1) by simp
  obtain buf' cs' us where 1: "vsock_receive t None (map RecvChunk cs)
      = (Done (Some e), t\<lparr>vs_buffer := buf'\<rparr>, map RecvChunk cs')"
    "buf' @ concat cs' = concat (map events.line_of es) @ s" "cs = us @ cs'"
    using vsock_receive_line [OF ascii_line_of [OF e] events.decode_line_of [OF e], of t cs
        "concat (map events.line_of es) @ s"] Cons.prems by auto
  have "list_all (\<lambda>c. c \<noteq> [] \<and> list_all (\<lambda>x. code x < 128) c) cs'"
    using Cons.prems(4) 1(3) by simp
  with 1 Cons.prems Cons.IH [of "t\<lparr>vs_buffer := buf'\<rparr>" cs'] show ?case
    by fastforce
qed

section \<open>Properties\<close>

text \<open>
  C29. Framing does not depend on how the stream is cut: whatever non-empty chunks the socket
  returns, as long as together with the buffer they hold the lines of the events sent,
  that many calls of \<open>receive\<close> return those events in order, and the bytes not yet
  used are the rest of the stream.
\<close>

theorem vsock_framing:
  assumes "list_all transmittable es" and "\<not> vs_closed t"
    and "vs_buffer t @ concat cs = concat (map events.line_of es) @ s"
    and "list_all (\<lambda>c. c \<noteq> [] \<and> list_all (\<lambda>x. code x < 128) c) cs"
  shows "\<exists>buf' cs'. vsock_receive_n (length es) t (map RecvChunk cs)
      = (map (\<lambda>e. Done (Some e)) es, t\<lparr>vs_buffer := buf'\<rparr>, map RecvChunk cs')
    \<and> buf' @ concat cs' = s"
  using assms by (rule vsock_receive_n_lines)

definition stop_line :: string where
  "stop_line = events.line_of (dict_of [(''type'', VStr ''stop'')])"

lemma stop_line_eq:
  "stop_line = ''{'' @ [quote] @ ''type'' @ [quote] @ '':'' @ [quote] @ ''stop'' @ [quote] @ ''}'' @ [newline]"
  unfolding stop_line_def events.line_of_def by code_simp

theorem vsock_framing_witness:
  "\<exists>buf' cs'. vsock_receive_n 2 \<lparr>vs_buffer = take 3 stop_line, vs_closed = False\<rparr>
        (map RecvChunk [[stop_line ! 3], drop 4 stop_line @ take 1 stop_line, drop 1 stop_line])
      = ([Done (Some (dict_of [(''type'', VStr ''stop'')])), Done (Some (dict_of [(''type'', VStr ''stop'')]))],
         \<lparr>vs_buffer = buf', vs_closed = False\<rparr>, map RecvChunk cs')
    \<and> buf' @ concat cs' = []"
proof -
  let ?e = "dict_of [(''type'', VStr ''stop'')]"
  have "list_all transmittable [?e, ?e]" by code_simp
  moreover have "vs_buffer \<lparr>vs_buffer = take 3 stop_line, vs_closed = False\<rparr>
      @ concat [[stop_line ! 3], drop 4 stop_line @ take 1 stop_line, drop 1 stop_line]
      = concat (map events.line_of [?e, ?e]) @ []"
    unfolding list.map stop_line_def [symmetric] stop_line_eq by simp
  ultimately show ?thesis
    using vsock_framing [of "[?e, ?e]" "\<lparr>vs_buffer = take 3 stop_line, vs_closed = False\<rparr>"
        "[[stop_line ! 3], drop 4 stop_line @ take 1 stop_line, drop 1 stop_line]" "[]"]
    by (simp add: stop_line_eq code_def numeral_2_eq_2)
qed

text \<open>
  The in-process pair is a lossless FIFO channel in each direction: what one end sends,
  the other receives in order and unchanged, and the queue of the opposite direction is
  not touched.
\<close>

theorem inproc_duplex:
  assumes "inproc_pair a b = (host, guest)" and "a \<noteq> b"
    and "list_all transmittable es" and "list_all transmittable fs"
    and "qs a = []" and "qs b = []"
  shows "\<exists>q1 q2. inproc_send_all host qs es = Inr q1 \<and> inproc_send_all guest q1 fs = Inr q2
    \<and> inproc_receive_n (length es) guest q2 = (map (\<lambda>e. Done (Some e)) es, q2(a := []))
    \<and> inproc_receive_n (length fs) host q2 = (map (\<lambda>e. Done (Some e)) fs, q2(b := []))"
proof -
  have h: "\<not> ip_closed host" "ip_outgoing host = a" "ip_incoming host = b"
    and g: "\<not> ip_closed guest" "ip_outgoing guest = b" "ip_incoming guest = a"
    using assms(1) by (auto simp: inproc_pair_def)
  let ?q1 = "qs(a := map events.line_of es)"
  let ?q2 = "?q1(b := map events.line_of fs)"
  have "inproc_send_all host qs es = Inr ?q1"
    using inproc_send_all_queue [OF assms(3) h(1), of qs] h assms(5) by simp
  moreover have "inproc_send_all guest ?q1 fs = Inr ?q2"
    using inproc_send_all_queue [OF assms(4) g(1), of ?q1] g assms(2,6) by simp
  moreover have "inproc_receive_n (length es) guest ?q2 = (map (\<lambda>e. Done (Some e)) es, ?q2(a := []))"
    using inproc_receive_n_queue [OF assms(3) g(1), of ?q2 "[]"] g assms(2) by simp
  moreover have "inproc_receive_n (length fs) host ?q2 = (map (\<lambda>e. Done (Some e)) fs, ?q2(b := []))"
    using inproc_receive_n_queue [OF assms(4) h(1), of ?q2 "[]"] h by simp
  ultimately show ?thesis by blast
qed

theorem inproc_duplex_witness:
  "\<exists>q1 q2. inproc_send_all (fst (inproc_pair 0 1)) (\<lambda>_. []) [dict_of [(''type'', VStr ''stop'')]] = Inr q1
    \<and> inproc_send_all (snd (inproc_pair 0 1)) q1 [dict_of [(''type'', VStr ''agent_ready'')]] = Inr q2
    \<and> inproc_receive_n 1 (snd (inproc_pair 0 1)) q2
      = ([Done (Some (dict_of [(''type'', VStr ''stop'')]))], q2(0 := []))
    \<and> inproc_receive_n 1 (fst (inproc_pair 0 1)) q2
      = ([Done (Some (dict_of [(''type'', VStr ''agent_ready'')]))], q2(1 := []))"
proof -
  have "list_all transmittable [dict_of [(''type'', VStr ''stop'')]]"
    "list_all transmittable [dict_of [(''type'', VStr ''agent_ready'')]]" by code_simp+
  then show ?thesis
    using inproc_duplex [of 0 1 "fst (inproc_pair 0 1)" "snd (inproc_pair 0 1)"
        "[dict_of [(''type'', VStr ''stop'')]]" "[dict_of [(''type'', VStr ''agent_ready'')]]" "\<lambda>_. []"]
    by simp
qed

end
