(* ===== verification/HostServices.thy ===== *)
theory HostServices
  imports Transport
begin

text \<open>
  \<open>sandbox/host_services.py\<close> and \<open>agent/broker_client.py\<close>: the registry of host-side
  services, the two ways the agent reaches it (a direct call in Yolo mode, a pair of
  \<open>broker_request\<close> and \<open>broker_response\<close> events in Fire mode), and the interface
  \<open>envelope_service\<close> that the agent's tools rely on.
\<close>

section \<open>The registry\<close>

text \<open>A handler reads and updates the world it works in; it may raise.\<close>

type_synonym 's handler = "pydict \<Rightarrow> 's \<Rightarrow> pyval res \<times> 's"
type_synonym 's server = "(string \<times> 's handler) list"

definition register :: "'s server \<Rightarrow> string \<Rightarrow> 's handler \<Rightarrow> 's server" where
  "register srv service h = AList.update service h srv"

definition failure_reply :: "string \<Rightarrow> string \<Rightarrow> pydict" where
  "failure_reply rid err =
     dict_of [(''request_id'', VStr rid), (''success'', VBool False), (''error'', VStr err)]"

definition success_reply :: "string \<Rightarrow> pyval \<Rightarrow> pydict" where
  "success_reply rid payload =
     dict_of [(''request_id'', VStr rid), (''success'', VBool True), (''payload'', payload)]"

definition dispatch :: "'s server \<Rightarrow> pydict \<Rightarrow> 's \<Rightarrow> pydict \<times> 's" where
  "dispatch srv request w =
     (let rid = py_str (dget_or request ''request_id'' (VStr []));
          service = dget request ''service'';
          payload = dget_or request ''payload'' (VDict [])
      in case service of
           VStr s \<Rightarrow>
             (case map_of srv s of
                None \<Rightarrow> (failure_reply rid (''unknown service: '' @ s), w)
              | Some h \<Rightarrow>
                  (case h (as_dict payload) w of
                     (Inl exc, w') \<Rightarrow> (failure_reply rid (exn_str exc), w')
                   | (Inr result, w') \<Rightarrow> (success_reply rid result, w')))
         | _ \<Rightarrow> (failure_reply rid (''unknown service: '' @ py_str service), w))"

definition handle_incoming :: "'s server \<Rightarrow> pydict \<Rightarrow> 's \<Rightarrow> pydict \<times> 's" where
  "handle_incoming srv event w =
     (let request = dict_of [(''request_id'', dget event ''request_id''),
                             (''service'', dget event ''service''),
                             (''payload'', dget event ''payload'')]
      in case dispatch srv request w of
           (dispatched, w') \<Rightarrow>
             (let base = dict_of
                    [(''type'', VStr ''broker_response''),
                     (''request_id'', VStr (py_str (dget_or dispatched ''request_id'' (VStr [])))),
                     (''success'', VBool (truthy (dget dispatched ''success'')))]
              in if truthy (dget dispatched ''success'')
                 then (dset base ''payload'' (VDict (as_dict (dget dispatched ''payload''))), w')
                 else (dset base ''error''
                         (VStr (py_str (dget_or dispatched ''error'' (VStr ''unknown service error'')))),
                       w')))"

text \<open>\<open>as_dict\<close> is the code's \<open>payload if isinstance(payload, dict) else {}\<close>.\<close>

section \<open>The client\<close>

text \<open>The end of \<open>BrokerClient.call\<close>, common to both modes.\<close>

definition unwrap_response :: "pydict \<Rightarrow> pydict res" where
  "unwrap_response response =
     (if \<not> truthy (dget response ''success'')
      then raise HostServiceError (py_str (dget response ''error''))
      else (case dget response ''payload'' of
              VDict d \<Rightarrow> Inr d
            | _ \<Rightarrow> raise HostServiceError ''service response payload must be a mapping''))"

definition call_request :: "string \<Rightarrow> string \<Rightarrow> pydict \<Rightarrow> pydict" where
  "call_request rid service payload =
     dict_of [(''request_id'', VStr rid), (''service'', VStr service), (''payload'', VDict payload)]"

definition call_yolo :: "'s server \<Rightarrow> string \<Rightarrow> string \<Rightarrow> pydict \<Rightarrow> 's \<Rightarrow> pydict res \<times> 's" where
  "call_yolo srv rid service payload w =
     (case dispatch srv (call_request rid service payload) w of
        (response, w') \<Rightarrow> (unwrap_response response, w'))"

definition broker_request_event :: "string \<Rightarrow> string \<Rightarrow> pydict \<Rightarrow> pydict" where
  "broker_request_event rid service payload =
     dict_of [(''type'', VStr ''broker_request''), (''request_id'', VStr rid),
              (''service'', VStr service), (''payload'', VDict payload)]"

definition is_response_to :: "string \<Rightarrow> pydict \<Rightarrow> bool" where
  "is_response_to rid event =
     (dget event ''type'' = VStr ''broker_response'' \<and> dget event ''request_id'' = VStr rid)"

text \<open>The normalised response the fire-mode wait returns.\<close>

definition read_response :: "pydict \<Rightarrow> pydict res" where
  "read_response event =
     (let rid = py_str (dget_or event ''request_id'' (VStr []))
      in if truthy (dget event ''success'') then
           (case dget event ''payload'' of
              VDict d \<Rightarrow> Inr (success_reply rid (VDict d))
            | _ \<Rightarrow> raise HostServiceError ''broker response payload must be a mapping'')
         else Inr (failure_reply rid (py_str (dget_or event ''error'' (VStr ''broker call failed'')))))"

text \<open>
  The loop of \<open>_call_fire\<close> over what the transport's \<open>receive\<close> yields next: an event,
  nothing before the timeout, or an exception. Events that are not the awaited response
  are dropped.
\<close>

fun await_response ::
    "string \<Rightarrow> string \<Rightarrow> pydict option outcome list \<Rightarrow> pydict outcome \<times> pydict option outcome list" where
  "await_response service rid [] = (Blocked, [])"
| "await_response service rid (Blocked # rs) = (Blocked, rs)"
| "await_response service rid (Raised e # rs) = (Raised e, rs)"
| "await_response service rid (Done None # rs) =
     (Raised (Exn HostServiceError (service @ '' response timeout'')), rs)"
| "await_response service rid (Done (Some event) # rs) =
     (if is_response_to rid event then (outcome_of (read_response event), rs)
      else await_response service rid rs)"

definition call_fire ::
    "(pydict \<Rightarrow> unit res) \<Rightarrow> string \<Rightarrow> string \<Rightarrow> pydict
      \<Rightarrow> pydict option outcome list \<Rightarrow> pydict outcome \<times> pydict option outcome list" where
  "call_fire send service rid payload received =
     (case send (broker_request_event rid service payload) of
        Inl e \<Rightarrow> (Raised e, received)
      | Inr _ \<Rightarrow>
          (case await_response service rid received of
             (Done response, rest) \<Rightarrow> (outcome_of (unwrap_response response), rest)
           | (Raised e, rest) \<Rightarrow> (Raised e, rest)
           | (Blocked, rest) \<Rightarrow> (Blocked, rest)))"

text \<open>\<open>service_timeouts.get(service, service_timeouts.get("_default", 60.0))\<close>\<close>

definition service_timeout :: "(string \<times> rat) list \<Rightarrow> string \<Rightarrow> rat" where
  "service_timeout ts service =
     (case map_of ts service of
        Some t \<Rightarrow> t
      | None \<Rightarrow> (case map_of ts ''_default'' of Some t \<Rightarrow> t | None \<Rightarrow> 60))"

section \<open>Facts about the registry\<close>

lemmas reply_defs = failure_reply_def success_reply_def call_request_def broker_request_event_def

lemma dispatch_known:
  "map_of srv s = Some h \<Longrightarrow>
    dispatch srv (call_request rid s payload) w =
      (case h payload w of
         (Inl exc, w') \<Rightarrow> (failure_reply rid (exn_str exc), w')
       | (Inr result, w') \<Rightarrow> (success_reply rid result, w'))"
  by (simp add: dispatch_def call_request_def)

lemma dispatch_unknown:
  "map_of srv s = None \<Longrightarrow>
    dispatch srv (call_request rid s payload) w = (failure_reply rid (''unknown service: '' @ s), w)"
  by (simp add: dispatch_def call_request_def)

text \<open>Whatever the request, the reply is a success or a failure reply.\<close>

lemma dispatch_shape:
  "\<exists>rid x. fst (dispatch srv request w) = failure_reply rid x
    \<or> (\<exists>v. fst (dispatch srv request w) = success_reply rid v)"
  by (auto simp: dispatch_def Let_def split: pyval.splits option.splits prod.splits sum.splits)

lemma handle_incoming_valid: "validate_event (fst (handle_incoming srv event w)) = Inr ()"
proof -
  obtain request where "handle_incoming srv event w = handle_incoming srv event w"
    and req: "request = dict_of [(''request_id'', dget event ''request_id''),
        (''service'', dget event ''service''), (''payload'', dget event ''payload'')]" by simp
  obtain d w' where d: "dispatch srv request w = (d, w')" by fastforce
  then have "\<exists>rid x. d = failure_reply rid x \<or> (\<exists>v. d = success_reply rid v)"
    using dispatch_shape [of srv request w] by auto
  then show ?thesis
    using d by (auto simp: handle_incoming_def req [symmetric] Let_def reply_defs
        validate_event_def validate_broker_response_def require_str_def require_bool_def
        require_dict_def EVENT_TYPES_def)
qed

lemma handle_incoming_request:
  "handle_incoming srv (broker_request_event rid s payload) w =
    (case dispatch srv (call_request rid s payload) w of
       (d, w') \<Rightarrow>
         if truthy (dget d ''success'')
         then (dset (dict_of [(''type'', VStr ''broker_response''),
                     (''request_id'', VStr (py_str (dget_or d ''request_id'' (VStr [])))),
                     (''success'', VBool True)]) ''payload'' (VDict (as_dict (dget d ''payload''))), w')
         else (dset (dict_of [(''type'', VStr ''broker_response''),
                     (''request_id'', VStr (py_str (dget_or d ''request_id'' (VStr [])))),
                     (''success'', VBool False)]) ''error''
                 (VStr (py_str (dget_or d ''error'' (VStr ''unknown service error'')))), w'))"
  by (auto simp: handle_incoming_def Let_def broker_request_event_def call_request_def
      split: prod.splits)

lemma await_response_noise:
  "list_all (\<lambda>e. \<not> is_response_to rid e) noise \<Longrightarrow>
    await_response s rid (map (\<lambda>e. Done (Some e)) noise @ rs) = await_response s rid rs"
  by (induction noise) auto

section \<open>Services that answer with an envelope\<close>

text \<open>
  The contract of the two services, as the tools use it: a request never raises, and the
  answer is a mapping whose \<open>success\<close> is a boolean.
\<close>

locale envelope_service =
  fixes handle :: "pydict \<Rightarrow> 's \<Rightarrow> pyval res \<times> 's"
    and inv :: "'s \<Rightarrow> bool"
  assumes answers: "inv w \<Longrightarrow>
      \<exists>d b w'. handle p w = (Inr (VDict d), w') \<and> dget d ''success'' = VBool b \<and> inv w'"
begin

text \<open>A call through the registry cannot fail, and its result carries the envelope.\<close>

lemma call_yolo_ok:
  assumes "map_of srv s = Some handle" and "inv w"
  shows "\<exists>d b w'. call_yolo srv rid s p w = (Inr d, w') \<and> dget d ''success'' = VBool b \<and> inv w'"
proof -
  obtain d b w' where h: "handle p w = (Inr (VDict d), w')" "dget d ''success'' = VBool b" "inv w'"
    using answers [OF assms(2)] by blast
  then have "call_yolo srv rid s p w = (Inr d, w')"
    by (simp add: call_yolo_def dispatch_known [OF assms(1)] unwrap_response_def success_reply_def)
  with h show ?thesis by blast
qed

end

section \<open>Properties\<close>

text \<open>
  C18. Fire mode gives the agent what Yolo mode gives it: for a handler that answers with a
  mapping or raises, and for a name with no handler, a call over the wire to
  \<open>handle_incoming\<close>, whatever unrelated events arrive before the answer, returns the
  result of the direct call, or raises the same error.
\<close>

theorem fire_call_matches_yolo:
  assumes "\<And>h v. map_of srv s = Some h \<Longrightarrow> fst (h payload w) = Inr v \<Longrightarrow> is_VDict v"
    and "send (broker_request_event rid s payload) = Inr ()"
    and "list_all (\<lambda>e. \<not> is_response_to rid e) noise"
    and "handle_incoming srv (broker_request_event rid s payload) w = (reply, w')"
  shows "call_fire send s rid payload (map (\<lambda>e. Done (Some e)) noise @ Done (Some reply) # rest)
      = (outcome_of (fst (call_yolo srv rid s payload w)), rest)
    \<and> snd (call_yolo srv rid s payload w) = w'"
proof -
  obtain d w1 where d: "dispatch srv (call_request rid s payload) w = (d, w1)" by fastforce
  have y: "call_yolo srv rid s payload w = (unwrap_response d, w1)"
    by (simp add: call_yolo_def d)
  have w1: "w1 = w'"
    using assms(4) by (auto simp: handle_incoming_request d split: if_splits)
  have shape: "(\<exists>x. d = failure_reply rid x) \<or> (\<exists>e. d = success_reply rid (VDict e))"
  proof (cases "map_of srv s")
    case None
    then show ?thesis using d by (auto simp: dispatch_unknown)
  next
    case (Some h)
    obtain r w2 where h: "h payload w = (r, w2)" by fastforce
    show ?thesis
    proof (cases r)
      case (Inl e)
      then show ?thesis using d Some h by (auto simp: dispatch_known)
    next
      case (Inr v)
      moreover obtain e where "v = VDict e"
        using assms(1) [OF Some, of v] h Inr by (cases v) auto
      ultimately show ?thesis using d Some h by (auto simp: dispatch_known)
    qed
  qed
  then have "await_response s rid (Done (Some reply) # rest) = (Done d, rest)"
    using assms(4) unfolding handle_incoming_request d
    by (auto simp: failure_reply_def success_reply_def is_response_to_def read_response_def)
  with assms(2) show ?thesis
    by (simp add: call_fire_def await_response_noise [OF assms(3)] y w1)
qed

theorem fire_call_matches_yolo_witness:
  "call_fire (\<lambda>_. Inr ()) ''echo'' ''r1'' (dict_of [(''k'', VInt 1)])
      [Done (Some (dict_of [(''type'', VStr ''stop'')])),
       Done (Some (fst (handle_incoming [(''echo'', \<lambda>p w. (Inr (VDict p), Suc w))]
         (broker_request_event ''r1'' ''echo'' (dict_of [(''k'', VInt 1)])) (0::nat))))]
    = (Done (dict_of [(''k'', VInt 1)]), [])"
proof -
  let ?srv = "[(''echo'', \<lambda>p w. (Inr (VDict p), Suc w))]"
  let ?p = "dict_of [(''k'', VInt 1)]"
  obtain reply w' where r: "handle_incoming ?srv (broker_request_event ''r1'' ''echo'' ?p) (0::nat) = (reply, w')"
    by fastforce
  have "fst (call_yolo ?srv ''r1'' ''echo'' ?p (0::nat)) = Inr ?p"
    by (simp add: call_yolo_def dispatch_known unwrap_response_def success_reply_def)
  moreover have "is_VDict v" if "map_of ?srv ''echo'' = Some h" "fst (h ?p (0::nat)) = Inr v" for h v
    using that by auto
  moreover have "list_all (\<lambda>e. \<not> is_response_to ''r1'' e) [dict_of [(''type'', VStr ''stop'')]]"
    by (simp add: is_response_to_def)
  ultimately show ?thesis
    using fire_call_matches_yolo [OF _ _ _ r, of "\<lambda>_. Inr ()" "[dict_of [(''type'', VStr ''stop'')]]" "[]"] r
    by fastforce
qed

text \<open>
  Whatever event the guest sends, the host's answer is a valid \<open>broker_response\<close>
  event that echoes the request's id: no request can make the host emit a malformed event.
\<close>

theorem handle_incoming_answers:
  "validate_event (fst (handle_incoming srv event w)) = Inr ()
    \<and> dget (fst (handle_incoming srv event w)) ''type'' = VStr ''broker_response''
    \<and> dget (fst (handle_incoming srv event w)) ''request_id''
      = VStr (py_str (dget event ''request_id''))"
proof -
  obtain request where
    req: "request = dict_of [(''request_id'', dget event ''request_id''),
        (''service'', dget event ''service''), (''payload'', dget event ''payload'')]" by simp
  obtain d w' where d: "dispatch srv request w = (d, w')" by fastforce
  have "dget d ''request_id'' = VStr (py_str (dget event ''request_id''))"
    using d by (auto simp: dispatch_def Let_def req reply_defs
        split: pyval.splits option.splits prod.splits sum.splits)
  moreover have "dhas d ''request_id''"
    using d dispatch_shape [of srv request w] by (auto simp: reply_defs)
  ultimately have "dget_or d ''request_id'' (VStr []) = VStr (py_str (dget event ''request_id''))"
    by (auto simp: dget_def dget_or_def dhas_def)
  then show ?thesis
    using d handle_incoming_valid [of srv event w]
    by (simp add: handle_incoming_def req [symmetric] Let_def)
qed

end
