(* ===== verification/LlmClient.thy ===== *)
theory LlmClient
  imports HostServices
begin

text \<open>
  \<open>agent/llm_types.py\<close> and \<open>agent/llm.py\<close>: the client that asks the model provider for the
  next action. The provider library is not part of the repository: \<open>completion\<close> and
  \<open>token_counter\<close> are arguments. A provider response is read as nested dictionaries; an
  attribute of a response object is the entry of that name.
\<close>

section \<open>Types\<close>

record tool_call =
  tc_tool :: string
  tc_args :: pydict
  tc_reason :: "string option"

record llm_response =
  lr_text :: string
  lr_action :: "tool_call option"
  lr_usage :: "pydict option"

text \<open>What a provider exception carries besides its text: the attributes the code reads.\<close>

datatype provider_error = ProviderError (pe_exn: exn) (pe_attrs: pydict)

type_synonym 's completion = "pydict \<Rightarrow> 's \<Rightarrow> (provider_error + pyval) \<times> 's"
type_synonym 's token_counter = "pydict \<Rightarrow> 's \<Rightarrow> pyval res \<times> 's"

record llm_client =
  lc_model :: string
  lc_api_key :: string
  lc_max_tokens :: int
  lc_temperature :: pyfloat
  lc_timeout :: pyfloat
  lc_max_retries :: int
  lc_provider_settings :: pydict
  lc_structured_output :: string
  lc_native_tool_choice :: string
  lc_native_fallback :: bool
  lc_native_probe :: bool
  lc_resolved :: "string option"
  lc_probe_ran :: bool

section \<open>Construction\<close>

definition reserved_keys :: "string list" where
  "reserved_keys =
     [''model'', ''messages'', ''api_key'', ''max_tokens'', ''temperature'', ''timeout'',
      ''num_retries'', ''tools'', ''tool_choice'']"

definition setting_conflicts :: "pydict \<Rightarrow> string list" where
  "setting_conflicts settings =
     sort (concat (map (\<lambda>(k, _). filter (\<lambda>s. s \<in> set reserved_keys) (key_strings k)) settings))"

definition new_client ::
    "string \<Rightarrow> string \<Rightarrow> int \<Rightarrow> pyfloat \<Rightarrow> pyfloat \<Rightarrow> int \<Rightarrow> pydict \<Rightarrow> string \<Rightarrow> string \<Rightarrow> pyval \<Rightarrow> pyval
      \<Rightarrow> llm_client res" where
  "new_client model api_key max_tokens temperature timeout_seconds max_retries settings
      structured_output native_tool_choice native_fallback native_probe =
     (let conflicts = setting_conflicts settings
      in bind_res (ensure (conflicts = []) ValueError
           (''provider_settings contains reserved keys that must be configured on LLMClient: ''
            @ join '', '' conflicts)) (\<lambda>_.
         bind_res (ensure (structured_output \<in> {''native'', ''prompt''}) ValueError
           (''structured_output must be either '' @ quoted ''native'' @ '' or '' @ quoted ''prompt''
            @ ''.'')) (\<lambda>_.
         bind_res (ensure (native_tool_choice \<in> {''forced_function'', ''required'', ''auto'', ''none''})
           ValueError
           ''native_tool_choice must be one of: forced_function, required, auto, none.'') (\<lambda>_.
         case native_fallback of
           VBool fallback \<Rightarrow>
             (case native_probe of
                VBool probe \<Rightarrow>
                  Inr \<lparr>lc_model = model, lc_api_key = api_key, lc_max_tokens = max_tokens,
                       lc_temperature = temperature, lc_timeout = timeout_seconds,
                       lc_max_retries = max_retries, lc_provider_settings = settings,
                       lc_structured_output = structured_output,
                       lc_native_tool_choice = native_tool_choice,
                       lc_native_fallback = fallback, lc_native_probe = probe,
                       lc_resolved = None, lc_probe_ran = False\<rparr>
              | _ \<Rightarrow> raise ValueError ''native_probe must be a boolean.'')
         | _ \<Rightarrow> raise ValueError ''native_fallback_to_prompt must be a boolean.''))))"

text \<open>\<open>config["model"]\<close> raises \<open>KeyError\<close> when the key is missing.\<close>

definition provider_settings_of :: "pydict \<Rightarrow> pydict res" where
  "provider_settings_of config =
     bind_res (case dget config ''provider_settings'' of
                 VNone \<Rightarrow> Inr []
               | VDict d \<Rightarrow> Inr d
               | _ \<Rightarrow> raise ValueError ''llm.provider_settings must be an object when provided.'')
       (\<lambda>parsed.
         case dget config ''api_base'' of
           VNone \<Rightarrow> Inr parsed
         | VStr base \<Rightarrow>
             if strip base = [] then
               raise ValueError ''llm.api_base must be a non-empty string when provided.''
             else Inr (dsetdefault parsed ''api_base'' (VStr (strip base)))
         | _ \<Rightarrow> raise ValueError ''llm.api_base must be a non-empty string when provided.'')"

definition from_config :: "pydict \<Rightarrow> llm_client res" where
  "from_config config =
     bind_res (provider_settings_of config) (\<lambda>settings.
     bind_res (case dlookup config ''model'' of
                 Some v \<Rightarrow> Inr (py_str v)
               | None \<Rightarrow> raise KeyError (quoted ''model'')) (\<lambda>model.
     bind_res (py_int (dget_or config ''max_tokens'' (VInt 4096))) (\<lambda>max_tokens.
     bind_res (py_float (dget_or config ''temperature'' (VFloat (FFin (1/5))))) (\<lambda>temperature.
     bind_res (py_float (dget_or config ''timeout_seconds'' (VFloat (FFin 60)))) (\<lambda>timeout_seconds.
     bind_res (py_int (dget_or config ''max_retries'' (VInt 2))) (\<lambda>max_retries.
       new_client model (py_str (dget_or config ''api_key'' (VStr []))) max_tokens temperature
         timeout_seconds max_retries settings
         (py_str (dget_or config ''structured_output'' (VStr ''native'')))
         (py_str (dget_or config ''native_tool_choice'' (VStr ''required'')))
         (VBool (truthy (dget_or config ''native_fallback_to_prompt'' (VBool True))))
         (VBool (truthy (dget_or config ''native_probe'' (VBool True))))))))))"

section \<open>Reading responses\<close>

fun get_value :: "pyval \<Rightarrow> string \<Rightarrow> pyval" where
  "get_value (VDict d) key = dget d key"
| "get_value _ key = VNone"

definition first_message :: "pyval \<Rightarrow> pyval option" where
  "first_message response =
     (case get_value response ''choices'' of
        VList (c # _) \<Rightarrow> Some (get_value c ''message'')
      | _ \<Rightarrow> None)"

fun str_or_empty :: "pyval \<Rightarrow> string" where
  "str_or_empty (VStr s) = s" | "str_or_empty _ = []"

definition extract_text :: "pyval \<Rightarrow> string" where
  "extract_text response =
     (case first_message response of
        None \<Rightarrow> []
      | Some message \<Rightarrow>
          (case get_value message ''content'' of
             VStr content \<Rightarrow> content
           | VList content \<Rightarrow>
               concat (map (\<lambda>item. case item of
                              VDict d \<Rightarrow> str_or_empty (dget_or d ''text'' (VStr []))
                            | _ \<Rightarrow> []) content)
           | _ \<Rightarrow> []))"

definition action_from_dict :: "pyval \<Rightarrow> tool_call option" where
  "action_from_dict payload =
     (case payload of
        VDict d \<Rightarrow>
          (case (dget d ''tool'', dget d ''args'') of
             (VStr tool, VDict args) \<Rightarrow>
               Some \<lparr>tc_tool = tool, tc_args = args,
                     tc_reason = (case dget d ''reason'' of VStr r \<Rightarrow> Some r | _ \<Rightarrow> None)\<rparr>
           | _ \<Rightarrow> None)
      | _ \<Rightarrow> None)"

text \<open>\<open>try: json.loads(text) except json.JSONDecodeError: None\<close>\<close>

definition loads_or_none :: "string \<Rightarrow> pyval option res" where
  "loads_or_none text =
     (case json_loads text of
        Inr v \<Rightarrow> Inr (Some v)
      | Inl (Exn k msg) \<Rightarrow> if k = JSONDecodeError then Inr None else Inl (Exn k msg))"

definition parse_action_payload :: "pyval \<Rightarrow> tool_call option res" where
  "parse_action_payload raw =
     (case raw of
        VDict d \<Rightarrow> Inr (action_from_dict raw)
      | VStr text \<Rightarrow>
          bind_res (loads_or_none text) (\<lambda>parsed.
            Inr (case parsed of None \<Rightarrow> None | Some v \<Rightarrow> action_from_dict v))
      | _ \<Rightarrow> Inr None)"

definition parse_native_function_args :: "pyval \<Rightarrow> pydict option res" where
  "parse_native_function_args raw =
     (case raw of
        VDict d \<Rightarrow> Inr (Some d)
      | VStr text \<Rightarrow>
          bind_res (loads_or_none text) (\<lambda>parsed.
            Inr (case parsed of Some (VDict d) \<Rightarrow> Some d | _ \<Rightarrow> None))
      | _ \<Rightarrow> Inr None)"

text \<open>
  \<open>_extract_native_tool_call\<close>: first the \<open>tool_calls\<close> of the message, then \<open>tool_use\<close>
  items of its content. \<open>call_from_tool_calls\<close> gives \<open>None\<close> where the code goes on to the
  content and \<open>Some r\<close> where it returns \<open>r\<close>.
\<close>

definition call_from_tool_calls :: "pyval \<Rightarrow> tool_call option option res" where
  "call_from_tool_calls tool_calls =
     (case tool_calls of
        VList (call # others) \<Rightarrow>
          if others \<noteq> [] then Inr (Some None)
          else
            (let function_block = get_value call ''function'';
                 raw_args = get_value function_block ''arguments'';
                 by_payload = bind_res (parse_action_payload raw_args) (\<lambda>payload.
                   Inr (map_option Some payload))
             in case get_value function_block ''name'' of
                  VStr name \<Rightarrow>
                    if name \<noteq> [] \<and> name \<noteq> ''submit_tool_call'' then
                      bind_res (parse_native_function_args raw_args) (\<lambda>args.
                        case args of
                          Some a \<Rightarrow> Inr (Some (Some \<lparr>tc_tool = name, tc_args = a, tc_reason = None\<rparr>))
                        | None \<Rightarrow> by_payload)
                    else by_payload
                | _ \<Rightarrow> by_payload)
      | _ \<Rightarrow> Inr None)"

fun is_tool_use :: "pyval \<Rightarrow> bool" where
  "is_tool_use (VDict d) = (dget d ''type'' = VStr ''tool_use'')"
| "is_tool_use _ = False"

definition call_from_content :: "pyval \<Rightarrow> tool_call option" where
  "call_from_content content =
     (case content of
        VList items \<Rightarrow>
          (case filter is_tool_use items of
             [item] \<Rightarrow>
               (case action_from_dict (get_value item ''input'') of
                  Some call \<Rightarrow> Some call
                | None \<Rightarrow>
                    (case (get_value item ''name'', get_value item ''input'') of
                       (VStr name, VDict args) \<Rightarrow>
                         if name \<noteq> [] then Some \<lparr>tc_tool = name, tc_args = args, tc_reason = None\<rparr>
                         else None
                     | _ \<Rightarrow> None))
           | _ \<Rightarrow> None)
      | _ \<Rightarrow> None)"

definition extract_native_tool_call :: "pyval \<Rightarrow> tool_call option res" where
  "extract_native_tool_call response =
     (case first_message response of
        None \<Rightarrow> Inr None
      | Some message \<Rightarrow>
          bind_res (call_from_tool_calls (get_value message ''tool_calls'')) (\<lambda>found.
            case found of
              Some r \<Rightarrow> Inr r
            | None \<Rightarrow> Inr (call_from_content (get_value message ''content''))))"

definition extract_prompt_tool_call :: "string \<Rightarrow> tool_call option res" where
  "extract_prompt_tool_call text =
     (let stripped = strip text
      in if stripped = [] then Inr None
         else bind_res (loads_or_none stripped) (\<lambda>parsed.
                Inr (case parsed of None \<Rightarrow> None | Some v \<Rightarrow> action_from_dict v)))"

definition set_int :: "string \<Rightarrow> pyval \<Rightarrow> pydict \<Rightarrow> pydict" where
  "set_int key v usage = (if is_int_instance v then dset usage key v else usage)"

definition extract_usage :: "pyval \<Rightarrow> pydict option" where
  "extract_usage response =
     (let usage_obj = get_value response ''usage''
      in if usage_obj = VNone then None
         else
           (let usage = set_int ''total_tokens'' (get_value usage_obj ''total_tokens'')
                  (set_int ''completion_tokens'' (get_value usage_obj ''completion_tokens'')
                    (set_int ''prompt_tokens'' (get_value usage_obj ''prompt_tokens'') []))
            in if usage = [] then None else Some usage))"

section \<open>Building requests\<close>

definition function_tool :: "string \<Rightarrow> string \<Rightarrow> pyval \<Rightarrow> pyval" where
  "function_tool name description params =
     VDict (dict_of [(''type'', VStr ''function''),
       (''function'', VDict (dict_of [(''name'', VStr name), (''description'', VStr description),
                                      (''parameters'', params)]))])"

fun schema_tool :: "pyval \<Rightarrow> pyval list" where
  "schema_tool (VDict d) =
     (case (dget d ''name'', dget d ''parameters'') of
        (VStr name, VDict params) \<Rightarrow>
          if strip name = [] then []
          else [function_tool (strip name)
                  (case dget d ''description'' of
                     VStr s \<Rightarrow> s
                   | _ \<Rightarrow> ''Run tool '' @ strip name @ ''.'')
                  (VDict params)]
      | _ \<Rightarrow> [])"
| "schema_tool _ = []"

definition native_tool_call_kwargs :: "pyval \<Rightarrow> string \<Rightarrow> pydict" where
  "native_tool_call_kwargs action_schema mode =
     (case action_schema of
        VList items \<Rightarrow>
          dict_of [(''tools'', VList (concat (map schema_tool items))),
                   (''tool_choice'', VStr (if mode = ''forced_function'' then ''required'' else mode))]
      | _ \<Rightarrow>
          dict_of [(''tools'', VList [function_tool ''submit_tool_call''
                                        ''Emit a structured tool call decision.'' action_schema]),
                   (''tool_choice'',
                     if mode = ''forced_function''
                     then VDict (dict_of [(''type'', VStr ''function''),
                            (''function'', VDict (dict_of [(''name'', VStr ''submit_tool_call'')]))])
                     else VStr mode)])"

definition inject_prompt_action_schema :: "pydict list \<Rightarrow> pyval \<Rightarrow> pydict list" where
  "inject_prompt_action_schema messages action_schema =
     (let schema_text = dumps_compact action_schema;
          instruction =
            (if is_VList action_schema
             then ''Return exactly one structured action as ONLY a JSON object with keys ''
               @ ''tool (string) and args (object) where tool is one of the listed names ''
               @ ''and args matches that tool'' @ [CHR 0x27] @ ''s parameters. Tool definitions: ''
               @ schema_text @ ''. Do not answer in free-form prose.''
             else ''Return exactly one structured action as ONLY a JSON object matching this schema: ''
               @ schema_text @ ''. Do not answer in free-form prose.'')
      in dict_of [(''role'', VStr ''system''), (''content'', VStr instruction)] # messages)"

definition required_action_tool_choice_mode :: "string \<Rightarrow> string" where
  "required_action_tool_choice_mode configured =
     (if configured \<in> {''required'', ''forced_function''} then configured else ''required'')"

definition native_tool_choice_probe_order :: "string \<Rightarrow> string list" where
  "native_tool_choice_probe_order configured =
     foldl (\<lambda>acc mode. if mode \<in> set acc then acc else acc @ [mode]) []
       (configured # (if configured = ''forced_function'' then [''required''] else []))"

definition probe_action_schema :: pyval where
  "probe_action_schema =
     VDict (dict_of
       [(''type'', VStr ''object''),
        (''properties'', VDict (dict_of
           [(''tool'', VDict (dict_of [(''type'', VStr ''string'')])),
            (''args'', VDict (dict_of [(''type'', VStr ''object'')]))])),
        (''required'', VList [VStr ''tool'', VStr ''args'']),
        (''additionalProperties'', VBool False)])"

fun int_of_val :: "pyval \<Rightarrow> int option" where
  "int_of_val (VInt n) = Some n"
| "int_of_val (VBool b) = Some (if b then 1 else 0)"
| "int_of_val _ = None"

definition exception_status_code :: "pydict \<Rightarrow> int option" where
  "exception_status_code attrs =
     (case concat (map (\<lambda>key. case int_of_val (dget attrs key) of Some n \<Rightarrow> [n] | None \<Rightarrow> [])
                    [''status_code'', ''status'', ''code'']) of
        n # _ \<Rightarrow> Some n
      | [] \<Rightarrow> int_of_val (get_value (dget attrs ''response'') ''status_code''))"

section \<open>Completions\<close>

text \<open>\<open>min(10.0, self.timeout_seconds)\<close>: the first argument unless the second is smaller.\<close>

fun float_lt :: "pyfloat \<Rightarrow> pyfloat \<Rightarrow> bool" where
  "float_lt (FFin a) (FFin b) = (a < b)"
| "float_lt FNan _ = False"
| "float_lt _ FNan = False"
| "float_lt FNegInf y = (y \<noteq> FNegInf)"
| "float_lt x FInf = (x \<noteq> FInf)"
| "float_lt _ _ = False"

definition probe_kwargs :: "llm_client \<Rightarrow> string \<Rightarrow> pydict" where
  "probe_kwargs c mode =
     dmerge (dmerge
       (dict_of
         [(''model'', VStr (lc_model c)),
          (''messages'', VList
            [VDict (dict_of [(''role'', VStr ''system''),
                             (''content'', VStr ''Tool capability probe. Reply briefly.'')]),
             VDict (dict_of [(''role'', VStr ''user''), (''content'', VStr ''probe'')])]),
          (''api_key'', VStr (lc_api_key c)),
          (''max_tokens'', VInt (min 8 (lc_max_tokens c))),
          (''temperature'', VFloat (FFin 0)),
          (''timeout'', VFloat (if float_lt (lc_timeout c) (FFin 10) then lc_timeout c else FFin 10)),
          (''num_retries'', VInt 0)])
       (lc_provider_settings c))
       (native_tool_call_kwargs probe_action_schema mode)"

text \<open>
  \<open>_probe_native_mode\<close>: whether the mode works, or the provider's client error. Any other
  exception is raised again.
\<close>

datatype probe_result = ProbeWorks bool | ProbeClientError exn

definition probe_native_mode ::
    "'s completion \<Rightarrow> llm_client \<Rightarrow> string \<Rightarrow> 's \<Rightarrow> probe_result res \<times> 's" where
  "probe_native_mode completion c mode w =
     (case completion (probe_kwargs c mode) w of
        (Inl (ProviderError e attrs), w') \<Rightarrow>
          (case exception_status_code attrs of
             Some n \<Rightarrow> (if 400 \<le> n \<and> n < 500 then Inr (ProbeClientError e) else Inl e, w')
           | None \<Rightarrow> (Inl e, w'))
      | (Inr response, w') \<Rightarrow>
          (bind_res (extract_native_tool_call response) (\<lambda>call.
             Inr (ProbeWorks (call \<noteq> None))), w'))"

text \<open>The loop over the modes: the first that works, else the last client error.\<close>

fun probe_modes ::
    "'s completion \<Rightarrow> llm_client \<Rightarrow> string list \<Rightarrow> exn option \<Rightarrow> 's
      \<Rightarrow> (string + exn option) res \<times> 's" where
  "probe_modes completion c [] last_error w = (Inr (Inr last_error), w)"
| "probe_modes completion c (mode # modes) last_error w =
     (case probe_native_mode completion c mode w of
        (Inl e, w') \<Rightarrow> (Inl e, w')
      | (Inr (ProbeWorks True), w') \<Rightarrow> (Inr (Inl mode), w')
      | (Inr (ProbeWorks False), w') \<Rightarrow> probe_modes completion c modes last_error w'
      | (Inr (ProbeClientError e), w') \<Rightarrow> probe_modes completion c modes (Some e) w')"

definition resolve_native_mode ::
    "'s completion \<Rightarrow> llm_client \<Rightarrow> 's \<Rightarrow> string option res \<times> llm_client \<times> 's" where
  "resolve_native_mode completion c w =
     (let configured = required_action_tool_choice_mode (lc_native_tool_choice c)
      in if \<not> lc_native_probe c then (Inr (Some configured), c, w)
         else if lc_probe_ran c then (Inr (lc_resolved c), c, w)
         else
           (let c1 = c\<lparr>lc_probe_ran := True\<rparr>
            in case probe_modes completion c1 (native_tool_choice_probe_order configured) None w of
                 (Inl e, w') \<Rightarrow> (Inl e, c1, w')
               | (Inr (Inl mode), w') \<Rightarrow> (Inr (Some mode), c1\<lparr>lc_resolved := Some mode\<rparr>, w')
               | (Inr (Inr last_error), w') \<Rightarrow>
                   (if lc_native_fallback c then Inr None
                    else (case last_error of
                            Some e \<Rightarrow> Inl e
                          | None \<Rightarrow> raise RuntimeError
                              ''No compatible native tool-choice mode is available.''),
                    c1\<lparr>lc_resolved := None\<rparr>, w')))"

definition base_kwargs :: "llm_client \<Rightarrow> pydict list \<Rightarrow> pydict" where
  "base_kwargs c messages =
     dmerge
       (dict_of
         [(''model'', VStr (lc_model c)),
          (''messages'', VList (map VDict messages)),
          (''api_key'', VStr (lc_api_key c)),
          (''max_tokens'', VInt (lc_max_tokens c)),
          (''temperature'', VFloat (lc_temperature c)),
          (''timeout'', VFloat (lc_timeout c)),
          (''num_retries'', VInt (lc_max_retries c))])
       (lc_provider_settings c)"

datatype action_mode = ModeNone | ModePrompt | ModeNative string

text \<open>How the action schema is put to the model; may probe the provider.\<close>

definition choose_mode ::
    "'s completion \<Rightarrow> llm_client \<Rightarrow> pyval \<Rightarrow> 's \<Rightarrow> action_mode res \<times> llm_client \<times> 's" where
  "choose_mode completion c action_schema w =
     (if action_schema = VNone then (Inr ModeNone, c, w)
      else if lc_structured_output c = ''native'' then
        (case resolve_native_mode completion c w of
           (Inl e, c', w') \<Rightarrow> (Inl e, c', w')
         | (Inr None, c', w') \<Rightarrow> (Inr ModePrompt, c', w')
         | (Inr (Some mode), c', w') \<Rightarrow> (Inr (ModeNative mode), c', w'))
      else (Inr ModePrompt, c, w))"

fun mode_kwargs :: "llm_client \<Rightarrow> pydict list \<Rightarrow> pyval \<Rightarrow> action_mode \<Rightarrow> pydict" where
  "mode_kwargs c messages schema ModeNone = base_kwargs c messages"
| "mode_kwargs c messages schema ModePrompt =
     dset (base_kwargs c messages) ''messages''
       (VList (map VDict (inject_prompt_action_schema messages schema)))"
| "mode_kwargs c messages schema (ModeNative mode) =
     dmerge (base_kwargs c messages) (native_tool_call_kwargs schema mode)"

definition extract_action :: "action_mode \<Rightarrow> pyval \<Rightarrow> tool_call option res" where
  "extract_action mode response =
     (case mode of
        ModeNone \<Rightarrow> Inr None
      | ModePrompt \<Rightarrow> extract_prompt_tool_call (extract_text response)
      | ModeNative _ \<Rightarrow> extract_native_tool_call response)"

definition llm_complete ::
    "'s completion \<Rightarrow> llm_client \<Rightarrow> pydict list \<Rightarrow> pyval \<Rightarrow> 's
      \<Rightarrow> llm_response res \<times> llm_client \<times> 's" where
  "llm_complete completion c messages action_schema w =
     (case choose_mode completion c action_schema w of
        (Inl e, c', w') \<Rightarrow> (Inl e, c', w')
      | (Inr mode, c', w') \<Rightarrow>
          (case completion (mode_kwargs c' messages action_schema mode) w' of
             (Inl err, w'') \<Rightarrow> (Inl (pe_exn err), c', w'')
           | (Inr response, w'') \<Rightarrow>
               (bind_res (extract_action mode response) (\<lambda>action.
                  Inr \<lparr>lr_text = extract_text response, lr_action = action,
                       lr_usage = extract_usage response\<rparr>), c', w'')))"

section \<open>Counting tokens\<close>

fun item_chars :: "pyval \<Rightarrow> nat" where
  "item_chars (VDict d) = length (str_or_empty (dget d ''text''))"
| "item_chars _ = 0"

definition message_chars :: "pydict \<Rightarrow> nat" where
  "message_chars message =
     (case dget message ''content'' of
        VStr s \<Rightarrow> length s
      | VList items \<Rightarrow> sum_list (map item_chars items)
      | _ \<Rightarrow> 0)"

definition heuristic_token_count :: "pydict list \<Rightarrow> int" where
  "heuristic_token_count messages =
     max 1 (int (sum_list (map message_chars messages)) div 4)"

definition llm_count_tokens ::
    "'s token_counter \<Rightarrow> llm_client \<Rightarrow> pydict list \<Rightarrow> 's \<Rightarrow> int res \<times> 's" where
  "llm_count_tokens token_counter c messages w =
     (case token_counter (dmerge (dict_of [(''model'', VStr (lc_model c)),
                                           (''messages'', VList (map VDict messages))])
                           (lc_provider_settings c)) w of
        (Inl e, w') \<Rightarrow> (Inr (heuristic_token_count messages), w')
      | (Inr v, w') \<Rightarrow>
          (case py_int v of
             Inl e \<Rightarrow> (Inr (heuristic_token_count messages), w')
           | Inr n \<Rightarrow> (Inr n, w')))"

section \<open>Facts\<close>

text \<open>The provider's settings can never stand in for what the client itself sets.\<close>

definition settings_ok :: "llm_client \<Rightarrow> bool" where
  "settings_ok c = (\<forall>k \<in> set reserved_keys. KStr k \<notin> fst ` set (lc_provider_settings c))"

lemma key_strings_iff: "s \<in> set (key_strings k) \<longleftrightarrow> k = KStr s"
  by (cases k) auto

lemma setting_conflicts_Nil:
  "setting_conflicts d = [] \<longleftrightarrow> (\<forall>k \<in> set reserved_keys. KStr k \<notin> fst ` set d)"
proof -
  have "setting_conflicts d = [] \<longleftrightarrow>
      (\<forall>p \<in> set d. \<forall>s \<in> set (key_strings (fst p)). s \<notin> set reserved_keys)"
    by (auto simp: setting_conflicts_def filter_empty_conv simp flip: set_empty)
  also have "\<dots> \<longleftrightarrow> (\<forall>k \<in> set reserved_keys. KStr k \<notin> fst ` set d)"
    by (force simp: key_strings_iff)
  finally show ?thesis .
qed

lemma new_client_settings_ok:
  "new_client m k mt t ts mr st so nc nf np = Inr c \<Longrightarrow> settings_ok c"
proof -
  assume a: "new_client m k mt t ts mr st so nc nf np = Inr c"
  then have "setting_conflicts st = []" and "lc_provider_settings c = st"
    by (auto simp: new_client_def bind_res_eq_Inr Let_def split: pyval.splits)
  then show ?thesis by (simp add: settings_ok_def setting_conflicts_Nil)
qed

lemma from_config_settings_ok: "from_config config = Inr c \<Longrightarrow> settings_ok c"
  by (auto simp: from_config_def bind_res_eq_Inr dest: new_client_settings_ok)

lemma from_config_fresh: "from_config config = Inr c \<Longrightarrow> \<not> lc_probe_ran c"
  by (auto simp: from_config_def bind_res_eq_Inr new_client_def Let_def split: pyval.splits)

text \<open>A provider that records the requests it gets.\<close>

definition logged :: "'s completion \<Rightarrow> (pydict list \<times> 's) completion" where
  "logged f kwargs w = (case f kwargs (snd w) of (r, s) \<Rightarrow> (r, (fst w @ [kwargs], s)))"

definition signed :: "llm_client \<Rightarrow> pydict \<Rightarrow> bool" where
  "signed c kwargs = (dget kwargs ''model'' = VStr (lc_model c) \<and> dget kwargs ''api_key'' = VStr (lc_api_key c))"

lemma tool_kwargs_keys: "fst ` set (native_tool_call_kwargs schema mode) = {KStr ''tools'', KStr ''tool_choice''}"
  by (auto simp: native_tool_call_kwargs_def dict_of_def split: pyval.splits)

lemma settings_okD:
  "settings_ok c \<Longrightarrow> k \<in> set reserved_keys \<Longrightarrow> dget (dmerge d (lc_provider_settings c)) k = dget d k"
  by (simp add: settings_ok_def dget_dmerge_other)

lemma signed_probe: "settings_ok c \<Longrightarrow> signed c (probe_kwargs c mode)"
  by (simp add: signed_def probe_kwargs_def dget_dmerge_other tool_kwargs_keys settings_okD reserved_keys_def)

lemma signed_mode: "settings_ok c \<Longrightarrow> signed c (mode_kwargs c messages schema mode)"
  by (cases mode)
    (simp_all add: signed_def base_kwargs_def dget_dmerge_other tool_kwargs_keys settings_okD reserved_keys_def)

lemma signed_probe_ran [simp]: "signed (c\<lparr>lc_probe_ran := b\<rparr>) = signed c" "signed (c\<lparr>lc_resolved := r\<rparr>) = signed c"
  by (auto simp: signed_def fun_eq_iff)

lemma settings_ok_update [simp]: "settings_ok (c\<lparr>lc_probe_ran := b\<rparr>) = settings_ok c"
  "settings_ok (c\<lparr>lc_resolved := r\<rparr>) = settings_ok c"
  by (simp_all add: settings_ok_def)

lemma probe_native_logged:
  "settings_ok c \<Longrightarrow> \<exists>kw. list_all (signed c) kw \<and> length kw = 1
     \<and> fst (snd (probe_native_mode (logged f) c mode w)) = fst w @ kw"
  using signed_probe [of c mode]
  by (fastforce simp: probe_native_mode_def logged_def
      split: prod.splits sum.splits provider_error.splits option.splits)

lemma probe_modes_logged:
  "settings_ok c \<Longrightarrow> \<exists>kw. list_all (signed c) kw \<and> length kw \<le> length modes
     \<and> fst (snd (probe_modes (logged f) c modes err w)) = fst w @ kw"
proof (induction modes arbitrary: err w)
  case (Cons mode modes)
  obtain r w' where p: "probe_native_mode (logged f) c mode w = (r, w')" by (metis surj_pair)
  obtain kw where kw: "list_all (signed c) kw" "length kw = 1" "fst w' = fst w @ kw"
    using probe_native_logged [OF Cons.prems, of f mode w] p by auto
  have ext: "\<exists>kw. list_all (signed c) kw \<and> length kw \<le> length (mode # modes)
      \<and> fst (snd (probe_modes (logged f) c modes err' w')) = fst w @ kw" for err'
  proof -
    obtain kw' where "list_all (signed c) kw'" "length kw' \<le> length modes"
      "fst (snd (probe_modes (logged f) c modes err' w')) = fst w' @ kw'"
      using Cons.IH [OF Cons.prems] by blast
    then show ?thesis using kw by (intro exI [of _ "kw @ kw'"]) simp
  qed
  show ?case
    using ext kw p by (auto split: sum.splits probe_result.splits bool.splits intro!: exI [of _ kw])
qed simp

lemma probe_order_length: "length (native_tool_choice_probe_order m) \<le> 2"
  by (simp add: native_tool_choice_probe_order_def)

text \<open>At most two probes, and none once the client has probed.\<close>

lemma choose_mode_logged:
  assumes "settings_ok c" and "choose_mode (logged f) c schema w = (r, c', w')"
  shows "\<exists>kw. list_all (signed c) kw \<and> fst w' = fst w @ kw
    \<and> length kw \<le> (if lc_probe_ran c then 0 else 2)
    \<and> signed c' = signed c \<and> settings_ok c'
    \<and> (kw = [] \<or> lc_probe_ran c') \<and> (lc_probe_ran c \<longrightarrow> c' = c)"
proof -
  let ?ms = "native_tool_choice_probe_order (required_action_tool_choice_mode (lc_native_tool_choice c))"
  obtain kw where "list_all (signed c) kw" "length kw \<le> length ?ms"
    "fst (snd (probe_modes (logged f) (c\<lparr>lc_probe_ran := True\<rparr>) ?ms None w)) = fst w @ kw"
    using probe_modes_logged [of "c\<lparr>lc_probe_ran := True\<rparr>" ?ms f None w] assms(1) by auto
  moreover have "length ?ms \<le> 2" by (rule probe_order_length)
  ultimately show ?thesis
    using assms
    by (auto simp: choose_mode_def resolve_native_mode_def Let_def
        split: if_splits prod.splits sum.splits option.splits)
qed

text \<open>A run of completions on one client.\<close>

fun complete_all ::
    "'s completion \<Rightarrow> llm_client \<Rightarrow> (pydict list \<times> pyval) list \<Rightarrow> 's
      \<Rightarrow> llm_response res list \<times> llm_client \<times> 's" where
  "complete_all f c [] w = ([], c, w)"
| "complete_all f c ((messages, schema) # qs) w =
     (case llm_complete f c messages schema w of
        (r, c', w') \<Rightarrow> (case complete_all f c' qs w' of (rs, c'', w'') \<Rightarrow> (r # rs, c'', w'')))"

definition probes_left :: "llm_client \<Rightarrow> nat" where
  "probes_left c = (if lc_probe_ran c then 0 else 2)"

lemma llm_complete_logged:
  assumes "settings_ok c" and "llm_complete (logged f) c messages schema w = (r, c', w')"
  shows "\<exists>kw. list_all (signed c) kw \<and> fst w' = fst w @ kw
    \<and> length kw + probes_left c' \<le> Suc (probes_left c) \<and> signed c' = signed c \<and> settings_ok c'"
proof -
  obtain m c1 w1 where m: "choose_mode (logged f) c schema w = (m, c1, w1)" by (metis surj_pair)
  obtain kw where kw: "list_all (signed c) kw" "fst w1 = fst w @ kw"
    "length kw \<le> (if lc_probe_ran c then 0 else 2)" "signed c1 = signed c" "settings_ok c1"
    "kw = [] \<or> lc_probe_ran c1" "lc_probe_ran c \<longrightarrow> c1 = c"
    using choose_mode_logged [OF assms(1) m] by blast
  have probes: "length kw + probes_left c1 \<le> probes_left c"
    using kw(3,6,7) by (auto simp: probes_left_def split: if_splits)
  show ?thesis
  proof (cases m)
    case (Inl e)
    then show ?thesis
      using assms(2) m kw probes by (auto simp: llm_complete_def)
  next
    case (Inr mode)
    let ?k = "mode_kwargs c1 messages schema mode"
    have "c' = c1" and "fst w' = fst w1 @ [?k]"
      using assms(2) m Inr
      by (auto simp: llm_complete_def logged_def split: prod.splits sum.splits)
    then show ?thesis
      using kw probes signed_mode [OF kw(5), of messages schema mode]
      by (intro exI [of _ "kw @ [?k]"]) simp
  qed
qed

lemma complete_all_logged:
  "settings_ok c \<Longrightarrow> complete_all (logged f) c qs w = (rs, c', w') \<Longrightarrow>
    \<exists>kw. list_all (signed c) kw \<and> fst w' = fst w @ kw \<and> length kw \<le> length qs + probes_left c"
proof (induction qs arbitrary: c w rs c' w')
  case (Cons q qs)
  obtain messages schema where q: "q = (messages, schema)" by (cases q)
  obtain r c1 w1 where 1: "llm_complete (logged f) c messages schema w = (r, c1, w1)"
    by (metis surj_pair)
  obtain rs' c2 w2 where 2: "complete_all (logged f) c1 qs w1 = (rs', c2, w2)"
    by (metis surj_pair)
  obtain kw where kw: "list_all (signed c) kw" "fst w1 = fst w @ kw"
      "length kw + probes_left c1 \<le> Suc (probes_left c)" "signed c1 = signed c" "settings_ok c1"
    using llm_complete_logged [OF Cons.prems(1) 1] by blast
  obtain kw' where kw': "list_all (signed c1) kw'" "fst w2 = fst w1 @ kw'"
      "length kw' \<le> length qs + probes_left c1"
    using Cons.IH [OF kw(5) 2] by blast
  have "w' = w2" using Cons.prems(2) q 1 2 by simp
  then show ?case
    using kw kw' by (intro exI [of _ "kw @ kw'"]) simp
qed simp

lemma strip_compact_dict: "strip (dumps_compact (VDict d)) = dumps_compact (VDict d)"
proof -
  have "dumps_compact (VDict d) = CHR ''{'' # join '','' (map member_text d) @ ''}''"
    by (rule dumps_compact_VDict)
  then show ?thesis
    by (intro strip_nonspace) (simp_all add: py_space_def code_def)
qed

text \<open>The object a model prints for a call.\<close>

definition action_value :: "tool_call \<Rightarrow> pyval" where
  "action_value call =
     VDict (dict_of
       ([(''tool'', VStr (tc_tool call)), (''args'', VDict (tc_args call))]
        @ (case tc_reason call of Some r \<Rightarrow> [(''reason'', VStr r)] | None \<Rightarrow> [])))"

lemma action_from_action_value: "action_from_dict (action_value call) = Some call"
  by (cases "tc_reason call") (simp_all add: action_from_dict_def action_value_def)

lemma json_exact_action: "json_exact (VDict (tc_args call)) \<Longrightarrow> json_exact (action_value call)"
  by (cases "tc_reason call") (auto simp: action_value_def dict_of_def)

section \<open>Properties\<close>

text \<open>
  A client built from a configuration spends at most two requests on probing in its
  whole life and one on each completion, and every request carries the configured model and
  API key: no \<open>provider_settings\<close> entry can replace them.
\<close>

theorem llm_requests_bounded:
  assumes "from_config config = Inr c"
    and "complete_all (logged f) c qs ([], s) = (rs, c', sent, s')"
  shows "length sent \<le> length qs + 2 \<and> list_all (signed c) sent"
  using complete_all_logged [OF from_config_settings_ok [OF assms(1)] assms(2)]
    from_config_fresh [OF assms(1)]
  by (auto simp: probes_left_def)

theorem llm_requests_bounded_witness:
  "\<exists>c rs c' sent s'. from_config (dict_of [(''model'', VStr ''m''), (''api_key'', VStr ''k'')]) = Inr c
    \<and> complete_all (logged (\<lambda>kw s. (Inr VNone, Suc s))) c [([], VDict [])] ([], 0) = (rs, c', sent, s')
    \<and> s' = 2 \<and> length sent \<le> 3 \<and> list_all (signed c) sent"
proof -
  let ?f = "\<lambda>(kw::pydict) s. (Inr VNone, Suc s)"
  obtain c where c: "from_config (dict_of [(''model'', VStr ''m''), (''api_key'', VStr ''k'')]) = Inr c"
    by (simp add: from_config_def provider_settings_of_def new_client_def setting_conflicts_def Let_def)
  obtain rs c' sent s' where r: "complete_all (logged ?f) c [([], VDict [])] ([], 0) = (rs, c', sent, s')"
    by (metis surj_pair)
  have "s' = 2"
    using r c
    by (auto simp: from_config_def provider_settings_of_def new_client_def setting_conflicts_def Let_def
        llm_complete_def choose_mode_def resolve_native_mode_def probe_native_mode_def logged_def
        required_action_tool_choice_mode_def native_tool_choice_probe_order_def
        extract_native_tool_call_def first_message_def extract_prompt_tool_call_def strip_def
        lstrip_def rstrip_def extract_text_def extract_action_def)
  then show ?thesis using c r llm_requests_bounded [OF c r] by auto
qed

text \<open>
  C34. An action the model prints as JSON is read back exactly, in prompt mode and as the
  arguments of a native \<open>submit_tool_call\<close>, while a response with more than one tool call is
  never read as an action: neither several entries of \<open>tool_calls\<close> nor, where those give no
  action, several content items of type \<open>tool_use\<close>.
\<close>

theorem action_extraction:
  assumes "json_exact (VDict (tc_args call))"
  shows "extract_prompt_tool_call (dumps_compact (action_value call)) = Inr (Some call)
    \<and> parse_action_payload (VStr (dumps_compact (action_value call))) = Inr (Some call)
    \<and> (2 \<le> length calls \<longrightarrow> get_value response ''choices'' = VList (choice # choices) \<longrightarrow>
        get_value (get_value choice ''message'') ''tool_calls'' = VList calls \<longrightarrow>
        extract_native_tool_call response = Inr None)
    \<and> (2 \<le> length (filter is_tool_use items) \<longrightarrow> get_value response ''choices'' = VList (choice # choices) \<longrightarrow>
        call_from_tool_calls (get_value (get_value choice ''message'') ''tool_calls'') = Inr None \<longrightarrow>
        get_value (get_value choice ''message'') ''content'' = VList items \<longrightarrow>
        extract_native_tool_call response = Inr None)"
proof -
  have several: "call_from_content (VList items) = None" if "2 \<le> length (filter is_tool_use items)"
    using that by (auto simp: call_from_content_def split: list.splits)
  have "json_loads (dumps_compact (action_value call)) = Inr (action_value call)"
    using json_loads_dumps [OF json_exact_action [OF assms], of "[]"] by simp
  then have l: "loads_or_none (dumps_compact (action_value call)) = Inr (Some (action_value call))"
    by (simp add: loads_or_none_def)
  have s: "strip (dumps_compact (action_value call)) = dumps_compact (action_value call)"
    by (simp add: action_value_def strip_compact_dict)
  have "dumps_compact (action_value call) \<noteq> []"
    by (simp add: action_value_def dumps_compact_VDict)
  then have "extract_prompt_tool_call (dumps_compact (action_value call)) = Inr (Some call)"
    by (simp add: extract_prompt_tool_call_def s l action_from_action_value)
  moreover have "parse_action_payload (VStr (dumps_compact (action_value call))) = Inr (Some call)"
    by (simp add: parse_action_payload_def l action_from_action_value)
  ultimately show ?thesis
    using several
    by (auto simp: extract_native_tool_call_def first_message_def call_from_tool_calls_def
        split: list.splits)
qed

theorem action_extraction_witness:
  "extract_prompt_tool_call (dumps_compact (action_value
      \<lparr>tc_tool = ''fs_read'', tc_args = dict_of [(''path'', VStr ''/workspace'')], tc_reason = None\<rparr>))
    = Inr (Some \<lparr>tc_tool = ''fs_read'', tc_args = dict_of [(''path'', VStr ''/workspace'')], tc_reason = None\<rparr>)"
  by (rule action_extraction [THEN conjunct1]) (simp add: dict_of_def)

end
