(* ===== verification/Tools.thy ===== *)
theory Tools
  imports LlmClient
begin

text \<open>
  \<open>agent/tools.py\<close>: the capability tools of an agent. Running a shell command and calling
  a host service are arguments of the operations; both act on a world of type \<open>'s\<close>.
\<close>

section \<open>State and environment\<close>

record tool_result =
  tr_exit_code :: int
  tr_stdout :: string
  tr_stderr :: string

text \<open>\<open>asdict(result)\<close>\<close>

definition result_dict :: "tool_result \<Rightarrow> pydict" where
  "result_dict r = dict_of [(''exit_code'', VInt (tr_exit_code r)), (''stdout'', VStr (tr_stdout r)),
     (''stderr'', VStr (tr_stderr r))]"

text \<open>
  What \<open>subprocess.run\<close> ends in: a completed process, \<open>TimeoutExpired\<close> with the output
  so far, when it is text, or another exception.
\<close>

datatype shell_end =
    Completed int string string
  | TimedOut "string option" "string option"
  | ShellError exn

type_synonym 's shell = "string \<Rightarrow> pyfloat \<Rightarrow> 's \<Rightarrow> shell_end \<times> 's"
type_synonym 's service_call = "string \<Rightarrow> pydict \<Rightarrow> 's \<Rightarrow> pydict res \<times> 's"

record tools =
  to_config :: pydict
  to_enabled :: "string list"

definition KNOWN_TOOLS :: "string list" where
  "KNOWN_TOOLS = [''shell'', ''web_search'', ''web_fetch'', ''http_request'']"

definition new_tools :: "pydict \<Rightarrow> tools" where
  "new_tools config =
     \<lparr>to_config = config,
      to_enabled =
        (case dget config ''tools'' of
           VDict raw \<Rightarrow> filter (\<lambda>name. truthy (dget_or raw name (VBool True))) KNOWN_TOOLS
         | _ \<Rightarrow> KNOWN_TOOLS)\<rparr>"

definition list_enabled :: "tools \<Rightarrow> string list" where
  "list_enabled t = sort (to_enabled t)"

section \<open>Schemas\<close>

definition str_type :: pyval where
  "str_type = VDict (dict_of [(''type'', VStr ''string'')])"

definition tool_schema :: "string \<Rightarrow> string \<Rightarrow> pydict \<Rightarrow> string list \<Rightarrow> pyval" where
  "tool_schema name description properties required =
     VDict (dict_of [(''name'', VStr name), (''description'', VStr description),
       (''parameters'', VDict (dict_of [(''type'', VStr ''object''), (''properties'', VDict properties),
          (''required'', VList (map VStr required)), (''additionalProperties'', VBool False)]))])"

definition shell_schema :: pyval where
  "shell_schema = tool_schema ''shell'' ''Run a shell command and return stdout/stderr/exit code.''
     (dict_of [(''command'', str_type),
        (''timeout_seconds'', VDict (dict_of [(''type'', VStr ''number''), (''default'', VFloat (FFin 60))]))])
     [''command'']"

definition web_search_schema :: pyval where
  "web_search_schema = tool_schema ''web_search'' ''Search the web and return normalized result snippets.''
     (dict_of [(''query'', str_type)]) [''query'']"

definition web_fetch_schema :: pyval where
  "web_fetch_schema = tool_schema ''web_fetch''
     (''Fetch a URL and return the HTTP response ''
      @ ''(status, headers, decoded text body, truncation flag).'')
     (dict_of [(''url'', str_type)]) [''url'']"

definition nullable_str :: "(string \<times> pyval) list \<Rightarrow> pyval" where
  "nullable_str more_keys =
     VDict (dict_of ((''type'', VList [VStr ''string'', VStr ''null'']) # more_keys))"

definition http_request_schema :: pyval where
  "http_request_schema = tool_schema ''http_request''
     ''Make structured HTTP requests and return status, headers, and body.''
     (dict_of [(''method'', str_type), (''url'', str_type),
        (''integration'', nullable_str [(''description'', VStr
           (''Named integration from secrets.yaml. Required for authenticated APIs. ''
            @ ''Omit only for unauthenticated GET requests to public URLs.''))]),
        (''headers'', VDict (dict_of [(''type'', VStr ''object'')])), (''body'', nullable_str [])])
     [''method'', ''url'']"

definition tools_schema :: "tools \<Rightarrow> pyval list" where
  "tools_schema t =
     (if ''shell'' \<in> set (to_enabled t) then [shell_schema] else [])
     @ (if ''web_search'' \<in> set (to_enabled t) then [web_search_schema] else [])
     @ (if ''web_fetch'' \<in> set (to_enabled t) then [web_fetch_schema] else [])
     @ (if ''http_request'' \<in> set (to_enabled t) then [http_request_schema] else [])"

section \<open>Output\<close>

definition OUTPUT_CHUNK_SIZE :: nat where
  "OUTPUT_CHUNK_SIZE = 4000"

definition truncate_output :: "string \<Rightarrow> string" where
  "truncate_output s =
     (if length s \<le> OUTPUT_CHUNK_SIZE * 2 then s
      else take OUTPUT_CHUNK_SIZE s @ [newline] @ ''...[truncated ''
        @ nat_str (length s - OUTPUT_CHUNK_SIZE * 2) @ '' chars]...'' @ [newline]
        @ drop (length s - OUTPUT_CHUNK_SIZE) s)"

definition wrap_external_data :: "pydict \<Rightarrow> string" where
  "wrap_external_data payload =
     ''--- BEGIN DATA ---'' @ [newline] @ dumps_compact (VDict payload) @ [newline] @ ''--- END DATA ---''"

text \<open>\<open>f"{x:.1f}"\<close>: one decimal, ties to the even digit.\<close>

definition round_half_even :: "rat \<Rightarrow> nat" where
  "round_half_even q =
     (let f = nat \<lfloor>q\<rfloor>; r = q - of_nat f
      in if r < 1/2 then f else if r > 1/2 then Suc f else if even f then f else Suc f)"

fun fixed1 :: "pyfloat \<Rightarrow> string" where
  "fixed1 (FFin q) =
     (let n = round_half_even (\<bar>q\<bar> * 10)
      in (if q < 0 then ''-'' else []) @ nat_str (n div 10) @ ''.'' @ nat_str (n mod 10))"
| "fixed1 f = float_repr f"

section \<open>The tools\<close>

definition tool_error :: "string \<Rightarrow> tool_result" where
  "tool_error msg = \<lparr>tr_exit_code = 1, tr_stdout = [], tr_stderr = msg\<rparr>"

definition positive_number_error :: tool_result where
  "positive_number_error = tool_error ''shell.timeout_seconds must be a positive number.''"

text \<open>The timeout: an int or a float, no bool, above zero.\<close>

definition shell_timeout :: "pydict \<Rightarrow> pyfloat option" where
  "shell_timeout args =
     (case dget_or args ''timeout_seconds'' (VFloat (FFin 60)) of
        VInt n \<Rightarrow> if n \<le> 0 then None else Some (FFin (of_int n))
      | VFloat f \<Rightarrow> if float_le_zero f then None else Some f
      | _ \<Rightarrow> None)"

definition timeout_result :: "pyfloat \<Rightarrow> string option \<Rightarrow> string option \<Rightarrow> tool_result" where
  "timeout_result timeout out err =
     (let stdout = (case out of None \<Rightarrow> [] | Some s \<Rightarrow> s);
          stderr = (case err of None \<Rightarrow> [] | Some s \<Rightarrow> s);
          message = ''Command timed out after '' @ fixed1 timeout @ ''s.''
      in \<lparr>tr_exit_code = 124, tr_stdout = truncate_output stdout,
          tr_stderr = truncate_output (if stderr \<noteq> [] then stderr @ [newline] @ message else message)\<rparr>)"

definition execute_shell :: "'s shell \<Rightarrow> pydict \<Rightarrow> 's \<Rightarrow> tool_result res \<times> 's" where
  "execute_shell shell args w =
     (case dget args ''command'' of
        VStr command \<Rightarrow>
          if strip command = [] then (Inr (tool_error ''shell.command must be a non-empty string.''), w)
          else
            (case shell_timeout args of
               None \<Rightarrow> (Inr positive_number_error, w)
             | Some timeout \<Rightarrow>
                 (case shell command timeout w of
                    (Completed status out err, w') \<Rightarrow>
                      (Inr \<lparr>tr_exit_code = status, tr_stdout = truncate_output out,
                            tr_stderr = truncate_output err\<rparr>, w')
                  | (TimedOut out err, w') \<Rightarrow> (Inr (timeout_result timeout out err), w')
                  | (ShellError e, w') \<Rightarrow>
                      if exn_class e = OSError
                      then (Inr (tool_error (''Failed to execute shell: '' @ exn_str e)), w')
                      else (Inl e, w')))
      | _ \<Rightarrow> (Inr (tool_error ''shell.command must be a non-empty string.''), w))"

text \<open>
  A call of the broker service whose reply is wrapped as data. Only \<open>HostServiceError\<close> is
  caught.
\<close>

definition broker_result :: "string \<Rightarrow> pydict \<Rightarrow> tool_result" where
  "broker_result tool result =
     (if dget result ''success'' = VBool False
      then \<lparr>tr_exit_code = 1, tr_stdout = wrap_external_data result, tr_stderr = []\<rparr>
      else if dget result ''success'' \<noteq> VBool True
      then tool_error (''invalid broker response for '' @ tool @ '': missing success envelope.'')
      else \<lparr>tr_exit_code = 0, tr_stdout = wrap_external_data result, tr_stderr = []\<rparr>)"

definition call_broker ::
    "'s service_call option \<Rightarrow> string \<Rightarrow> pydict \<Rightarrow> 's \<Rightarrow> tool_result res \<times> 's" where
  "call_broker broker tool payload w =
     (case broker of
        None \<Rightarrow> (Inr (tool_error (''host service broker is not configured for '' @ tool @ ''.'')), w)
      | Some call \<Rightarrow>
          (case call ''broker'' payload w of
             (Inl e, w') \<Rightarrow>
               if exn_class e = HostServiceError then (Inr (tool_error (exn_str e)), w') else (Inl e, w')
           | (Inr result, w') \<Rightarrow> (Inr (broker_result tool result), w')))"

text \<open>An infinite \<open>max_results\<close> raises \<open>OverflowError\<close>, which nothing here catches.\<close>

definition configured_max_results :: "tools \<Rightarrow> int option res" where
  "configured_max_results t =
     (let cfg = as_dict (dget_or (to_config t) ''web_search'' (VDict []));
          raw = dget_or cfg ''max_results'' (VInt 10)
      in if is_VBool raw then Inr None
         else bind_res (int_or_none raw) (\<lambda>n. Inr (case n of
                None \<Rightarrow> None | Some k \<Rightarrow> if k \<le> 0 then None else Some k)))"

definition execute_web_search ::
    "tools \<Rightarrow> 's service_call option \<Rightarrow> pydict \<Rightarrow> 's \<Rightarrow> tool_result res \<times> 's" where
  "execute_web_search t broker args w =
     (case dget args ''query'' of
        VStr query \<Rightarrow>
          if strip query = [] then (Inr (tool_error ''web_search.query must be a string.''), w)
          else
            (case configured_max_results t of
               Inl e \<Rightarrow> (Inl e, w)
             | Inr None \<Rightarrow> (Inr (tool_error ''web_search.max_results must be a positive integer.''), w)
             | Inr (Some n) \<Rightarrow>
                 call_broker broker ''web_search''
                   (dict_of [(''action'', VStr ''web_search''), (''query'', VStr (strip query)),
                             (''max_results'', VInt n)]) w)
      | _ \<Rightarrow> (Inr (tool_error ''web_search.query must be a string.''), w))"

definition execute_web_fetch :: "'s service_call option \<Rightarrow> pydict \<Rightarrow> 's \<Rightarrow> tool_result res \<times> 's" where
  "execute_web_fetch broker args w =
     (case dget args ''url'' of
        VStr url \<Rightarrow>
          if strip url = [] then (Inr (tool_error ''web_fetch.url must be a string.''), w)
          else call_broker broker ''web_fetch''
                 (dict_of [(''action'', VStr ''web_fetch''), (''url'', VStr (strip url))]) w
      | _ \<Rightarrow> (Inr (tool_error ''web_fetch.url must be a string.''), w))"

definition HTTP_REQUEST_ALLOWED_METHODS :: "string list" where
  "HTTP_REQUEST_ALLOWED_METHODS = [''GET'', ''POST'', ''PUT'', ''DELETE'', ''PATCH'']"

text \<open>The payload of an HTTP request, or the message that refuses its arguments.\<close>

definition str_or_none :: "pyval \<Rightarrow> bool" where
  "str_or_none v = (v = VNone \<or> is_VStr v)"

definition http_headers :: "pyval \<Rightarrow> string + pydict" where
  "http_headers raw =
     (case raw of
        VNone \<Rightarrow> Inr []
      | VDict d \<Rightarrow>
          if list_all (\<lambda>p. key_is_str (fst p) \<and> is_VStr (snd p)) d then Inr d
          else Inl ''http_request.headers must contain only string keys and values.''
      | _ \<Rightarrow> Inl ''http_request.headers must be an object when provided.'')"

definition http_payload :: "pydict \<Rightarrow> string + pydict" where
  "http_payload args =
     (case dget args ''method'' of
        VStr m \<Rightarrow>
          let meth = upper (strip m) in
          if strip m = [] then Inl ''http_request.method must be a string.''
          else if meth \<notin> set HTTP_REQUEST_ALLOWED_METHODS
          then Inl (''http_request.method must be one of: ''
                    @ join '', '' (sort HTTP_REQUEST_ALLOWED_METHODS) @ ''.'')
          else
            (case dget args ''url'' of
               VStr url \<Rightarrow>
                 if strip url = [] then Inl ''http_request.url must be a string.''
                 else
                   (case http_headers (dget_or args ''headers'' (VDict [])) of
                      Inl msg \<Rightarrow> Inl msg
                    | Inr headers \<Rightarrow>
                        if \<not> str_or_none (dget args ''integration'')
                        then Inl ''http_request.integration must be a string or null.''
                        else if \<not> str_or_none (dget args ''body'')
                        then Inl ''http_request.body must be a string or null.''
                        else Inr (dict_of [(''action'', VStr ''http_request''),
                               (''integration'', dget args ''integration''), (''method'', VStr meth),
                               (''url'', VStr (strip url)), (''headers'', VDict headers),
                               (''body'', dget args ''body'')]))
             | _ \<Rightarrow> Inl ''http_request.url must be a string.'')
      | _ \<Rightarrow> Inl ''http_request.method must be a string.'')"

definition execute_http_request :: "'s service_call option \<Rightarrow> pydict \<Rightarrow> 's \<Rightarrow> tool_result res \<times> 's" where
  "execute_http_request broker args w =
     (case http_payload args of
        Inl msg \<Rightarrow> (Inr (tool_error msg), w)
      | Inr payload \<Rightarrow> call_broker broker ''http_request'' payload w)"

definition execute_tool ::
    "tools \<Rightarrow> 's shell \<Rightarrow> 's service_call option \<Rightarrow> tool_call \<Rightarrow> 's \<Rightarrow> tool_result res \<times> 's" where
  "execute_tool t shell broker call w =
     (let name = tc_tool call; args = tc_args call
      in if name = [] then (Inr (tool_error ''tool_call.tool must be a non-empty string.''), w)
         else if name \<notin> set (to_enabled t)
         then (Inr (tool_error (''tool '' @ name @ '' is not enabled.'')), w)
         else if name = ''shell'' then execute_shell shell args w
         else if name = ''web_search'' then execute_web_search t broker args w
         else if name = ''web_fetch'' then execute_web_fetch broker args w
         else if name = ''http_request'' then execute_http_request broker args w
         else (Inr (tool_error (''tool '' @ name @ '' is not implemented yet.'')), w))"

section \<open>Properties\<close>

lemma length_truncate_output:
  "length (truncate_output s) \<le> 8000 + 31 + length (nat_str (length s))"
  "length s \<le> 8000 \<Longrightarrow> truncate_output s = s"
  "8000 < length s \<Longrightarrow> prefix (take 4000 s) (truncate_output s) \<and> suffix (drop (length s - 4000) s) (truncate_output s)"
proof -
  have m: "length (nat_str m) \<le> length (nat_str n)" if "m \<le> n" for m n
    using that
  proof (induction n arbitrary: m rule: nat_str.induct)
    case (1 n)
    show ?case
    proof (cases "m < 10")
      case True
      then show ?thesis by (subst (1 2) nat_str.simps) (simp add: Suc_le_eq)
    next
      case False
      then have "\<not> n < 10" using 1 by simp
      moreover have "length (nat_str (m div 10)) \<le> length (nat_str (n div 10))"
        using 1 \<open>\<not> n < 10\<close> by (simp add: div_le_mono)
      ultimately show ?thesis using False by (subst (1 2) nat_str.simps) simp
    qed
  qed
  show "length (truncate_output s) \<le> 8000 + 31 + length (nat_str (length s))"
    using m [of "length s - 8000" "length s"]
    by (auto simp: truncate_output_def OUTPUT_CHUNK_SIZE_def)
  show "length s \<le> 8000 \<Longrightarrow> truncate_output s = s"
    by (simp add: truncate_output_def OUTPUT_CHUNK_SIZE_def)
  show "8000 < length s \<Longrightarrow> prefix (take 4000 s) (truncate_output s) \<and> suffix (drop (length s - 4000) s) (truncate_output s)"
    by (auto simp: truncate_output_def OUTPUT_CHUNK_SIZE_def suffix_def)
qed

text \<open>
  A tool that the configuration switches off does nothing: no command runs, no service is
  called, and the call ends in an error result.
\<close>

theorem disabled_tool_inert:
  assumes "dget config ''tools'' = VDict toggles" and "\<not> truthy (dget_or toggles (tc_tool call) (VBool True))"
  shows "\<exists>r. execute_tool (new_tools config) shell broker call w = (Inr r, w) \<and> tr_exit_code r = 1 \<and> tr_stdout r = []"
  using assms by (auto simp: execute_tool_def new_tools_def tool_error_def Let_def)

theorem disabled_tool_inert_witness:
  "\<exists>r. execute_tool (new_tools (dict_of [(''tools'', VDict (dict_of [(''shell'', VBool False)]))]))
      (\<lambda>c t w. (Completed 0 [] [], Suc w)) None \<lparr>tc_tool = ''shell'', tc_args = [], tc_reason = None\<rparr> 0 = (Inr r, 0)"
proof -
  let ?c = "dict_of [(''tools'', VDict (dict_of [(''shell'', VBool False)]))]"
  have "dget ?c ''tools'' = VDict (dict_of [(''shell'', VBool False)])"
    and "\<not> truthy (dget_or (dict_of [(''shell'', VBool False)]) (tc_tool \<lparr>tc_tool = ''shell'', tc_args = [], tc_reason = None\<rparr>) (VBool True))"
    by code_simp+
  from disabled_tool_inert [OF this, of "\<lambda>c t w. (Completed 0 [] [], Suc w)" None 0] show ?thesis by blast
qed

text \<open>
  Whatever a command prints, the result of the shell tool holds at most 8031 characters and
  a decimal number of each stream; short output is unchanged, and of long output the first
  and the last 4000 characters are kept.
\<close>

theorem shell_output_bounded:
  assumes "shell command timeout w = (Completed status out err, w')"
    and "dget args ''command'' = VStr command" and "strip command \<noteq> []" and "shell_timeout args = Some timeout"
  shows "\<exists>r. execute_shell shell args w = (Inr r, w') \<and> tr_exit_code r = status
    \<and> length (tr_stdout r) \<le> 8031 + length (nat_str (length out))
    \<and> length (tr_stderr r) \<le> 8031 + length (nat_str (length err))
    \<and> (length out \<le> 8000 \<longrightarrow> tr_stdout r = out)
    \<and> (8000 < length out \<longrightarrow> prefix (take 4000 out) (tr_stdout r) \<and> suffix (drop (length out - 4000) out) (tr_stdout r))"
  using assms length_truncate_output [of out] length_truncate_output [of err]
  by (simp add: execute_shell_def)

theorem shell_output_bounded_witness:
  "\<exists>r. execute_shell (\<lambda>c t w. (Completed 3 c [], w)) (dict_of [(''command'', VStr ''ls'')]) () = (Inr r, ())
    \<and> tr_exit_code r = 3 \<and> tr_stdout r = ''ls''"
proof -
  let ?a = "dict_of [(''command'', VStr ''ls'')]"
  have a: "dget ?a ''command'' = VStr ''ls''" "strip ''ls'' \<noteq> []" "shell_timeout ?a = Some (FFin 60)"
    by code_simp+
  show ?thesis
    using shell_output_bounded [OF _ a, of "\<lambda>c t w. (Completed 3 c [], w)" "()" 3 "''ls''" "[]" "()"] by fastforce
qed

end
