(* ===== verification/IpAddr.thy ===== *)
theory IpAddr
  imports PyVal "HOL-Library.Word"
begin

text \<open>
  The part of Python's \<open>ipaddress\<close> the request broker uses: reading and printing
  addresses, IPv4-mapped IPv6 addresses, and the address blocks that are not public.
  An address keeps its width.
\<close>

section \<open>Addresses\<close>

datatype ip = V4 "32 word" | V6 "128 word" "string option"

definition octets :: "nat list \<Rightarrow> nat" where
  "octets bs = foldl (\<lambda>a b. 256 * a + b) 0 bs"

definition hextets :: "nat list \<Rightarrow> nat" where
  "hextets hs = foldl (\<lambda>a h. 65536 * a + h) 0 hs"

definition ip4 :: "nat \<Rightarrow> nat \<Rightarrow> nat \<Rightarrow> nat \<Rightarrow> 32 word" where
  "ip4 a b c d = word_of_nat (octets [a, b, c, d])"

definition ip6 :: "nat list \<Rightarrow> 128 word" where
  "ip6 hs = word_of_nat (hextets hs)"

section \<open>Reading\<close>

definition parse_octet :: "string \<Rightarrow> nat option" where
  "parse_octet s =
     (if s = [] \<or> \<not> list_all is_digit s \<or> length s > 3 \<or> (s \<noteq> ''0'' \<and> hd s = CHR ''0'')
         \<or> digits_val s > 255
      then None else Some (digits_val s))"

fun all_some :: "'a option list \<Rightarrow> 'a list option" where
  "all_some [] = Some []"
| "all_some (None # xs) = None"
| "all_some (Some x # xs) = map_option ((#) x) (all_some xs)"

definition parse_ip4 :: "string \<Rightarrow> 32 word option" where
  "parse_ip4 s =
     (case all_some (map parse_octet (split_on (CHR ''.'') s)) of
        Some [a, b, c, d] \<Rightarrow> Some (ip4 a b c d)
      | _ \<Rightarrow> None)"

definition hex_digit_val :: "char \<Rightarrow> nat option" where
  "hex_digit_val c =
     (if is_digit c then Some (code c - 48)
      else if 97 \<le> code c \<and> code c \<le> 102 then Some (code c - 87)
      else if 65 \<le> code c \<and> code c \<le> 70 then Some (code c - 55)
      else None)"

definition parse_hextet :: "string \<Rightarrow> nat option" where
  "parse_hextet s =
     (if s = [] \<or> length s > 4 then None
      else map_option (\<lambda>ds. foldl (\<lambda>a d. 16 * a + d) 0 ds) (all_some (map hex_digit_val s)))"

text \<open>The hextets written, with an IPv4 suffix spelled as its two hextets.\<close>

definition v6_parts :: "string \<Rightarrow> (nat option \<times> bool) list option" where
  "v6_parts s =
     (let parts = split_on (CHR '':'') s; read = (\<lambda>p. (parse_hextet p, p = []))
      in if length parts < 3 then None
         else if CHR ''.'' \<in> set (last parts) then
           (case parse_ip4 (last parts) of
              None \<Rightarrow> None
            | Some w \<Rightarrow> Some (map read (butlast parts)
                @ [(Some (unat w div 65536), False), (Some (unat w mod 65536), False)]))
         else Some (map read parts))"

text \<open>
  At most one \<open>::\<close> in the interior; an empty first or last part only next to it. The
  skipped hextets are zero.
\<close>

definition inner_gaps :: "(nat option \<times> bool) list \<Rightarrow> nat list" where
  "inner_gaps ps = filter (\<lambda>i. 1 \<le> i \<and> i < length ps - 1 \<and> snd (ps ! i)) [0..<length ps]"

definition assemble_v6 :: "(nat option \<times> bool) list \<Rightarrow> nat list option" where
  "assemble_v6 ps =
     (if length ps > 9 then None
      else (case inner_gaps ps of
        [] \<Rightarrow> if length ps \<noteq> 8 then None else all_some (map fst ps)
      | [i] \<Rightarrow>
          (let hi = i; lo = length ps - i - 1;
               hi' = (if snd (hd ps) then hi - 1 else hi);
               lo' = (if snd (last ps) then lo - 1 else lo)
           in if (snd (hd ps) \<and> hi' \<noteq> 0) \<or> (snd (last ps) \<and> lo' \<noteq> 0) \<or> hi' + lo' \<ge> 8 then None
              else (case (all_some (map fst (take hi' ps)),
                          all_some (map fst (drop (length ps - lo') ps))) of
                      (Some a, Some b) \<Rightarrow> Some (a @ List.replicate (8 - (hi' + lo')) 0 @ b)
                    | _ \<Rightarrow> None))
      | _ \<Rightarrow> None))"

definition parse_ip6 :: "string \<Rightarrow> ip option" where
  "parse_ip6 s =
     (let addr = before (CHR ''%'') s; scoped = (CHR ''%'' \<in> set s); scope = after (CHR ''%'') s
      in if CHR ''/'' \<in> set s \<or> (scoped \<and> (scope = [] \<or> CHR ''%'' \<in> set scope)) then None
         else (case v6_parts addr of
                 None \<Rightarrow> None
               | Some ps \<Rightarrow>
                   (case assemble_v6 ps of
                      None \<Rightarrow> None
                    | Some hs \<Rightarrow> Some (V6 (ip6 hs) (if scoped then Some scope else None)))))"

text \<open>\<open>ipaddress.ip_address(text)\<close>; \<open>None\<close> for its \<open>ValueError\<close>.\<close>

definition ip_address :: "string \<Rightarrow> ip option" where
  "ip_address s = (case parse_ip4 s of Some w \<Rightarrow> Some (V4 w) | None \<Rightarrow> parse_ip6 s)"

section \<open>Printing\<close>

fun hex_str :: "nat \<Rightarrow> string" where
  "hex_str n = (if n < 16 then [hex_digit n] else hex_str (n div 16) @ [hex_digit (n mod 16)])"

declare hex_str.simps [simp del]

definition ip4_str :: "32 word \<Rightarrow> string" where
  "ip4_str w =
     join ''.'' (map (\<lambda>k. nat_str (unat w div 256 ^ k mod 256)) [3, 2, 1, 0])"

definition zero_run :: "nat list \<Rightarrow> nat \<Rightarrow> nat" where
  "zero_run hs i = length (takeWhile (\<lambda>h. h = 0) (drop i hs))"

text \<open>The first of the longest runs of zero hextets.\<close>

definition best_run :: "nat list \<Rightarrow> nat \<times> nat" where
  "best_run hs =
     foldl (\<lambda>(s, l) i. if zero_run hs i > l then (i, zero_run hs i) else (s, l)) (0, 0) [0..<length hs]"

definition ip6_str :: "128 word \<Rightarrow> string" where
  "ip6_str w =
     (let hs = map (\<lambda>k. unat w div 65536 ^ k mod 65536) [7, 6, 5, 4, 3, 2, 1, 0];
          ts = map hex_str hs
      in case best_run hs of
           (start, len) \<Rightarrow>
             if len > 1 then
               join '':'' ((if start = 0 then [[]] else []) @ take start ts @ [[]]
                 @ (if start + len = 8 then [[]] else drop (start + len) ts))
             else join '':'' ts)"

fun ip_str :: "ip \<Rightarrow> string" where
  "ip_str (V4 w) = ip4_str w"
| "ip_str (V6 w scope) = ip6_str w @ (case scope of None \<Rightarrow> [] | Some z \<Rightarrow> ''%'' @ z)"

section \<open>Address blocks\<close>

definition in_net :: "('a :: len) word \<Rightarrow> 'a word \<times> nat \<Rightarrow> bool" where
  "in_net w net = (drop_bit (LENGTH('a) - snd net) w = drop_bit (LENGTH('a) - snd net) (fst net))"

definition v4_private :: "(32 word \<times> nat) list" where
  "v4_private =
     [(ip4 0 0 0 0, 8), (ip4 10 0 0 0, 8), (ip4 127 0 0 0, 8), (ip4 169 254 0 0, 16),
      (ip4 172 16 0 0, 12), (ip4 192 0 0 0, 24), (ip4 192 0 0 170, 31), (ip4 192 0 2 0, 24),
      (ip4 192 168 0 0, 16), (ip4 198 18 0 0, 15), (ip4 198 51 100 0, 24), (ip4 203 0 113 0, 24),
      (ip4 240 0 0 0, 4), (ip4 255 255 255 255, 32)]"

definition v4_exceptions :: "(32 word \<times> nat) list" where
  "v4_exceptions = [(ip4 192 0 0 9, 32), (ip4 192 0 0 10, 32)]"

definition v6_private :: "(128 word \<times> nat) list" where
  "v6_private =
     [(ip6 [0,0,0,0,0,0,0,1], 128), (ip6 [0,0,0,0,0,0,0,0], 128), (ip6 [0,0,0,0,0,0xFFFF,0,0], 96),
      (ip6 [0x64,0xFF9B,1,0,0,0,0,0], 48), (ip6 [0x100,0,0,0,0,0,0,0], 64),
      (ip6 [0x2001,0,0,0,0,0,0,0], 23), (ip6 [0x2001,0xDB8,0,0,0,0,0,0], 32),
      (ip6 [0x2002,0,0,0,0,0,0,0], 16), (ip6 [0xFC00,0,0,0,0,0,0,0], 7),
      (ip6 [0xFE80,0,0,0,0,0,0,0], 10)]"

definition v6_exceptions :: "(128 word \<times> nat) list" where
  "v6_exceptions =
     [(ip6 [0x2001,1,0,0,0,0,0,1], 128), (ip6 [0x2001,1,0,0,0,0,0,2], 128),
      (ip6 [0x2001,3,0,0,0,0,0,0], 32), (ip6 [0x2001,4,0x112,0,0,0,0,0], 48),
      (ip6 [0x2001,0x20,0,0,0,0,0,0], 28), (ip6 [0x2001,0x30,0,0,0,0,0,0], 28)]"

definition ipv4_mapped :: "128 word \<Rightarrow> 32 word option" where
  "ipv4_mapped w = (if drop_bit 32 w = 0xFFFF then Some (ucast w) else None)"

definition private4 :: "32 word \<Rightarrow> bool" where
  "private4 w = (list_ex (in_net w) v4_private \<and> \<not> list_ex (in_net w) v4_exceptions)"

fun is_private :: "ip \<Rightarrow> bool" where
  "is_private (V4 w) = private4 w"
| "is_private (V6 w _) =
     (case ipv4_mapped w of
        Some v \<Rightarrow> private4 v
      | None \<Rightarrow> list_ex (in_net w) v6_private \<and> \<not> list_ex (in_net w) v6_exceptions)"

fun is_loopback :: "ip \<Rightarrow> bool" where
  "is_loopback (V4 w) = in_net w (ip4 127 0 0 0, 8)"
| "is_loopback (V6 w _) = (w = 1)"

fun is_link_local :: "ip \<Rightarrow> bool" where
  "is_link_local (V4 w) = in_net w (ip4 169 254 0 0, 16)"
| "is_link_local (V6 w _) = in_net w (ip6 [0xFE80,0,0,0,0,0,0,0], 10)"

fun is_multicast :: "ip \<Rightarrow> bool" where
  "is_multicast (V4 w) = in_net w (ip4 224 0 0 0, 4)"
| "is_multicast (V6 w _) = in_net w (ip6 [0xFF00,0,0,0,0,0,0,0], 8)"

fun is_unspecified :: "ip \<Rightarrow> bool" where
  "is_unspecified (V4 w) = (w = 0)"
| "is_unspecified (V6 w _) = (w = 0)"

section \<open>What the broker asks of an address\<close>

text \<open>\<open>_normalize_public_ip\<close> and \<open>_is_blocked_public_ip\<close> of \<open>sandbox/broker.py\<close>\<close>

fun normalize_public_ip :: "ip \<Rightarrow> ip" where
  "normalize_public_ip (V4 w) = V4 w"
| "normalize_public_ip (V6 w z) = (case ipv4_mapped w of Some v \<Rightarrow> V4 v | None \<Rightarrow> V6 w z)"

definition is_blocked_public_ip :: "ip \<Rightarrow> bool" where
  "is_blocked_public_ip a =
     (is_private a \<or> is_loopback a \<or> is_link_local a \<or> is_multicast a \<or> is_unspecified a)"

unbundle bit_operations_syntax

section \<open>Facts\<close>

lemma in_net4:
  fixes w :: "32 word"
  shows "in_net w (n, p) \<longleftrightarrow> unat w div 2 ^ (32 - p) = unat n div 2 ^ (32 - p)"
proof -
  have d: "unat (drop_bit k v) = unat v div 2 ^ k" for k and v :: "32 word"
    unfolding unat_drop_bit_eq by (rule drop_bit_eq_div)
  show ?thesis by (simp add: in_net_def word_unat_eq_iff d)
qed

lemma octets_lt:
  assumes "a < 256" "b < 256" "c < 256" "d < 256"
  shows "octets [a, b, c, d] < 2 ^ 32"
  using assms by (simp add: octets_def)

text \<open>One more octet on the right.\<close>

definition pk :: "nat \<Rightarrow> nat \<Rightarrow> nat" where
  "pk x b = 256 * x + b"

lemma pk_div: "b < 256 \<Longrightarrow> pk x b div 256 = x"
  by (simp add: pk_def)

lemma digits_eq:
  fixes m :: nat
  assumes "p < m" "q < m"
  shows "m * x + p = m * y + q \<longleftrightarrow> x = y \<and> p = q"
proof
  assume eq: "m * x + p = m * y + q"
  have "x = (m * x + p) div m" using assms(1) by simp
  also have "\<dots> = (m * y + q) div m" by (simp only: eq)
  also have "\<dots> = y" using assms(2) by simp
  finally show "x = y \<and> p = q" using eq by simp
qed simp

lemma pk_eq: "b < 256 \<Longrightarrow> l < 256 \<Longrightarrow> pk x b = pk y l \<longleftrightarrow> x = y \<and> b = l"
  unfolding pk_def by (rule digits_eq)

lemma pk_small: "pk x b div 16 = 16 * x + b div 16" "pk x b div 2 = 128 * x + b div 2"
proof -
  have "(16 * (16 * x) + b) div 16 = 16 * x + b div 16" "(2 * (128 * x) + b) div 2 = 128 * x + b div 2"
    by (rule div_mult_self4, simp)+
  then show "pk x b div 16 = 16 * x + b div 16" "pk x b div 2 = 128 * x + b div 2"
    by (simp_all add: pk_def)
qed

lemma pk_eq_16: "b < 256 \<Longrightarrow> l < 256 \<Longrightarrow> pk x b div 16 = pk y l div 16 \<longleftrightarrow> x = y \<and> b div 16 = l div 16"
  unfolding pk_small by (rule digits_eq) simp_all

lemma pk_eq_2: "b < 256 \<Longrightarrow> l < 256 \<Longrightarrow> pk x b div 2 = pk y l div 2 \<longleftrightarrow> x = y \<and> b div 2 = l div 2"
  unfolding pk_small by (rule digits_eq) simp_all

lemma unat_ip4:
  assumes "a < 256" "b < 256" "c < 256" "d < 256"
  shows "unat (ip4 a b c d) = pk (pk (pk a b) c) d"
proof -
  have "unat (ip4 a b c d) = octets [a, b, c, d]"
    unfolding ip4_def using octets_lt [OF assms] by (simp add: unsigned_of_nat take_bit_nat_eq_self)
  then show ?thesis by (simp add: octets_def pk_def)
qed

lemma pk_shift:
  fixes x :: nat
  shows "x div 16777216 = x div 256 div 256 div 256" "x div 65536 = x div 256 div 256"
    "x div 1048576 = x div 256 div 256 div 16" "x div 131072 = x div 256 div 256 div 2"
    "x div 268435456 = x div 256 div 256 div 256 div 16"
  by (simp_all flip: div_mult2_eq)

definition v4_octets_blocked :: "nat \<Rightarrow> nat \<Rightarrow> nat \<Rightarrow> nat \<Rightarrow> bool" where
  "v4_octets_blocked a b c d =
     (a \<in> {0, 10, 127} \<or> 224 \<le> a \<or> (a = 169 \<and> b = 254) \<or> (a = 172 \<and> 16 \<le> b \<and> b < 32)
      \<or> (a = 192 \<and> b = 0 \<and> c = 0 \<and> d \<noteq> 9 \<and> d \<noteq> 10) \<or> (a = 192 \<and> b = 0 \<and> c = 2)
      \<or> (a = 192 \<and> b = 168) \<or> (a = 198 \<and> 18 \<le> b \<and> b \<le> 19) \<or> (a = 198 \<and> b = 51 \<and> c = 100)
      \<or> (a = 203 \<and> b = 0 \<and> c = 113))"

lemma octets_zero:
  assumes "a < 256" "b < 256" "c < 256" "d < 256"
  shows "ip4 a b c d = 0 \<longleftrightarrow> a = 0 \<and> b = 0 \<and> c = 0 \<and> d = 0"
proof -
  have "ip4 a b c d = 0 \<longleftrightarrow> unat (ip4 a b c d) = 0" by (simp add: unat_eq_0)
  then show ?thesis by (simp add: unat_ip4 [OF assms] pk_def)
qed

lemma in_net_octets:
  assumes "a < 256" "b < 256" "c < 256" "d < 256"
  shows "k < 256 \<Longrightarrow> in_net (ip4 a b c d) (ip4 k 0 0 0, 8) \<longleftrightarrow> a = k"
    and "k < 256 \<Longrightarrow> in_net (ip4 a b c d) (ip4 k 0 0 0, 4) \<longleftrightarrow> a div 16 = k div 16"
    and "k < 256 \<Longrightarrow> l < 256 \<Longrightarrow> in_net (ip4 a b c d) (ip4 k l 0 0, 16) \<longleftrightarrow> a = k \<and> b = l"
    and "k < 256 \<Longrightarrow> l < 256 \<Longrightarrow>
      in_net (ip4 a b c d) (ip4 k l 0 0, 12) \<longleftrightarrow> a = k \<and> b div 16 = l div 16"
    and "k < 256 \<Longrightarrow> l < 256 \<Longrightarrow>
      in_net (ip4 a b c d) (ip4 k l 0 0, 15) \<longleftrightarrow> a = k \<and> b div 2 = l div 2"
    and "k < 256 \<Longrightarrow> l < 256 \<Longrightarrow> m < 256 \<Longrightarrow>
      in_net (ip4 a b c d) (ip4 k l m 0, 24) \<longleftrightarrow> a = k \<and> b = l \<and> c = m"
    and "k < 256 \<Longrightarrow> l < 256 \<Longrightarrow> m < 256 \<Longrightarrow> n < 256 \<Longrightarrow>
      in_net (ip4 a b c d) (ip4 k l m n, 32) \<longleftrightarrow> a = k \<and> b = l \<and> c = m \<and> d = n"
    and "k < 256 \<Longrightarrow> l < 256 \<Longrightarrow> m < 256 \<Longrightarrow> n < 256 \<Longrightarrow>
      in_net (ip4 a b c d) (ip4 k l m n, 31) \<longleftrightarrow> a = k \<and> b = l \<and> c = m \<and> d div 2 = n div 2"
  using assms
  by (simp_all add: in_net4 unat_ip4 pk_shift pk_div pk_eq pk_eq_16 pk_eq_2)

lemma private4_octets:
  assumes "a < 256" "b < 256" "c < 256" "d < 256"
  shows "is_blocked_public_ip (V4 (ip4 a b c d)) = v4_octets_blocked a b c d"
proof -
  have *: "b div 16 = 1 \<longleftrightarrow> 16 \<le> b \<and> b < 32" "b div 2 = 9 \<longleftrightarrow> 18 \<le> b \<and> b \<le> 19"
    "a div 16 = 14 \<longleftrightarrow> 224 \<le> a \<and> a < 240" "a div 16 = 15 \<longleftrightarrow> 240 \<le> a"
    "d div 2 = 85 \<longleftrightarrow> 170 \<le> d \<and> d \<le> 171"
    using assms by (intro iffI conjI; linarith)+
  have p: "private4 (ip4 a b c d) \<longleftrightarrow>
      (a = 0 \<or> a = 10 \<or> a = 127 \<or> (a = 169 \<and> b = 254) \<or> (a = 172 \<and> b div 16 = 1)
       \<or> (a = 192 \<and> b = 0 \<and> c = 0) \<or> (a = 192 \<and> b = 0 \<and> c = 0 \<and> d div 2 = 85)
       \<or> (a = 192 \<and> b = 0 \<and> c = 2) \<or> (a = 192 \<and> b = 168) \<or> (a = 198 \<and> b div 2 = 9)
       \<or> (a = 198 \<and> b = 51 \<and> c = 100) \<or> (a = 203 \<and> b = 0 \<and> c = 113) \<or> a div 16 = 15
       \<or> (a = 255 \<and> b = 255 \<and> c = 255 \<and> d = 255))
      \<and> \<not> (a = 192 \<and> b = 0 \<and> c = 0 \<and> d = 9) \<and> \<not> (a = 192 \<and> b = 0 \<and> c = 0 \<and> d = 10)"
    using assms by (simp add: private4_def v4_private_def v4_exceptions_def in_net_octets)
  have q: "is_blocked_public_ip (V4 (ip4 a b c d)) \<longleftrightarrow>
      private4 (ip4 a b c d) \<or> a = 127 \<or> (a = 169 \<and> b = 254) \<or> a div 16 = 14
      \<or> (a = 0 \<and> b = 0 \<and> c = 0 \<and> d = 0)"
    using assms by (simp add: is_blocked_public_ip_def in_net_octets octets_zero)
  have top: "240 \<le> a \<or> 224 \<le> a \<and> a < 240 \<longleftrightarrow> 224 \<le> a" by linarith
  consider "a \<in> {0, 10, 127}" | "a = 169" | "a = 172" | "a = 192" | "a = 198" | "a = 203" | "a = 255"
    | "a \<notin> {0, 10, 127, 169, 172, 192, 198, 203, 255}" by blast
  then show ?thesis
  proof cases
    case 8
    then show ?thesis unfolding q p * v4_octets_blocked_def using top by simp
  qed (unfold q p * v4_octets_blocked_def, auto)
qed

lemma mapped_parts:
  fixes h :: "128 word" and w :: "32 word"
  shows "drop_bit 32 (push_bit 32 h OR ucast w) = take_bit 96 h" "ucast (push_bit 32 h OR ucast w) = w"
  by (rule bit_word_eqI, auto simp: bit_simps dest: bit_imp_le_length)+

lemma ipv4_mapped_mapped: "ipv4_mapped (push_bit 32 0xFFFF OR ucast w) = Some w" for w :: "32 word"
proof -
  have "take_bit 96 (0xFFFF :: 128 word) = 0xFFFF" by simp
  then show ?thesis unfolding ipv4_mapped_def mapped_parts by simp
qed

section \<open>Properties\<close>

text \<open>
  C35. The broker's address check is the published list of non-public IPv4 ranges, octet by
  octet, and an IPv4-mapped IPv6 address is judged as the IPv4 address it carries: no
  notation of a blocked IPv4 address gets past the check.
\<close>

theorem blocked_addresses:
  assumes "a < 256" "b < 256" "c < 256" "d < 256"
  shows "is_blocked_public_ip (normalize_public_ip (V4 (ip4 a b c d))) = v4_octets_blocked a b c d
    \<and> is_blocked_public_ip (normalize_public_ip
        (V6 (push_bit 32 0xFFFF OR ucast (ip4 a b c d)) z)) = v4_octets_blocked a b c d"
proof -
  have "normalize_public_ip (V6 (push_bit 32 0xFFFF OR ucast (ip4 a b c d)) z) = V4 (ip4 a b c d)"
    unfolding normalize_public_ip.simps ipv4_mapped_mapped by simp
  then show ?thesis by (simp only: normalize_public_ip.simps(1) private4_octets [OF assms])
qed

theorem blocked_addresses_witness:
  "is_blocked_public_ip (normalize_public_ip (V4 (ip4 169 254 169 254)))
    \<and> \<not> is_blocked_public_ip (normalize_public_ip (V6 (push_bit 32 0xFFFF OR ucast (ip4 8 8 8 8)) None))"
  using blocked_addresses [of 169 254 169 254 None] blocked_addresses [of 8 8 8 8 None]
  by (simp only: v4_octets_blocked_def) simp

end
