(* ===== verification/Url.thy ===== *)
theory Url
  imports IpAddr
begin

text \<open>
  The part of Python's \<open>urllib.parse\<close> and \<open>fnmatch\<close> the request broker uses: splitting and
  joining URLs, host names, query strings, and shell patterns.
\<close>

section \<open>Splitting\<close>

record url_parts =
  u_scheme :: string
  u_netloc :: string
  u_path :: string
  u_params :: string
  u_query :: string
  u_fragment :: string

definition uses_relative :: "string list" where
  "uses_relative =
     [[], ''ftp'', ''http'', ''gopher'', ''nntp'', ''imap'', ''wais'', ''file'', ''https'', ''shttp'',
      ''mms'', ''prospero'', ''rtsp'', ''rtsps'', ''rtspu'', ''sftp'', ''svn'', ''svn+ssh'', ''ws'', ''wss'']"

definition uses_netloc :: "string list" where
  "uses_netloc =
     [[], ''ftp'', ''http'', ''gopher'', ''nntp'', ''telnet'', ''imap'', ''wais'', ''file'', ''mms'',
      ''https'', ''shttp'', ''snews'', ''prospero'', ''rtsp'', ''rtsps'', ''rtspu'', ''rsync'', ''svn'',
      ''svn+ssh'', ''sftp'', ''nfs'', ''git'', ''git+ssh'', ''ws'', ''wss'']"

definition uses_params :: "string list" where
  "uses_params =
     [[], ''ftp'', ''hdl'', ''prospero'', ''http'', ''imap'', ''https'', ''shttp'', ''rtsp'', ''rtsps'',
      ''rtspu'', ''sip'', ''sips'', ''mms'', ''sftp'', ''tel'']"

definition scheme_char :: "char \<Rightarrow> bool" where
  "scheme_char c = (is_alnum c \<or> c = CHR ''+'' \<or> c = CHR ''-'' \<or> c = CHR ''.'')"

text \<open>Leading C0 controls and spaces go, and every tab, return and newline.\<close>

definition clean_url :: "string \<Rightarrow> string" where
  "clean_url url = filter (\<lambda>c. code c \<notin> {9, 10, 13}) (dropWhile (\<lambda>c. code c \<le> 32) url)"

definition split_scheme :: "string \<Rightarrow> string \<Rightarrow> string \<times> string" where
  "split_scheme dflt url =
     (let s = before (CHR '':'') url
      in if CHR '':'' \<in> set url \<and> s \<noteq> [] \<and> is_alpha (hd s) \<and> list_all scheme_char s
         then (lower s, after (CHR '':'') url) else (dflt, url))"

definition split_netloc :: "string \<Rightarrow> string \<times> string" where
  "split_netloc s =
     (let ok = (\<lambda>c. c \<noteq> CHR ''/'' \<and> c \<noteq> CHR ''?'' \<and> c \<noteq> CHR ''#'')
      in (takeWhile ok s, dropWhile ok s))"

definition is_hex :: "char \<Rightarrow> bool" where
  "is_hex c = (hex_digit_val c \<noteq> None)"

definition bracketed_host_ok :: "string \<Rightarrow> bool" where
  "bracketed_host_ok host =
     (if prefix ''v'' host then
        (let hs = takeWhile is_hex (tl host); r = dropWhile is_hex (tl host)
         in hs \<noteq> [] \<and> length r \<ge> 2 \<and> hd r = CHR ''.'')
      else (case ip_address host of Some (V6 _ _) \<Rightarrow> True | _ \<Rightarrow> False))"

definition netloc_ok :: "string \<Rightarrow> bool" where
  "netloc_ok netloc =
     ((CHR ''['' \<in> set netloc) = (CHR '']'' \<in> set netloc)
      \<and> (CHR ''['' \<in> set netloc \<longrightarrow>
          bracketed_host_ok (before (CHR '']'') (after (CHR ''['') netloc))))"

text \<open>\<open>urlsplit(url, scheme)\<close>; the parameters stay in the path.\<close>

definition urlsplit :: "string \<Rightarrow> string \<Rightarrow> url_parts res" where
  "urlsplit dflt url0 =
     (case split_scheme dflt (clean_url url0) of
        (scheme, rest) \<Rightarrow>
          (let slashes = prefix ''//'' rest;
               nl = (if slashes then split_netloc (drop 2 rest) else ([], rest));
               url1 = snd nl;
               url2 = before (CHR ''#'') url1
           in bind_res (ensure (netloc_ok (fst nl)) ValueError ''Invalid IPv6 URL'') (\<lambda>_.
                Inr \<lparr>u_scheme = scheme, u_netloc = fst nl, u_path = before (CHR ''?'') url2,
                     u_params = [], u_query = after (CHR ''?'') url2,
                     u_fragment = after (CHR ''#'') url1\<rparr>)))"

text \<open>The parameters of the last segment of the path.\<close>

definition split_params :: "string \<Rightarrow> string \<times> string" where
  "split_params path =
     (let last_seg = after_last (CHR ''/'') path;
          dir = take (length path - length last_seg) path
      in if CHR '';'' \<in> set last_seg
         then (dir @ before (CHR '';'') last_seg, after (CHR '';'') last_seg) else (path, []))"

definition urlparse_from :: "string \<Rightarrow> string \<Rightarrow> url_parts res" where
  "urlparse_from dflt url =
     bind_res (urlsplit dflt url) (\<lambda>p.
       if u_scheme p \<in> set uses_params \<and> CHR '';'' \<in> set (u_path p)
       then Inr (p\<lparr>u_path := fst (split_params (u_path p)), u_params := snd (split_params (u_path p))\<rparr>)
       else Inr p)"

definition urlparse :: "string \<Rightarrow> url_parts res" where
  "urlparse url = urlparse_from [] url"

text \<open>\<open>ParseResult.hostname\<close>: \<open>None\<close> when there is no host.\<close>

definition hostname :: "url_parts \<Rightarrow> string option" where
  "hostname p =
     (let hostinfo = after_last (CHR ''@'') (u_netloc p);
          host = (if CHR ''['' \<in> set hostinfo
                  then before (CHR '']'') (after (CHR ''['') hostinfo)
                  else before (CHR '':'') hostinfo)
      in if host = [] then None
         else Some (lower (before (CHR ''%'') host)
                    @ (if CHR ''%'' \<in> set host then CHR ''%'' # after (CHR ''%'') host else [])))"

section \<open>Joining\<close>

definition urlunsplit :: "string \<Rightarrow> string \<Rightarrow> string \<Rightarrow> string \<Rightarrow> string \<Rightarrow> string" where
  "urlunsplit scheme netloc path query fragment =
     (let u1 = (if netloc \<noteq> [] \<or> (scheme \<noteq> [] \<and> scheme \<in> set uses_netloc) \<or> take 2 path = ''//''
                then ''//'' @ netloc @ (if path \<noteq> [] \<and> take 1 path \<noteq> ''/'' then ''/'' @ path else path)
                else path);
          u2 = (if scheme \<noteq> [] then scheme @ '':'' @ u1 else u1);
          u3 = (if query \<noteq> [] then u2 @ ''?'' @ query else u2)
      in if fragment \<noteq> [] then u3 @ ''#'' @ fragment else u3)"

definition urlunparse :: "url_parts \<Rightarrow> string" where
  "urlunparse p =
     urlunsplit (u_scheme p) (u_netloc p)
       (if u_params p \<noteq> [] then u_path p @ '';'' @ u_params p else u_path p)
       (u_query p) (u_fragment p)"

definition resolve_segment :: "string list \<Rightarrow> string \<Rightarrow> string list" where
  "resolve_segment acc seg =
     (if seg = ''..'' then butlast acc else if seg = ''.'' then acc else acc @ [seg])"

definition join_segments :: "string \<Rightarrow> string \<Rightarrow> string list" where
  "join_segments bpath path =
     (let parts0 = split_on (CHR ''/'') bpath;
          base_parts = (if last parts0 \<noteq> [] then butlast parts0 else parts0)
      in if take 1 path = ''/'' then split_on (CHR ''/'') path
         else
           (let segs = base_parts @ split_on (CHR ''/'') path
            in if length segs < 2 then segs
               else [hd segs] @ filter (\<lambda>s. s \<noteq> []) (butlast (tl segs)) @ [last segs]))"

definition resolve_path :: "string \<Rightarrow> string \<Rightarrow> string" where
  "resolve_path bpath path =
     (let segs = join_segments bpath path;
          resolved = foldl resolve_segment [] segs;
          resolved' = (if last segs \<in> {''.'', ''..''} then resolved @ [[]] else resolved);
          joined = join ''/'' resolved'
      in if joined = [] then ''/'' else joined)"

definition urljoin :: "string \<Rightarrow> string \<Rightarrow> string res" where
  "urljoin base url =
     (if base = [] then Inr url
      else if url = [] then Inr base
      else
        bind_res (urlparse_from [] base) (\<lambda>b.
        bind_res (urlparse_from (u_scheme b) url) (\<lambda>p.
          if u_scheme p \<noteq> u_scheme b \<or> u_scheme p \<notin> set uses_relative then Inr url
          else if u_scheme p \<in> set uses_netloc \<and> u_netloc p \<noteq> [] then Inr (urlunparse p)
          else
            (let netloc = (if u_scheme p \<in> set uses_netloc then u_netloc b else u_netloc p)
             in if u_path p = [] \<and> u_params p = [] then
                  Inr (urlunparse (p\<lparr>u_netloc := netloc, u_path := u_path b, u_params := u_params b,
                         u_query := (if u_query p = [] then u_query b else u_query p)\<rparr>))
                else Inr (urlunparse (p\<lparr>u_netloc := netloc,
                            u_path := resolve_path (u_path b) (u_path p)\<rparr>))))))"

section \<open>Query strings\<close>

definition always_safe :: "char \<Rightarrow> bool" where
  "always_safe c = (is_alnum c \<or> c = CHR ''_'' \<or> c = CHR ''.'' \<or> c = CHR ''-'' \<or> c = CHR ''~'')"

definition utf8_bytes :: "char \<Rightarrow> nat list" where
  "utf8_bytes c = (if code c < 128 then [code c] else [192 + code c div 64, 128 + code c mod 64])"

definition pct :: "nat \<Rightarrow> string" where
  "pct n = CHR ''%'' # upper (hex2 n)"

definition quote_plus_char :: "char \<Rightarrow> string" where
  "quote_plus_char c =
     (if c = CHR '' '' then ''+'' else if always_safe c then [c] else concat (map pct (utf8_bytes c)))"

definition quote_plus :: "string \<Rightarrow> string" where
  "quote_plus s = concat (map quote_plus_char s)"

fun pct_bytes :: "string \<Rightarrow> nat list" where
  "pct_bytes [] = []"
| "pct_bytes (c # cs) =
     (if c = CHR ''%'' then
        (case cs of
           a # b # r \<Rightarrow>
             (case (hex_digit_val a, hex_digit_val b) of
                (Some x, Some y) \<Rightarrow> (16 * x + y) # pct_bytes r
              | _ \<Rightarrow> code c # pct_bytes cs)
         | _ \<Rightarrow> code c # pct_bytes cs)
      else code c # pct_bytes cs)"

definition outside_text :: "'a res" where
  "outside_text = raise (OtherException ''outside the model'') ''character above U+00FF''"

text \<open>
  UTF-8 with replacement: what does not decode to a character of the model's strings is
  reported as such.
\<close>

fun utf8_decode :: "nat list \<Rightarrow> string res" where
  "utf8_decode [] = Inr []"
| "utf8_decode (n # ns) =
     (if n < 128 then bind_res (utf8_decode ns) (\<lambda>s. Inr (char_of n # s))
      else
        (case ns of
           k # r \<Rightarrow>
             if (n = 194 \<or> n = 195) \<and> 128 \<le> k \<and> k < 192
             then bind_res (utf8_decode r) (\<lambda>s. Inr (char_of (64 * (n - 192) + (k - 128)) # s))
             else outside_text
         | [] \<Rightarrow> outside_text))"

function unquote :: "string \<Rightarrow> string res" where
  "unquote s =
     (let run = takeWhile (\<lambda>c. code c < 128) s; rest = dropWhile (\<lambda>c. code c < 128) s
      in bind_res (utf8_decode (pct_bytes run)) (\<lambda>a.
           case rest of
             [] \<Rightarrow> Inr a
           | c # cs \<Rightarrow> bind_res (unquote cs) (\<lambda>b. Inr (a @ c # b))))"
  by pat_completeness auto
termination
proof (relation "measure length")
  fix s :: string and x xa xb x21 x22
  assume "xa = dropWhile (\<lambda>c. code c < 128) s" and "xa = x21 # x22"
  then have "Suc (length x22) \<le> length s"
    using length_dropWhile_le [of "\<lambda>c. code c < 128" s] by (metis length_Cons)
  then show "(x22, s) \<in> measure length" by simp
qed simp

declare unquote.simps [simp del]

definition unquote_plus :: "string \<Rightarrow> string res" where
  "unquote_plus s = unquote (map (\<lambda>c. if c = CHR ''+'' then CHR '' '' else c) s)"

text \<open>\<open>parse_qsl(query, keep_blank_values=True)\<close> and \<open>urlencode(pairs)\<close>\<close>

definition parse_qsl :: "string \<Rightarrow> (string \<times> string) list res" where
  "parse_qsl query =
     map_res (\<lambda>nv. bind_res (unquote_plus (before (CHR ''='') nv)) (\<lambda>n.
                   bind_res (unquote_plus (after (CHR ''='') nv)) (\<lambda>v. Inr (n, v))))
       (filter (\<lambda>nv. nv \<noteq> []) (split_on (CHR ''&'') query))"

definition urlencode :: "(string \<times> string) list \<Rightarrow> string" where
  "urlencode kvs = join ''&'' (map (\<lambda>(k, v). quote_plus k @ ''='' @ quote_plus v) kvs)"

section \<open>Shell patterns\<close>

text \<open>
  \<open>fnmatch\<close> on POSIX, as documented: \<open>*\<close>, \<open>?\<close>, \<open>[seq]\<close> and \<open>[!seq]\<close> with ranges; an
  opening bracket without its closing one is an ordinary character.
\<close>

datatype pat_item = PStar | PAny | PLit char | PSet bool "(char \<times> char) list"

fun set_ranges :: "string \<Rightarrow> (char \<times> char) list" where
  "set_ranges (a # b # c # r) =
     (if b = CHR ''-'' then (a, c) # set_ranges r else (a, a) # set_ranges (b # c # r))"
| "set_ranges (a # r) = (a, a) # set_ranges r"
| "set_ranges [] = []"

text \<open>What stands in the brackets, and what follows: a first \<open>]\<close> belongs to the set.\<close>

definition bracket_body :: "string \<Rightarrow> (string \<times> string) option" where
  "bracket_body s =
     (let bang = (s \<noteq> [] \<and> hd s = CHR ''!'');
          k = (if bang then 1 else 0);
          k' = (if drop k s \<noteq> [] \<and> hd (drop k s) = CHR '']'' then Suc k else k);
          body = take k' s @ takeWhile (\<lambda>c. c \<noteq> CHR '']'') (drop k' s)
      in if CHR '']'' \<in> set (drop k' s) then Some (body, drop (Suc (length body)) s) else None)"

fun parse_pat :: "nat \<Rightarrow> string \<Rightarrow> pat_item list" where
  "parse_pat 0 s = []"
| "parse_pat (Suc n) [] = []"
| "parse_pat (Suc n) (c # cs) =
     (if c = CHR ''*'' then PStar # parse_pat n cs
      else if c = CHR ''?'' then PAny # parse_pat n cs
      else if c = CHR ''['' then
        (case bracket_body cs of
           None \<Rightarrow> PLit c # parse_pat n cs
         | Some (body, r) \<Rightarrow>
             (if body \<noteq> [] \<and> hd body = CHR ''!'' then PSet True (set_ranges (tl body))
              else PSet False (set_ranges body)) # parse_pat n r)
      else PLit c # parse_pat n cs)"

definition in_ranges :: "char \<Rightarrow> (char \<times> char) list \<Rightarrow> bool" where
  "in_ranges c rs = list_ex (\<lambda>(a, b). code a \<le> code c \<and> code c \<le> code b) rs"

fun item_matches :: "pat_item \<Rightarrow> char \<Rightarrow> bool" where
  "item_matches PStar c = True"
| "item_matches PAny c = True"
| "item_matches (PLit d) c = (c = d)"
| "item_matches (PSet neg rs) c = (in_ranges c rs \<noteq> neg)"

fun glob :: "pat_item list \<Rightarrow> string \<Rightarrow> bool" where
  "glob [] s = (s = [])"
| "glob (PStar # ps) s = (glob ps s \<or> (case s of [] \<Rightarrow> False | _ # cs \<Rightarrow> glob (PStar # ps) cs))"
| "glob (p # ps) [] = False"
| "glob (p # ps) (c # cs) = (item_matches p c \<and> glob ps cs)"

definition fnmatch :: "string \<Rightarrow> string \<Rightarrow> bool" where
  "fnmatch name pat = glob (parse_pat (length pat) pat) name"

text \<open>A pattern without metacharacters matches exactly itself; a star matches anything.\<close>

definition plain_pattern :: "string \<Rightarrow> bool" where
  "plain_pattern pat = list_all (\<lambda>c. c \<notin> {CHR ''*'', CHR ''?'', CHR ''[''}) pat"

lemma parse_pat_plain:
  "plain_pattern pat \<Longrightarrow> length pat \<le> n \<Longrightarrow> parse_pat n pat = map PLit pat"
  by (induction pat arbitrary: n) (case_tac n; auto simp: plain_pattern_def)+

lemma glob_literals: "glob (map PLit pat @ ps) s \<longleftrightarrow> (\<exists>r. s = pat @ r \<and> glob ps r)"
proof (induction pat arbitrary: s)
  case (Cons c pat)
  then show ?case by (cases s) auto
qed simp

lemma glob_star: "glob [PStar] s"
  by (induction s) auto

lemma fnmatch_plain: "plain_pattern pat \<Longrightarrow> fnmatch name pat \<longleftrightarrow> name = pat"
  using glob_literals [of pat "[]" name] by (simp add: fnmatch_def parse_pat_plain)

lemma parse_pat_prefix:
  "plain_pattern pat \<Longrightarrow> parse_pat (length pat + n) (pat @ s) = map PLit pat @ parse_pat n s"
  by (induction pat) (auto simp: plain_pattern_def)

lemma fnmatch_prefix: "plain_pattern pat \<Longrightarrow> fnmatch name (pat @ ''*'') \<longleftrightarrow> prefix pat name"
proof -
  assume "plain_pattern pat"
  then have "parse_pat (length (pat @ ''*'')) (pat @ ''*'') = map PLit pat @ [PStar]"
    using parse_pat_prefix [of pat 1 "''*''"] by simp
  then show ?thesis
    using glob_literals [of pat "[PStar]" name] glob_star by (metis fnmatch_def prefix_def)
qed

lemma fnmatch_any: "fnmatch name ''*''"
  using fnmatch_prefix [of "[]"] by (simp add: plain_pattern_def)

end
