(* ===== verification/BrokerPolicy.thy ===== *)
theory BrokerPolicy
  imports HostServices Url
begin

text \<open>
  The policies of \<open>sandbox/broker.py\<close>: the normalised record, its rate limiter, the check
  of a request against it, the injection of its credential, and the redaction of
  credentials from what leaves the broker.
\<close>

section \<open>Conversions\<close>

definition to_positive_int :: "pyval \<Rightarrow> int option res" where
  "to_positive_int v =
     (if is_VBool v then Inr None
      else bind_res (int_or_none v) (\<lambda>parsed.
        Inr (case parsed of
               None \<Rightarrow> None
             | Some n \<Rightarrow> if n \<le> 0 then None else Some n)))"

text \<open>
  \<open>float(value)\<close> fails with \<open>TypeError\<close> or \<open>ValueError\<close>. The \<open>OverflowError\<close> of an
  integer beyond the float range does not exist for the model's exact floats.
\<close>

definition to_positive_float :: "pyval \<Rightarrow> pyfloat option" where
  "to_positive_float v =
     (if is_VBool v then None
      else (case py_float v of
              Inl _ \<Rightarrow> None
            | Inr f \<Rightarrow> if float_le_zero f then None else Some f))"

definition to_int :: "pyval \<Rightarrow> int option res" where
  "to_int v = (if is_VBool v then Inr None else int_or_none v)"

section \<open>Policy records\<close>

record policy =
  po_name :: string
  po_auth_type :: string
  po_token :: string
  po_header_name :: string
  po_allowed_hosts :: "string list"
  po_allowed_methods :: "string list"
  po_allowed_paths :: "string list"
  po_allowed_schemes :: "string list"
  po_protected_headers :: "string list"
  po_default_headers :: "(string \<times> string) list"
  po_max_response_bytes :: int
  po_rate_limit_requests :: "int option"
  po_rate_limit_period :: "pyfloat option"

text \<open>The items of a non-empty list of non-blank strings, stripped.\<close>

definition nonblank :: "pyval \<Rightarrow> bool" where
  "nonblank v = (case v of VStr s \<Rightarrow> strip s \<noteq> [] | _ \<Rightarrow> False)"

fun the_str :: "pyval \<Rightarrow> string" where
  "the_str (VStr s) = s" | "the_str _ = []"

definition string_items :: "pyval \<Rightarrow> string list option" where
  "string_items v =
     (case v of
        VList items \<Rightarrow>
          if items \<noteq> [] \<and> list_all nonblank items then Some (map (\<lambda>i. strip (the_str i)) items)
          else None
      | _ \<Rightarrow> None)"

definition as_string_tuple :: "pyval \<Rightarrow> string \<Rightarrow> string list res" where
  "as_string_tuple v field_name =
     (case string_items v of
        Some items \<Rightarrow> Inr items
      | None \<Rightarrow> raise ValueError (field_name @ '' must be a non-empty list of strings''))"

definition normalize_allowed_scheme :: "string \<Rightarrow> string res" where
  "normalize_allowed_scheme raw =
     (if lower raw \<in> {''http'', ''https''} then Inr (lower raw)
      else raise ValueError ''allowed_schemes must contain only: http, https'')"

definition ensure_protected_header :: "string list \<Rightarrow> string option \<Rightarrow> string list" where
  "ensure_protected_header headers required =
     (case required of
        None \<Rightarrow> headers
      | Some h \<Rightarrow> if lower h \<in> set (map lower headers) then headers else headers @ [h])"

text \<open>A dictionary whose keys and values are all strings.\<close>

fun str_pair :: "pykey \<times> pyval \<Rightarrow> (string \<times> string) option" where
  "str_pair (KStr k, VStr v) = Some (k, v)" | "str_pair _ = None"

definition string_map :: "pydict \<Rightarrow> (string \<times> string) list option" where
  "string_map d = all_some (map str_pair d)"

definition from_record :: "string \<Rightarrow> pydict \<Rightarrow> policy res" where
  "from_record name record =
     bind_res (case dget record ''auth_type'' of
                 VStr s \<Rightarrow> Inr (lower (strip s))
               | _ \<Rightarrow> raise ValueError ''auth_type must be a string'') (\<lambda>auth_type.
     bind_res (ensure (auth_type \<in> {''bearer'', ''header''}) ValueError
                 ''auth_type must be one of: bearer, header'') (\<lambda>_.
     bind_res (case dget record ''token'' of
                 VStr t \<Rightarrow> if t = [] then raise ValueError ''token must be a non-empty string'' else Inr t
               | _ \<Rightarrow> raise ValueError ''token must be a non-empty string'') (\<lambda>token.
     bind_res (as_string_tuple (dget record ''allowed_hosts'') ''allowed_hosts'') (\<lambda>hosts.
     bind_res (as_string_tuple (dget record ''allowed_methods'') ''allowed_methods'') (\<lambda>methods.
     bind_res (as_string_tuple (dget record ''allowed_paths'') ''allowed_paths'') (\<lambda>paths.
     bind_res (as_string_tuple (dget_or record ''allowed_schemes'' (VList [VStr ''https'']))
                 ''allowed_schemes'') (\<lambda>schemes0.
     bind_res (map_res normalize_allowed_scheme schemes0) (\<lambda>schemes.
     bind_res (as_string_tuple (dget record ''protected_headers'') ''protected_headers'') (\<lambda>protected0.
     bind_res (case dget record ''default_headers'' of
                 VDict d \<Rightarrow>
                   (case string_map d of
                      Some m \<Rightarrow> Inr m
                    | None \<Rightarrow> raise ValueError
                        ''default_headers must be a mapping of string keys and values'')
               | _ \<Rightarrow> raise ValueError ''default_headers must be a mapping'') (\<lambda>defaults.
     bind_res (to_positive_int (dget record ''max_response_bytes'')) (\<lambda>max_bytes.
     bind_res (case max_bytes of
                 Some n \<Rightarrow> Inr n
               | None \<Rightarrow> raise ValueError ''max_response_bytes must be a positive integer'') (\<lambda>max_n.
     bind_res (case dget record ''rate_limit'' of
                 VDict rl \<Rightarrow> bind_res (to_positive_int (dget rl ''requests'')) (\<lambda>r.
                               Inr (r, to_positive_float (dget rl ''per_seconds'')))
               | _ \<Rightarrow> Inr (None, None)) (\<lambda>rate.
     bind_res (if auth_type = ''header'' then
                 (case dget_or record ''header_name'' (VStr ''Authorization'') of
                    VStr h \<Rightarrow> if strip h = []
                      then raise ValueError ''header_name must be a non-empty string for header auth''
                      else Inr (strip h)
                  | _ \<Rightarrow> raise ValueError ''header_name must be a non-empty string for header auth'')
               else Inr ''Authorization'') (\<lambda>header_name.
       Inr \<lparr>po_name = name, po_auth_type = auth_type, po_token = token,
            po_header_name = header_name, po_allowed_hosts = hosts,
            po_allowed_methods = map upper methods, po_allowed_paths = paths,
            po_allowed_schemes = schemes,
            po_protected_headers =
              ensure_protected_header protected0
                (if auth_type = ''header'' then Some header_name else None),
            po_default_headers = defaults, po_max_response_bytes = max_n,
            po_rate_limit_requests = fst rate, po_rate_limit_period = snd rate\<rparr>))))))))))))))"

section \<open>Rate limiting\<close>

text \<open>
  The clock is the argument \<open>now\<close>, in seconds. A refill rate that is not a finite number
  (a period of \<open>.nan\<close> in the policy) makes \<open>min(capacity, nan)\<close> the capacity.
\<close>

record token_bucket =
  tb_capacity :: rat
  tb_tokens :: rat
  tb_refill_rate :: pyfloat
  tb_last_refill :: rat

definition refill_rate :: "int \<Rightarrow> pyfloat \<Rightarrow> pyfloat" where
  "refill_rate n per_seconds =
     (case per_seconds of
        FFin p \<Rightarrow> FFin (of_int n / p)
      | FNan \<Rightarrow> FNan
      | _ \<Rightarrow> FFin 0)"

definition new_bucket :: "int \<Rightarrow> pyfloat \<Rightarrow> rat \<Rightarrow> token_bucket" where
  "new_bucket n per_seconds now =
     \<lparr>tb_capacity = of_int n, tb_tokens = of_int n,
      tb_refill_rate = refill_rate n per_seconds, tb_last_refill = now\<rparr>"

definition refill :: "rat \<Rightarrow> token_bucket \<Rightarrow> token_bucket" where
  "refill now b =
     (let elapsed = now - tb_last_refill b
      in if elapsed > 0 then
           b\<lparr>tb_tokens := (case tb_refill_rate b of
                             FFin r \<Rightarrow> min (tb_capacity b) (tb_tokens b + elapsed * r)
                           | _ \<Rightarrow> tb_capacity b),
             tb_last_refill := now\<rparr>
         else b)"

definition consume :: "rat \<Rightarrow> token_bucket \<Rightarrow> bool \<times> token_bucket" where
  "consume now b =
     (let b' = refill now b
      in if tb_tokens b' < 1 then (False, b')
         else (True, b'\<lparr>tb_tokens := tb_tokens b' - 1\<rparr>))"

fun consume_all :: "rat list \<Rightarrow> token_bucket \<Rightarrow> bool list \<times> token_bucket" where
  "consume_all [] b = ([], b)"
| "consume_all (now # ts) b =
     (case consume now b of (g, b') \<Rightarrow> case consume_all ts b' of (gs, b'') \<Rightarrow> (g # gs, b''))"

section \<open>Validation of a request\<close>

datatype verdict = Allow | Deny string

definition str_list_repr :: "string list \<Rightarrow> string" where
  "str_list_repr xs = py_repr (VList (map VStr xs))"

text \<open>The first request header that is protected, by its protected spelling (the last one
  listed under that lower-case name).\<close>

definition protected_name :: "string list \<Rightarrow> string \<Rightarrow> string option" where
  "protected_name protected header =
     map_of (rev (map (\<lambda>n. (lower n, n)) protected)) (lower header)"

fun first_protected :: "string list \<Rightarrow> (string \<times> string) list \<Rightarrow> string option" where
  "first_protected protected [] = None"
| "first_protected protected ((h, v) # hs) =
     (case protected_name protected h of
        Some canonical \<Rightarrow> Some canonical
      | None \<Rightarrow> first_protected protected hs)"

definition host_of :: "url_parts \<Rightarrow> string" where
  "host_of p = (case hostname p of Some h \<Rightarrow> h | None \<Rightarrow> [])"

definition path_of :: "url_parts \<Rightarrow> string" where
  "path_of p = (if u_path p = [] then ''/'' else u_path p)"

definition validate :: "policy \<Rightarrow> string \<Rightarrow> string \<Rightarrow> (string \<times> string) list \<Rightarrow> verdict res" where
  "validate po meth url headers =
     bind_res (urlparse url) (\<lambda>parsed.
       let scheme = lower (u_scheme parsed); method_upper = upper meth;
           host = host_of parsed; path = path_of parsed;
           for_integration = '' for integration '' @ quoted (po_name po)
       in if scheme \<notin> set (po_allowed_schemes po) then
            Inr (Deny (''scheme '' @ (if scheme = [] then ''<none>'' else scheme)
              @ '' not in allowed_schemes '' @ str_list_repr (po_allowed_schemes po) @ for_integration))
          else if method_upper \<notin> set (po_allowed_methods po) then
            Inr (Deny (''method '' @ method_upper @ '' not in allowed_methods ''
              @ str_list_repr (po_allowed_methods po) @ for_integration))
          else if \<not> list_ex (fnmatch host) (po_allowed_hosts po) then
            Inr (Deny (''host '' @ host @ '' not in allowed_hosts'' @ for_integration))
          else if \<not> list_ex (fnmatch path) (po_allowed_paths po) then
            Inr (Deny (''path '' @ path @ '' not matched by allowed_paths ''
              @ str_list_repr (po_allowed_paths po) @ for_integration))
          else (case first_protected (po_protected_headers po) headers of
                  Some canonical \<Rightarrow>
                    Inr (Deny (''header '' @ quoted canonical @ '' is protected'' @ for_integration))
                | None \<Rightarrow> Inr Allow))"

definition deny :: "string \<Rightarrow> string \<Rightarrow> string \<Rightarrow> string \<Rightarrow> pydict" where
  "deny integration meth url reason =
     dict_of [(''success'', VBool False), (''error'', VStr ''policy_denied''), (''reason'', VStr reason),
              (''integration'', VStr integration), (''requested_method'', VStr (upper meth)),
              (''requested_url'', VStr url)]"

text \<open>\<open>_validate_or_deny\<close>: nothing, or the reply that denies.\<close>

definition validate_or_deny ::
    "policy \<Rightarrow> string \<Rightarrow> string \<Rightarrow> string \<Rightarrow> (string \<times> string) list \<Rightarrow> pydict option res" where
  "validate_or_deny po integration meth url headers =
     bind_res (validate po meth url headers) (\<lambda>v.
       Inr (case v of
              Allow \<Rightarrow> None
            | Deny reason \<Rightarrow>
                Some (deny integration meth url (if reason = [] then ''policy denied'' else reason))))"

section \<open>Injecting the credential\<close>

definition merge_headers ::
    "(string \<times> string) list \<Rightarrow> (string \<times> string) list \<Rightarrow> (string \<times> string) list" where
  "merge_headers hs hs' = foldl (\<lambda>acc (k, v). AList.update k v acc) hs hs'"

definition inject ::
    "policy \<Rightarrow> (string \<times> string) list \<Rightarrow> string \<Rightarrow> (string \<times> string) list \<times> string" where
  "inject po headers url =
     (let final = merge_headers (merge_headers [] (po_default_headers po)) headers
      in if po_auth_type po = ''bearer'' then
           (AList.update ''Authorization'' (''Bearer '' @ po_token po) final, url)
         else if po_auth_type po = ''header'' then
           (AList.update (po_header_name po) (po_token po) final, url)
         else (final, url))"

section \<open>Redaction\<close>

text \<open>
  The tokens are tried from the longest to the shortest. Python leaves the order of tokens
  of one length open (it comes from a set); the model takes the order of appearance.
\<close>

fun token_at :: "pykey \<Rightarrow> pyval \<Rightarrow> string list" where
  "token_at (KStr k) (VStr s) = (if k = ''token'' \<and> s \<noteq> [] then [s] else [])"
| "token_at _ _ = []"

fun collect_tokens :: "pyval \<Rightarrow> string list" where
  "collect_tokens (VDict d) =
     concat (map (\<lambda>p. token_at (fst p) (snd p) @ collect_tokens (snd p)) d)"
| "collect_tokens (VList xs) = concat (map collect_tokens xs)"
| "collect_tokens _ = []"

definition credential_tokens :: "pydict \<Rightarrow> string list" where
  "credential_tokens credentials =
     rev (sort_key length (rev (remdups (collect_tokens (VDict credentials)))))"

definition redact_string :: "string list \<Rightarrow> string \<Rightarrow> string" where
  "redact_string tokens s = foldl (\<lambda>acc t. replace t ''[REDACTED]'' acc) s tokens"

fun redact_key :: "string list \<Rightarrow> pykey \<Rightarrow> pykey" where
  "redact_key tokens (KStr s) = KStr (redact_string tokens s)"
| "redact_key tokens k = k"

fun redact_value :: "string list \<Rightarrow> pyval \<Rightarrow> pyval" where
  "redact_value tokens (VStr s) = VStr (redact_string tokens s)"
| "redact_value tokens (VDict d) =
     VDict (foldl (\<lambda>acc (k, v). AList.update k v acc) []
              (map (\<lambda>p. (redact_key tokens (fst p), redact_value tokens (snd p))) d))"
| "redact_value tokens (VList xs) = VList (map (redact_value tokens) xs)"
| "redact_value tokens v = v"

text \<open>Without tokens the value is returned as it is.\<close>

definition redact :: "string list \<Rightarrow> pyval \<Rightarrow> pyval" where
  "redact tokens v = (if tokens = [] then v else redact_value tokens v)"

section \<open>Facts: rate limiting\<close>

lemma refill_bounds:
  assumes "tb_refill_rate b = FFin r" and "0 \<le> r"
  shows "tb_tokens (refill now b) \<le> tb_tokens b + r * (tb_last_refill (refill now b) - tb_last_refill b)"
    and "0 \<le> tb_capacity b \<Longrightarrow> 0 \<le> tb_tokens b \<Longrightarrow> 0 \<le> tb_tokens (refill now b)"
    and "tb_last_refill b \<le> tb_last_refill (refill now b)"
    and "tb_last_refill (refill now b) \<le> max (tb_last_refill b) now"
    and "tb_refill_rate (refill now b) = FFin r" and "tb_capacity (refill now b) = tb_capacity b"
  using assms by (auto simp: refill_def Let_def mult.commute)

definition grants :: "bool list \<Rightarrow> nat" where
  "grants gs = length (filter (\<lambda>g. g) gs)"

lemma consume_bounds:
  assumes "tb_refill_rate b = FFin r" and "0 \<le> r" and "0 \<le> tb_capacity b" and "0 \<le> tb_tokens b"
    and "consume now b = (g, b')"
  shows "(if g then 1 else 0) + tb_tokens b'
      \<le> tb_tokens b + r * (tb_last_refill b' - tb_last_refill b)"
    and "0 \<le> tb_tokens b'" and "tb_last_refill b \<le> tb_last_refill b'"
    and "tb_last_refill b' \<le> max (tb_last_refill b) now"
    and "tb_refill_rate b' = FFin r" and "tb_capacity b' = tb_capacity b"
  using refill_bounds [OF assms(1,2), of now] assms(3-5)
  by (auto simp: consume_def Let_def split: if_splits)

lemma consume_all_bounds:
  assumes "tb_refill_rate b = FFin r" and "0 \<le> r" and "0 \<le> tb_capacity b" and "0 \<le> tb_tokens b"
    and "consume_all ts b = (gs, b')" and "list_all (\<lambda>t. t \<le> T) ts" and "tb_last_refill b \<le> T"
  shows "of_nat (grants gs) \<le> tb_tokens b + r * (T - tb_last_refill b)"
  using assms
proof (induction ts arbitrary: b gs)
  case Nil
  have "0 \<le> r * (T - tb_last_refill b)"
    using Nil.prems(2,7) by (intro mult_nonneg_nonneg) simp_all
  with Nil show ?case by (simp add: grants_def)
next
  case (Cons t ts)
  obtain g b1 where c: "consume t b = (g, b1)" by fastforce
  obtain gs1 where a: "consume_all ts b1 = (gs1, b')" "gs = g # gs1"
    using Cons.prems(5) c by (auto split: prod.splits)
  note cb = consume_bounds [OF Cons.prems(1-4) c]
  have "of_nat (grants gs1) \<le> tb_tokens b1 + r * (T - tb_last_refill b1)"
    using Cons.prems(2,3,6,7) cb a(1) by (intro Cons.IH) auto
  moreover have "of_nat (grants gs) = (if g then 1 else 0) + (of_nat (grants gs1) :: rat)"
    by (simp add: a(2) grants_def)
  ultimately show ?case using cb(1) by (simp add: algebra_simps split: if_splits)
qed

section \<open>Facts: validation\<close>

lemma protected_name_None:
  "protected_name ps h = None \<longleftrightarrow> lower h \<notin> lower ` set ps"
  by (auto simp: protected_name_def map_of_eq_None_iff image_iff)

lemma first_protected_None:
  "first_protected ps hs = None \<longleftrightarrow> (\<forall>(h, v) \<in> set hs. lower h \<notin> lower ` set ps)"
  by (induction hs) (auto simp: protected_name_None split: option.splits)

lemma validate_Allow:
  "validate po meth url headers = Inr Allow \<longleftrightarrow>
    (\<exists>p. urlparse url = Inr p \<and> lower (u_scheme p) \<in> set (po_allowed_schemes po)
      \<and> upper meth \<in> set (po_allowed_methods po)
      \<and> (\<exists>pat \<in> set (po_allowed_hosts po). fnmatch (host_of p) pat)
      \<and> (\<exists>pat \<in> set (po_allowed_paths po). fnmatch (path_of p) pat)
      \<and> (\<forall>(h, v) \<in> set headers. lower h \<notin> lower ` set (po_protected_headers po)))"
  by (auto simp: validate_def bind_res_eq_Inr Let_def list_ex_iff simp flip: first_protected_None
      split: option.splits)

lemma validate_or_deny_cases:
  obtains (error) e where "validate po meth url headers = Inl e"
      "validate_or_deny po i meth url headers = Inl e"
    | (allow) "validate po meth url headers = Inr Allow"
      "validate_or_deny po i meth url headers = Inr None"
    | (denied) r where "validate_or_deny po i meth url headers = Inr (Some (deny i meth url r))"
      "validate po meth url headers \<noteq> Inr Allow"
proof (cases "validate po meth url headers")
  case (Inl e)
  then show thesis by (intro error) (simp_all add: validate_or_deny_def)
next
  case (Inr v)
  then show thesis by (cases v) (auto simp: validate_or_deny_def intro: allow denied)
qed

lemma validate_or_deny_None:
  "validate_or_deny po i meth url headers = Inr None \<longleftrightarrow> validate po meth url headers = Inr Allow"
  by (cases rule: validate_or_deny_cases [of po meth url headers i]) auto

lemma validate_or_deny_Some:
  assumes "validate_or_deny po i meth url headers = Inr (Some d)"
  shows "\<exists>r. d = deny i meth url r"
  using assms by (cases rule: validate_or_deny_cases [of po meth url headers i]) auto

lemma ensure_protected_header_mem: "lower h \<in> lower ` set (ensure_protected_header hs (Some h))"
  by (cases "lower h \<in> lower ` set hs") (auto simp: ensure_protected_header_def)

lemma from_record_header:
  assumes "from_record name record = Inr po" and "po_auth_type po = ''header''"
  shows "lower (po_header_name po) \<in> lower ` set (po_protected_headers po)"
  using assms by (auto simp: from_record_def bind_res_eq_Inr ensure_protected_header_mem)

lemma from_record_auth:
  assumes "from_record name record = Inr po"
  shows "po_auth_type po \<in> {''bearer'', ''header''} \<and> po_name po = name \<and> 0 < po_max_response_bytes po"
proof -
  have "(case x of Some n \<Rightarrow> Inr n | None \<Rightarrow> raise k m) = Inr y \<longleftrightarrow> x = Some y" for x :: "int option" and k m y
    by (cases x) auto
  then have "po_auth_type po \<in> {''bearer'', ''header''} \<and> po_name po = name
      \<and> to_positive_int (dget record ''max_response_bytes'') = Inr (Some (po_max_response_bytes po))"
    using assms by (auto simp: from_record_def bind_res_eq_Inr)
  then show ?thesis
    by (auto simp: to_positive_int_def bind_res_eq_Inr split: option.splits if_splits)
qed

lemma map_of_merge: "map_of (merge_headers hs hs') k = (case map_of (rev hs') k of Some v \<Rightarrow> Some v | None \<Rightarrow> map_of hs k)"
  by (induction hs' arbitrary: hs)
    (auto simp: merge_headers_def update_conv' map_add_def split: option.splits)

section \<open>Facts: redaction\<close>

lemma redact_string_introduces_nothing:
  "plain_token u \<Longrightarrow> [] \<notin> set ts \<Longrightarrow> sublist u (redact_string ts s) \<Longrightarrow> sublist u s"
proof (induction ts arbitrary: s)
  case (Cons t ts)
  have "sublist u (redact_string ts (replace t ''[REDACTED]'' s))"
    using Cons.prems(3) by (simp add: redact_string_def)
  then have "sublist u (replace t ''[REDACTED]'' s)"
    using Cons.IH [OF Cons.prems(1)] Cons.prems(2) by simp
  moreover have "t \<noteq> []" using Cons.prems(2) by auto
  ultimately show ?case
    using replace_introduces_nothing [OF Cons.prems(1)] by blast
qed (simp add: redact_string_def)

lemma redact_string_removes:
  "plain_token u \<Longrightarrow> [] \<notin> set ts \<Longrightarrow> u \<in> set ts \<Longrightarrow> \<not> sublist u (redact_string ts s)"
proof (induction ts arbitrary: s)
  case (Cons t ts)
  show ?case
  proof (cases "u = t")
    case True
    have "\<not> sublist u (replace t ''[REDACTED]'' s)"
      using Cons.prems(1) True by (simp add: replace_removes)
    then show ?thesis
      using redact_string_introduces_nothing [OF Cons.prems(1), of ts "replace t ''[REDACTED]'' s"]
        Cons.prems(2) by (auto simp: redact_string_def)
  next
    case False
    then show ?thesis using Cons by (simp add: redact_string_def)
  qed
qed simp

lemma set_update_list:
  "set (foldl (\<lambda>acc (k, v). AList.update k v acc) acc ps) \<subseteq> set acc \<union> set ps"
proof (induction ps arbitrary: acc)
  case (Cons p ps)
  obtain k v where p: "p = (k, v)" by (cases p)
  have "set (AList.update k v acc) \<subseteq> insert (k, v) (set acc)"
    by (induction acc) auto
  then show ?case using Cons.IH [of "AList.update k v acc"] by (auto simp: p)
qed simp

lemma redact_value_strings:
  "x \<in> set (val_strings (redact_value ts v)) \<Longrightarrow> \<exists>s. x = redact_string ts s"
proof (induction v arbitrary: x rule: redact_value.induct)
  case (2 ts d)
  let ?ps = "map (\<lambda>p. (redact_key ts (fst p), redact_value ts (snd p))) d"
  obtain k w where kw: "(k, w) \<in> set (foldl (\<lambda>acc (k, v). AList.update k v acc) [] ?ps)"
    "x \<in> set (key_strings k) \<or> x \<in> set (val_strings w)"
    using "2.prems" by auto
  then obtain p where p: "p \<in> set d" "k = redact_key ts (fst p)" "w = redact_value ts (snd p)"
    using set_update_list [of "[]" ?ps] by auto
  show ?case
    using kw(2)
  proof
    assume "x \<in> set (key_strings k)"
    then show ?thesis using p(2) by (cases "fst p") auto
  next
    assume "x \<in> set (val_strings w)"
    then show ?thesis using "2.IH" [OF p(1)] p(3) by simp
  qed
qed auto

lemma credential_tokens_nonempty: "[] \<notin> set (credential_tokens c)"
proof -
  have "[] \<notin> set (collect_tokens v)" for v
  proof (induction v rule: collect_tokens.induct)
    case (1 d)
    have "[] \<notin> set (token_at k w)" for k w
      by (cases "(k, w)" rule: token_at.cases) auto
    with 1 show ?case by auto
  qed auto
  then show ?thesis by (simp add: credential_tokens_def del: collect_tokens.simps)
qed

lemma redact_clean:
  assumes "plain_token t" and "t \<in> set (credential_tokens c)"
    and "x \<in> set (val_strings (redact (credential_tokens c) v))"
  shows "\<not> sublist t x"
proof -
  have "credential_tokens c \<noteq> []" using assms(2) by auto
  then obtain s where "x = redact_string (credential_tokens c) s"
    using assms(3) redact_value_strings [of x "credential_tokens c" v] by (auto simp: redact_def)
  then show ?thesis
    using redact_string_removes [OF assms(1) credential_tokens_nonempty assms(2)] by blast
qed

text \<open>A bucket never holds more than its capacity, whatever happened before.\<close>

lemma consume_capacity:
  assumes "tb_refill_rate b = FFin r" and "0 \<le> r" and "0 \<le> tb_capacity b" and "0 \<le> tb_tokens b"
    and "tb_tokens b \<le> tb_capacity b"
  shows "tb_tokens (refill now b) \<le> tb_capacity b" and "tb_tokens (snd (consume now b)) \<le> tb_capacity b"
  using assms by (auto simp: consume_def refill_def Let_def)

lemma consume_all_capacity:
  assumes "tb_refill_rate b = FFin r" and "0 \<le> r" and "0 \<le> tb_capacity b" and "0 \<le> tb_tokens b"
    and "tb_tokens b \<le> tb_capacity b"
  shows "tb_refill_rate (snd (consume_all us b)) = FFin r \<and> tb_capacity (snd (consume_all us b)) = tb_capacity b
    \<and> 0 \<le> tb_tokens (snd (consume_all us b)) \<and> tb_tokens (snd (consume_all us b)) \<le> tb_capacity b"
  using assms
proof (induction us arbitrary: b)
  case (Cons now us)
  obtain g b1 where c: "consume now b = (g, b1)" by fastforce
  note b1 = consume_bounds [OF Cons.prems(1-4) c] consume_capacity [OF Cons.prems, of now]
  have "tb_tokens b1 \<le> tb_capacity b1" using b1 c by simp
  from Cons.IH [OF b1(5) Cons.prems(2) _ b1(2) this] b1(6) Cons.prems(3) show ?case
    by (auto simp: c split: prod.splits)
qed simp

lemma consume_refilled: "consume now (refill now b) = consume now b"
  by (auto simp: consume_def refill_def Let_def)

text \<open>A window of readings that starts at \<open>t1\<close>, from any bucket within its capacity.\<close>

lemma window_bound:
  assumes "tb_refill_rate b = FFin r" and "0 \<le> r" and "0 \<le> tb_capacity b" and "0 \<le> tb_tokens b"
    and "tb_tokens b \<le> tb_capacity b" and "list_all (\<lambda>t. t \<le> T) ts" and "t1 \<le> T"
  shows "of_nat (grants (fst (consume_all (t1 # ts) b))) \<le> tb_capacity b + r * (T - t1)"
proof -
  define b1 where "b1 = refill t1 b"
  define U where "U = max T (tb_last_refill b1)"
  note b1 = refill_bounds [OF assms(1,2), of t1, folded b1_def] consume_capacity(1) [OF assms(1-5), of t1, folded b1_def]
  have last: "t1 \<le> tb_last_refill b1" "tb_last_refill b1 = max t1 (tb_last_refill b)"
    by (auto simp: b1_def refill_def Let_def)
  obtain gs b' where r: "consume_all (t1 # ts) b1 = (gs, b')" by fastforce
  have same: "consume_all (t1 # ts) b1 = consume_all (t1 # ts) b"
    by (simp add: b1_def consume_refilled)
  have "list_all (\<lambda>t. t \<le> U) (t1 # ts)"
    using assms(6,7) by (auto simp: list_all_iff U_def)
  then have "of_nat (grants gs) \<le> tb_tokens b1 + r * (U - tb_last_refill b1)"
    using consume_all_bounds [OF b1(5) assms(2) _ b1(2) [OF assms(3,4)] r] b1(6) assms(3) by (simp add: U_def)
  also have "\<dots> \<le> tb_capacity b + r * (T - t1)"
    using b1(7) last(1) assms(7) by (intro add_mono mult_left_mono [OF _ assms(2)]) (auto simp: U_def)
  finally show ?thesis by (simp add: same [symmetric] r del: consume_all.simps)
qed

section \<open>Properties\<close>

text \<open>
  C31. The rate limiter keeps its promise in every window of any history: whatever came
  before, also after a long pause, a bucket of \<open>n\<close> requests per \<open>p\<close> seconds grants from a
  reading \<open>t1\<close> to a time \<open>T\<close> at most \<open>n\<close> requests plus \<open>n / p\<close> for each second of the window.
  This holds for any clock readings, also when they go back; from the start on the window may
  begin when the bucket is made.
\<close>

theorem rate_limit_bound:
  assumes "0 < n" and "0 < p" and "list_all (\<lambda>t. t \<le> T) ts"
  shows "(t1 \<le> T \<longrightarrow>
      of_nat (grants (fst (consume_all (t1 # ts) (snd (consume_all us (new_bucket n (FFin p) t0))))))
        \<le> of_int n + of_int n / p * (T - t1))
    \<and> (t0 \<le> T \<longrightarrow> of_nat (grants (fst (consume_all ts (new_bucket n (FFin p) t0)))) \<le> of_int n + of_int n / p * (T - t0))"
proof (intro conjI impI)
  let ?b = "new_bucket n (FFin p) t0"
  have b: "tb_refill_rate ?b = FFin (of_int n / p)" "0 \<le> of_int n / p" "tb_capacity ?b = of_int n"
      "tb_tokens ?b = of_int n" "tb_last_refill ?b = t0" "(0 :: rat) \<le> of_int n"
    using assms(1,2) by (simp_all add: new_bucket_def refill_rate_def)
  note h = consume_all_capacity [OF b(1,2), of us, unfolded b, OF b(6,6) order.refl]
  show "of_nat (grants (fst (consume_all (t1 # ts) (snd (consume_all us ?b))))) \<le> of_int n + of_int n / p * (T - t1)"
    if "t1 \<le> T"
    using window_bound [of "snd (consume_all us ?b)", OF _ b(2) _ _ _ assms(3) that] h b(6) by simp
  obtain gs b' where r: "consume_all ts ?b = (gs, b')" by fastforce
  show "of_nat (grants (fst (consume_all ts ?b))) \<le> of_int n + of_int n / p * (T - t0)" if "t0 \<le> T"
    using consume_all_bounds [OF b(1,2) _ _ r assms(3)] b that r by simp
qed

theorem rate_limit_bound_witness:
  "of_nat (grants (fst (consume_all [100, 100, 100, 100, 102] (snd (consume_all [0, 0, 0] (new_bucket 2 (FFin 4) 0))))))
    \<le> of_int 2 + of_int 2 / 4 * (102 - 100 :: rat)
    \<and> fst (consume_all [100, 100, 100, 100, 102] (snd (consume_all [0, 0, 0] (new_bucket 2 (FFin 4) 0))))
      = [True, True, False, False, True]
    \<and> of_nat (grants (fst (consume_all [0, 0, 0, 1, 5] (new_bucket 2 (FFin 4) 0))))
    \<le> of_int 2 + of_int 2 / 4 * (5 - 0 :: rat)"
proof (intro conjI)
  show "of_nat (grants (fst (consume_all [100, 100, 100, 100, 102] (snd (consume_all [0, 0, 0] (new_bucket 2 (FFin 4) 0))))))
      \<le> of_int 2 + of_int 2 / 4 * (102 - 100 :: rat)"
    by (rule rate_limit_bound [THEN conjunct1, rule_format]) simp_all
  show "of_nat (grants (fst (consume_all [0, 0, 0, 1, 5] (new_bucket 2 (FFin 4) 0))))
      \<le> of_int 2 + of_int 2 / 4 * (5 - 0 :: rat)"
    by (rule rate_limit_bound [THEN conjunct2, rule_format]) simp_all
  show "fst (consume_all [100, 100, 100, 100, 102] (snd (consume_all [0, 0, 0] (new_bucket 2 (FFin 4) 0))))
      = [True, True, False, False, True]"
    by (simp add: consume_def refill_def new_bucket_def refill_rate_def Let_def)
qed

text \<open>
  C26. With header authentication the model can neither set nor replace the credential's
  header: when the policy of a record accepts a request, no header of the model is that
  header under any capitalisation, the final headers carry exactly the token under it, and
  every other header the model chose arrives unchanged.
\<close>

theorem credential_header_protected:
  assumes "from_record name record = Inr po" and "po_auth_type po = ''header''"
    and "validate po meth url headers = Inr Allow" and "distinct (map fst headers)"
    and "inject po headers url = (final, url')"
  shows "url' = url \<and> map_of final (po_header_name po) = Some (po_token po)
    \<and> (\<forall>(h, v) \<in> set headers. lower h \<noteq> lower (po_header_name po) \<and> map_of final h = Some v)"
proof -
  have prot: "lower h \<notin> lower ` set (po_protected_headers po)" if "(h, v) \<in> set headers" for h v
    using assms(3) that by (auto simp: validate_Allow)
  then have neq: "lower h \<noteq> lower (po_header_name po)" if "(h, v) \<in> set headers" for h v
    using from_record_header [OF assms(1,2)] that by metis
  have final: "final = AList.update (po_header_name po) (po_token po)
      (merge_headers (merge_headers [] (po_default_headers po)) headers)" and "url' = url"
    using assms(2,5) by (auto simp: inject_def)
  have "map_of final h = Some v" if "(h, v) \<in> set headers" for h v
  proof -
    have "distinct (map fst (rev headers))" using assms(4) by (simp add: rev_map [symmetric])
    then have "map_of (rev headers) h = Some v" using that by simp
    moreover have "h \<noteq> po_header_name po" using neq [OF that] by auto
    ultimately show ?thesis by (simp add: final update_conv' map_of_merge)
  qed
  then show ?thesis
    using neq \<open>url' = url\<close> by (auto simp: final update_conv')
qed

definition sample_record :: pydict where
  "sample_record = dict_of
     [(''auth_type'', VStr ''header''), (''token'', VStr ''s3cr3t''), (''header_name'', VStr ''X-Key''),
      (''allowed_hosts'', VList [VStr ''api.x.com'']), (''allowed_methods'', VList [VStr ''get'']),
      (''allowed_paths'', VList [VStr ''/v1/*'']), (''protected_headers'', VList [VStr ''Authorization'']),
      (''default_headers'', VDict []), (''max_response_bytes'', VInt 100)]"

theorem credential_header_protected_witness:
  "\<exists>po. from_record ''x'' sample_record = Inr po
    \<and> validate po ''get'' ''https://api.x.com/v1/a'' [(''Accept'', ''*'')] = Inr Allow
    \<and> map_of (fst (inject po [(''Accept'', ''*'')] ''https://api.x.com/v1/a'')) ''X-Key'' = Some ''s3cr3t''"
proof -
  obtain po where po: "from_record ''x'' sample_record = Inr po"
      "po_auth_type po = ''header''" "po_header_name po = ''X-Key''" "po_token po = ''s3cr3t''"
      "validate po ''get'' ''https://api.x.com/v1/a'' [(''Accept'', ''*'')] = Inr Allow"
  proof -
    have "case from_record ''x'' sample_record of Inl _ \<Rightarrow> False
      | Inr po \<Rightarrow> po_auth_type po = ''header'' \<and> po_header_name po = ''X-Key'' \<and> po_token po = ''s3cr3t''
          \<and> validate po ''get'' ''https://api.x.com/v1/a'' [(''Accept'', ''*'')] = Inr Allow"
      by code_simp
    then show thesis using that by (auto split: sum.splits)
  qed
  show ?thesis
    using po credential_header_protected [OF po(1,2,5), of "fst (inject po [(''Accept'', ''*'')] ''https://api.x.com/v1/a'')"]
    by (cases "inject po [(''Accept'', ''*'')] ''https://api.x.com/v1/a''") fastforce
qed

end
