(* ===== verification/BrokerNet.thy ===== *)
theory BrokerNet
  imports BrokerPolicy
begin

text \<open>
  The network side of \<open>sandbox/broker.py\<close>: the address check of public URLs, one HTTP
  exchange, and the loop that follows redirects under a guard. The resolver, the HTTP
  client, the codecs and the clock are outside the repository: they are the fields of
  \<open>net\<close> and act on a state of their own.
\<close>

section \<open>The outside world\<close>

record request =
  rq_method :: string
  rq_url :: string
  rq_headers :: "(string \<times> string) list"
  rq_body :: "string option"

text \<open>
  A streamed response: the chunks \<open>iter_content\<close> yields and the exception it ends in, if
  any.
\<close>

record response =
  rs_status :: int
  rs_headers :: "(string \<times> string) list"
  rs_encoding :: "string option"
  rs_chunks :: "string list"
  rs_error :: "exn option"

text \<open>
  \<open>nt_dns\<close> gives the textual addresses of \<open>getaddrinfo\<close>, \<open>None\<close> for \<open>gaierror\<close>;
  \<open>nt_request\<close> is \<open>Session.request\<close> without redirects; \<open>nt_decode\<close> is \<open>bytes.decode\<close> with
  replacement, by encoding; \<open>nt_clock\<close> is \<open>time.monotonic\<close>.
\<close>

record 's net =
  nt_dns :: "string \<Rightarrow> 's \<Rightarrow> string list option res \<times> 's"
  nt_request :: "request \<Rightarrow> 's \<Rightarrow> response res \<times> 's"
  nt_decode :: "string \<Rightarrow> string \<Rightarrow> string res"
  nt_clock :: "'s \<Rightarrow> rat \<times> 's"

section \<open>The address check\<close>

definition PUBLIC_ALLOWED_SCHEMES :: "string list" where
  "PUBLIC_ALLOWED_SCHEMES = [''http'', ''https'']"

text \<open>The first resolved address that is blocked; addresses that do not parse are skipped.\<close>

fun first_blocked :: "string list \<Rightarrow> ip option" where
  "first_blocked [] = None"
| "first_blocked (a # as) =
     (case ip_address a of
        None \<Rightarrow> first_blocked as
      | Some addr \<Rightarrow>
          (let n = normalize_public_ip addr
           in if is_blocked_public_ip n then Some n else first_blocked as))"

definition ssrf_check :: "'s net \<Rightarrow> string \<Rightarrow> 's \<Rightarrow> verdict res \<times> 's" where
  "ssrf_check net url w =
     (case urlparse url of
        Inl e \<Rightarrow> (Inl e, w)
      | Inr parsed \<Rightarrow>
          (let scheme = lower (u_scheme parsed)
           in if scheme \<notin> set PUBLIC_ALLOWED_SCHEMES then
                (Inr (Deny (''unsupported URL scheme ''
                   @ quoted (if scheme = [] then ''<none>'' else scheme) @ '' for public URL policy'')), w)
              else
                (case hostname parsed of
                   None \<Rightarrow> (Inr (Deny ''DNS resolution failed for <unknown>''), w)
                 | Some host \<Rightarrow>
                     (case nt_dns net host w of
                        (Inl e, w') \<Rightarrow> (Inl e, w')
                      | (Inr None, w') \<Rightarrow> (Inr (Deny (''DNS resolution failed for '' @ host)), w')
                      | (Inr (Some addrs), w') \<Rightarrow>
                          (case first_blocked addrs of
                             Some a \<Rightarrow>
                               (Inr (Deny (''SSRF: '' @ host @ '' resolves to blocked address '' @ ip_str a)), w')
                           | None \<Rightarrow> (Inr Allow, w'))))))"

definition ssrf_or_deny ::
    "'s net \<Rightarrow> string \<Rightarrow> string \<Rightarrow> string \<Rightarrow> 's \<Rightarrow> pydict option res \<times> 's" where
  "ssrf_or_deny net integration meth url w =
     (case ssrf_check net url w of
        (Inl e, w') \<Rightarrow> (Inl e, w')
      | (Inr Allow, w') \<Rightarrow> (Inr None, w')
      | (Inr (Deny reason), w') \<Rightarrow>
          (Inr (Some (deny integration meth url (if reason = [] then ''SSRF denied'' else reason))), w'))"

section \<open>One exchange\<close>

text \<open>The loop over the chunks: what is kept, and whether it was cut.\<close>

fun read_chunks :: "int \<Rightarrow> string \<Rightarrow> string list \<Rightarrow> string \<times> bool" where
  "read_chunks max_bytes raw [] = (raw, False)"
| "read_chunks max_bytes raw (chunk # chunks) =
     (if chunk = [] then read_chunks max_bytes raw chunks
      else if int (length raw) + int (length chunk) > max_bytes then
        (let keep = max_bytes - int (length raw)
         in (if keep > 0 then raw @ take (nat keep) chunk else raw, True))
      else read_chunks max_bytes (raw @ chunk) chunks)"

definition request_failed :: "string \<Rightarrow> string \<Rightarrow> pydict" where
  "request_failed cls detail =
     dict_of [(''success'', VBool False), (''error'', VStr cls), (''detail'', VStr detail)]"

text \<open>\<open>except requests.RequestException\<close>: other exceptions pass.\<close>

definition catch_request_exception :: "pydict res \<Rightarrow> pydict res" where
  "catch_request_exception r =
     (case r of
        Inl (Exn (RequestException cls) msg) \<Rightarrow> Inr (request_failed cls msg)
      | _ \<Rightarrow> r)"

definition read_response_body :: "'s net \<Rightarrow> int \<Rightarrow> bool \<Rightarrow> response \<Rightarrow> pydict res" where
  "read_response_body net max_bytes decode_utf8 rs =
     (case read_chunks max_bytes [] (rs_chunks rs) of
        (raw, truncated) \<Rightarrow>
          (case (if truncated then None else rs_error rs) of
             Some e \<Rightarrow> Inl e
           | None \<Rightarrow>
               bind_res (nt_decode net
                   (if decode_utf8 then ''utf-8''
                    else case rs_encoding rs of None \<Rightarrow> ''utf-8''
                         | Some enc \<Rightarrow> if enc = [] then ''utf-8'' else enc) raw) (\<lambda>body_text.
                 Inr (dict_of
                   [(''success'', VBool True), (''status_code'', VInt (rs_status rs)),
                    (''headers'', VDict (dict_of (map (\<lambda>(k, v). (k, VStr v)) (rs_headers rs)))),
                    (''body'', VStr body_text), (''truncated'', VBool truncated)]))))"

definition execute ::
    "'s net \<Rightarrow> string \<Rightarrow> string \<Rightarrow> (string \<times> string) list \<Rightarrow> string option \<Rightarrow> int \<Rightarrow> bool \<Rightarrow> 's
      \<Rightarrow> pydict res \<times> 's" where
  "execute net meth url headers body max_bytes decode_utf8 w =
     (case nt_request net \<lparr>rq_method = meth, rq_url = url, rq_headers = headers, rq_body = body\<rparr> w of
        (Inl e, w') \<Rightarrow> (catch_request_exception (Inl e), w')
      | (Inr rs, w') \<Rightarrow>
          (catch_request_exception (read_response_body net max_bytes decode_utf8 rs), w'))"

section \<open>Redirects\<close>

definition MAX_REDIRECT_HOPS :: nat where
  "MAX_REDIRECT_HOPS = 5"

definition REDIRECT_STATUS_CODES :: "int list" where
  "REDIRECT_STATUS_CODES = [301, 302, 303, 307, 308]"

text \<open>The first header called \<open>location\<close> in any case decides.\<close>

fun location_of :: "pydict \<Rightarrow> string option" where
  "location_of [] = None"
| "location_of ((KStr k, v) # hs) =
     (if lower k \<noteq> ''location'' then location_of hs
      else (case v of VStr s \<Rightarrow> Some s | _ \<Rightarrow> None))"
| "location_of (_ # hs) = location_of hs"

definition redirect_target :: "string \<Rightarrow> int option \<Rightarrow> pydict \<Rightarrow> string option res" where
  "redirect_target base_url status_code result =
     (case status_code of
        None \<Rightarrow> Inr None
      | Some st \<Rightarrow>
          if st \<notin> set REDIRECT_STATUS_CODES then Inr None
          else (case dget result ''headers'' of
                  VDict headers \<Rightarrow>
                    (case location_of headers of
                       None \<Rightarrow> Inr None
                     | Some raw \<Rightarrow>
                         if strip raw = [] then Inr None
                         else bind_res (urljoin base_url (strip raw)) (\<lambda>u. Inr (Some u)))
                | _ \<Rightarrow> Inr None))"

type_synonym 's guard = "string \<Rightarrow> string \<Rightarrow> 's \<Rightarrow> pydict option res \<times> 's"

definition unsupported_redirect :: "string \<Rightarrow> int option \<Rightarrow> pydict" where
  "unsupported_redirect meth status =
     request_failed ''unsupported_redirect''
       (''redirect handling for non-GET methods is disabled (method='' @ meth @ '', status=''
        @ (case status of None \<Rightarrow> ''None'' | Some n \<Rightarrow> int_str n) @ '')'')"

definition too_many_redirects :: "string \<Rightarrow> pydict" where
  "too_many_redirects url =
     request_failed ''too_many_redirects'' (''redirect limit exceeded (5) for '' @ url)"

text \<open>What the loop does with a result: return, or go to the target of a redirect.\<close>

datatype exchange = Final "pydict res" | Redirect string

definition decide :: "string \<Rightarrow> string \<Rightarrow> pydict res \<Rightarrow> exchange" where
  "decide meth url r =
     (case r of
        Inl e \<Rightarrow> Final (Inl e)
      | Inr result \<Rightarrow>
          if dget result ''success'' = VBool False then Final (Inr result)
          else
            (case to_int (dget result ''status_code'') of
               Inl e \<Rightarrow> Final (Inl e)
             | Inr status \<Rightarrow>
                 (case redirect_target url status result of
                    Inl e \<Rightarrow> Final (Inl e)
                  | Inr None \<Rightarrow> Final (Inr result)
                  | Inr (Some next_url) \<Rightarrow>
                      if meth \<noteq> ''GET'' then Final (Inr (unsupported_redirect meth status))
                      else Redirect next_url)))"

text \<open>
  The loop of \<open>_execute_with_redirects\<close>; \<open>hops\<close> is what is left of the redirect limit and
  \<open>first_url\<close> the URL of the request, for the message.
\<close>

fun follow ::
    "'s net \<Rightarrow> 's guard option \<Rightarrow> string \<Rightarrow> (string \<times> string) list \<Rightarrow> string option \<Rightarrow> int \<Rightarrow> bool
      \<Rightarrow> string \<Rightarrow> nat \<Rightarrow> string \<Rightarrow> 's \<Rightarrow> pydict res \<times> 's" where
  "follow net guard meth headers body max_bytes decode_utf8 first_url hops url w =
     (case execute net meth url headers body max_bytes decode_utf8 w of
        (r, w1) \<Rightarrow>
          (case decide meth url r of
             Final x \<Rightarrow> (x, w1)
           | Redirect next_url \<Rightarrow>
               (case hops of
                  0 \<Rightarrow> (Inr (too_many_redirects first_url), w1)
                | Suc hops' \<Rightarrow>
                    (case (case guard of None \<Rightarrow> (Inr None, w1) | Some g \<Rightarrow> g next_url meth w1) of
                       (Inl e, w2) \<Rightarrow> (Inl e, w2)
                     | (Inr (Some denial), w2) \<Rightarrow> (Inr denial, w2)
                     | (Inr None, w2) \<Rightarrow>
                         follow net guard meth headers body max_bytes decode_utf8
                           first_url hops' next_url w2))))"

declare follow.simps [simp del]

definition execute_with_redirects ::
    "'s net \<Rightarrow> string \<Rightarrow> string \<Rightarrow> (string \<times> string) list \<Rightarrow> string option \<Rightarrow> int \<Rightarrow> 's guard option
      \<Rightarrow> bool \<Rightarrow> 's \<Rightarrow> pydict res \<times> 's" where
  "execute_with_redirects net meth url headers body max_bytes guard decode_utf8 w =
     follow net guard (upper meth) headers body max_bytes decode_utf8 url MAX_REDIRECT_HOPS url w"

definition policy_redirect_guard ::
    "policy \<Rightarrow> string \<Rightarrow> (string \<times> string) list \<Rightarrow> 's guard" where
  "policy_redirect_guard po integration headers url meth w =
     (validate_or_deny po integration meth url headers, w)"

definition public_redirect_guard ::
    "'s net \<Rightarrow> policy \<Rightarrow> string \<Rightarrow> (string \<times> string) list \<Rightarrow> bool \<Rightarrow> bool \<Rightarrow> 's guard" where
  "public_redirect_guard net po integration headers enforce_validation enforce_ssrf url meth w =
     (case (if enforce_validation then validate_or_deny po integration meth url headers else Inr None) of
        Inl e \<Rightarrow> (Inl e, w)
      | Inr (Some denial) \<Rightarrow> (Inr (Some denial), w)
      | Inr None \<Rightarrow>
          if enforce_ssrf then ssrf_or_deny net integration meth url w else (Inr None, w))"

section \<open>Facts: reading a body\<close>

text \<open>The loop keeps exactly the first \<open>max_bytes\<close> bytes of the stream.\<close>

lemma read_chunks_eq:
  assumes "int (length raw) \<le> max_bytes"
  shows "read_chunks max_bytes raw chunks =
    (take (nat max_bytes) (raw @ concat chunks), int (length (raw @ concat chunks)) > max_bytes)"
  using assms
proof (induction chunks arbitrary: raw)
  case (Cons c cs)
  show ?case
  proof (cases "int (length raw) + int (length c) > max_bytes")
    case True
    then have "c \<noteq> []" using Cons.prems by auto
    moreover have "take (nat max_bytes) (raw @ c @ concat cs)
        = (if max_bytes - int (length raw) > 0 then raw @ take (nat (max_bytes - int (length raw))) c else raw)"
    proof -
      have "length raw \<le> nat max_bytes" using Cons.prems by simp
      moreover have "nat max_bytes - length raw = nat (max_bytes - int (length raw))" by simp
      moreover have "nat (max_bytes - int (length raw)) \<le> length c" using True by simp
      ultimately show ?thesis by simp
    qed
    ultimately show ?thesis using True by (simp add: Let_def)
  next
    case False
    then show ?thesis using Cons.IH [of "raw @ c"] Cons.IH [of raw] Cons.prems by simp
  qed
qed simp

section \<open>Facts: the trace of an exchange\<close>

text \<open>A network that records its lookups and requests.\<close>

datatype net_event = Looked string "string list option" | Sent request

definition logged_net :: "'s net \<Rightarrow> (net_event list \<times> 's) net" where
  "logged_net net =
     \<lparr>nt_dns = (\<lambda>host w. case nt_dns net host (snd w) of
        (r, s) \<Rightarrow> (r, (fst w @ (case r of Inr x \<Rightarrow> [Looked host x] | Inl _ \<Rightarrow> []), s))),
      nt_request = (\<lambda>rq w. case nt_request net rq (snd w) of (r, s) \<Rightarrow> (r, (fst w @ [Sent rq], s))),
      nt_decode = nt_decode net,
      nt_clock = (\<lambda>w. case nt_clock net (snd w) of (t, s) \<Rightarrow> (t, (fst w, s)))\<rparr>"

fun is_sent :: "net_event \<Rightarrow> bool" where
  "is_sent (Sent _) = True" | "is_sent _ = False"

definition quiet :: "net_event list \<Rightarrow> bool" where
  "quiet es = list_all (\<lambda>e. \<not> is_sent e) es"

text \<open>
  Requests alternate with checks: what stands between two requests cleared the second one
  for its URL. \<open>clear\<close> says what a check must have established.
\<close>

inductive checked_trace ::
    "(string \<Rightarrow> net_event list \<Rightarrow> bool) \<Rightarrow> request \<Rightarrow> nat \<Rightarrow> net_event list \<Rightarrow> bool"
  for clear :: "string \<Rightarrow> net_event list \<Rightarrow> bool" and rq :: request where
  trace_end: "quiet es \<Longrightarrow> checked_trace clear rq 0 es"
| trace_step: "quiet es \<Longrightarrow> clear u es \<Longrightarrow> checked_trace clear rq n tr
    \<Longrightarrow> checked_trace clear rq (Suc n) (es @ Sent (rq\<lparr>rq_url := u\<rparr>) # tr)"

inductive_cases checked_trace_SucE: "checked_trace clear rq (Suc n) tr"

definition sent_requests :: "net_event list \<Rightarrow> request list" where
  "sent_requests es = concat (map (\<lambda>e. case e of Sent r \<Rightarrow> [r] | _ \<Rightarrow> []) es)"

lemma sent_requests_append [simp]: "sent_requests (a @ b) = sent_requests a @ sent_requests b"
  by (simp add: sent_requests_def)

lemma sent_requests_quiet [simp]: "quiet es \<Longrightarrow> sent_requests es = []"
  by (induction es) (auto simp: sent_requests_def quiet_def split: net_event.splits)

lemma sent_requests_Sent [simp]: "sent_requests (Sent r # tr) = r # sent_requests tr"
  by (simp add: sent_requests_def)

lemma quiet_simps [simp]: "quiet []" "quiet (Looked h x # es) = quiet es" "quiet (a @ b) = (quiet a \<and> quiet b)"
  by (simp_all add: quiet_def)

lemma checked_trace_length: "checked_trace clear rq n tr \<Longrightarrow> length (sent_requests tr) = n"
  by (induction rule: checked_trace.induct) auto

text \<open>Each request of the trace comes right after the check that cleared it.\<close>

lemma checked_trace_cleared:
  "checked_trace clear rq n tr \<Longrightarrow> r \<in> set (sent_requests tr) \<Longrightarrow>
    \<exists>pre es post. tr = pre @ es @ Sent r # post \<and> quiet es \<and> clear (rq_url r) es
      \<and> rq_method r = rq_method rq \<and> rq_headers r = rq_headers rq \<and> rq_body r = rq_body rq"
proof (induction rule: checked_trace.induct)
  case (trace_step es u n tr)
  show ?case
  proof (cases "r = rq\<lparr>rq_url := u\<rparr>")
    case True
    then show ?thesis using trace_step.hyps by (intro exI [of _ "[]"] exI [of _ es] exI [of _ tr]) simp
  next
    case False
    then obtain pre es' post where "tr = pre @ es' @ Sent r # post" "quiet es'" "clear (rq_url r) es'"
      "rq_method r = rq_method rq" "rq_headers r = rq_headers rq" "rq_body r = rq_body rq"
      using trace_step by auto
    then show ?thesis
      by (intro exI [of _ "es @ Sent (rq\<lparr>rq_url := u\<rparr>) # pre"] exI [of _ es'] exI [of _ post]) simp
  qed
qed simp

lemma execute_logged:
  "\<exists>r s'. execute (logged_net net) meth url headers body mb dec (lg, s) =
     (r, (lg @ [Sent \<lparr>rq_method = meth, rq_url = url, rq_headers = headers, rq_body = body\<rparr>], s'))
   \<and> (\<forall>d. r = Inr d \<longrightarrow> (\<exists>b. dget d ''success'' = VBool b))"
proof -
  have ok: "\<exists>b. dget d ''success'' = VBool b"
    if "catch_request_exception r = Inr d" "\<And>d. r = Inr d \<Longrightarrow> dget d ''success'' = VBool True" for r d
    using that by (auto simp: catch_request_exception_def request_failed_def
        split: sum.splits exn.splits exn_kind.splits)
  show ?thesis
    by (auto simp: execute_def logged_net_def read_response_body_def bind_res_eq_Inr
        split: prod.splits sum.splits option.splits if_splits intro!: ok)
qed

text \<open>
  The interface between the redirect loop and its guards: a guard sends nothing, and when it
  lets a URL pass then what it did clears that URL.
\<close>

locale redirect_guard =
  fixes guard :: "(net_event list \<times> 's) guard"
    and clear :: "string \<Rightarrow> net_event list \<Rightarrow> bool"
    and meth :: string
  assumes quiet_guard: "guard u meth (lg, s) = (r, lg', s') \<Longrightarrow> \<exists>es. lg' = lg @ es \<and> quiet es"
    and guard_clears: "guard u meth (lg, s) = (Inr None, lg @ es, s') \<Longrightarrow> clear u es"
begin

text \<open>
  From a cleared URL on, the loop only makes cleared requests: one more than the hops at
  most, and just one unless the method is \<open>GET\<close>.
\<close>

lemma follow_checked:
  assumes "quiet es" and "clear u es"
    and "follow (logged_net net) (Some guard) meth headers body mb dec first hops u (lg @ es, s)
      = (r, lg', s')"
  shows "\<exists>n tr. lg' = lg @ tr
    \<and> checked_trace clear \<lparr>rq_method = meth, rq_url = first, rq_headers = headers, rq_body = body\<rparr> n tr
    \<and> n \<le> (if meth = ''GET'' then Suc hops else 1)"
  using assms
proof (induction hops arbitrary: es u lg s)
  case (0 es u lg s)
  let ?rq = "\<lparr>rq_method = meth, rq_url = first, rq_headers = headers, rq_body = body\<rparr>"
  obtain r1 s1 where x: "execute (logged_net net) meth u headers body mb dec (lg @ es, s)
      = (r1, (lg @ es) @ [Sent (?rq\<lparr>rq_url := u\<rparr>)], s1)"
    using execute_logged [of net meth u headers body mb dec "lg @ es" s] by auto
  have "lg' = lg @ es @ Sent (?rq\<lparr>rq_url := u\<rparr>) # []"
    using 0 by (subst (asm) follow.simps) (auto simp: x split: exchange.splits)
  moreover have "checked_trace clear ?rq (Suc 0) (es @ Sent (?rq\<lparr>rq_url := u\<rparr>) # [])"
    using 0 by (intro checked_trace.intros) simp_all
  ultimately show ?case by (intro exI conjI) (assumption, assumption, simp)
next
  case (Suc hops es u lg s)
  let ?rq = "\<lparr>rq_method = meth, rq_url = first, rq_headers = headers, rq_body = body\<rparr>"
  let ?sent = "Sent (?rq\<lparr>rq_url := u\<rparr>)"
  obtain r1 s1 where x: "execute (logged_net net) meth u headers body mb dec (lg @ es, s)
      = (r1, (lg @ es) @ [?sent], s1)"
    using execute_logged [of net meth u headers body mb dec "lg @ es" s] by auto
  have stop: ?case if "quiet es'" "lg' = lg @ es @ ?sent # es'" for es'
  proof -
    have "checked_trace clear ?rq (Suc 0) (es @ ?sent # es')"
      using Suc.prems(1,2) that by (intro checked_trace.intros) simp_all
    with that(2) show ?thesis by (intro exI conjI) (assumption, assumption, simp)
  qed
  show ?case
  proof (cases "decide meth u r1")
    case (Final y)
    then have "lg' = lg @ es @ ?sent # []"
      using Suc.prems(3) by (subst (asm) follow.simps) (auto simp: x)
    then show ?thesis by (intro stop) simp_all
  next
    case (Redirect nx)
    then have get: "meth = ''GET''"
      by (auto simp: decide_def split: sum.splits if_splits option.splits)
    obtain g lg2 s2 where g: "guard nx meth ((lg @ es) @ [?sent], s1) = (g, lg2, s2)"
      by (metis surj_pair)
    obtain es2 where es2: "lg2 = ((lg @ es) @ [?sent]) @ es2" "quiet es2"
      using quiet_guard [OF g] by blast
    show ?thesis
    proof (cases "g = Inr None")
      case False
      then have "lg' = lg @ es @ ?sent # es2"
        using Suc.prems(3) g es2(1) Redirect
        by (subst (asm) follow.simps) (auto simp: x split: sum.splits option.splits)
      then show ?thesis using es2(2) by (intro stop)
    next
      case True
      have f: "follow (logged_net net) (Some guard) meth headers body mb dec first hops nx
          (((lg @ es) @ [?sent]) @ es2, s2) = (r, lg', s')"
        using Suc.prems(3) g es2(1) Redirect True
        by (subst (asm) follow.simps) (simp add: x)
      have "clear nx es2" using guard_clears g es2(1) True by blast
      from Suc.IH [OF es2(2) this f] obtain n tr where
        tr: "lg' = ((lg @ es) @ [?sent]) @ tr" "checked_trace clear ?rq n tr" "n \<le> Suc hops"
        using get by auto
      then have "checked_trace clear ?rq (Suc n) (es @ ?sent # tr)"
        using Suc.prems(1,2) by (intro checked_trace.intros)
      with tr get show ?thesis
        by (intro exI [of _ "Suc n"] exI [of _ "es @ ?sent # tr"]) simp
    qed
  qed
qed

end

text \<open>The guard of a policy with credentials, and the guard of public requests.\<close>

definition policy_clear :: "policy \<Rightarrow> string \<Rightarrow> (string \<times> string) list \<Rightarrow> string \<Rightarrow> net_event list \<Rightarrow> bool" where
  "policy_clear po meth headers url es = (validate po meth url headers = Inr Allow)"

definition safe_lookup :: "string \<Rightarrow> net_event list \<Rightarrow> bool" where
  "safe_lookup url es =
     (\<exists>p host addrs. urlparse url = Inr p \<and> lower (u_scheme p) \<in> {''http'', ''https''}
        \<and> hostname p = Some host \<and> Looked host (Some addrs) \<in> set es
        \<and> (\<forall>a ip. a \<in> set addrs \<longrightarrow> ip_address a = Some ip \<longrightarrow> \<not> is_blocked_public_ip (normalize_public_ip ip)))"

definition public_clear ::
    "policy \<Rightarrow> string \<Rightarrow> (string \<times> string) list \<Rightarrow> bool \<Rightarrow> string \<Rightarrow> net_event list \<Rightarrow> bool" where
  "public_clear po meth headers enforce_validation url es =
     ((enforce_validation \<longrightarrow> validate po meth url headers = Inr Allow) \<and> safe_lookup url es)"

lemma first_blocked_None:
  "first_blocked as = None \<longleftrightarrow>
    (\<forall>a ip. a \<in> set as \<longrightarrow> ip_address a = Some ip \<longrightarrow> \<not> is_blocked_public_ip (normalize_public_ip ip))"
  by (induction as) (auto simp: Let_def split: option.splits)

lemma ssrf_check_logged:
  assumes "ssrf_check (logged_net net) url (lg, s) = (r, lg', s')"
  shows "\<exists>es. lg' = lg @ es \<and> quiet es \<and> (r = Inr Allow \<longrightarrow> safe_lookup url es)"
proof (cases "urlparse url")
  case (Inl e)
  with assms show ?thesis by (auto simp: ssrf_check_def)
next
  case (Inr p)
  show ?thesis
  proof (cases "lower (u_scheme p) \<in> set PUBLIC_ALLOWED_SCHEMES \<and> hostname p \<noteq> None")
    case False
    with assms Inr show ?thesis by (auto simp: ssrf_check_def Let_def split: if_splits option.splits)
  next
    case True
    then obtain host where host: "hostname p = Some host" by auto
    obtain x s1 where x: "nt_dns net host s = (x, s1)" by (metis surj_pair)
    have sch: "lower (u_scheme p) \<in> {''http'', ''https''}"
      using True by (simp add: PUBLIC_ALLOWED_SCHEMES_def)
    show ?thesis
    proof (cases "\<exists>addrs. x = Inr (Some addrs) \<and> first_blocked addrs = None")
      case False
      then show ?thesis
        using assms Inr host True x
        by (auto simp: ssrf_check_def logged_net_def Let_def split: sum.splits option.splits)
    next
      case True': True
      then obtain addrs where a: "x = Inr (Some addrs)" "first_blocked addrs = None" by blast
      have "lg' = lg @ [Looked host (Some addrs)]"
        using assms Inr host True x a by (auto simp: ssrf_check_def logged_net_def Let_def)
      moreover have "safe_lookup url [Looked host (Some addrs)]"
        using a(2) sch host Inr unfolding safe_lookup_def first_blocked_None by auto
      ultimately show ?thesis by auto
    qed
  qed
qed

lemma ssrf_or_deny_logged:
  assumes "ssrf_or_deny (logged_net net) i meth url (lg, s) = (r, lg', s')"
  shows "\<exists>es. lg' = lg @ es \<and> quiet es \<and> (r = Inr None \<longrightarrow> safe_lookup url es)"
proof -
  obtain v l1 s1 where v: "ssrf_check (logged_net net) url (lg, s) = (v, l1, s1)" by (metis surj_pair)
  from ssrf_check_logged [OF v] show ?thesis
    using assms v by (auto simp: ssrf_or_deny_def split: sum.splits verdict.splits)
qed

interpretation policy_guard: redirect_guard "policy_redirect_guard po i headers"
  "policy_clear po meth headers" meth for po i headers meth
  by unfold_locales (auto simp: policy_redirect_guard_def policy_clear_def validate_or_deny_None)

interpretation public_guard: redirect_guard
  "public_redirect_guard (logged_net net) po i headers enforce True"
  "public_clear po meth headers enforce" meth for net po i headers enforce meth
proof unfold_locales
  fix u lg s r lg' s'
  assume g: "public_redirect_guard (logged_net net) po i headers enforce True u meth (lg, s) = (r, lg', s')"
  then show "\<exists>es. lg' = lg @ es \<and> quiet es"
    by (auto simp: public_redirect_guard_def split: sum.splits option.splits if_splits
        dest!: ssrf_or_deny_logged)
next
  fix u lg s es s'
  assume g: "public_redirect_guard (logged_net net) po i headers enforce True u meth (lg, s)
    = (Inr None, lg @ es, s')"
  then have "ssrf_or_deny (logged_net net) i meth u (lg, s) = (Inr None, lg @ es, s')"
    and "enforce \<longrightarrow> validate_or_deny po i meth u headers = Inr None"
    by (auto simp: public_redirect_guard_def split: sum.splits option.splits if_splits)
  then show "public_clear po meth headers enforce u es"
    using ssrf_or_deny_logged by (fastforce simp: public_clear_def validate_or_deny_None)
qed

section \<open>Properties\<close>

text \<open>
  A response body is bounded exactly: the broker decodes the first \<open>max_bytes\<close> bytes of
  the stream, however it comes in chunks, and reports \<open>truncated\<close> just when there were
  more.
\<close>

theorem execute_body_bounded:
  assumes "0 \<le> max_bytes" and "rs_error rs = None"
    and "nt_request net \<lparr>rq_method = m, rq_url = u, rq_headers = hs, rq_body = b\<rparr> w = (Inr rs, w')"
    and "nt_decode net ''utf-8'' (take (nat max_bytes) (concat (rs_chunks rs))) = Inr text"
  shows "\<exists>d. execute net m u hs b max_bytes True w = (Inr d, w')
    \<and> dget d ''success'' = VBool True \<and> dget d ''status_code'' = VInt (rs_status rs)
    \<and> dget d ''body'' = VStr text
    \<and> dget d ''truncated'' = VBool (int (length (concat (rs_chunks rs))) > max_bytes)"
proof -
  have "read_chunks max_bytes [] (rs_chunks rs)
      = (take (nat max_bytes) (concat (rs_chunks rs)), int (length (concat (rs_chunks rs))) > max_bytes)"
    using read_chunks_eq [of "[]" max_bytes "rs_chunks rs"] assms(1) by simp
  moreover have "execute net m u hs b max_bytes True w = (Inr (dict_of
        [(''success'', VBool True), (''status_code'', VInt (rs_status rs)),
         (''headers'', VDict (dict_of (map (\<lambda>(k, v). (k, VStr v)) (rs_headers rs)))),
         (''body'', VStr text), (''truncated'', VBool t)]), w')"
    if "read_chunks max_bytes [] (rs_chunks rs) = (raw, t)" "nt_decode net ''utf-8'' raw = Inr text" for raw t
    using assms(2,3) that by (simp add: execute_def read_response_body_def catch_request_exception_def)
  ultimately show ?thesis using assms(4) by auto
qed

definition echo_net :: "response \<Rightarrow> nat net" where
  "echo_net rs =
     \<lparr>nt_dns = (\<lambda>h n. (Inr (Some [''93.184.216.34'']), Suc n)), nt_request = (\<lambda>rq n. (Inr rs, Suc n)),
      nt_decode = (\<lambda>enc raw. Inr raw), nt_clock = (\<lambda>n. (of_nat n, n))\<rparr>"

theorem execute_body_bounded_witness:
  "\<exists>d. execute (echo_net \<lparr>rs_status = 200, rs_headers = [], rs_encoding = None,
        rs_chunks = [''abc'', [], ''defg''], rs_error = None\<rparr>) ''GET'' ''http://x/'' [] None 5 True 0 = (Inr d, 1)
    \<and> dget d ''body'' = VStr ''abcde'' \<and> dget d ''truncated'' = VBool True"
  using execute_body_bounded [of 5 "\<lparr>rs_status = 200, rs_headers = [], rs_encoding = None,
      rs_chunks = [''abc'', [], ''defg''], rs_error = None\<rparr>" "echo_net \<lparr>rs_status = 200, rs_headers = [],
      rs_encoding = None, rs_chunks = [''abc'', [], ''defg''], rs_error = None\<rparr>" "''GET''" "''http://x/''" "[]"
      None 0 1 "''abcde''"]
  by (auto simp: echo_net_def)

end
