(* ===== verification/Secrets.thy ===== *)
theory Secrets
  imports BrokerPolicy
begin

text \<open>
  \<open>host_secrets.py\<close>: reading the credentials file and normalising its records, and the
  agreement with the policies the broker builds from them.
\<close>

section \<open>Checks that end in a message\<close>

text \<open>\<open>return {}, message\<close> is \<open>Inl message\<close> under the exceptions, which are on the outside.\<close>

type_synonym 'a checked = "(string + 'a) res"

definition bad :: "string \<Rightarrow> 'a checked" where
  "bad message = Inr (Inl message)"

definition good :: "'a \<Rightarrow> 'a checked" where
  "good x = Inr (Inr x)"

definition bind_checked :: "'a checked \<Rightarrow> ('a \<Rightarrow> 'b checked) \<Rightarrow> 'b checked" where
  "bind_checked m f = bind_res m (\<lambda>r. case r of Inl message \<Rightarrow> bad message | Inr x \<Rightarrow> f x)"

lemma bind_checked_good: "bind_checked m f = good y \<longleftrightarrow> (\<exists>x. m = good x \<and> f x = good y)"
proof (cases m)
  case (Inr r)
  then show ?thesis by (cases r) (auto simp: bind_checked_def good_def bad_def)
qed (simp add: bind_checked_def good_def)

lemma good_neq_bad [simp]: "good x \<noteq> bad m" "bad m \<noteq> good x" "good x = good y \<longleftrightarrow> x = y"
  by (auto simp: good_def bad_def)

definition require :: "bool \<Rightarrow> string \<Rightarrow> unit checked" where
  "require b message = (if b then good () else bad message)"

lemma require_good [simp]: "require b m = good u \<longleftrightarrow> b"
  by (simp add: require_def)

section \<open>Records\<close>

definition VALID_AUTH_TYPES :: "string list" where
  "VALID_AUTH_TYPES = [''bearer'', ''header'']"

definition VALID_ALLOWED_SCHEMES :: "string list" where
  "VALID_ALLOWED_SCHEMES = [''http'', ''https'']"

definition non_empty_string_list :: "pyval \<Rightarrow> string \<Rightarrow> string list checked" where
  "non_empty_string_list v field_name =
     (case string_items v of
        Some items \<Rightarrow> good items
      | None \<Rightarrow> bad (field_name @ '' must be a non-empty list of strings''))"

definition normalize_schemes :: "string list \<Rightarrow> string list checked" where
  "normalize_schemes schemes =
     bind_checked (require (list_all (\<lambda>s. lower s \<in> set VALID_ALLOWED_SCHEMES) schemes)
       ''allowed_schemes must contain only: http, https'') (\<lambda>_.
       good (foldl (\<lambda>acc s. if lower s \<in> set acc then acc else acc @ [lower s]) [] schemes))"

text \<open>The first item that is not a string under a string decides the message.\<close>

fun check_default_headers :: "pydict \<Rightarrow> (string \<times> string) list checked" where
  "check_default_headers [] = good []"
| "check_default_headers ((k, v) # rest) =
     (case k of
        KStr key \<Rightarrow>
          (case v of
             VStr s \<Rightarrow> bind_checked (check_default_headers rest) (\<lambda>hs. good ((key, s) # hs))
           | _ \<Rightarrow> bad (''default_headers.'' @ key @ '' must be a string''))
      | _ \<Rightarrow> bad ''default_headers keys must be strings'')"

definition check_max_response_bytes :: "pyval \<Rightarrow> int checked" where
  "check_max_response_bytes v =
     (if is_VBool v then bad ''max_response_bytes must be an integer''
      else bind_res (int_or_none v) (\<lambda>parsed.
        case parsed of
          None \<Rightarrow> bad ''max_response_bytes must be an integer''
        | Some n \<Rightarrow> if n \<le> 0 then bad ''max_response_bytes must be greater than zero'' else good n))"

definition str_list :: "string list \<Rightarrow> pyval" where
  "str_list xs = VList (map VStr xs)"

text \<open>The header name and what it adds to the record.\<close>

definition header_part :: "pydict \<Rightarrow> string \<Rightarrow> string list \<Rightarrow> pydict \<Rightarrow> pydict checked" where
  "header_part record auth_type protected normalized =
     bind_checked
       (case dlookup record ''header_name'' of
          None \<Rightarrow> good ''Authorization''
        | Some (VStr h) \<Rightarrow>
            if strip h = [] then bad ''header_name must be a non-empty string when provided''
            else good (strip h)
        | Some _ \<Rightarrow> bad ''header_name must be a non-empty string when provided'') (\<lambda>header_name.
       good
         (if auth_type = ''header'' then
            (let with_name = dset normalized ''header_name'' (VStr header_name)
             in if lower header_name \<in> set (map lower protected) then with_name
                else dset with_name ''protected_headers'' (str_list (protected @ [header_name])))
          else if dhas record ''header_name'' then dset normalized ''header_name'' (VStr header_name)
          else normalized))"

definition normalize_record :: "pyval \<Rightarrow> pydict checked" where
  "normalize_record rec =
     (case rec of
        VDict record \<Rightarrow>
          bind_checked (case dget record ''auth_type'' of
                          VStr s \<Rightarrow> good (lower (strip s))
                        | _ \<Rightarrow> bad ''auth_type must be one of: bearer, header'') (\<lambda>auth_type.
          bind_checked (require (auth_type \<in> set VALID_AUTH_TYPES)
                          ''auth_type must be one of: bearer, header'') (\<lambda>_.
          bind_checked (case dget record ''token'' of
                          VStr t \<Rightarrow> if strip t = [] then bad ''token must be a non-empty string'' else good t
                        | _ \<Rightarrow> bad ''token must be a non-empty string'') (\<lambda>token.
          bind_checked (non_empty_string_list (dget record ''allowed_hosts'') ''allowed_hosts'') (\<lambda>hosts.
          bind_checked (non_empty_string_list (dget_or record ''allowed_methods'' (VList [VStr ''GET'']))
                          ''allowed_methods'') (\<lambda>methods.
          bind_checked (non_empty_string_list (dget_or record ''allowed_paths'' (VList [VStr ''/*'']))
                          ''allowed_paths'') (\<lambda>paths.
          bind_checked (non_empty_string_list (dget_or record ''allowed_schemes'' (VList [VStr ''https'']))
                          ''allowed_schemes'') (\<lambda>schemes0.
          bind_checked (normalize_schemes schemes0) (\<lambda>schemes.
          bind_checked (non_empty_string_list
                          (dget_or record ''protected_headers'' (VList [VStr ''Authorization'']))
                          ''protected_headers'') (\<lambda>protected.
          bind_checked (case dget_or record ''default_headers'' (VDict []) of
                          VDict d \<Rightarrow> check_default_headers d
                        | _ \<Rightarrow> bad ''default_headers must be a mapping'') (\<lambda>defaults.
          bind_checked (check_max_response_bytes (dget_or record ''max_response_bytes'' (VInt 524288)))
            (\<lambda>max_bytes.
          bind_checked (require (dget record ''rate_limit'' = VNone \<or> is_VDict (dget record ''rate_limit''))
                          ''rate_limit must be a mapping when provided'') (\<lambda>_.
          bind_checked (header_part record auth_type protected
            (dict_of [(''auth_type'', VStr auth_type), (''token'', VStr token),
                      (''allowed_hosts'', str_list hosts), (''allowed_methods'', str_list (map upper methods)),
                      (''allowed_paths'', str_list paths), (''allowed_schemes'', str_list schemes),
                      (''protected_headers'', str_list protected),
                      (''default_headers'', VDict (dict_of (map (\<lambda>(k, s). (k, VStr s)) defaults))),
                      (''max_response_bytes'', VInt max_bytes),
                      (''rate_limit'', dget record ''rate_limit'')])) (\<lambda>normalized.
          bind_checked (require (\<not> dhas record ''query_param'')
            ''query_param is not supported; use bearer/header auth with host policy'') (\<lambda>_.
            good normalized))))))))))))))
      | _ \<Rightarrow> bad ''record must be a mapping'')"

section \<open>The file\<close>

text \<open>What \<open>yaml.safe_load\<close> of the file ends in.\<close>

datatype secrets_file = NoFile | Unreadable | Loaded pyval

fun normalize_all :: "pydict \<Rightarrow> (string \<times> pydict) list res" where
  "normalize_all [] = Inr []"
| "normalize_all ((name, record) # rest) =
     (case name of
        KStr n \<Rightarrow>
          bind_res (normalize_record record) (\<lambda>r.
          bind_res (normalize_all rest) (\<lambda>creds.
            Inr (case r of Inl _ \<Rightarrow> creds | Inr d \<Rightarrow> (n, d) # creds)))
      | _ \<Rightarrow> normalize_all rest)"

definition load_secrets :: "secrets_file \<Rightarrow> (string \<times> pydict) list res" where
  "load_secrets file =
     (case file of
        Loaded (VDict loaded) \<Rightarrow>
          (case dget_or loaded ''credentials'' (VDict []) of
             VDict raw \<Rightarrow> normalize_all raw
           | _ \<Rightarrow> Inr [])
      | _ \<Rightarrow> Inr [])"

definition list_integration_names :: "string list \<Rightarrow> string list" where
  "list_integration_names names = sort (filter (\<lambda>n. \<not> prefix ''_'' n) names)"

section \<open>Facts\<close>

lemma nonblank_iff: "nonblank v \<longleftrightarrow> (\<exists>s. v = VStr s \<and> strip s \<noteq> [])"
  by (cases v) (auto simp: nonblank_def)

lemma string_items_stripped:
  "string_items v = Some items \<Longrightarrow> items \<noteq> [] \<and> list_all (\<lambda>s. s \<noteq> [] \<and> strip s = s) items"
  by (fastforce simp: string_items_def nonblank_iff list_all_iff split: pyval.splits if_splits)

lemma string_items_str_list:
  "xs \<noteq> [] \<Longrightarrow> list_all (\<lambda>s. s \<noteq> [] \<and> strip s = s) xs \<Longrightarrow> string_items (str_list xs) = Some xs"
  by (induction xs) (auto simp: string_items_def str_list_def nonblank_def list_all_iff map_idI)

lemma py_space_to_upper [simp]: "py_space (to_upper c) = py_space c"
proof -
  have "code (to_upper c) = (if 97 \<le> code c \<and> code c \<le> 122 then code c - 32 else code c)"
    using code_lt [of c] by (auto simp: to_upper_def code_char_of)
  then show ?thesis by (auto simp: py_space_def)
qed

lemma dropWhile_map_upper: "dropWhile py_space (map to_upper s) = map to_upper (dropWhile py_space s)"
  by (induction s) auto

lemma strip_upper: "strip (upper s) = upper (strip s)"
  by (simp add: strip_def upper_def rstrip_def lstrip_def dropWhile_map_upper rev_map)

lemma upper_Nil [simp]: "upper s = [] \<longleftrightarrow> s = []"
  by (simp add: upper_def)

lemma schemes_foldl:
  defines "add \<equiv> \<lambda>acc s. if lower s \<in> set acc then acc else acc @ [lower s]"
  shows "list_all (\<lambda>s. lower s \<in> S) xs \<Longrightarrow> set acc \<subseteq> S \<Longrightarrow> set (foldl add acc xs) \<subseteq> S"
    and "set acc \<subseteq> set (foldl add acc xs)"
proof -
  show "list_all (\<lambda>s. lower s \<in> S) xs \<Longrightarrow> set acc \<subseteq> S \<Longrightarrow> set (foldl add acc xs) \<subseteq> S"
    by (induction xs arbitrary: acc) (auto simp: add_def)
  show "set acc \<subseteq> set (foldl add acc xs)"
  proof (induction xs arbitrary: acc)
    case (Cons x xs)
    show ?case using Cons.IH [of "add acc x"] by (auto simp: add_def split: if_splits)
  qed simp
qed

lemma normalize_schemes_good:
  assumes "normalize_schemes s0 = good s" and "s0 \<noteq> []"
  shows "s \<noteq> [] \<and> set s \<subseteq> {''http'', ''https''}"
proof -
  obtain x xs where s0: "s0 = x # xs" using assms(2) by (cases s0) auto
  have s: "s = foldl (\<lambda>acc s. if lower s \<in> set acc then acc else acc @ [lower s]) [] s0"
    and all: "list_all (\<lambda>s. lower s \<in> {''http'', ''https''}) s0"
    using assms(1) by (auto simp: normalize_schemes_def bind_checked_good VALID_ALLOWED_SCHEMES_def)
  have "lower x \<in> set s"
    using schemes_foldl(2) [of "[lower x]" xs] by (simp add: s s0)
  then show ?thesis
    using schemes_foldl(1) [OF all, of "[]"] by (auto simp: s)
qed

lemma string_map_dict_of: "string_map (dict_of (map (\<lambda>(k, s). (k, VStr s)) hs)) = Some hs"
  by (induction hs) (auto simp: string_map_def dict_of_def)

lemma checked_positive:
  "check_max_response_bytes v = good n \<Longrightarrow> 0 < n"
  by (auto simp: check_max_response_bytes_def bind_res_eq_Inr good_def bad_def
      split: if_splits option.splits)

lemma to_positive_int_VInt: "0 < n \<Longrightarrow> to_positive_int (VInt n) = Inr (Some n)"
  by (simp add: to_positive_int_def int_or_none_def)

lemma map_res_schemes: "set s \<subseteq> {''http'', ''https''} \<Longrightarrow> map_res normalize_allowed_scheme s = Inr s"
proof -
  assume s: "set s \<subseteq> {''http'', ''https''}"
  have l: "lower ''http'' = ''http''" "lower ''https'' = ''https''" by code_simp+
  have "map_res normalize_allowed_scheme s = Inr (map id s)"
    using s l by (intro map_res_Inr) (auto simp: normalize_allowed_scheme_def)
  then show ?thesis by simp
qed

lemma header_part_good:
  assumes "header_part record auth protected n0 = good d"
    and "dget n0 ''protected_headers'' = str_list protected"
    and "protected \<noteq> []" "list_all (\<lambda>s. s \<noteq> [] \<and> strip s = s) protected"
  shows "\<exists>ps h. (\<forall>k v. k \<noteq> ''header_name'' \<longrightarrow> k \<noteq> ''protected_headers'' \<longrightarrow> dget_or d k v = dget_or n0 k v)
    \<and> dget d ''protected_headers'' = str_list ps \<and> string_items (str_list ps) = Some ps
    \<and> set protected \<subseteq> set ps
    \<and> (auth = ''header'' \<longrightarrow> dget_or d ''header_name'' (VStr ''Authorization'') = VStr h \<and> strip h = h \<and> h \<noteq> [])"
proof -
  obtain h where h: "h \<noteq> []" "strip h = h"
    and d: "d = (if auth = ''header'' then
            (let with_name = dset n0 ''header_name'' (VStr h)
             in if lower h \<in> set (map lower protected) then with_name
                else dset with_name ''protected_headers'' (str_list (protected @ [h])))
          else if dhas record ''header_name'' then dset n0 ''header_name'' (VStr h)
          else n0)"
  proof -
    have a: "strip ''Authorization'' = ''Authorization''" by code_simp
    show thesis
      using assms(1) a that
      by (auto simp: header_part_def bind_checked_good split: option.splits pyval.splits if_splits)
  qed
  show ?thesis
  proof (cases "auth = ''header'' \<and> lower h \<notin> set (map lower protected)")
    case True
    then show ?thesis
      using h assms(4)
      by (intro exI [of _ "protected @ [h]"] exI [of _ h])
        (auto simp: d Let_def dget_or_def dget_def intro!: string_items_str_list)
  next
    case False
    then show ?thesis
      using h assms(2-4)
      by (intro exI [of _ protected] exI [of _ h])
        (auto simp: d Let_def dget_or_def dget_def intro!: string_items_str_list)
  qed
qed

text \<open>What a normalised record holds.\<close>

lemma normalize_record_good:
  assumes "normalize_record rec = good d"
  obtains rcd auth token hosts methods paths schemes ps defaults n h where
    "rec = VDict rcd" "auth \<in> {''bearer'', ''header''}" "dget rcd ''token'' = VStr token" "strip token \<noteq> []"
    "string_items (dget rcd ''allowed_hosts'') = Some hosts"
    "dget d ''auth_type'' = VStr auth" "strip auth = auth" "lower auth = auth" "dget d ''token'' = VStr token"
    "string_items (dget d ''allowed_hosts'') = Some hosts"
    "string_items (dget d ''allowed_methods'') = Some methods" "map upper methods = methods"
    "string_items (dget d ''allowed_paths'') = Some paths"
    "string_items (dget_or d ''allowed_schemes'' (VList [VStr ''https''])) = Some schemes"
    "map_res normalize_allowed_scheme schemes = Inr schemes"
    "string_items (dget d ''protected_headers'') = Some ps"
    "dget d ''default_headers'' = VDict (dict_of (map (\<lambda>(k, s). (k, VStr s)) defaults))"
    "dget d ''max_response_bytes'' = VInt n" "0 < n"
    "dget d ''rate_limit'' = dget rcd ''rate_limit''"
    "auth = ''header'' \<Longrightarrow> dget_or d ''header_name'' (VStr ''Authorization'') = VStr h \<and> strip h = h \<and> h \<noteq> []"
proof (cases rec)
  case (VDict rcd)
  obtain s auth token hosts methods paths schemes0 schemes protected defaults n where
    auth0: "auth = lower (strip s)" "auth \<in> set VALID_AUTH_TYPES"
    and tok: "dget rcd ''token'' = VStr token" "strip token \<noteq> []"
    and items: "string_items (dget rcd ''allowed_hosts'') = Some hosts"
      "string_items (dget_or rcd ''allowed_methods'' (VList [VStr ''GET''])) = Some methods"
      "string_items (dget_or rcd ''allowed_paths'' (VList [VStr ''/*''])) = Some paths"
      "string_items (dget_or rcd ''allowed_schemes'' (VList [VStr ''https''])) = Some schemes0"
      "normalize_schemes schemes0 = good schemes"
      "string_items (dget_or rcd ''protected_headers'' (VList [VStr ''Authorization''])) = Some protected"
    and mx: "check_max_response_bytes (dget_or rcd ''max_response_bytes'' (VInt 524288)) = good n"
    and hp: "header_part rcd auth protected
        (dict_of [(''auth_type'', VStr auth), (''token'', VStr token),
                  (''allowed_hosts'', str_list hosts), (''allowed_methods'', str_list (map upper methods)),
                  (''allowed_paths'', str_list paths), (''allowed_schemes'', str_list schemes),
                  (''protected_headers'', str_list protected),
                  (''default_headers'', VDict (dict_of (map (\<lambda>(k, s). (k, VStr s)) defaults))),
                  (''max_response_bytes'', VInt n),
                  (''rate_limit'', dget rcd ''rate_limit'')]) = good d"
  proof -
    have lists: "non_empty_string_list v f = good xs \<longleftrightarrow> string_items v = Some xs" for v f xs
      by (cases "string_items v") (auto simp: non_empty_string_list_def)
    have auth: "(case v of VStr s \<Rightarrow> good (lower (strip s)) | _ \<Rightarrow> bad m) = good a
        \<longleftrightarrow> (\<exists>s. v = VStr s \<and> a = lower (strip s))" for v m a
      by (cases v) auto
    have tok: "(case v of VStr t \<Rightarrow> if strip t = [] then bad m else good t | _ \<Rightarrow> bad m) = good t
        \<longleftrightarrow> v = VStr t \<and> strip t \<noteq> []" for v m t
      by (cases v) auto
    have e: "normalize_record (VDict rcd) = good d" using assms VDict by simp
    show thesis
      using e unfolding normalize_record_def pyval.case bind_checked_good lists tok auth require_good good_neq_bad(3)
      by (elim exE conjE) (rule that, (assumption | simp)+)
  qed
  have st: "strip auth = auth" "lower auth = auth"
    using auth0 by (auto simp: VALID_AUTH_TYPES_def) code_simp+
  note it = items(1-3,6) [THEN string_items_stripped]
  have sch: "schemes \<noteq> []" "set schemes \<subseteq> {''http'', ''https''}"
    using normalize_schemes_good [OF items(5)] string_items_stripped [OF items(4)] by auto
  have sst: "list_all (\<lambda>s. s \<noteq> [] \<and> strip s = s) schemes"
  proof -
    have "strip ''http'' = ''http''" "strip ''https'' = ''https''" by code_simp+
    then show ?thesis using sch(2) by (auto simp: list_all_iff)
  qed
  have up: "list_all (\<lambda>s. s \<noteq> [] \<and> strip s = s) (map upper methods)"
    using it(2) by (auto simp: list_all_iff strip_upper)
  obtain ps h where ph: "\<And>k v. k \<noteq> ''header_name'' \<Longrightarrow> k \<noteq> ''protected_headers'' \<Longrightarrow> dget_or d k v = dget_or
        (dict_of [(''auth_type'', VStr auth), (''token'', VStr token),
                  (''allowed_hosts'', str_list hosts), (''allowed_methods'', str_list (map upper methods)),
                  (''allowed_paths'', str_list paths), (''allowed_schemes'', str_list schemes),
                  (''protected_headers'', str_list protected),
                  (''default_headers'', VDict (dict_of (map (\<lambda>(k, s). (k, VStr s)) defaults))),
                  (''max_response_bytes'', VInt n),
                  (''rate_limit'', dget rcd ''rate_limit'')]) k v"
      "dget d ''protected_headers'' = str_list ps" "string_items (str_list ps) = Some ps"
      "auth = ''header'' \<longrightarrow> dget_or d ''header_name'' (VStr ''Authorization'') = VStr h \<and> strip h = h \<and> h \<noteq> []"
    using header_part_good [OF hp] it(4) by (auto simp: string_items_str_list)
  show thesis
  proof (rule that [of rcd auth token hosts "map upper methods" paths schemes ps defaults n h])
    show "rec = VDict rcd" by (rule VDict)
    show "map_res normalize_allowed_scheme schemes = Inr schemes" using sch(2) by (rule map_res_schemes)
    show "0 < n" using checked_positive [OF mx] .
    show "auth \<in> {''bearer'', ''header''}" using auth0(2) by (auto simp: VALID_AUTH_TYPES_def)
  qed (use tok st ph it sch sst up items(1) in
      \<open>auto simp: dget_def string_items_str_list comp_def\<close>)
qed (use assms in \<open>auto simp: normalize_record_def\<close>)

section \<open>Properties\<close>

text \<open>
  The loader of \<open>secrets.yaml\<close> and the broker agree: a record the loader accepts is
  accepted by the broker with the same token, hosts, methods, paths, schemes and size
  limit, so no integration that was announced as loaded is dropped later. The one exception
  is a rate limit whose request count makes \<open>int\<close> overflow.
\<close>

theorem loader_agrees_with_broker:
  assumes "normalize_record (VDict record) = good d"
    and "\<And>rl. dget record ''rate_limit'' = VDict rl \<Longrightarrow> is_ok (to_positive_int (dget rl ''requests''))"
  shows "\<exists>po. from_record name d = Inr po \<and> po_name po = name
    \<and> VStr (po_token po) = dget record ''token'' \<and> VStr (po_auth_type po) = dget d ''auth_type''
    \<and> string_items (dget record ''allowed_hosts'') = Some (po_allowed_hosts po)
    \<and> string_items (dget d ''allowed_methods'') = Some (po_allowed_methods po)
    \<and> string_items (dget d ''allowed_paths'') = Some (po_allowed_paths po)
    \<and> VInt (po_max_response_bytes po) = dget d ''max_response_bytes''"
  using assms(1)
proof (cases rule: normalize_record_good)
  case (1 rcd' auth token hosts methods paths schemes ps defaults n h)
  have tok: "token \<noteq> []" using 1(4) by (auto simp: strip_def lstrip_def rstrip_def)
  obtain rr where rate: "(case dget record ''rate_limit'' of
        VDict rl \<Rightarrow> bind_res (to_positive_int (dget rl ''requests'')) (\<lambda>r.
                      Inr (r, to_positive_float (dget rl ''per_seconds'')))
      | _ \<Rightarrow> Inr (None, None)) = Inr rr"
    using assms(2) by (cases "dget record ''rate_limit''") (auto simp: is_ok_iff)
  have rec: "rcd' = record" using 1(1) by simp
  show ?thesis
  proof (cases "auth = ''header''")
    case True
    then show ?thesis
      using 1 tok rate rec
      by (simp add: from_record_def as_string_tuple_def string_map_dict_of to_positive_int_VInt)
  next
    case False
    then show ?thesis
      using 1 tok rate rec
      by (auto simp: from_record_def as_string_tuple_def string_map_dict_of to_positive_int_VInt)
  qed
qed

theorem loader_agrees_with_broker_witness:
  "\<exists>d po. normalize_record (VDict sample_record) = good d \<and> from_record ''x'' d = Inr po
    \<and> po_allowed_hosts po = [''api.x.com'']"
proof -
  obtain d where d: "normalize_record (VDict sample_record) = good d"
  proof -
    have "case normalize_record (VDict sample_record) of Inr (Inr d) \<Rightarrow> True | _ \<Rightarrow> False"
      by code_simp
    then show thesis using that by (auto simp: good_def split: sum.splits)
  qed
  have r: "dget sample_record ''rate_limit'' = VNone" "string_items (dget sample_record ''allowed_hosts'') = Some [''api.x.com'']"
    by code_simp+
  show ?thesis
    using loader_agrees_with_broker [OF d, of "''x''"] d r by auto
qed

end
