(* ===== verification/Broker.thy ===== *)
theory Broker
  imports BrokerNet Secrets
begin

text \<open>
  The request broker of \<open>sandbox/broker.py\<close>: its construction from the credentials, the
  four handlers, the dispatch with redaction, and what the guest can and cannot make it do.
  The rate limiters are the broker's only mutable state; they are threaded together with
  the state of the outside world.
\<close>

section \<open>State and construction\<close>

record broker =
  br_policies :: "(string \<times> policy) list"
  br_config :: pydict
  br_tokens :: "string list"

type_synonym limiters = "(string \<times> token_bucket) list"
type_synonym 's bstate = "limiters \<times> 's"

text \<open>
  The loop of the constructor: a record that is not a valid policy is skipped
  (\<open>except ValueError\<close>); any other exception ends the construction.
\<close>

fun load_policies ::
    "'s net \<Rightarrow> pydict \<Rightarrow> (string \<times> policy) list \<Rightarrow> limiters \<Rightarrow> 's
      \<Rightarrow> ((string \<times> policy) list \<times> limiters) res \<times> 's" where
  "load_policies net [] pols lims w = (Inr (pols, lims), w)"
| "load_policies net ((integration, rec) # rest) pols lims w =
     (case (integration, rec) of
        (KStr name, VDict record) \<Rightarrow>
          (case from_record name record of
             Inl e \<Rightarrow>
               if is_ValueError (exn_class e) then load_policies net rest pols lims w else (Inl e, w)
           | Inr po \<Rightarrow>
               (case (po_rate_limit_requests po, po_rate_limit_period po) of
                  (Some n, Some p) \<Rightarrow>
                    (case nt_clock net w of
                       (now, w') \<Rightarrow>
                         load_policies net rest (AList.update name po pols)
                           (AList.update name (new_bucket n p now) lims) w')
                | _ \<Rightarrow> load_policies net rest (AList.update name po pols) lims w))
      | _ \<Rightarrow> load_policies net rest pols lims w)"

definition new_broker ::
    "'s net \<Rightarrow> pydict \<Rightarrow> pydict \<Rightarrow> 's \<Rightarrow> (broker \<times> limiters) res \<times> 's" where
  "new_broker net credentials config w =
     (case load_policies net credentials [] [] w of
        (Inl e, w') \<Rightarrow> (Inl e, w')
      | (Inr (pols, lims), w') \<Rightarrow>
          (Inr (\<lparr>br_policies = pols, br_config = config,
                 br_tokens = credential_tokens credentials\<rparr>, lims), w'))"

section \<open>Configuration lookups\<close>

definition DEFAULT_PUBLIC_MAX_RESPONSE_BYTES :: int where
  "DEFAULT_PUBLIC_MAX_RESPONSE_BYTES = 524288"

definition DEFAULT_WEB_FETCH_MAX_RESPONSE_BYTES :: int where
  "DEFAULT_WEB_FETCH_MAX_RESPONSE_BYTES = 524288"

definition public_policy_config :: "broker \<Rightarrow> pydict" where
  "public_policy_config br =
     (case dget (br_config br) ''broker'' of
        VDict section \<Rightarrow> as_dict (dget section ''public_policy'')
      | _ \<Rightarrow> [])"

definition public_methods :: "pydict \<Rightarrow> string list" where
  "public_methods cfg =
     (case dget_or cfg ''allowed_methods'' (VList [VStr ''GET'']) of
        VList items \<Rightarrow>
          (let normalized = map (\<lambda>i. upper (the_str i)) (filter nonblank items)
           in if normalized = [] then [''GET''] else normalized)
      | _ \<Rightarrow> [''GET''])"

definition build_public_policy :: "pydict \<Rightarrow> policy res" where
  "build_public_policy cfg =
     bind_res (to_positive_int (dget cfg ''max_response_bytes'')) (\<lambda>n.
       Inr \<lparr>po_name = ''_public'', po_auth_type = ''none'', po_token = [],
            po_header_name = ''Authorization'', po_allowed_hosts = [''*''],
            po_allowed_methods = public_methods cfg, po_allowed_paths = [''/*''],
            po_allowed_schemes = [''http'', ''https''], po_protected_headers = [''Authorization''],
            po_default_headers = [],
            po_max_response_bytes =
              (case n of None \<Rightarrow> DEFAULT_PUBLIC_MAX_RESPONSE_BYTES | Some k \<Rightarrow> k),
            po_rate_limit_requests = None, po_rate_limit_period = None\<rparr>)"

definition web_fetch_max_response_bytes :: "broker \<Rightarrow> int res" where
  "web_fetch_max_response_bytes br =
     (case dget (br_config br) ''web_fetch'' of
        VDict section \<Rightarrow>
          bind_res (to_positive_int (dget section ''max_response_bytes'')) (\<lambda>n.
            Inr (case n of None \<Rightarrow> DEFAULT_WEB_FETCH_MAX_RESPONSE_BYTES | Some k \<Rightarrow> k))
      | _ \<Rightarrow> Inr DEFAULT_WEB_FETCH_MAX_RESPONSE_BYTES)"

definition web_search_endpoint :: "broker \<Rightarrow> string" where
  "web_search_endpoint br =
     (case dget (br_config br) ''web_search'' of
        VDict section \<Rightarrow> strip (the_str (dget section ''endpoint''))
      | _ \<Rightarrow> [])"

definition web_search_format :: "broker \<Rightarrow> string" where
  "web_search_format br =
     (case dget (br_config br) ''web_search'' of
        VDict section \<Rightarrow>
          if lower (strip (py_str (dget_or section ''format'' (VStr ''brave'')))) = ''searxng''
          then ''searxng'' else ''brave''
      | _ \<Rightarrow> ''brave'')"

definition web_search_max_results :: "broker \<Rightarrow> int res" where
  "web_search_max_results br =
     (case dget (br_config br) ''web_search'' of
        VDict section \<Rightarrow>
          bind_res (to_positive_int (dget section ''max_results'')) (\<lambda>n.
            Inr (case n of None \<Rightarrow> 10 | Some k \<Rightarrow> k))
      | _ \<Rightarrow> Inr 10)"

section \<open>Payloads\<close>

text \<open>A parsed payload, or the reply that rejects it.\<close>

definition invalid_request :: "string \<Rightarrow> pydict" where
  "invalid_request reason =
     dict_of [(''success'', VBool False), (''error'', VStr ''invalid_request''), (''reason'', VStr reason)]"

definition normalize_headers :: "pyval \<Rightarrow> string + (string \<times> string) list" where
  "normalize_headers v =
     (case v of
        VDict d \<Rightarrow>
          (case string_map d of
             Some hs \<Rightarrow> Inr hs
           | None \<Rightarrow> Inl ''http_request.headers must contain only string keys and values'')
      | _ \<Rightarrow> Inl ''http_request.headers must be an object when provided'')"

record http_request =
  hq_integration :: "string option"
  hq_method :: string
  hq_url :: string
  hq_headers :: "(string \<times> string) list"
  hq_body :: "string option"

definition parse_http_request_payload :: "pydict \<Rightarrow> pydict + http_request" where
  "parse_http_request_payload payload =
     (if \<not> nonblank (dget payload ''method'') then
        Inl (invalid_request ''http_request.method must be a non-empty string'')
      else if \<not> nonblank (dget payload ''url'') then
        Inl (invalid_request ''http_request.url must be a non-empty string'')
      else
        (let meth = upper (strip (the_str (dget payload ''method'')));
             url = strip (the_str (dget payload ''url''));
             rest = (\<lambda>integration.
               (let headers_raw = dget_or payload ''headers'' (VDict [])
                in case normalize_headers (if headers_raw = VNone then VDict [] else headers_raw) of
                     Inl err \<Rightarrow> Inl (invalid_request err)
                   | Inr headers \<Rightarrow>
                       (case dget payload ''body'' of
                          VNone \<Rightarrow> Inr \<lparr>hq_integration = integration, hq_method = meth, hq_url = url,
                                        hq_headers = headers, hq_body = None\<rparr>
                        | VStr b \<Rightarrow> Inr \<lparr>hq_integration = integration, hq_method = meth, hq_url = url,
                                         hq_headers = headers, hq_body = Some b\<rparr>
                        | _ \<Rightarrow> Inl (invalid_request ''http_request.body must be a string or null''))))
         in case dget payload ''integration'' of
              VNone \<Rightarrow> rest None
            | VStr s \<Rightarrow> rest (if strip s = [] then None else Some (strip s))
            | _ \<Rightarrow> Inl (invalid_request ''http_request.integration must be a string or null'')))"

definition parse_web_fetch_payload :: "pydict \<Rightarrow> pydict + string" where
  "parse_web_fetch_payload payload =
     (if nonblank (dget payload ''url'') then Inr (strip (the_str (dget payload ''url'')))
      else Inl (invalid_request ''web_fetch.url must be a non-empty string''))"

definition parse_web_search_payload :: "pydict \<Rightarrow> int \<Rightarrow> (pydict + string \<times> int) res" where
  "parse_web_search_payload payload default_max =
     (if \<not> nonblank (dget payload ''query'') then
        Inr (Inl (invalid_request ''web_search.query must be a non-empty string''))
      else
        (let query = strip (the_str (dget payload ''query''))
         in if dget payload ''max_results'' = VNone then Inr (Inr (query, default_max))
            else bind_res (to_positive_int (dget payload ''max_results'')) (\<lambda>n.
                   Inr (case n of
                          None \<Rightarrow> Inl (invalid_request ''web_search.max_results must be a positive integer'')
                        | Some k \<Rightarrow> Inr (query, k)))))"

section \<open>Search results\<close>

definition search_hit :: "string \<Rightarrow> pyval \<Rightarrow> pyval option" where
  "search_hit snippet_key item =
     (case item of
        VDict d \<Rightarrow>
          (case (dget d ''title'', dget d ''url'') of
             (VStr title, VStr url) \<Rightarrow>
               Some (VDict (dict_of
                 [(''title'', VStr title), (''url'', VStr url),
                  (''snippet'', VStr (py_str (dget_or d snippet_key (VStr []))))]))
           | _ \<Rightarrow> None)
      | _ \<Rightarrow> None)"

text \<open>The loop stops once \<open>max_results\<close> hits are collected.\<close>

fun take_hits :: "string \<Rightarrow> int \<Rightarrow> pyval list \<Rightarrow> pyval list \<Rightarrow> pyval list" where
  "take_hits key max_results acc [] = acc"
| "take_hits key max_results acc (item # items) =
     (case search_hit key item of
        None \<Rightarrow> take_hits key max_results acc items
      | Some hit \<Rightarrow>
          if int (length acc) + 1 \<ge> max_results then acc @ [hit]
          else take_hits key max_results (acc @ [hit]) items)"

definition normalize_brave_results :: "pydict \<Rightarrow> int \<Rightarrow> pyval list" where
  "normalize_brave_results payload max_results =
     (case dget payload ''web'' of
        VDict web \<Rightarrow>
          (case dget web ''results'' of
             VList items \<Rightarrow> take_hits ''description'' max_results [] items
           | _ \<Rightarrow> [])
      | _ \<Rightarrow> [])"

definition normalize_searxng_results :: "pydict \<Rightarrow> int \<Rightarrow> pyval list" where
  "normalize_searxng_results payload max_results =
     (case dget payload ''results'' of
        VList items \<Rightarrow> take_hits ''content'' max_results [] items
      | _ \<Rightarrow> [])"

definition append_query_params :: "string \<Rightarrow> (string \<times> string) list \<Rightarrow> string res" where
  "append_query_params url params =
     bind_res (urlsplit [] url) (\<lambda>p.
     bind_res (parse_qsl (u_query p)) (\<lambda>existing.
       Inr (urlunsplit (u_scheme p) (u_netloc p) (u_path p) (urlencode (existing @ params)) (u_fragment p))))"

section \<open>Requests under a policy\<close>

definition consume_rate_limit :: "'s net \<Rightarrow> string \<Rightarrow> 's bstate \<Rightarrow> bool \<times> 's bstate" where
  "consume_rate_limit net integration st =
     (case map_of (fst st) integration of
        None \<Rightarrow> (True, st)
      | Some b \<Rightarrow>
          (case nt_clock net (snd st) of
             (now, w') \<Rightarrow>
               (case consume now b of
                  (g, b') \<Rightarrow> (g, (AList.update integration b' (fst st), w')))))"

definition rate_limited :: "string \<Rightarrow> pydict" where
  "rate_limited integration =
     dict_of [(''success'', VBool False), (''error'', VStr ''rate_limited''),
              (''reason'', VStr (''rate limit exceeded for integration '' @ quoted integration))]"

definition execute_policy_request ::
    "'s net \<Rightarrow> policy \<Rightarrow> string \<Rightarrow> string \<Rightarrow> string \<Rightarrow> (string \<times> string) list \<Rightarrow> string option
      \<Rightarrow> string option \<Rightarrow> 's bstate \<Rightarrow> pydict res \<times> 's bstate" where
  "execute_policy_request net po integration meth url headers body rate_key st =
     (case validate_or_deny po integration meth url headers of
        Inl e \<Rightarrow> (Inl e, st)
      | Inr (Some denial) \<Rightarrow> (Inr denial, st)
      | Inr None \<Rightarrow>
          (case (case rate_key of None \<Rightarrow> (True, st) | Some k \<Rightarrow> consume_rate_limit net k st) of
             (False, st1) \<Rightarrow> (Inr (rate_limited integration), st1)
           | (True, st1) \<Rightarrow>
               (case inject po headers url of
                  (final_headers, final_url) \<Rightarrow>
                    (case execute_with_redirects net meth final_url final_headers body
                            (po_max_response_bytes po)
                            (Some (policy_redirect_guard po integration headers)) False (snd st1) of
                       (r, w') \<Rightarrow> (r, (fst st1, w'))))))"

text \<open>
  Both callers enforce the address check on the initial URL and on redirects; that is what
  the last two flags of the code say.
\<close>

definition execute_public_request ::
    "'s net \<Rightarrow> policy \<Rightarrow> string \<Rightarrow> string \<Rightarrow> string \<Rightarrow> (string \<times> string) list \<Rightarrow> string option
      \<Rightarrow> int \<Rightarrow> bool \<Rightarrow> bool \<Rightarrow> bool \<Rightarrow> bool \<Rightarrow> 's \<Rightarrow> pydict res \<times> 's" where
  "execute_public_request net po integration meth url headers body max_bytes enforce_validation
      enforce_initial_ssrf enforce_redirect_ssrf decode_utf8 w =
     (case (if enforce_validation then validate_or_deny po integration meth url headers else Inr None) of
        Inl e \<Rightarrow> (Inl e, w)
      | Inr (Some denial) \<Rightarrow> (Inr denial, w)
      | Inr None \<Rightarrow>
          (case (if enforce_initial_ssrf then ssrf_or_deny net integration meth url w else (Inr None, w)) of
             (Inl e, w1) \<Rightarrow> (Inl e, w1)
           | (Inr (Some denial), w1) \<Rightarrow> (Inr denial, w1)
           | (Inr None, w1) \<Rightarrow>
               (case inject po headers url of
                  (final_headers, final_url) \<Rightarrow>
                    execute_with_redirects net meth final_url final_headers body max_bytes
                      (Some (public_redirect_guard net po integration headers enforce_validation
                         enforce_redirect_ssrf)) decode_utf8 w1)))"

section \<open>The handlers\<close>

definition handle_http_request ::
    "'s net \<Rightarrow> broker \<Rightarrow> pydict \<Rightarrow> 's bstate \<Rightarrow> pydict res \<times> 's bstate" where
  "handle_http_request net br payload st =
     (case parse_http_request_payload payload of
        Inl err \<Rightarrow> (Inr err, st)
      | Inr q \<Rightarrow>
          (case hq_integration q of
             Some integration \<Rightarrow>
               (case map_of (br_policies br) integration of
                  None \<Rightarrow>
                    (Inr (deny integration (hq_method q) (hq_url q)
                       (''integration '' @ quoted integration @ '' not found in secrets.yaml'')), st)
                | Some po \<Rightarrow>
                    execute_policy_request net po integration (hq_method q) (hq_url q) (hq_headers q)
                      (hq_body q) (Some integration) st)
           | None \<Rightarrow>
               (let cfg = public_policy_config br
                in if \<not> truthy (dget_or cfg ''enabled'' (VBool True)) then
                     (Inr (deny ''_public'' (hq_method q) (hq_url q)
                        ''public requests disabled; specify an integration name''), st)
                   else
                     (case build_public_policy cfg of
                        Inl e \<Rightarrow> (Inl e, st)
                      | Inr po \<Rightarrow>
                          (case execute_public_request net po ''_public'' (hq_method q) (hq_url q)
                                  (hq_headers q) (hq_body q) (po_max_response_bytes po)
                                  True True True False (snd st) of
                             (r, w') \<Rightarrow> (r, (fst st, w')))))))"

definition handle_web_fetch ::
    "'s net \<Rightarrow> broker \<Rightarrow> pydict \<Rightarrow> 's bstate \<Rightarrow> pydict res \<times> 's bstate" where
  "handle_web_fetch net br payload st =
     (case parse_web_fetch_payload payload of
        Inl err \<Rightarrow> (Inr err, st)
      | Inr url \<Rightarrow>
          (case bind_res (build_public_policy []) (\<lambda>po.
                bind_res (web_fetch_max_response_bytes br) (\<lambda>n. Inr (po, n))) of
             Inl e \<Rightarrow> (Inl e, st)
           | Inr (po, n) \<Rightarrow>
               (case execute_public_request net po ''_web_fetch'' ''GET'' url [] None n
                       False True True True (snd st) of
                  (r, w') \<Rightarrow> (r, (fst st, w')))))"

definition invalid_json :: "string \<Rightarrow> pydict" where
  "invalid_json detail =
     dict_of [(''success'', VBool False), (''error'', VStr ''invalid_json''), (''detail'', VStr detail)]"

definition search_reply :: "string \<Rightarrow> int \<Rightarrow> pydict \<Rightarrow> pydict res" where
  "search_reply fmt max_results result =
     (if dget result ''success'' = VBool False then Inr result
      else
        (case json_loads (py_str (dget_or result ''body'' (VStr []))) of
           Inl (Exn k msg) \<Rightarrow> if k = JSONDecodeError then Inr (invalid_json msg) else Inl (Exn k msg)
         | Inr (VDict payload) \<Rightarrow>
             Inr (dict_of [(''success'', VBool True),
               (''results'', VList (if fmt = ''brave'' then normalize_brave_results payload max_results
                                    else normalize_searxng_results payload max_results))])
         | Inr _ \<Rightarrow> Inr (invalid_json ''expected object payload'')))"

definition handle_web_search ::
    "'s net \<Rightarrow> broker \<Rightarrow> pydict \<Rightarrow> 's bstate \<Rightarrow> pydict res \<times> 's bstate" where
  "handle_web_search net br payload st =
     (let endpoint = web_search_endpoint br
      in case map_of (br_policies br) ''_web_search'' of
           None \<Rightarrow>
             (Inr (deny ''_web_search'' ''GET'' endpoint
                ''web_search integration not configured in secrets.yaml''), st)
         | Some po \<Rightarrow>
             (case bind_res (web_search_max_results br) (parse_web_search_payload payload) of
                Inl e \<Rightarrow> (Inl e, st)
              | Inr (Inl err) \<Rightarrow> (Inr err, st)
              | Inr (Inr (query, max_results)) \<Rightarrow>
                  (let fmt = web_search_format br;
                       params = (if fmt = ''brave'' then [(''q'', query)]
                                 else [(''q'', query), (''format'', ''json'')])
                   in case append_query_params endpoint params of
                        Inl e \<Rightarrow> (Inl e, st)
                      | Inr search_url \<Rightarrow>
                          (case execute_policy_request net po ''_web_search'' ''GET'' search_url [] None
                                  None st of
                             (r, st') \<Rightarrow> (bind_res r (search_reply fmt max_results), st')))))"

definition handle_list_integrations :: "broker \<Rightarrow> pydict" where
  "handle_list_integrations br =
     dict_of [(''success'', VBool True),
       (''integrations'', VList (map VStr (list_integration_names (map fst (br_policies br)))))]"

section \<open>Dispatch\<close>

definition internal_error :: "string \<Rightarrow> pydict" where
  "internal_error detail =
     dict_of [(''success'', VBool False), (''error'', VStr ''internal_error''), (''detail'', VStr detail)]"

definition run_action ::
    "'s net \<Rightarrow> broker \<Rightarrow> pydict \<Rightarrow> 's bstate \<Rightarrow> pydict res \<times> 's bstate" where
  "run_action net br payload st =
     (let action_raw = dget payload ''action''; action = the_str action_raw
      in if action = ''http_request'' then handle_http_request net br payload st
         else if action = ''web_fetch'' then handle_web_fetch net br payload st
         else if action = ''web_search'' then handle_web_search net br payload st
         else if action = ''list_integrations'' then (Inr (handle_list_integrations br), st)
         else (Inr (dict_of [(''success'', VBool False),
                             (''error'', VStr (''unknown action: '' @ py_str action_raw))]), st))"

text \<open>The envelope check on the redacted result.\<close>

definition seal :: "pyval \<Rightarrow> pydict" where
  "seal redacted =
     (case redacted of
        VDict d \<Rightarrow>
          (if is_VBool (dget d ''success'') then d
           else internal_error ''invalid broker response: missing success envelope'')
      | _ \<Rightarrow> internal_error ''invalid broker response'')"

definition broker_handle :: "'s net \<Rightarrow> broker \<Rightarrow> pydict \<Rightarrow> 's bstate \<Rightarrow> pydict \<times> 's bstate" where
  "broker_handle net br payload st =
     (case run_action net br payload st of
        (r, st') \<Rightarrow>
          (seal (redact (br_tokens br)
             (VDict (case r of Inr d \<Rightarrow> d | Inl e \<Rightarrow> internal_error (exn_str e)))), st'))"

definition broker_handler :: "'s net \<Rightarrow> broker \<Rightarrow> 's bstate handler" where
  "broker_handler net br payload st =
     (case broker_handle net br payload st of (d, st') \<Rightarrow> (Inr (VDict d), st'))"

section \<open>Facts\<close>

lemma seal_envelope: "\<exists>b. dget (seal v) ''success'' = VBool b"
  by (cases v) (auto simp: seal_def internal_error_def elim: is_VBool.elims)

lemma seal_strings:
  "x \<in> set (val_strings (VDict (seal v))) \<Longrightarrow>
    x \<in> set (val_strings v)
    \<or> x \<in> set (val_strings (VDict (internal_error ''invalid broker response: missing success envelope'')))
    \<or> x \<in> set (val_strings (VDict (internal_error ''invalid broker response'')))"
  by (cases v) (auto simp: seal_def simp del: val_strings.simps split: if_splits)

interpretation broker_host: envelope_service "broker_handler net br" "\<lambda>_. True" for net br
proof unfold_locales
  fix w p
  obtain d w' where d: "broker_handle net br p w = (d, w')" by (metis surj_pair)
  then have "\<exists>b. dget d ''success'' = VBool b"
    using seal_envelope by (auto simp: broker_handle_def split: prod.splits)
  with d show "\<exists>d b w'. broker_handler net br p w = (Inr (VDict d), w') \<and> dget d ''success'' = VBool b \<and> True"
    by (auto simp: broker_handler_def)
qed

lemma new_broker_tokens:
  "new_broker net credentials config w = (Inr (br, lims), w') \<Longrightarrow> br_tokens br = credential_tokens credentials"
  by (auto simp: new_broker_def split: prod.splits sum.splits)

lemma load_policies_origin:
  "load_policies net creds pols lims w = (Inr (pols', lims'), w') \<Longrightarrow>
    (\<And>n po. map_of pols n = Some po \<Longrightarrow> \<exists>rec. from_record n rec = Inr po) \<Longrightarrow>
    map_of pols' n = Some po \<Longrightarrow> \<exists>rec. from_record n rec = Inr po"
proof (induction net creds pols lims w rule: load_policies.induct)
  case (2 net integration rec rest pols lims w)
  show ?case
  proof (cases "\<exists>name rcd. integration = KStr name \<and> rec = VDict rcd")
    case False
    then have "load_policies net rest pols lims w = (Inr (pols', lims'), w')"
      using "2.prems"(1) by (auto split: pykey.splits pyval.splits)
    then show ?thesis using "2.IH" False "2.prems"(2,3) by (cases integration; cases rec) auto
  next
    case True
    then obtain name rcd where nr: "integration = KStr name" "rec = VDict rcd" by blast
    show ?thesis
    proof (cases "from_record name rcd")
      case (Inl e)
      then show ?thesis using "2.IH" nr "2.prems" by (auto split: if_splits)
    next
      case (Inr p)
      have upd: "\<exists>rec. from_record m rec = Inr q" if "map_of (AList.update name p pols) m = Some q" for m q
        using that "2.prems"(2) Inr by (auto simp: update_conv' split: if_splits)
      show ?thesis
      proof (cases "(po_rate_limit_requests p, po_rate_limit_period p)")
        case (Pair a b)
        then show ?thesis
          using "2.IH" nr Inr "2.prems"(1,3) upd
          by (cases a; cases b) (auto split: prod.splits)
      qed
    qed
  qed
qed auto

text \<open>Every policy of a broker comes from a record of its credentials.\<close>

lemma new_broker_policies:
  "new_broker net credentials config w = (Inr (br, lims), w') \<Longrightarrow> map_of (br_policies br) n = Some po \<Longrightarrow>
    \<exists>rec. from_record n rec = Inr po"
  using load_policies_origin [of net credentials "[]" "[]" w]
  by (fastforce simp: new_broker_def split: prod.splits sum.splits)

lemma parse_http_upper: "parse_http_request_payload payload = Inr q \<Longrightarrow> upper (hq_method q) = hq_method q"
  by (auto simp: parse_http_request_payload_def Let_def split: if_splits pyval.splits sum.splits)

lemma inject_url: "snd (inject po headers url) = url"
  by (auto simp: inject_def Let_def)

lemma execute_policy_trace:
  assumes "execute_policy_request (logged_net net) po i meth url headers body key (lims, [], s) = (r, lims', tr, s')"
    and "upper meth = meth"
  shows "\<exists>n. checked_trace (policy_clear po meth headers)
      \<lparr>rq_method = meth, rq_url = url, rq_headers = fst (inject po headers url), rq_body = body\<rparr> n tr
    \<and> n \<le> (if meth = ''GET'' then 6 else 1)"
proof -
  have quiet_end: ?thesis if "tr = []"
    using that checked_trace.trace_end [of "[]"] by (intro exI [of _ 0]) simp
  show ?thesis
  proof (cases "validate_or_deny po i meth url headers = Inr None")
    case False
    then have "tr = []"
      using assms(1) by (auto simp: execute_policy_request_def split: sum.splits option.splits)
    then show ?thesis by (rule quiet_end)
  next
    case True
    obtain g st1 where g: "(case key of None \<Rightarrow> (True, lims, [], s)
        | Some k \<Rightarrow> consume_rate_limit (logged_net net) k (lims, [], s)) = (g, st1)"
      by (metis surj_pair)
    have lim: "fst (snd st1) = []"
      using g by (auto simp: consume_rate_limit_def logged_net_def split: option.splits prod.splits)
    then obtain l1 s1 where st1: "st1 = (l1, [], s1)" by (cases st1) auto
    show ?thesis
    proof (cases g)
      case False
      then have "tr = []" using assms(1) True g st1 by (simp add: execute_policy_request_def)
      then show ?thesis by (rule quiet_end)
    next
      case granted: True
      obtain fh fu where inj: "inject po headers url = (fh, fu)" by fastforce
      then have fu: "fu = url" using inject_url [of po headers url] by simp
      have f: "follow (logged_net net) (Some (policy_redirect_guard po i headers)) meth fh body
          (po_max_response_bytes po) False url MAX_REDIRECT_HOPS url ([] @ [], s1) = (r, tr, s')"
        using assms True g st1 granted inj fu
        by (auto simp: execute_policy_request_def execute_with_redirects_def split: prod.splits)
      have c: "policy_clear po meth headers url []"
        using True by (simp add: policy_clear_def validate_or_deny_None)
      show ?thesis
        using policy_guard.follow_checked [OF quiet_simps(1) c f] by (auto simp: MAX_REDIRECT_HOPS_def inj split: if_splits)
    qed
  qed
qed

lemma execute_public_trace:
  assumes "execute_public_request (logged_net net) po i meth url headers body mb enforce True True dec ([], s)
      = (r, tr, s')"
    and "upper meth = meth"
  shows "\<exists>n. checked_trace (public_clear po meth headers enforce)
      \<lparr>rq_method = meth, rq_url = url, rq_headers = fst (inject po headers url), rq_body = body\<rparr> n tr
    \<and> n \<le> (if meth = ''GET'' then 6 else 1)"
proof -
  have quiet_end: ?thesis if "quiet tr"
    using that by (intro exI [of _ 0] conjI checked_trace.trace_end) auto
  let ?v = "if enforce then validate_or_deny po i meth url headers else Inr None"
  show ?thesis
  proof (cases "?v = Inr None")
    case False
    then have "tr = []"
      using assms(1) by (auto simp: execute_public_request_def split: sum.splits option.splits if_splits)
    then show ?thesis by (intro quiet_end) simp
  next
    case True
    obtain v lg1 s1 where v: "ssrf_or_deny (logged_net net) i meth url ([], s) = (v, lg1, s1)"
      by (metis surj_pair)
    obtain es where es: "lg1 = [] @ es" "quiet es" "v = Inr None \<longrightarrow> safe_lookup url es"
      using ssrf_or_deny_logged [OF v] by blast
    show ?thesis
    proof (cases "v = Inr None")
      case False
      then have "tr = es"
        using assms(1) True v es(1)
        by (auto simp: execute_public_request_def split: sum.splits option.splits if_splits)
      then show ?thesis using es(2) by (intro quiet_end) simp
    next
      case cleared: True
      obtain fh fu where inj: "inject po headers url = (fh, fu)" by fastforce
      then have fu: "fu = url" using inject_url [of po headers url] by simp
      have f: "follow (logged_net net) (Some (public_redirect_guard (logged_net net) po i headers enforce True))
          meth fh body mb dec url MAX_REDIRECT_HOPS url ([] @ es, s1) = (r, tr, s')"
        using assms True v cleared es(1) inj fu
        by (simp add: execute_public_request_def execute_with_redirects_def)
      have c: "public_clear po meth headers enforce url es"
        using True cleared es(3) by (auto simp: public_clear_def validate_or_deny_None)
      show ?thesis
        using public_guard.follow_checked [OF es(2) c f] by (auto simp: MAX_REDIRECT_HOPS_def inj split: if_splits)
    qed
  qed
qed

section \<open>Properties\<close>

text \<open>
  What a payload asks to be sent: the policy whose credential it uses, if any, the method, the
  headers of the model, and the body. A payload that is refused before any request is \<open>None\<close>.
\<close>

definition asked :: "broker \<Rightarrow> pydict \<Rightarrow> (policy option \<times> string \<times> (string \<times> string) list \<times> string option) option" where
  "asked br payload =
     (let action = the_str (dget payload ''action'')
      in if action = ''http_request'' then
           (case parse_http_request_payload payload of
              Inl _ \<Rightarrow> None
            | Inr q \<Rightarrow>
                (case hq_integration q of
                   None \<Rightarrow> Some (None, hq_method q, hq_headers q, hq_body q)
                 | Some i \<Rightarrow>
                     map_option (\<lambda>po. (Some po, hq_method q, hq_headers q, hq_body q)) (map_of (br_policies br) i)))
         else if action = ''web_fetch'' then Some (None, ''GET'', [], None)
         else if action = ''web_search'' then
           map_option (\<lambda>po. (Some po, ''GET'', [], None)) (map_of (br_policies br) ''_web_search'')
         else None)"

lemma upper_GET: "upper ''GET'' = ''GET''"
  by code_simp

lemma merge_no_headers [simp]: "merge_headers hs [] = hs"
  by (simp add: merge_headers_def)

lemma public_policy_injects_nothing:
  "build_public_policy cfg = Inr po \<Longrightarrow> fst (inject po hs url) = merge_headers [] hs"
  by (auto simp: build_public_policy_def bind_res_eq_Inr inject_def)

lemma inject_headers: "fst (inject po hs url) = fst (inject po hs url')"
  by (simp add: inject_def Let_def)

text \<open>
  The requests of a trace: the same method, headers and body in all of them, each one cleared,
  and few of them.
\<close>

definition uniform :: "(string \<Rightarrow> bool) \<Rightarrow> string \<Rightarrow> (string \<times> string) list \<Rightarrow> string option \<Rightarrow> net_event list \<Rightarrow> bool" where
  "uniform ok meth headers body tr =
     (length (sent_requests tr) \<le> (if meth = ''GET'' then 6 else 1)
      \<and> (\<forall>rq \<in> set (sent_requests tr).
          ok (rq_url rq) \<and> rq_method rq = meth \<and> rq_headers rq = headers \<and> rq_body rq = body))"

lemma uniform_silent [simp]: "uniform ok meth headers body []"
  by (simp add: uniform_def sent_requests_def)

lemma uniform_policy:
  assumes "execute_policy_request (logged_net net) po i meth url headers body key (lims, [], s) = (r, lims', tr, s')"
    and "upper meth = meth"
  shows "uniform (\<lambda>u. validate po meth u headers = Inr Allow) meth (fst (inject po headers url)) body tr"
proof -
  obtain n where n: "checked_trace (policy_clear po meth headers)
      \<lparr>rq_method = meth, rq_url = url, rq_headers = fst (inject po headers url), rq_body = body\<rparr> n tr"
      "n \<le> (if meth = ''GET'' then 6 else 1)"
    using execute_policy_trace [OF assms] by blast
  then show ?thesis
    using checked_trace_cleared [OF n(1)] checked_trace_length [OF n(1)]
    unfolding uniform_def policy_clear_def by fastforce
qed

lemma uniform_public:
  assumes "execute_public_request (logged_net net) po i meth url headers body mb enforce True True dec ([], s)
      = (r, tr, s')"
    and "upper meth = meth"
  shows "uniform (\<lambda>_. True) meth (fst (inject po headers url)) body tr"
proof -
  obtain n where n: "checked_trace (public_clear po meth headers enforce)
      \<lparr>rq_method = meth, rq_url = url, rq_headers = fst (inject po headers url), rq_body = body\<rparr> n tr"
      "n \<le> (if meth = ''GET'' then 6 else 1)"
    using execute_public_trace [OF assms] by blast
  then show ?thesis
    using checked_trace_cleared [OF n(1)] checked_trace_length [OF n(1)]
    unfolding uniform_def by fastforce
qed

text \<open>The handlers, one by one.\<close>

definition as_asked ::
    "(policy option \<times> string \<times> (string \<times> string) list \<times> string option) option \<Rightarrow> net_event list \<Rightarrow> bool" where
  "as_asked a tr =
     (case a of
        None \<Rightarrow> sent_requests tr = []
      | Some (None, meth, headers, body) \<Rightarrow> uniform (\<lambda>_. True) meth (merge_headers [] headers) body tr
      | Some (Some po, meth, headers, body) \<Rightarrow>
          uniform (\<lambda>u. validate po meth u headers = Inr Allow) meth (fst (inject po headers [])) body tr)"

lemma as_asked_silent [simp]: "as_asked a []"
  by (auto simp: as_asked_def sent_requests_def split: option.splits)

lemma http_as_asked:
  assumes "handle_http_request (logged_net net) br payload (lims, [], s) = (r, lims', tr, s')"
    and "the_str (dget payload ''action'') = ''http_request''"
  shows "as_asked (asked br payload) tr"
proof (cases "tr = []")
  case False
  then obtain q where q: "parse_http_request_payload payload = Inr q"
    using assms(1) by (auto simp: handle_http_request_def split: sum.splits)
  show ?thesis
  proof (cases "hq_integration q")
    case None
    then obtain cfg po mb where po: "build_public_policy cfg = Inr po"
        "execute_public_request (logged_net net) po ''_public'' (hq_method q) (hq_url q) (hq_headers q)
          (hq_body q) mb True True True False ([], s) = (r, tr, s')"
      using assms(1) q False
      by (auto simp: handle_http_request_def Let_def split: if_splits sum.splits prod.splits)
    then show ?thesis
      using uniform_public [OF po(2) parse_http_upper [OF q]] assms(2) q None
      by (simp add: asked_def as_asked_def public_policy_injects_nothing [OF po(1)])
  next
    case (Some i)
    then obtain po where po: "map_of (br_policies br) i = Some po"
      using assms(1) q False by (auto simp: handle_http_request_def split: option.splits)
    then have "execute_policy_request (logged_net net) po i (hq_method q) (hq_url q) (hq_headers q) (hq_body q)
        (Some i) (lims, [], s) = (r, lims', tr, s')"
      using assms(1) q Some by (simp add: handle_http_request_def)
    from uniform_policy [OF this parse_http_upper [OF q]] show ?thesis
      using assms(2) q Some po inject_headers [of po "hq_headers q" "hq_url q" "[]"]
      by (simp add: asked_def as_asked_def)
  qed
qed simp

lemma fetch_as_asked:
  assumes "handle_web_fetch (logged_net net) br payload (lims, [], s) = (r, lims', tr, s')"
    and "the_str (dget payload ''action'') = ''web_fetch''"
  shows "as_asked (asked br payload) tr"
proof (cases "tr = []")
  case False
  then obtain url po mb where u: "build_public_policy [] = Inr po"
      "execute_public_request (logged_net net) po ''_web_fetch'' ''GET'' url [] None mb False True True True ([], s)
        = (r, tr, s')"
    using assms(1) by (auto simp: handle_web_fetch_def bind_res_eq_Inr split: sum.splits prod.splits)
  from uniform_public [OF u(2) upper_GET] show ?thesis
    using assms(2) public_policy_injects_nothing [OF u(1), of "[]" url] by (simp add: asked_def as_asked_def)
qed simp

lemma search_as_asked:
  assumes "handle_web_search (logged_net net) br payload (lims, [], s) = (r, lims', tr, s')"
    and "the_str (dget payload ''action'') = ''web_search''"
  shows "as_asked (asked br payload) tr"
proof (cases "tr = []")
  case False
  then obtain po url r0 where u: "map_of (br_policies br) ''_web_search'' = Some po"
      "execute_policy_request (logged_net net) po ''_web_search'' ''GET'' url [] None None (lims, [], s)
        = (r0, lims', tr, s')"
    using assms(1)
    by (auto simp: handle_web_search_def Let_def split: option.splits sum.splits prod.splits)
  from uniform_policy [OF u(2) upper_GET] show ?thesis
    using assms(2) u(1) inject_headers [of po "[]" url "[]"] by (simp add: asked_def as_asked_def)
qed simp

lemma run_as_asked:
  assumes "run_action (logged_net net) br payload (lims, [], s) = (r, lims', tr, s')"
  shows "as_asked (asked br payload) tr"
proof (cases "tr = []")
  case False
  then show ?thesis
    using assms http_as_asked fetch_as_asked search_as_asked
    unfolding run_action_def by (auto simp: Let_def split: if_splits)
qed simp

text \<open>
  C2. Every request the broker sends in answer to a payload, redirects included, with a
  credential or without. When the payload uses an integration (the one named by
  \<open>http_request\<close>, or \<open>_web_search\<close> for a web search), the policy of that integration allowed
  each request at its own URL, and each carries exactly the headers injected for it. When it
  uses none, the headers are those of the model alone, so no credential is sent. In all cases
  the method and the body are those asked for, and at most six requests are sent, one when the
  method is not \<open>GET\<close>; a payload that is refused sends nothing.
\<close>

theorem credentialed_requests_validated:
  assumes "broker_handle (logged_net net) br payload (lims, [], s) = (d, lims', tr, s')"
  shows "case asked br payload of
      None \<Rightarrow> sent_requests tr = []
    | Some (integration, meth, headers, body) \<Rightarrow>
        length (sent_requests tr) \<le> (if meth = ''GET'' then 6 else 1)
        \<and> (\<forall>rq \<in> set (sent_requests tr). rq_method rq = meth \<and> rq_body rq = body
            \<and> (case integration of
                 None \<Rightarrow> rq_headers rq = merge_headers [] headers
               | Some po \<Rightarrow> validate po (rq_method rq) (rq_url rq) headers = Inr Allow
                   \<and> rq_headers rq = fst (inject po headers (rq_url rq))))"
proof -
  obtain r where "run_action (logged_net net) br payload (lims, [], s) = (r, lims', tr, s')"
    using assms by (auto simp: broker_handle_def split: prod.splits)
  note run = run_as_asked [OF this]
  show ?thesis
  proof (cases "asked br payload")
    case None
    then show ?thesis using run by (simp add: as_asked_def)
  next
    case (Some a)
    moreover obtain integration meth headers body where "a = (integration, meth, headers, body)" by (cases a)
    ultimately show ?thesis
      using run by (cases integration) (auto simp: as_asked_def uniform_def intro: inject_headers)
  qed
qed

definition sample_policy :: policy where
  "sample_policy =
     \<lparr>po_name = ''x'', po_auth_type = ''bearer'', po_token = ''s3cr3t'', po_header_name = ''Authorization'',
      po_allowed_hosts = [''api.x.com''], po_allowed_methods = [''GET''], po_allowed_paths = [''/*''],
      po_allowed_schemes = [''https''], po_protected_headers = [''Authorization''], po_default_headers = [],
      po_max_response_bytes = 100, po_rate_limit_requests = None, po_rate_limit_period = None\<rparr>"

definition sample_broker :: broker where
  "sample_broker = \<lparr>br_policies = [(''x'', sample_policy)], br_config = [], br_tokens = [''s3cr3t'']\<rparr>"

definition sample_payload :: pydict where
  "sample_payload = dict_of [(''action'', VStr ''http_request''), (''method'', VStr ''get''),
     (''url'', VStr ''https://api.x.com/a''), (''integration'', VStr ''x'')]"

definition ok_response :: response where
  "ok_response = \<lparr>rs_status = 200, rs_headers = [], rs_encoding = None, rs_chunks = [''s3cr3t!''], rs_error = None\<rparr>"

definition search_policy :: policy where
  "search_policy = sample_policy\<lparr>po_name := ''_web_search'', po_auth_type := ''header'', po_header_name := ''X-Key''\<rparr>"

definition search_broker :: broker where
  "search_broker = \<lparr>br_policies = [(''_web_search'', search_policy)],
     br_config = dict_of [(''web_search'', VDict (dict_of [(''endpoint'', VStr ''https://api.x.com/s'')]))],
     br_tokens = [''s3cr3t'']\<rparr>"

definition search_payload :: pydict where
  "search_payload = dict_of [(''action'', VStr ''web_search''), (''query'', VStr ''q'')]"

text \<open>One request of each kind that carries a credential; both are sent.\<close>

theorem credentialed_requests_validated_witness:
  "list_all (\<lambda>rq. validate sample_policy ''GET'' (rq_url rq) [] = Inr Allow)
      (sent_requests (fst (snd (snd (broker_handle (logged_net (echo_net ok_response)) sample_broker
        sample_payload ([], [], 0))))))
    \<and> list_all (\<lambda>rq. validate search_policy ''GET'' (rq_url rq) [] = Inr Allow)
      (sent_requests (fst (snd (snd (broker_handle (logged_net (echo_net ok_response)) search_broker
        search_payload ([], [], 0))))))
    \<and> sent_requests (fst (snd (snd (broker_handle (logged_net (echo_net ok_response)) sample_broker
        sample_payload ([], [], 0))))) \<noteq> []
    \<and> sent_requests (fst (snd (snd (broker_handle (logged_net (echo_net ok_response)) search_broker
        search_payload ([], [], 0))))) \<noteq> []"
proof (intro conjI)
  let ?run = "\<lambda>br payload. broker_handle (logged_net (echo_net ok_response)) br payload ([], [], 0)"
  have a: "asked sample_broker sample_payload = Some (Some sample_policy, ''GET'', [], None)"
      "asked search_broker search_payload = Some (Some search_policy, ''GET'', [], None)"
    by code_simp+
  have allowed: "list_all (\<lambda>rq. validate po ''GET'' (rq_url rq) [] = Inr Allow) (sent_requests (fst (snd (snd (?run br payload)))))"
    if "asked br payload = Some (Some po, ''GET'', [], None)" for br payload po
  proof -
    obtain d lims' tr s' where r: "?run br payload = (d, lims', tr, s')" by (metis surj_pair)
    from credentialed_requests_validated [OF r] show ?thesis using that r by (auto simp: list_all_iff)
  qed
  show "list_all (\<lambda>rq. validate sample_policy ''GET'' (rq_url rq) [] = Inr Allow)
      (sent_requests (fst (snd (snd (?run sample_broker sample_payload)))))"
    by (rule allowed [OF a(1)])
  show "list_all (\<lambda>rq. validate search_policy ''GET'' (rq_url rq) [] = Inr Allow)
      (sent_requests (fst (snd (snd (?run search_broker search_payload)))))"
    by (rule allowed [OF a(2)])
  show "sent_requests (fst (snd (snd (?run sample_broker sample_payload)))) \<noteq> []" by code_simp
  show "sent_requests (fst (snd (snd (?run search_broker search_payload)))) \<noteq> []" by code_simp
qed

text \<open>
  C7. No public fetch goes to a blocked address: each request of \<open>web_fetch\<close>, the first
  one and every redirect, comes right after a lookup of its own host whose addresses are all
  public, over http or https; it carries no header, and there are at most six.
\<close>

theorem web_fetch_ssrf_safe:
  assumes "handle_web_fetch (logged_net net) br payload (lims, [], s) = (r, lims', tr, s')"
  shows "length (sent_requests tr) \<le> 6 \<and> lims' = lims
    \<and> (\<forall>rq \<in> set (sent_requests tr). rq_method rq = ''GET'' \<and> rq_headers rq = [] \<and> rq_body rq = None
        \<and> (\<exists>pre es post. tr = pre @ es @ Sent rq # post \<and> quiet es \<and> safe_lookup (rq_url rq) es))"
proof (cases "sent_requests tr = []")
  case True
  then show ?thesis
    using assms by (auto simp: handle_web_fetch_def split: sum.splits prod.splits)
next
  case False
  then obtain url po mb where u: "build_public_policy [] = Inr po" "lims' = lims"
      "execute_public_request (logged_net net) po ''_web_fetch'' ''GET'' url [] None mb False True True True ([], s)
        = (r, tr, s')"
    using assms
    by (auto simp: handle_web_fetch_def bind_res_eq_Inr sent_requests_def split: sum.splits prod.splits)
  have "upper ''GET'' = ''GET''" by code_simp
  then obtain n where n: "checked_trace (public_clear po ''GET'' [] False)
      \<lparr>rq_method = ''GET'', rq_url = url, rq_headers = fst (inject po [] url), rq_body = None\<rparr> n tr" "n \<le> 6"
    using execute_public_trace [OF u(3)] by auto
  have "fst (inject po [] url) = []"
    using u(1) by (auto simp: build_public_policy_def bind_res_eq_Inr inject_def merge_headers_def)
  then show ?thesis
    using checked_trace_cleared [OF n(1)] checked_trace_length [OF n(1)] n(2) u(2)
    by (fastforce simp: public_clear_def)
qed

lemma public_address: "first_blocked [''93.184.216.34''] = None"
proof -
  have "ip_address ''93.184.216.34'' = Some (V4 (ip4 93 184 216 34))"
  proof -
    have "parse_ip4 ''93.184.216.34'' = Some (ip4 93 184 216 34)"
      by (simp add: parse_ip4_def parse_octet_def is_digit_def code_def digits_val_def)
    then show ?thesis by (simp add: ip_address_def)
  qed
  then show ?thesis by (simp add: private4_octets v4_octets_blocked_def)
qed

theorem web_fetch_ssrf_safe_witness:
  "\<exists>r lims' tr s'. handle_web_fetch (logged_net (echo_net ok_response)) sample_broker
      (dict_of [(''url'', VStr ''http://example.com/'')]) ([], [], 0) = (r, lims', tr, s')
    \<and> length (sent_requests tr) = 1
    \<and> (\<forall>rq \<in> set (sent_requests tr).
        \<exists>pre es post. tr = pre @ es @ Sent rq # post \<and> quiet es \<and> safe_lookup (rq_url rq) es)"
proof -
  let ?net = "logged_net (echo_net ok_response)"
  obtain r lims' tr s' where h: "handle_web_fetch ?net sample_broker
      (dict_of [(''url'', VStr ''http://example.com/'')]) ([], [], 0) = (r, lims', tr, s')"
    by (metis surj_pair)
  have up: "urlparse ''http://example.com/'' = Inr \<lparr>u_scheme = ''http'', u_netloc = ''example.com'', u_path = ''/'',
      u_params = [], u_query = [], u_fragment = []\<rparr>" by code_simp
  have pl: "parse_web_fetch_payload (dict_of [(''url'', VStr ''http://example.com/'')]) = Inr ''http://example.com/''"
    by code_simp
  have host: "hostname \<lparr>u_scheme = ''http'', u_netloc = ''example.com'', u_path = ''/'',
      u_params = [], u_query = [], u_fragment = []\<rparr> = Some ''example.com''" by code_simp
  have low: "lower ''http'' = ''http''" "upper ''GET'' = ''GET''" by code_simp+
  have "length (sent_requests tr) = 1"
    using h pl
    by (auto simp: handle_web_fetch_def build_public_policy_def to_positive_int_def int_or_none_def
        web_fetch_max_response_bytes_def sample_broker_def execute_public_request_def ssrf_or_deny_def
        ssrf_check_def up host low PUBLIC_ALLOWED_SCHEMES_def logged_net_def echo_net_def public_address
        inject_def merge_headers_def execute_with_redirects_def follow.simps execute_def ok_response_def
        catch_request_exception_def read_response_body_def DEFAULT_WEB_FETCH_MAX_RESPONSE_BYTES_def
        decide_def to_int_def redirect_target_def REDIRECT_STATUS_CODES_def sent_requests_def raise_def
        simp del: first_blocked.simps split: if_splits prod.splits)
  then show ?thesis using h web_fetch_ssrf_safe [OF h] by blast
qed

text \<open>
  A denied request touches nothing: for an unknown integration, or when the policy does
  not allow the request, neither the network nor a rate limiter is used, and the reply is
  not a success.
\<close>

theorem denied_request_is_inert:
  assumes "parse_http_request_payload payload = Inr q" and "hq_integration q = Some i"
    and "\<And>po. map_of (br_policies br) i = Some po \<Longrightarrow>
        validate po (hq_method q) (hq_url q) (hq_headers q) \<noteq> Inr Allow"
  shows "\<exists>r. handle_http_request net br payload st = (r, st)
    \<and> (\<forall>d. r = Inr d \<longrightarrow> dget d ''success'' = VBool False \<and> dget d ''error'' = VStr ''policy_denied'')"
proof (cases "map_of (br_policies br) i")
  case None
  then show ?thesis using assms(1,2) by (simp add: handle_http_request_def deny_def)
next
  case (Some po)
  note no = assms(3) [OF Some]
  show ?thesis
  proof (cases rule: validate_or_deny_cases [of po "hq_method q" "hq_url q" "hq_headers q" i])
    case (error e)
    then show ?thesis using assms(1,2) Some by (simp add: handle_http_request_def execute_policy_request_def)
  next
    case allow
    with no show ?thesis by simp
  next
    case (denied m)
    then show ?thesis
      using assms(1,2) Some by (simp add: handle_http_request_def execute_policy_request_def deny_def)
  qed
qed

theorem denied_request_is_inert_witness:
  "\<exists>r. handle_http_request (echo_net ok_response) sample_broker
      (dset sample_payload ''url'' (VStr ''https://evil.com/a'')) ([], 0) = (r, ([], 0))
    \<and> (\<forall>d. r = Inr d \<longrightarrow> dget d ''success'' = VBool False)"
proof -
  let ?p = "dset sample_payload ''url'' (VStr ''https://evil.com/a'')"
  obtain q where q: "parse_http_request_payload ?p = Inr q" "hq_integration q = Some ''x''"
      "validate sample_policy (hq_method q) (hq_url q) (hq_headers q) \<noteq> Inr Allow"
  proof -
    have "case parse_http_request_payload ?p of Inr q \<Rightarrow> hq_integration q = Some ''x''
        \<and> (case validate sample_policy (hq_method q) (hq_url q) (hq_headers q) of
             Inr Allow \<Rightarrow> False | _ \<Rightarrow> True) | _ \<Rightarrow> False"
      by code_simp
    then show thesis using that by (auto split: sum.splits verdict.splits)
  qed
  have "\<And>po. map_of (br_policies sample_broker) ''x'' = Some po \<Longrightarrow>
      validate po (hq_method q) (hq_url q) (hq_headers q) \<noteq> Inr Allow"
    using q(3) by (simp add: sample_broker_def)
  from denied_request_is_inert [OF q(1,2) this] show ?thesis by blast
qed

text \<open>
  C5. No credential leaves the broker: the reply to any payload is a mapping with a boolean
  \<open>success\<close>, and no string in it, key or value at any depth, contains a token of the
  credentials. The token has to be free of brackets and must not be a part of the marker's
  word or of the broker's own fixed error replies.
\<close>

theorem broker_reply_redacted:
  assumes "new_broker net credentials config w = (Inr (br, lims), w')"
    and "t \<in> set (credential_tokens credentials)" and "plain_token t"
    and "\<forall>x \<in> set (val_strings (VDict (internal_error ''invalid broker response: missing success envelope'')))
            \<union> set (val_strings (VDict (internal_error ''invalid broker response''))). \<not> sublist t x"
    and "broker_handle net br payload st = (d, st')"
  shows "(\<exists>b. dget d ''success'' = VBool b) \<and> (\<forall>x \<in> set (val_strings (VDict d)). \<not> sublist t x)"
proof -
  obtain v where d: "d = seal (redact (br_tokens br) v)"
    using assms(5) by (auto simp: broker_handle_def split: prod.splits)
  have "\<not> sublist t x" if "x \<in> set (val_strings (VDict d))" for x
    using seal_strings [OF that [unfolded d]] assms(4)
      redact_clean [OF assms(3,2), of x v, folded new_broker_tokens [OF assms(1)]] by blast
  then show ?thesis using seal_envelope by (auto simp: d)
qed

definition sample_credentials :: pydict where
  "sample_credentials = dict_of [(''x'', VDict (dset sample_record ''auth_type'' (VStr ''bearer'')))]"

theorem broker_reply_redacted_witness:
  "\<exists>br lims d st'. new_broker (echo_net ok_response) sample_credentials [] 0 = (Inr (br, lims), 0)
    \<and> broker_handle (echo_net ok_response) br
        (dset sample_payload ''url'' (VStr ''https://api.x.com/v1/s3cr3t'')) ([], 0) = (d, st')
    \<and> (\<forall>x \<in> set (val_strings (VDict d)). \<not> sublist ''s3cr3t'' x)"
proof -
  have "case new_broker (echo_net ok_response) sample_credentials [] 0 of (Inr _, w) \<Rightarrow> w = 0 | _ \<Rightarrow> False"
    by code_simp
  then obtain br lims where b: "new_broker (echo_net ok_response) sample_credentials [] 0 = (Inr (br, lims), 0)"
    by (auto split: prod.splits sum.splits)
  obtain d st' where d: "broker_handle (echo_net ok_response) br
        (dset sample_payload ''url'' (VStr ''https://api.x.com/v1/s3cr3t'')) ([], 0) = (d, st')"
    by (metis surj_pair)
  have "''s3cr3t'' \<in> set (credential_tokens sample_credentials)" by code_simp
  moreover have "plain_token ''s3cr3t''" by code_simp
  moreover have "\<forall>x \<in> set (val_strings (VDict (internal_error ''invalid broker response: missing success envelope'')))
      \<union> set (val_strings (VDict (internal_error ''invalid broker response''))). \<not> sublist ''s3cr3t'' x"
    by code_simp
  ultimately show ?thesis using b d broker_reply_redacted [OF b _ _ _ d] by blast
qed

end
