(* ===== verification/ToolBroker.thy ===== *)
theory ToolBroker
  imports Tools Broker
begin

text \<open>
  The agent's \<open>http_request\<close> tool against the host's broker: what the tool sends is what
  the broker reads.
\<close>

lemma string_map_ok:
  "list_all (\<lambda>p. key_is_str (fst p) \<and> is_VStr (snd p)) d \<Longrightarrow>
    \<exists>hs. string_map d = Some hs \<and> dict_of (map (map_prod id VStr) hs) = d"
proof (induction d)
  case Nil
  then show ?case by (simp add: string_map_def dict_of_def)
next
  case (Cons p d)
  then obtain k v where "p = (KStr k, VStr v)"
    by (cases p; cases "fst p"; cases "snd p") auto
  with Cons show ?case by (fastforce simp: string_map_def dict_of_def)
qed

lemma allowed_methods_fixed:
  "m \<in> set HTTP_REQUEST_ALLOWED_METHODS \<Longrightarrow> upper (strip m) = m \<and> strip m \<noteq> []"
proof -
  have "\<forall>m \<in> set HTTP_REQUEST_ALLOWED_METHODS. upper (strip m) = m \<and> strip m \<noteq> []" by code_simp
  then show "m \<in> set HTTP_REQUEST_ALLOWED_METHODS \<Longrightarrow> upper (strip m) = m \<and> strip m \<noteq> []" by blast
qed

text \<open>
  A request the tool lets through is never rejected by the broker as malformed: it is read
  with the same URL, method, headers, body and integration that the model asked for, and its
  method is one of the five the tool allows.
\<close>

theorem tool_requests_accepted:
  assumes "http_payload args = Inr payload"
  shows "\<exists>hq u m. parse_http_request_payload payload = Inr hq
    \<and> dget args ''url'' = VStr u \<and> hq_url hq = strip u
    \<and> dget args ''method'' = VStr m \<and> hq_method hq = upper (strip m)
    \<and> hq_method hq \<in> set HTTP_REQUEST_ALLOWED_METHODS
    \<and> dict_of (map (map_prod id VStr) (hq_headers hq)) = as_dict (dget args ''headers'')
    \<and> (case hq_body hq of None \<Rightarrow> dget args ''body'' = VNone | Some b \<Rightarrow> dget args ''body'' = VStr b)
    \<and> hq_integration hq = (case dget args ''integration'' of
         VStr s \<Rightarrow> if strip s = [] then None else Some (strip s) | _ \<Rightarrow> None)"
proof -
  obtain m u headers where m: "dget args ''method'' = VStr m" "strip m \<noteq> []"
      "upper (strip m) \<in> set HTTP_REQUEST_ALLOWED_METHODS"
    and u: "dget args ''url'' = VStr u" "strip u \<noteq> []"
    and h: "http_headers (dget_or args ''headers'' (VDict [])) = Inr headers"
    and i: "str_or_none (dget args ''integration'')" and b: "str_or_none (dget args ''body'')"
    and p: "payload = dict_of [(''action'', VStr ''http_request''), (''integration'', dget args ''integration''),
       (''method'', VStr (upper (strip m))), (''url'', VStr (strip u)), (''headers'', VDict headers),
       (''body'', dget args ''body'')]"
    using assms by (auto simp: http_payload_def Let_def split: pyval.splits if_splits sum.splits)
  have hd: "list_all (\<lambda>p. key_is_str (fst p) \<and> is_VStr (snd p)) headers" "headers = as_dict (dget args ''headers'')"
    using h by (auto simp: http_headers_def dget_def dget_or_def split: pyval.splits if_splits option.splits)
  obtain hs where hs: "string_map headers = Some hs" "dict_of (map (map_prod id VStr) hs) = headers"
    using string_map_ok [OF hd(1)] by blast
  note mm = allowed_methods_fixed [OF m(3)]
  have "upper (strip (upper (strip m))) = upper (strip m)" and "strip (upper (strip m)) \<noteq> []" using mm by auto
  then show ?thesis
    using m u i b hs hd(2)
    by (auto simp: p parse_http_request_payload_def nonblank_def normalize_headers_def Let_def str_or_none_def
        dget_or_def split: pyval.splits)
qed

theorem tool_requests_accepted_witness:
  "\<exists>hq. parse_http_request_payload (dict_of [(''action'', VStr ''http_request''), (''integration'', VNone),
      (''method'', VStr ''GET''), (''url'', VStr ''http://e/''), (''headers'', VDict []), (''body'', VNone)]) = Inr hq
    \<and> hq_url hq = ''http://e/''"
proof -
  let ?a = "dict_of [(''method'', VStr ''get''), (''url'', VStr ''http://e/'')]"
  have "http_payload ?a = Inr (dict_of [(''action'', VStr ''http_request''), (''integration'', VNone),
      (''method'', VStr ''GET''), (''url'', VStr ''http://e/''), (''headers'', VDict []), (''body'', VNone)])"
    and "strip ''http://e/'' = ''http://e/''" and "dget ?a ''url'' = VStr ''http://e/''"
    by code_simp+
  then show ?thesis using tool_requests_accepted by fastforce
qed

end
