(* ===== verification/Pattern.thy ===== *)
theory Pattern
  imports PyStr
begin

text \<open>
  What the source uses of \<open>re\<close>: \<open>search\<close> and \<open>sub\<close>. A pattern is a function that matches at
  one position; it is told whether the character before is a word character, so that it can
  test \<open>\b\<close> there.
\<close>

definition is_word :: "char \<Rightarrow> bool" where
  "is_word c = (is_alnum c \<or> c = CHR ''_'')"

text \<open>\<open>\b\<close> between what was read and the rest.\<close>

definition boundary :: "bool \<Rightarrow> string \<Rightarrow> bool" where
  "boundary prev rest = (prev \<noteq> (rest \<noteq> [] \<and> is_word (hd rest)))"

text \<open>A match at a position gives a value and what follows the match.\<close>

type_synonym 'a matcher = "bool \<Rightarrow> string \<Rightarrow> ('a \<times> string) option"

fun search :: "'a matcher \<Rightarrow> bool \<Rightarrow> string \<Rightarrow> 'a option" where
  "search m prev s =
     (case m prev s of
        Some (x, rest) \<Rightarrow> Some x
      | None \<Rightarrow> (case s of [] \<Rightarrow> None | c # cs \<Rightarrow> search m (is_word c) cs))"

declare search.simps [simp del]

text \<open>
  \<open>sub\<close>: every match, from the left, is replaced by its value. A match that consumes nothing
  would not advance; none of the program's patterns matches the empty string.
\<close>

function sub_all :: "string matcher \<Rightarrow> bool \<Rightarrow> string \<Rightarrow> string" where
  "sub_all m prev s =
     (if s = [] then []
      else
        (case m prev s of
           Some (x, rest) \<Rightarrow>
             if length rest < length s then x @ sub_all m (is_word (s ! (length s - length rest - 1))) rest
             else hd s # sub_all m (is_word (hd s)) (tl s)
         | None \<Rightarrow> hd s # sub_all m (is_word (hd s)) (tl s)))"
  by pat_completeness auto

termination
  by (relation "measure (\<lambda>(m, prev, s). length s)") auto

declare sub_all.simps [simp del]

text \<open>A word, any case, starting and ending at a word boundary.\<close>

definition match_word :: "string list \<Rightarrow> string matcher" where
  "match_word words prev s =
     (if prev then None
      else
        map_option (\<lambda>w. (take (length w) s, drop (length w) s))
          (find (\<lambda>w. lower (take (length w) s) = w \<and> boundary True (drop (length w) s)) words))"

text \<open>The longest prefix of at least \<open>low\<close> and at most \<open>high\<close> characters of a class that ends
  at a word boundary.\<close>

definition match_class :: "(char \<Rightarrow> bool) \<Rightarrow> nat \<Rightarrow> nat \<Rightarrow> string \<Rightarrow> (string \<times> string) option" where
  "match_class P low high s =
     (let n = min high (length (takeWhile P s))
      in map_option (\<lambda>k. (take k s, drop k s))
           (find (\<lambda>k. 0 < k \<and> boundary (is_word (s ! (k - 1))) (drop k s)) (rev [low..<Suc n])))"

end
