(* ===== verification/Effect.thy ===== *)
theory Effect
  imports Prelude
begin

text \<open>
  Code that reads and changes a state, may raise an exception and may wait without end, as a
  function from the state to an outcome and the next state. The agent loop, the Firecracker
  sandbox and the adapters are written with it, each over its own state.
\<close>

type_synonym ('st, 'a) effect = "'st \<Rightarrow> 'a outcome \<times> 'st"

definition give :: "'a \<Rightarrow> ('st, 'a) effect" where
  "give x s = (Done x, s)"

definition throw :: "exn_kind \<Rightarrow> string \<Rightarrow> ('st, 'a) effect" where
  "throw k msg s = (Raised (Exn k msg), s)"

definition seq :: "('st, 'a) effect \<Rightarrow> ('a \<Rightarrow> ('st, 'b) effect) \<Rightarrow> ('st, 'b) effect" where
  "seq m f s =
     (case m s of
        (Done x, s') \<Rightarrow> f x s'
      | (Raised e, s') \<Rightarrow> (Raised e, s')
      | (Blocked, s') \<Rightarrow> (Blocked, s'))"

text \<open>\<open>try: m except k as exc: h(exc)\<close>, for the exceptions \<open>p\<close> holds of.\<close>

definition handle_exn :: "(exn_kind \<Rightarrow> bool) \<Rightarrow> ('st, 'a) effect \<Rightarrow> (exn \<Rightarrow> ('st, 'a) effect) \<Rightarrow> ('st, 'a) effect" where
  "handle_exn p m h s =
     (case m s of
        (Raised e, s') \<Rightarrow> if p (exn_class e) then h e s' else (Raised e, s')
      | r \<Rightarrow> r)"

definition attempt :: "(exn_kind \<Rightarrow> bool) \<Rightarrow> ('st, 'a) effect \<Rightarrow> ('st, exn + 'a) effect" where
  "attempt p m = handle_exn p (seq m (\<lambda>x. give (Inr x))) (\<lambda>e. give (Inl e))"

definition update :: "('st \<Rightarrow> 'st) \<Rightarrow> ('st, unit) effect" where
  "update f s = (Done (), f s)"

definition reading :: "('st \<Rightarrow> ('st, 'a) effect) \<Rightarrow> ('st, 'a) effect" where
  "reading f s = f s s"

definition from_res :: "'a res \<Rightarrow> ('st, 'a) effect" where
  "from_res r s = (outcome_of r, s)"

text \<open>\<open>try: m finally: f\<close>\<close>

definition finally_do :: "('st, 'a) effect \<Rightarrow> ('st, unit) effect \<Rightarrow> ('st, 'a) effect" where
  "finally_do m f =
     seq (attempt (\<lambda>_. True) m) (\<lambda>r. seq f (\<lambda>_. case r of Inr x \<Rightarrow> give x | Inl e \<Rightarrow> (\<lambda>st. (Raised e, st))))"

lemmas effect_defs = give_def throw_def seq_def handle_exn_def attempt_def update_def reading_def from_res_def

lemma seq_Done: "m s = (Done x, s') \<Longrightarrow> seq m f s = f x s'"
  by (simp add: seq_def)

lemma seq_Raised: "m s = (Raised e, s') \<Longrightarrow> seq m f s = (Raised e, s')"
  by (simp add: seq_def)

lemma seq_cases:
  assumes "seq m f s = r"
  obtains (Done) x s' where "m s = (Done x, s')" "f x s' = r"
    | (Raised) e s' where "m s = (Raised e, s')" "r = (Raised e, s')"
    | (Blocked) s' where "m s = (Blocked, s')" "r = (Blocked, s')"
  using assms by (auto simp: seq_def split: prod.splits outcome.splits)

end
