(* ===== verification/Skills.thy ===== *)
theory Skills
  imports Session
begin

text \<open>
  \<open>agent/skills.py\<close>: discovery of skills, their documents and manifests, and the reading of
  their files. Listing a directory and parsing YAML are arguments; the files themselves are
  those of the modelled tree.
\<close>

section \<open>Text files\<close>

definition is_cont :: "char \<Rightarrow> bool" where
  "is_cont c = (128 \<le> code c \<and> code c \<le> 191)"

definition decode_error :: "'a res" where
  "decode_error = raise UnicodeDecodeError ''invalid utf-8''"

text \<open>
  \<open>bytes.decode("utf-8")\<close>. Code points above \<open>U+00FF\<close> have no character in the model's
  strings and are reported apart from invalid input.
\<close>

fun decode_utf8 :: "string \<Rightarrow> string res" where
  "decode_utf8 [] = Inr []"
| "decode_utf8 (c # cs) =
     (let n = code c in
      if n < 128 then bind_res (decode_utf8 cs) (\<lambda>t. Inr (c # t))
      else if n < 194 \<or> 244 < n then decode_error
      else
        (case cs of
           [] \<Rightarrow> decode_error
         | d # ds \<Rightarrow>
             if \<not> is_cont d then decode_error
             else if n < 196 then bind_res (decode_utf8 ds) (\<lambda>t. Inr (char_of ((n - 192) * 64 + code d - 128) # t))
             else if n < 224 then outside_err
             else if (n = 224 \<and> code d < 160) \<or> (n = 237 \<and> 160 \<le> code d)
                   \<or> (n = 240 \<and> code d < 144) \<or> (n = 244 \<and> 144 \<le> code d) then decode_error
             else if length ds < (if n < 240 then 1 else 2) \<or> \<not> list_all is_cont (take (if n < 240 then 1 else 2) ds)
             then decode_error
             else outside_err))"

text \<open>\<open>open(..., newline=None)\<close>: \<open>\r\n\<close> and \<open>\r\<close> are read as \<open>\n\<close>.\<close>

fun universal_newlines :: "string \<Rightarrow> string" where
  "universal_newlines [] = []"
| "universal_newlines (c # cs) =
     (if c = CHR 0x0D
      then newline # universal_newlines (if cs \<noteq> [] \<and> hd cs = newline then tl cs else cs)
      else c # universal_newlines cs)"

definition read_text :: "path \<Rightarrow> fs \<Rightarrow> string res" where
  "read_text p f = bind_res (read_bytes p f) (\<lambda>b. bind_res (decode_utf8 b) (\<lambda>t. Inr (universal_newlines t)))"

text \<open>\<open>str.splitlines()\<close>\<close>

definition line_end :: "char \<Rightarrow> bool" where
  "line_end c = (code c \<in> {10, 11, 12, 13, 28, 29, 30, 133})"

fun split_lines :: "string \<Rightarrow> string \<Rightarrow> string list" where
  "split_lines acc [] = (if acc = [] then [] else [rev acc])"
| "split_lines acc (c # cs) =
     (if line_end c
      then rev acc # split_lines [] (if c = CHR 0x0D \<and> cs \<noteq> [] \<and> hd cs = newline then tl cs else cs)
      else split_lines (c # acc) cs)"

definition splitlines :: "string \<Rightarrow> string list" where
  "splitlines s = split_lines [] s"

section \<open>Discovery\<close>

record skill =
  sk_name :: string
  sk_description :: string
  sk_body :: string
  sk_path :: path
  sk_files :: "string list"

record skills =
  ss_max_file_chars :: int
  ss_skills :: "(string \<times> skill) list"

record skill_env =
  se_children :: "path \<Rightarrow> path list"
  se_tree :: "path \<Rightarrow> path list"
  se_yaml :: "string \<Rightarrow> pyval res"

definition skills_error :: "string \<Rightarrow> 'a res" where
  "skills_error msg = raise SkillsError msg"

definition is_within :: "path \<Rightarrow> path \<Rightarrow> bool" where
  "is_within base p = (p = base \<or> strict_prefix base p)"

text \<open>The lines up to the closing \<open>---\<close>, and those after it.\<close>

fun split_frontmatter :: "string list \<Rightarrow> (string list \<times> string list) option" where
  "split_frontmatter [] = None"
| "split_frontmatter (l # ls) =
     (if strip l = ''---'' then Some ([], ls)
      else map_option (\<lambda>(f, b). (l # f, b)) (split_frontmatter ls))"

definition parse_skill_markdown :: "skill_env \<Rightarrow> path \<Rightarrow> fs \<Rightarrow> (pydict \<times> string) res" where
  "parse_skill_markdown env p f =
     bind_res (read_text p f) (\<lambda>s.
       case splitlines s of
         [] \<Rightarrow> skills_error (''Skill frontmatter is required and must start with '' @ quoted ''---'' @ '': '' @ path_str p)
       | l # ls \<Rightarrow>
           if strip l \<noteq> ''---'' then skills_error (''Skill frontmatter is required and must start with '' @ quoted ''---'' @ '': '' @ path_str p)
           else
             (case split_frontmatter ls of
                None \<Rightarrow> skills_error (''Unterminated skill frontmatter in '' @ path_str p)
              | Some (front, rest) \<Rightarrow>
                  (let b = join [newline] rest;
                       body = (if suffix [newline] s then if b \<noteq> [] then b @ [newline] else [] else b)
                   in case se_yaml env (join [newline] front) of
                        Inl e \<Rightarrow>
                          if exn_class e = OtherException ''YAMLError''
                          then skills_error (''Invalid YAML frontmatter in '' @ path_str p @ '': '' @ exn_str e) else Inl e
                      | Inr (VDict d) \<Rightarrow> Inr (d, body)
                      | Inr _ \<Rightarrow> skills_error (''Skill frontmatter must be a YAML mapping in '' @ path_str p))))"

definition required_non_empty_string :: "pydict \<Rightarrow> string \<Rightarrow> path \<Rightarrow> string res" where
  "required_non_empty_string metadata key p =
     (case dget metadata key of
        VStr s \<Rightarrow>
          if strip s = [] then skills_error (''Skill frontmatter missing required '' @ quoted key @ '' in '' @ path_str p)
          else Inr (strip s)
      | _ \<Rightarrow> skills_error (''Skill frontmatter missing required '' @ quoted key @ '' in '' @ path_str p))"

definition skill_file_manifest :: "skill_env \<Rightarrow> fs \<Rightarrow> path \<Rightarrow> string list" where
  "skill_file_manifest env f base =
     sort (concat (map (\<lambda>dirname.
         if f (base @ [dirname]) \<noteq> Some Dir then []
         else map (\<lambda>p. join ''/'' (drop (length base) p))
                (filter (\<lambda>p. is_file f p \<and> is_within base p) (sort (se_tree env (base @ [dirname])))))
       [''scripts'', ''references'', ''assets'']))"

text \<open>One skill directory: nothing to load, a skill, or an exception no one here catches.\<close>

definition load_skill :: "skill_env \<Rightarrow> fs \<Rightarrow> path \<Rightarrow> skill option res" where
  "load_skill env f dir =
     (if \<not> is_file f (dir @ [''SKILL.md'']) then Inr None
      else
        (case bind_res (parse_skill_markdown env (dir @ [''SKILL.md'']) f) (\<lambda>(metadata, body).
              bind_res (required_non_empty_string metadata ''name'' (dir @ [''SKILL.md''])) (\<lambda>name.
              bind_res (required_non_empty_string metadata ''description'' (dir @ [''SKILL.md''])) (\<lambda>description.
                Inr \<lparr>sk_name = name, sk_description = description, sk_body = body, sk_path = dir,
                     sk_files = skill_file_manifest env f dir\<rparr>))) of
           Inl e \<Rightarrow> if exn_class e = SkillsError then Inr None else Inl e
         | Inr s \<Rightarrow> Inr (Some s)))"

fun load_skills :: "skill_env \<Rightarrow> fs \<Rightarrow> path list \<Rightarrow> (string \<times> skill) list \<Rightarrow> (string \<times> skill) list res" where
  "load_skills env f [] found = Inr found"
| "load_skills env f (d # ds) found =
     bind_res (load_skill env f d) (\<lambda>r.
       case r of
         None \<Rightarrow> load_skills env f ds found
       | Some s \<Rightarrow>
           if map_of found (sk_name s) \<noteq> None then load_skills env f ds found
           else load_skills env f ds (found @ [(sk_name s, s)]))"

definition discover :: "skill_env \<Rightarrow> fs \<Rightarrow> path \<Rightarrow> (string \<times> skill) list res" where
  "discover env f base =
     load_skills env f (sort (filter (\<lambda>p. f p = Some Dir) (se_children env base))) []"

definition new_skills :: "skill_env \<Rightarrow> fs \<Rightarrow> path \<Rightarrow> int \<Rightarrow> skills res" where
  "new_skills env f base max_file_chars =
     (if f base \<noteq> Some Dir then skills_error (''Skills directory does not exist: '' @ path_str base)
      else if max_file_chars \<le> 0 then skills_error ''max_file_chars must be greater than zero.''
      else bind_res (discover env f base) (\<lambda>s. Inr \<lparr>ss_max_file_chars = max_file_chars, ss_skills = s\<rparr>))"

section \<open>Access\<close>

definition skills_index :: "skills \<Rightarrow> pyval list" where
  "skills_index s =
     map (\<lambda>(_, k). VDict (dict_of [(''name'', VStr (sk_name k)), (''description'', VStr (sk_description k))]))
       (sort_key fst (ss_skills s))"

definition get_doc :: "skills \<Rightarrow> string \<Rightarrow> pydict res" where
  "get_doc s name =
     (case map_of (ss_skills s) name of
        None \<Rightarrow> skills_error (''Unknown skill: '' @ name)
      | Some k \<Rightarrow> Inr (dict_of [(''skill_md'', VStr (sk_body k)), (''files'', VList (map VStr (sk_files k)))]))"

definition truncate_file :: "int \<Rightarrow> string \<Rightarrow> string" where
  "truncate_file limit s =
     (if int (length s) \<le> limit then s
      else take (nat limit) s @ [newline, newline] @ ''[... truncated, original '' @ nat_str (length s) @ '' chars ...]'')"

definition read_file :: "skills \<Rightarrow> fs \<Rightarrow> string \<Rightarrow> string \<Rightarrow> string res" where
  "read_file s f name rel =
     (case map_of (ss_skills s) name of
        None \<Rightarrow> skills_error (''Unknown skill: '' @ name)
      | Some k \<Rightarrow>
          if strip rel = [] then skills_error ''relative_path must be a non-empty string.''
          else if prefix ''/'' (strip rel) then skills_error ''read_file path must be relative.''
          else if ''..'' \<in> set (split_on (CHR ''/'') (strip rel))
          then skills_error ''read_file path traversal is not allowed.''
          else
            bind_res (resolve (sk_path k) (strip rel)) (\<lambda>target.
              if \<not> is_within (sk_path k) target
              then skills_error ''read_file target must stay within skill directory.''
              else if \<not> is_file f target then skills_error (''Skill file not found: '' @ rel)
              else
                (case read_text target f of
                   Inl e \<Rightarrow>
                     if exn_class e = UnicodeDecodeError
                     then skills_error (''Skill file is not UTF-8 decodable: '' @ rel) else Inl e
                 | Inr content \<Rightarrow> Inr (truncate_file (ss_max_file_chars s) content))))"

section \<open>Properties\<close>

lemma truncate_file_shape:
  "truncate_file n s = s \<and> int (length s) \<le> n
   \<or> n < int (length s) \<and> (\<exists>mark. truncate_file n s = take (nat n) s @ mark
        \<and> length mark = 38 + length (nat_str (length s)))"
  by (cases "int (length s) \<le> n") (auto simp: truncate_file_def)

lemma read_text_Inr:
  "read_text p f = Inr s \<Longrightarrow> \<exists>b t. f p = Some (File b) \<and> decode_utf8 b = Inr t \<and> s = universal_newlines t"
  by (auto simp: read_text_def read_bytes_def bind_res_eq_Inr split: option.splits node.splits)

lemma is_within_prefix: "is_within base p \<longleftrightarrow> prefix base p"
  by (auto simp: is_within_def strict_prefix_def)

lemma read_file_Inr:
  assumes "read_file s f name rel = Inr out"
  shows "\<exists>k p c. map_of (ss_skills s) name = Some k \<and> prefix (sk_path k) p
    \<and> read_text p f = Inr c \<and> out = truncate_file (ss_max_file_chars s) c"
  using assms
  by (fastforce simp: read_file_def skills_error_def bind_res_eq_Inr is_within_prefix
      split: option.splits if_splits sum.splits)

text \<open>
  C36. A skill file is read from inside the directory of a known skill only, whatever path the
  model gives, and never more than \<open>max_file_chars\<close> characters of it are returned, besides
  the mark that says so.
\<close>

theorem read_file_confined:
  assumes "read_file s f name rel = Inr out"
  shows "\<exists>k p bytes t. map_of (ss_skills s) name = Some k \<and> prefix (sk_path k) p
    \<and> f p = Some (File bytes) \<and> decode_utf8 bytes = Inr t
    \<and> (int (length (universal_newlines t)) \<le> ss_max_file_chars s \<and> out = universal_newlines t
       \<or> ss_max_file_chars s < int (length (universal_newlines t))
         \<and> (\<exists>mark. out = take (nat (ss_max_file_chars s)) (universal_newlines t) @ mark
            \<and> length mark = 38 + length (nat_str (length (universal_newlines t)))))"
proof -
  obtain k p c where "map_of (ss_skills s) name = Some k" "prefix (sk_path k) p"
    and c: "read_text p f = Inr c" and out: "out = truncate_file (ss_max_file_chars s) c"
    using read_file_Inr [OF assms] by blast
  then show ?thesis
    using read_text_Inr [OF c] truncate_file_shape [of "ss_max_file_chars s" c] by metis
qed

definition demo_skills :: skills where
  "demo_skills = \<lparr>ss_max_file_chars = 4, ss_skills = [(''pdf'',
     \<lparr>sk_name = ''pdf'', sk_description = ''d'', sk_body = ''b'', sk_path = [''skills'', ''pdf''],
      sk_files = [''references/a.md'']\<rparr>)]\<rparr>"

definition demo_skill_tree :: fs where
  "demo_skill_tree = (\<lambda>p. if p = [''skills'', ''pdf'', ''references'', ''a.md''] then Some (File ''hello'') else None)"

lemma demo_read:
  "read_file demo_skills demo_skill_tree ''pdf'' '' references/./a.md''
   = Inr (''hell'' @ [newline, newline] @ ''[... truncated, original 5 chars ...]'')"
  by code_simp

lemma read_file_confined_witness:
  "\<exists>k p bytes t. map_of (ss_skills demo_skills) ''pdf'' = Some k \<and> prefix (sk_path k) p
    \<and> demo_skill_tree p = Some (File bytes) \<and> decode_utf8 bytes = Inr t
    \<and> (int (length (universal_newlines t)) \<le> 4
        \<and> ''hell'' @ [newline, newline] @ ''[... truncated, original 5 chars ...]'' = universal_newlines t
       \<or> 4 < int (length (universal_newlines t))
         \<and> (\<exists>mark. ''hell'' @ [newline, newline] @ ''[... truncated, original 5 chars ...]''
              = take 4 (universal_newlines t) @ mark
            \<and> length mark = 38 + length (nat_str (length (universal_newlines t)))))"
  using read_file_confined [OF demo_read] by (simp add: demo_skills_def)

end
