(* ===== verification/LlmService.thy ===== *)
theory LlmService
  imports LlmClient
begin

text \<open>
  \<open>sandbox/llm_service.py\<close> and \<open>agent/llm_proxy.py\<close>: the host-side service around an LLM
  runtime, and the guest-side runtime that forwards to it. The runtime is the
  \<open>LLMRuntime\<close> protocol of \<open>agent/llm_types.py\<close>: a record of its two operations.
\<close>

section \<open>The runtime interface and its client instance\<close>

record 's llm_runtime =
  rt_complete :: "pydict list \<Rightarrow> pyval \<Rightarrow> 's \<Rightarrow> llm_response res \<times> 's"
  rt_count_tokens :: "pydict list \<Rightarrow> 's \<Rightarrow> int res \<times> 's"

definition client_runtime ::
    "'s completion \<Rightarrow> 's token_counter \<Rightarrow> (llm_client \<times> 's) llm_runtime" where
  "client_runtime completion counter =
     \<lparr>rt_complete = (\<lambda>messages schema (c, s).
        case llm_complete completion c messages schema s of (r, c', s') \<Rightarrow> (r, (c', s'))),
      rt_count_tokens = (\<lambda>messages (c, s).
        case llm_count_tokens counter c messages s of (r, s') \<Rightarrow> (r, (c, s')))\<rparr>"

section \<open>The service\<close>

definition DEFAULT_LLM_MAX_REQUEST_BYTES :: int where
  "DEFAULT_LLM_MAX_REQUEST_BYTES = 2 * 1024 * 1024"

record llm_service =
  ls_api_key :: string
  ls_max_request_bytes :: int

definition llm_config :: "pydict \<Rightarrow> pydict" where
  "llm_config config = as_dict (dget_or config ''llm'' (VDict []))"

definition llm_api_key :: "pydict \<Rightarrow> string" where
  "llm_api_key config = py_str (dget_or (llm_config config) ''api_key'' (VStr []))"

definition llm_max_request_bytes :: "pydict \<Rightarrow> int res" where
  "llm_max_request_bytes config =
     (case dget_or config ''host_services'' (VDict []) of
        VDict d \<Rightarrow> py_int (dget_or d ''llm_max_request_bytes'' (VInt DEFAULT_LLM_MAX_REQUEST_BYTES))
      | _ \<Rightarrow> Inr DEFAULT_LLM_MAX_REQUEST_BYTES)"

text \<open>The constructor, when the runtime is given.\<close>

definition new_llm_service :: "pydict \<Rightarrow> llm_service res" where
  "new_llm_service config =
     bind_res (llm_max_request_bytes config) (\<lambda>n.
       Inr \<lparr>ls_api_key = llm_api_key config, ls_max_request_bytes = n\<rparr>)"

text \<open>
  \<open>json.dumps(payload, ensure_ascii=False)\<close> leaves characters above \<open>U+007E\<close> as they
  are; in UTF-8 those from \<open>U+0080\<close> take two bytes.
\<close>

definition raw_escape_char :: "char \<Rightarrow> string" where
  "raw_escape_char c = (if code c < 127 then json_escape_char c else [c])"

definition raw_string :: "string \<Rightarrow> string" where
  "raw_string s = [quote] @ concat (map raw_escape_char s) @ [quote]"

fun raw_text :: "pyval \<Rightarrow> string" where
  "raw_text (VStr s) = raw_string s"
| "raw_text (VList xs) = ''['' @ join '','' (map raw_text xs) @ '']''"
| "raw_text (VDict d) =
     ''{'' @ join '','' (map (\<lambda>p. raw_string (json_key (fst p)) @ '':'' @ raw_text (snd p)) d) @ ''}''"
| "raw_text v = dumps_compact v"

definition utf8_length :: "string \<Rightarrow> nat" where
  "utf8_length s = sum_list (map (\<lambda>c. if code c < 128 then 1 else 2) s)"

definition payload_size_bytes :: "pydict \<Rightarrow> int" where
  "payload_size_bytes payload = int (utf8_length (raw_text (VDict payload)))"

text \<open>\<open>_is_message_list\<close> with the list it recognises.\<close>

fun dict_of_val :: "pyval \<Rightarrow> pydict option" where
  "dict_of_val (VDict d) = Some d" | "dict_of_val _ = None"

definition message_list :: "pyval \<Rightarrow> pydict list option" where
  "message_list v =
     (case v of
        VList items \<Rightarrow> if list_all is_VDict items then Some (map as_dict items) else None
      | _ \<Rightarrow> None)"

definition serialize_tool_call :: "tool_call option \<Rightarrow> pyval" where
  "serialize_tool_call action =
     (case action of
        None \<Rightarrow> VNone
      | Some a \<Rightarrow> VDict (dict_of
          [(''tool'', VStr (tc_tool a)), (''args'', VDict (tc_args a)),
           (''reason'', case tc_reason a of Some r \<Rightarrow> VStr r | None \<Rightarrow> VNone)]))"

definition opt_dict :: "pydict option \<Rightarrow> pyval" where
  "opt_dict x = (case x of Some d \<Rightarrow> VDict d | None \<Rightarrow> VNone)"

definition llm_redact :: "llm_service \<Rightarrow> string \<Rightarrow> string" where
  "llm_redact svc text =
     (if ls_api_key svc = [] then text else replace (ls_api_key svc) ''[REDACTED]'' text)"

definition llm_failure :: "llm_service \<Rightarrow> string \<Rightarrow> pydict" where
  "llm_failure svc err = dict_of [(''success'', VBool False), (''error'', VStr (llm_redact svc err))]"

definition invalid_messages :: string where
  "invalid_messages = ''invalid_request: messages must be a list of objects''"

definition handle_complete ::
    "llm_service \<Rightarrow> 's llm_runtime \<Rightarrow> pydict \<Rightarrow> 's \<Rightarrow> pydict res \<times> 's" where
  "handle_complete svc rt payload w =
     (case message_list (dget payload ''messages'') of
        None \<Rightarrow> (Inr (llm_failure svc invalid_messages), w)
      | Some messages \<Rightarrow>
          (case rt_complete rt messages (dget payload ''action_schema'') w of
             (Inl e, w') \<Rightarrow> (Inl e, w')
           | (Inr response, w') \<Rightarrow>
               (Inr (dict_of [(''success'', VBool True), (''text'', VStr (lr_text response)),
                              (''action'', serialize_tool_call (lr_action response)),
                              (''usage'', opt_dict (lr_usage response))]), w')))"

definition handle_count_tokens ::
    "llm_service \<Rightarrow> 's llm_runtime \<Rightarrow> pydict \<Rightarrow> 's \<Rightarrow> pydict res \<times> 's" where
  "handle_count_tokens svc rt payload w =
     (case message_list (dget payload ''messages'') of
        None \<Rightarrow> (Inr (llm_failure svc invalid_messages), w)
      | Some messages \<Rightarrow>
          (case rt_count_tokens rt messages w of
             (Inl e, w') \<Rightarrow> (Inl e, w')
           | (Inr n, w') \<Rightarrow>
               (Inr (dict_of [(''success'', VBool True), (''tokens'', VInt n)]), w')))"

definition llm_handle ::
    "llm_service \<Rightarrow> 's llm_runtime \<Rightarrow> pydict \<Rightarrow> 's \<Rightarrow> pydict \<times> 's" where
  "llm_handle svc rt payload w =
     (let request_size = payload_size_bytes payload
      in if request_size > ls_max_request_bytes svc then
           (llm_failure svc (''llm request too large: '' @ int_str request_size @ '' bytes exceeds ''
              @ int_str (ls_max_request_bytes svc) @ '' bytes''), w)
         else
           (let action = dget payload ''action'';
                answer = (if action = VStr ''complete'' then handle_complete svc rt payload w
                          else if action = VStr ''count_tokens'' then handle_count_tokens svc rt payload w
                          else (Inr (llm_failure svc (''unknown action: '' @ py_str action)), w))
            in case answer of
                 (Inl e, w') \<Rightarrow> (llm_failure svc (llm_redact svc (exn_str e)), w')
               | (Inr d, w') \<Rightarrow> (d, w')))"

definition llm_handler :: "llm_service \<Rightarrow> 's llm_runtime \<Rightarrow> 's handler" where
  "llm_handler svc rt payload w = (case llm_handle svc rt payload w of (d, w') \<Rightarrow> (Inr (VDict d), w'))"

section \<open>The guest-side proxy\<close>

text \<open>\<open>call\<close> is \<open>BrokerClient.call("llm", ...)\<close>.\<close>

type_synonym 's service_call = "pydict \<Rightarrow> 's \<Rightarrow> pydict res \<times> 's"

definition deserialize_tool_call :: "pyval \<Rightarrow> tool_call option res" where
  "deserialize_tool_call v =
     (case v of
        VNone \<Rightarrow> Inr None
      | VDict d \<Rightarrow>
          (case (dget d ''tool'', dget d ''args'') of
             (VStr tool, VDict args) \<Rightarrow>
               (case dget d ''reason'' of
                  VNone \<Rightarrow> Inr (Some \<lparr>tc_tool = tool, tc_args = args, tc_reason = None\<rparr>)
                | VStr r \<Rightarrow> Inr (Some \<lparr>tc_tool = tool, tc_args = args, tc_reason = Some r\<rparr>)
                | _ \<Rightarrow> raise LLMRuntimeError ''llm complete response action reason must be a string'')
           | _ \<Rightarrow> raise LLMRuntimeError ''llm complete response action must contain tool and args'')
      | _ \<Rightarrow> raise LLMRuntimeError ''llm complete response action must be an object or null'')"

fun usage_items :: "pydict \<Rightarrow> pydict \<Rightarrow> pydict res" where
  "usage_items [] usage = Inr usage"
| "usage_items ((key, count) # rest) usage =
     (case key of
        KStr s \<Rightarrow>
          if is_int_instance count then usage_items rest (dset usage s count)
          else raise LLMRuntimeError ''llm complete response usage values must be integers''
      | _ \<Rightarrow> raise LLMRuntimeError ''llm complete response usage values must be integers'')"

definition deserialize_usage :: "pyval \<Rightarrow> pydict option res" where
  "deserialize_usage v =
     (case v of
        VNone \<Rightarrow> Inr None
      | VDict d \<Rightarrow> bind_res (usage_items d []) (\<lambda>u. Inr (Some u))
      | _ \<Rightarrow> raise LLMRuntimeError ''llm complete response usage must be an object or null'')"

text \<open>\<open>except HostServiceError as exc: raise LLMRuntimeError(str(exc))\<close>\<close>

definition as_runtime_error :: "exn \<Rightarrow> exn" where
  "as_runtime_error e = (if exn_class e = HostServiceError then Exn LLMRuntimeError (exn_str e) else e)"

definition read_completion :: "pydict \<Rightarrow> llm_response res" where
  "read_completion response =
     (case dget response ''success'' of
        VBool False \<Rightarrow>
          raise LLMRuntimeError (py_str (dget_or response ''error'' (VStr ''llm complete failed'')))
      | VBool True \<Rightarrow>
          bind_res (deserialize_tool_call (dget response ''action'')) (\<lambda>action.
          bind_res (deserialize_usage (dget response ''usage'')) (\<lambda>usage.
            Inr \<lparr>lr_text = py_str (dget_or response ''text'' (VStr [])), lr_action = action,
                 lr_usage = usage\<rparr>))
      | _ \<Rightarrow> raise LLMRuntimeError ''llm complete response missing success envelope'')"

definition proxy_complete ::
    "'s service_call \<Rightarrow> pydict list \<Rightarrow> pyval \<Rightarrow> 's \<Rightarrow> llm_response res \<times> 's" where
  "proxy_complete call messages action_schema w =
     (case call (dict_of [(''action'', VStr ''complete''), (''messages'', VList (map VDict messages)),
                          (''action_schema'', action_schema)]) w of
        (Inl e, w') \<Rightarrow> (Inl (as_runtime_error e), w')
      | (Inr response, w') \<Rightarrow> (read_completion response, w'))"

definition read_token_count :: "pydict \<Rightarrow> int res" where
  "read_token_count response =
     (case dget response ''success'' of
        VBool False \<Rightarrow>
          raise LLMRuntimeError (py_str (dget_or response ''error'' (VStr ''llm count_tokens failed'')))
      | VBool True \<Rightarrow>
          (case int_of_val (dget response ''tokens'') of
             Some n \<Rightarrow> Inr n
           | None \<Rightarrow> raise LLMRuntimeError ''llm count_tokens response missing integer tokens'')
      | _ \<Rightarrow> raise LLMRuntimeError ''llm count_tokens response missing success envelope'')"

definition proxy_count_tokens :: "'s service_call \<Rightarrow> pydict list \<Rightarrow> 's \<Rightarrow> int res \<times> 's" where
  "proxy_count_tokens call messages w =
     (case call (dict_of [(''action'', VStr ''count_tokens''), (''messages'', VList (map VDict messages))]) w of
        (Inl e, w') \<Rightarrow> (Inl (as_runtime_error e), w')
      | (Inr response, w') \<Rightarrow> (read_token_count response, w'))"

section \<open>Facts\<close>

lemma llm_handle_envelope: "\<exists>b. dget (fst (llm_handle svc rt payload w)) ''success'' = VBool b"
  by (auto simp: llm_handle_def Let_def llm_failure_def handle_complete_def handle_count_tokens_def
      split: prod.splits sum.splits option.splits)

interpretation llm_host: envelope_service "llm_handler svc rt" "\<lambda>_. True" for svc rt
proof unfold_locales
  fix w p
  obtain d w' where d: "llm_handle svc rt p w = (d, w')" by (metis surj_pair)
  then show "\<exists>d b w'. llm_handler svc rt p w = (Inr (VDict d), w') \<and> dget d ''success'' = VBool b \<and> True"
    using llm_handle_envelope [of svc rt p w] by (auto simp: llm_handler_def)
qed

lemma message_list_map [simp]: "message_list (VList (map VDict ms)) = Some ms"
  by (simp add: message_list_def comp_def list_all_iff)

lemma deserialize_serialize: "deserialize_tool_call (serialize_tool_call a) = Inr a"
  by (auto simp: deserialize_tool_call_def serialize_tool_call_def split: option.splits)

definition usage_ok :: "pydict \<Rightarrow> bool" where
  "usage_ok u = (distinct (map fst u) \<and> list_all (\<lambda>p. key_is_str (fst p) \<and> is_int_instance (snd p)) u)"

lemma usage_items_append:
  "usage_ok u \<Longrightarrow> fst ` set u \<inter> fst ` set acc = {} \<Longrightarrow> usage_items u acc = Inr (acc @ u)"
proof (induction u arbitrary: acc)
  case (Cons p u)
  obtain s n where p: "p = (KStr s, n)"
    using Cons.prems(1) by (cases p; cases "fst p") (auto simp: usage_ok_def)
  have fresh: "dset acc s n = acc @ [(KStr s, n)]"
    using Cons.prems(2) by (simp add: p dset_def update_fresh)
  have "usage_items u (acc @ [(KStr s, n)]) = Inr ((acc @ [(KStr s, n)]) @ u)"
    using Cons.prems by (intro Cons.IH) (auto simp: usage_ok_def p)
  then show ?case using Cons.prems(1) by (simp add: p usage_ok_def fresh)
qed simp

lemma deserialize_usage_opt: "(\<And>u. x = Some u \<Longrightarrow> usage_ok u) \<Longrightarrow> deserialize_usage (opt_dict x) = Inr x"
  using usage_items_append [of _ "[]"] by (cases x) (auto simp: deserialize_usage_def opt_dict_def)

text \<open>A failure text never holds the key.\<close>

lemma llm_failure_redacted:
  "plain_token (ls_api_key svc) \<Longrightarrow> \<exists>s. dget (llm_failure svc err) ''error'' = VStr s \<and> \<not> sublist (ls_api_key svc) s"
  using replace_removes [of "ls_api_key svc" err]
  by (auto simp: llm_failure_def llm_redact_def plain_token_def)

section \<open>Properties\<close>

text \<open>
  C19. The proxy in the guest is the runtime on the host: through the service registry a
  completion returns exactly the runtime's response, and an exception of the runtime comes
  back as an \<open>LLMRuntimeError\<close> with the API key redacted.
\<close>

theorem proxy_transparent:
  assumes "map_of srv ''llm'' = Some (llm_handler svc rt)"
    and "payload_size_bytes (dict_of [(''action'', VStr ''complete''),
           (''messages'', VList (map VDict messages)), (''action_schema'', schema)])
         \<le> ls_max_request_bytes svc"
    and "\<And>r u. fst (rt_complete rt messages schema w) = Inr r \<Longrightarrow> lr_usage r = Some u \<Longrightarrow> usage_ok u"
  shows "proxy_complete (call_yolo srv rid ''llm'') messages schema w =
    (case rt_complete rt messages schema w of
       (Inl e, w') \<Rightarrow>
         (Inl (Exn LLMRuntimeError (llm_redact svc (llm_redact svc (exn_str e)))), w')
     | (Inr r, w') \<Rightarrow> (Inr r, w'))"
proof -
  let ?p = "dict_of [(''action'', VStr ''complete''),
     (''messages'', VList (map VDict messages)), (''action_schema'', schema)]"
  have call: "call_yolo srv rid ''llm'' ?p w = (case llm_handle svc rt ?p w of (d, w') \<Rightarrow> (Inr d, w'))"
    by (simp add: call_yolo_def dispatch_known [OF assms(1)] llm_handler_def unwrap_response_def
        success_reply_def split: prod.split)
  obtain r w' where r: "rt_complete rt messages schema w = (r, w')" by fastforce
  show ?thesis
  proof (cases r)
    case (Inl e)
    then show ?thesis
      using assms(2)
      by (simp add: proxy_complete_def call llm_handle_def handle_complete_def r Let_def
          llm_failure_def read_completion_def raise_def)
  next
    case (Inr resp)
    then have "deserialize_usage (opt_dict (lr_usage resp)) = Inr (lr_usage resp)"
      using assms(3) r by (intro deserialize_usage_opt) auto
    then show ?thesis
      using assms(2) Inr
      by (simp add: proxy_complete_def call llm_handle_def handle_complete_def r Let_def
          read_completion_def deserialize_serialize)
  qed
qed

definition echo_runtime :: "nat llm_runtime" where
  "echo_runtime =
     \<lparr>rt_complete = (\<lambda>ms schema n. (Inr \<lparr>lr_text = ''hi'', lr_action = None, lr_usage = None\<rparr>, Suc n)),
      rt_count_tokens = (\<lambda>ms n. (Inr 7, n))\<rparr>"

theorem proxy_transparent_witness:
  "proxy_complete (call_yolo [(''llm'', llm_handler \<lparr>ls_api_key = ''k'', ls_max_request_bytes = 100\<rparr>
      echo_runtime)] ''r'' ''llm'') [] VNone 0
    = (Inr \<lparr>lr_text = ''hi'', lr_action = None, lr_usage = None\<rparr>, 1)"
proof -
  have "payload_size_bytes (dict_of [(''action'', VStr ''complete''),
      (''messages'', VList (map VDict [])), (''action_schema'', VNone)]) \<le> 100"
    by code_simp
  moreover have "usage_ok u"
    if "fst (rt_complete echo_runtime [] VNone 0) = Inr r" "lr_usage r = Some u" for r u
    using that by (auto simp: echo_runtime_def)
  ultimately show ?thesis
    using proxy_transparent [of "[(''llm'', llm_handler \<lparr>ls_api_key = ''k'', ls_max_request_bytes = 100\<rparr>
        echo_runtime)]" "\<lparr>ls_api_key = ''k'', ls_max_request_bytes = 100\<rparr>" echo_runtime "[]" VNone 0 "''r''"]
    by (fastforce simp: echo_runtime_def)
qed

text \<open>
  The LLM service answers every request with a boolean \<open>success\<close>, and no failure it
  reports contains the API key, for a key without brackets that is not part of the
  replacement marker: neither the runtime's exception text nor a payload that quotes the key
  brings it back to the guest.
\<close>

theorem llm_failures_redacted:
  assumes "plain_token (ls_api_key svc)" and "llm_handle svc rt payload w = (d, w')"
  shows "dget d ''success'' = VBool True
    \<or> dget d ''success'' = VBool False
      \<and> (\<exists>s. dget d ''error'' = VStr s \<and> \<not> sublist (ls_api_key svc) s)"
proof -
  have "dget d ''success'' = VBool True \<or> (\<exists>err. d = llm_failure svc err)"
    using assms(2)
    by (auto simp: llm_handle_def Let_def handle_complete_def handle_count_tokens_def
        split: prod.splits sum.splits option.splits if_splits)
  then show ?thesis
    using llm_failure_redacted [OF assms(1)] by (auto simp: llm_failure_def)
qed

theorem llm_failures_redacted_witness:
  "\<exists>d. llm_handle \<lparr>ls_api_key = ''sk1'', ls_max_request_bytes = 100\<rparr> echo_runtime
      (dict_of [(''action'', VStr ''sk1'')]) 0 = (d, 0)
    \<and> dget d ''success'' = VBool False \<and> (\<exists>s. dget d ''error'' = VStr s \<and> \<not> sublist ''sk1'' s)"
proof -
  have p: "plain_token (ls_api_key \<lparr>ls_api_key = ''sk1'', ls_max_request_bytes = 100\<rparr>)" by code_simp
  obtain d w' where d: "llm_handle \<lparr>ls_api_key = ''sk1'', ls_max_request_bytes = 100\<rparr> echo_runtime
      (dict_of [(''action'', VStr ''sk1'')]) 0 = (d, w')" by fastforce
  have "payload_size_bytes (dict_of [(''action'', VStr ''sk1'')]) \<le> 100" by code_simp
  then have "w' = 0 \<and> dget d ''success'' = VBool False"
    using d by (auto simp: llm_handle_def Let_def llm_failure_def)
  then show ?thesis using d llm_failures_redacted [OF p d] by auto
qed

end
