(* ===== verification/AgentConfig.thy ===== *)
theory AgentConfig
  imports Tools Skills LlmService
begin

text \<open>
  The settings of an agent (\<open>agent/agent.py\<close>): the readers of its configuration, the schemas
  of its control tools, the action surface the model may choose from, and the checks on a
  \<open>spawn_subagent\<close> request.
\<close>

definition agent_error :: "string \<Rightarrow> 'a res" where
  "agent_error msg = raise AgentError msg"

section \<open>Readers\<close>

text \<open>
  \<open>try: int(raw) except (TypeError, ValueError): fallback\<close>, and the fallback again unless the
  value is above zero. An infinite float raises \<open>OverflowError\<close>.
\<close>

definition positive_or :: "int \<Rightarrow> pyval \<Rightarrow> int res" where
  "positive_or fallback raw =
     (if is_VBool raw then Inr fallback
      else bind_res (int_or_none raw) (\<lambda>n.
             Inr (case n of None \<Rightarrow> fallback | Some k \<Rightarrow> if k \<le> 0 then fallback else k)))"

definition read_skills_max_file_chars :: "pydict option \<Rightarrow> int res" where
  "read_skills_max_file_chars config =
     (case config of
        None \<Rightarrow> Inr 20000
      | Some c \<Rightarrow>
          (case dget c ''skills'' of
             VDict skills_cfg \<Rightarrow> positive_or 20000 (dget_or skills_cfg ''max_file_chars'' (VInt 20000))
           | _ \<Rightarrow> Inr 20000))"

definition read_skills_directory :: "pydict \<Rightarrow> string option" where
  "read_skills_directory config =
     (case dget config ''skills'' of
        VDict skills_cfg \<Rightarrow>
          (case dget skills_cfg ''directory'' of
             VStr raw \<Rightarrow> if strip raw = [] then None else Some (strip raw)
           | _ \<Rightarrow> None)
      | _ \<Rightarrow> None)"

definition read_loop_max_iterations :: "pydict \<Rightarrow> int \<Rightarrow> int res" where
  "read_loop_max_iterations config fallback =
     (let raw = (case dget config ''loop'' of
                   VDict loop_cfg \<Rightarrow> dget loop_cfg ''max_iterations''
                 | _ \<Rightarrow> dget config ''max_iterations'')
      in if raw = VNone then Inr fallback else positive_or fallback raw)"

definition read_context_int :: "pydict \<Rightarrow> string \<Rightarrow> int \<Rightarrow> int res" where
  "read_context_int config key fallback =
     (case dget config ''context'' of
        VDict context_cfg \<Rightarrow>
          if dget context_cfg key = VNone then Inr fallback else positive_or fallback (dget context_cfg key)
      | _ \<Rightarrow> Inr fallback)"

definition read_subagents_settings :: "pydict option \<Rightarrow> pydict" where
  "read_subagents_settings config =
     (case config of None \<Rightarrow> [] | Some c \<Rightarrow> as_dict (dget c ''subagents''))"

definition read_subagents_enabled :: "pydict option \<Rightarrow> bool" where
  "read_subagents_enabled config =
     (case config of
        None \<Rightarrow> False
      | Some c \<Rightarrow>
          (case dget c ''tools'' of
             VDict tools_cfg \<Rightarrow> truthy (dget_or tools_cfg ''spawn_subagent'' (VBool False))
           | _ \<Rightarrow> False)
          \<and> (case dget c ''subagents'' of
               VDict subagents_cfg \<Rightarrow> truthy (dget_or subagents_cfg ''enabled'' (VBool False))
             | _ \<Rightarrow> False))"

definition read_pos_int_field :: "pydict \<Rightarrow> string \<Rightarrow> int \<Rightarrow> int res" where
  "read_pos_int_field mapping key fallback = positive_or fallback (dget_or mapping key (VInt fallback))"

definition truncate_to :: "string \<Rightarrow> int \<Rightarrow> string" where
  "truncate_to s limit =
     (if limit \<le> 0 \<or> int (length s) \<le> limit then s
      else take (nat limit) s @ [newline] @ ''...[truncated '' @ int_str (int (length s) - limit) @ '' chars]...'')"

definition read_host_service_llm_timeout :: "pydict \<Rightarrow> pyfloat res" where
  "read_host_service_llm_timeout config =
     (case dget config ''host_services'' of
        VDict host_services \<Rightarrow>
          let raw = dget_or host_services ''llm_timeout_seconds'' (VInt 120)
          in if is_VBool raw then Inr (FFin 120)
             else
               (case py_float raw of
                  Inr f \<Rightarrow> Inr (if float_le_zero f then FFin 120 else f)
                | Inl e \<Rightarrow>
                    if exn_class e = TypeError \<or> exn_class e = ValueError then Inr (FFin 120) else Inl e)
      | _ \<Rightarrow> Inr (FFin 120))"

definition looks_like_llm_config :: "pydict \<Rightarrow> bool" where
  "looks_like_llm_config payload = (dhas payload ''model'' \<and> dhas payload ''api_key'')"

definition load_agent_config_file :: "path \<Rightarrow> fs \<Rightarrow> pydict res" where
  "load_agent_config_file p f =
     (if \<not> is_file f p then agent_error (''Agent config file was not found: '' @ path_str p)
      else bind_res (read_text p f) (\<lambda>raw.
           bind_res (json_loads raw) (\<lambda>v.
           case v of
             VDict parsed \<Rightarrow>
               if dhas parsed ''llm'' then
                 (if is_VDict (dget parsed ''llm'') then Inr parsed
                  else agent_error (''Agent config in '' @ path_str p @ '' must contain llm as an object.''))
               else if looks_like_llm_config parsed then Inr (dict_of [(''llm'', VDict parsed)])
               else if dhas parsed ''host_services'' then
                 (if is_VDict (dget parsed ''host_services'') then Inr parsed
                  else agent_error (''Agent config in '' @ path_str p @ '' must contain host_services as an object.''))
               else agent_error (''Agent config in '' @ path_str p @ '' must contain an llm object or host_services object.'')
           | _ \<Rightarrow> agent_error (''Agent config in '' @ path_str p @ '' must be a JSON object.''))))"

definition require_llm_config :: "pydict option \<Rightarrow> pydict res" where
  "require_llm_config config =
     (case config of
        Some c \<Rightarrow>
          (case dget c ''llm'' of
             VDict d \<Rightarrow> Inr d | _ \<Rightarrow> agent_error ''Agent config is missing required llm mapping.'')
      | None \<Rightarrow> agent_error ''Agent config is missing required llm mapping.'')"

definition validate_guest_proxy_config :: "pydict \<Rightarrow> path \<Rightarrow> unit res" where
  "validate_guest_proxy_config config p =
     (if dhas config ''llm'' then agent_error (''Guest proxy config in '' @ path_str p @ '' must not contain an llm block. ''
            @ ''LLM provider configuration is host-only and served through the llm host service.'')
      else if is_VDict (dget config ''host_services'') then Inr ()
      else agent_error (''Guest proxy config in '' @ path_str p @ '' must contain host_services.''))"

section \<open>Control tools\<close>

definition done_schema :: pyval where
  "done_schema = tool_schema ''agent_done'' ''Finish execution and return the final user-facing reply.''
     (dict_of [(''reply'', str_type)]) [''reply'']"

text \<open>A schema whose parameters are all optional has no \<open>required\<close> list.\<close>

definition optional_schema :: "string \<Rightarrow> string \<Rightarrow> pydict \<Rightarrow> pyval" where
  "optional_schema name description properties =
     VDict (dict_of [(''name'', VStr name), (''description'', VStr description),
       (''parameters'', VDict (dict_of [(''type'', VStr ''object''), (''properties'', VDict properties),
          (''additionalProperties'', VBool False)]))])"

definition clarify_schema :: pyval where
  "clarify_schema = optional_schema ''agent_clarify'' ''Ask the user a clarification question before continuing.''
     (dict_of [(''question'', str_type)])"

definition replan_schema :: pyval where
  "replan_schema = optional_schema ''agent_replan'' ''Request a fresh plan before continuing execution.''
     (dict_of [(''feedback'', str_type)])"

definition read_skill_file_schema :: pyval where
  "read_skill_file_schema = tool_schema ''agent_read_skill_file''
     ''Read a bundled file from an activated skill by relative path.''
     (dict_of [(''skill'', str_type), (''path'', str_type)]) [''skill'', ''path'']"

definition CONTROL_TOOL_SCHEMAS :: "pyval list" where
  "CONTROL_TOOL_SCHEMAS = [done_schema, clarify_schema, replan_schema, read_skill_file_schema]"

definition CONTROL_TOOL_NAMES :: "string list" where
  "CONTROL_TOOL_NAMES = [''agent_done'', ''agent_clarify'', ''agent_replan'', ''agent_read_skill_file'']"

definition str_array :: pyval where
  "str_array = VDict (dict_of [(''type'', VStr ''array''), (''items'', str_type)])"

definition described_int :: "string \<Rightarrow> pyval" where
  "described_int description = VDict (dict_of [(''type'', VStr ''integer''), (''description'', VStr description)])"

definition SPAWN_SUBAGENT_SCHEMA :: pyval where
  "SPAWN_SUBAGENT_SCHEMA = tool_schema ''spawn_subagent''
     (''Delegate a separable subtask to a child agent that runs to completion in ''
      @ ''the same sandbox/session and returns a single structured result. Sequential ''
      @ ''and blocking: one child at a time. The child uses a subset of your tools, ''
      @ ''cannot ask the user anything, and reports gaps in its reply.'')
     (dict_of [(''task'', str_type), (''context'', str_type), (''expected_output'', str_type),
        (''allowed_tools'', str_array), (''referenced_skills'', str_array),
        (''max_iterations'', described_int
           (''Maximum decision turns the child may take, including the final ''
            @ ''agent_done turn that reports its result. Budget at least one turn ''
            @ ''per planned tool call plus one to report (so a search-and-report ''
            @ ''task needs 2+). Omit to use the configured default; very small ''
            @ ''values are raised to a safe floor.'')),
        (''timeout_seconds'', described_int
           (''Wall-clock budget in seconds for the whole child run. Omit to use ''
            @ ''the configured default.''))])
     [''task'']"

section \<open>The action surface\<close>

definition name_char :: "char \<Rightarrow> bool" where
  "name_char c = (is_alnum c \<or> c = CHR ''_'' \<or> c = CHR ''-'')"

definition provider_safe :: "string \<Rightarrow> bool" where
  "provider_safe name = (name \<noteq> [] \<and> length name \<le> 64 \<and> list_all name_char name)"

text \<open>One schema, after the names in \<open>seen\<close>; then the list of them.\<close>

definition surface_entry :: "string list \<Rightarrow> pydict \<Rightarrow> (string \<times> pyval) res" where
  "surface_entry seen schema =
     (case dget schema ''name'' of
        VStr raw \<Rightarrow>
          let name = strip raw in
          if name = [] then agent_error ''Execution action schema entry is missing a non-empty name.''
          else if \<not> provider_safe name
          then agent_error (''Execution action schema name '' @ quoted name @ '' is not provider-safe.'')
          else if name \<in> set seen
          then agent_error (''Duplicate execution action schema name: '' @ name)
          else
            (case dget schema ''parameters'' of
               VDict params \<Rightarrow>
                 let description = (case dget schema ''description'' of
                                      VStr d \<Rightarrow> if strip d = [] then ''Run '' @ name @ ''.'' else d
                                    | _ \<Rightarrow> ''Run '' @ name @ ''.'')
                 in Inr (name, VDict (dict_of [(''name'', VStr name), (''description'', VStr description),
                                              (''parameters'', VDict params)]))
             | _ \<Rightarrow> agent_error (''Execution action schema '' @ quoted name @ '' is missing object parameters.''))
      | _ \<Rightarrow> agent_error ''Execution action schema entry is missing a non-empty name.'')"

fun surface_entries :: "string list \<Rightarrow> pyval list \<Rightarrow> pyval list res" where
  "surface_entries seen [] = Inr []"
| "surface_entries seen (schema # schemas) =
     bind_res (surface_entry seen (as_dict schema)) (\<lambda>(name, entry).
     bind_res (surface_entries (name # seen) schemas) (\<lambda>rest. Inr (entry # rest)))"

definition build_execution_action_surface :: "pyval list \<Rightarrow> pyval list \<Rightarrow> pyval list \<Rightarrow> pyval list res" where
  "build_execution_action_surface capability controls extra = surface_entries [] (capability @ controls @ extra)"

definition control_schemas :: "bool \<Rightarrow> pyval list" where
  "control_schemas clarify_enabled =
     (if clarify_enabled then CONTROL_TOOL_SCHEMAS
      else filter (\<lambda>s. dget (as_dict s) ''name'' \<noteq> VStr ''agent_clarify'') CONTROL_TOOL_SCHEMAS)"

definition agent_surface :: "tools \<Rightarrow> bool \<Rightarrow> bool \<Rightarrow> pyval list res" where
  "agent_surface t clarify_enabled subagents_enabled =
     build_execution_action_surface (tools_schema t) (control_schemas clarify_enabled)
       (if subagents_enabled then [SPAWN_SUBAGENT_SCHEMA] else [])"

section \<open>Subagent requests\<close>

text \<open>\<open>x, error = ...\<close>: a value, or the message that refuses the request.\<close>

definition tool_entry :: "string list \<Rightarrow> pyval \<Rightarrow> string + string" where
  "tool_entry parent_tools entry =
     (case entry of
        VStr raw \<Rightarrow>
          if strip raw = [] then Inl ''spawn_subagent args.allowed_tools must contain only tool names.''
          else if strip raw = ''spawn_subagent''
          then Inl ''spawn_subagent cannot be delegated to a child (no recursion).''
          else if strip raw \<notin> set parent_tools
          then Inl (''spawn_subagent args.allowed_tools includes a tool not enabled for the parent: ''
                    @ strip raw @ ''.'')
          else Inr (strip raw)
      | _ \<Rightarrow> Inl ''spawn_subagent args.allowed_tools must contain only tool names.'')"

fun tool_entries :: "string list \<Rightarrow> pyval list \<Rightarrow> string list \<Rightarrow> string + string list" where
  "tool_entries parent_tools [] result = Inr result"
| "tool_entries parent_tools (e # es) result =
     (case tool_entry parent_tools e of
        Inl msg \<Rightarrow> Inl msg
      | Inr name \<Rightarrow> tool_entries parent_tools es (if name \<in> set result then result else result @ [name]))"

definition validate_subagent_allowed_tools :: "string list \<Rightarrow> pyval \<Rightarrow> string + string list" where
  "validate_subagent_allowed_tools parent_tools raw =
     (case raw of
        VNone \<Rightarrow> Inr (sort (remdups parent_tools))
      | VList es \<Rightarrow>
          (case tool_entries parent_tools es [] of Inl msg \<Rightarrow> Inl msg | Inr result \<Rightarrow> Inr (sort result))
      | _ \<Rightarrow> Inl ''spawn_subagent args.allowed_tools must be an array of tool names.'')"

fun skill_entries :: "pyval list \<Rightarrow> string list \<Rightarrow> string + string list" where
  "skill_entries [] result = Inr result"
| "skill_entries (e # es) result =
     (case e of
        VStr raw \<Rightarrow>
          if strip raw = [] then Inl ''spawn_subagent args.referenced_skills must contain only skill names.''
          else skill_entries es (if strip raw \<in> set result then result else result @ [strip raw])
      | _ \<Rightarrow> Inl ''spawn_subagent args.referenced_skills must contain only skill names.'')"

definition validate_subagent_referenced_skills :: "pyval \<Rightarrow> string + string list" where
  "validate_subagent_referenced_skills raw =
     (case raw of
        VNone \<Rightarrow> Inr []
      | VList es \<Rightarrow> skill_entries es []
      | _ \<Rightarrow> Inl ''spawn_subagent args.referenced_skills must be an array of skill names.'')"

definition clamp_subagent_int :: "pyval \<Rightarrow> int \<Rightarrow> string \<Rightarrow> int \<Rightarrow> string + int" where
  "clamp_subagent_int raw cap name least =
     (case raw of
        VNone \<Rightarrow> Inr cap
      | VInt n \<Rightarrow>
          if n \<le> 0 then Inl (''spawn_subagent args.'' @ name @ '' must be a positive integer when provided.'')
          else Inr (max (min n cap) (min least cap))
      | _ \<Rightarrow> Inl (''spawn_subagent args.'' @ name @ '' must be a positive integer when provided.''))"

definition SUBAGENT_MIN_OVERRIDE :: int where
  "SUBAGENT_MIN_OVERRIDE = 3"

text \<open>\<open>None\<close> counts as the empty string; anything else but a string is refused.\<close>

definition optional_text :: "pydict \<Rightarrow> string \<Rightarrow> string + string" where
  "optional_text args key =
     (case dget_or args key (VStr []) of
        VNone \<Rightarrow> Inr []
      | VStr s \<Rightarrow> Inr s
      | _ \<Rightarrow> Inl (''spawn_subagent args.'' @ key @ '' must be a string when provided.''))"

definition task_text :: "pydict \<Rightarrow> string + string" where
  "task_text args =
     (case dget args ''task'' of
        VStr s \<Rightarrow> if strip s = [] then Inl ''spawn_subagent requires args.task as a non-empty string.'' else Inr s
      | _ \<Rightarrow> Inl ''spawn_subagent requires args.task as a non-empty string.'')"

definition bind_sum :: "string + 'a \<Rightarrow> ('a \<Rightarrow> (string + 'b) res) \<Rightarrow> (string + 'b) res" where
  "bind_sum m k = (case m of Inl msg \<Rightarrow> Inr (Inl msg) | Inr x \<Rightarrow> k x)"

definition build_subagent_request :: "string list \<Rightarrow> pydict \<Rightarrow> pydict \<Rightarrow> (string + pydict) res" where
  "build_subagent_request parent_tools settings args =
     bind_sum (task_text args) (\<lambda>task.
     bind_sum (optional_text args ''context'') (\<lambda>ctx.
     bind_sum (optional_text args ''expected_output'') (\<lambda>expected.
     bind_sum (validate_subagent_allowed_tools parent_tools (dget args ''allowed_tools'')) (\<lambda>allowed.
     bind_sum (validate_subagent_referenced_skills (dget args ''referenced_skills'')) (\<lambda>refs.
     bind_res (read_pos_int_field settings ''max_iterations'' 20) (\<lambda>iter_cap.
     bind_sum (clamp_subagent_int (dget args ''max_iterations'') iter_cap ''max_iterations'' SUBAGENT_MIN_OVERRIDE)
       (\<lambda>iterations.
     bind_res (read_pos_int_field settings ''timeout_seconds'' 600) (\<lambda>time_cap.
     bind_sum (clamp_subagent_int (dget args ''timeout_seconds'') time_cap ''timeout_seconds'' SUBAGENT_MIN_OVERRIDE)
       (\<lambda>timeout.
     bind_res (read_pos_int_field settings ''max_context_chars'' 20000) (\<lambda>max_chars.
       Inr (Inr (dict_of [(''task'', VStr (strip task)), (''context'', VStr (truncate_to ctx max_chars)),
         (''expected_output'', VStr expected), (''allowed_tools'', VList (map VStr allowed)),
         (''referenced_skills'', VList (map VStr refs)), (''max_iterations'', VInt iterations),
         (''timeout_seconds'', VInt timeout)]))))))))))))"

section \<open>Properties\<close>

definition schema_name :: "pyval \<Rightarrow> string" where
  "schema_name s = (case dget (as_dict s) ''name'' of VStr n \<Rightarrow> n | _ \<Rightarrow> [])"

definition well_formed_schema :: "pyval \<Rightarrow> bool" where
  "well_formed_schema s =
     (schema_name s \<noteq> [] \<and> strip (schema_name s) = schema_name s \<and> provider_safe (schema_name s)
      \<and> is_VDict (dget (as_dict s) ''parameters'')
      \<and> (case dget (as_dict s) ''description'' of VStr d \<Rightarrow> strip d \<noteq> [] | _ \<Rightarrow> False))"

lemma surface_entry_well_formed:
  assumes "well_formed_schema s" and "schema_name s \<notin> set seen"
  shows "\<exists>e. surface_entry seen (as_dict s) = Inr (schema_name s, e) \<and> schema_name e = schema_name s
    \<and> dget (as_dict e) ''parameters'' = dget (as_dict s) ''parameters''
    \<and> dget (as_dict e) ''description'' = dget (as_dict s) ''description''"
proof -
  obtain p where p: "dget (as_dict s) ''parameters'' = VDict p"
    using assms by (auto simp: well_formed_schema_def elim: is_VDict.elims)
  obtain d where d: "dget (as_dict s) ''description'' = VStr d" "strip d \<noteq> []"
    using assms by (auto simp: well_formed_schema_def split: pyval.splits)
  have n: "dget (as_dict s) ''name'' = VStr (schema_name s)" "schema_name s \<noteq> []"
    "strip (schema_name s) = schema_name s" "provider_safe (schema_name s)"
    using assms by (auto simp: well_formed_schema_def schema_name_def split: pyval.splits)
  show ?thesis
    unfolding surface_entry_def using n p d assms(2)
    by (simp add: Let_def schema_name_def [of "VDict _"] dget_def dget_or_def)
qed

lemma surface_entries_well_formed:
  assumes "list_all well_formed_schema ss" and "distinct (map schema_name ss)"
    and "set (map schema_name ss) \<inter> set seen = {}"
  shows "\<exists>es. surface_entries seen ss = Inr es \<and> map schema_name es = map schema_name ss
    \<and> map (\<lambda>e. dget (as_dict e) ''parameters'') es = map (\<lambda>e. dget (as_dict e) ''parameters'') ss"
  using assms
proof (induction ss arbitrary: seen)
  case (Cons s ss)
  obtain e where e: "surface_entry seen (as_dict s) = Inr (schema_name s, e)" "schema_name e = schema_name s"
    "dget (as_dict e) ''parameters'' = dget (as_dict s) ''parameters''"
    using surface_entry_well_formed [of s seen] Cons.prems by auto
  obtain es where es: "surface_entries (schema_name s # seen) ss = Inr es" "map schema_name es = map schema_name ss"
    "map (\<lambda>e. dget (as_dict e) ''parameters'') es = map (\<lambda>e. dget (as_dict e) ''parameters'') ss"
    using Cons.IH [of "schema_name s # seen"] Cons.prems by auto
  show ?case by (simp add: e es)
qed simp

lemma tools_schema_names:
  "map schema_name (tools_schema t)
   = filter (\<lambda>n. n \<in> set (to_enabled t)) [''shell'', ''web_search'', ''web_fetch'', ''http_request'']"
proof -
  have "schema_name shell_schema = ''shell''" "schema_name web_search_schema = ''web_search''"
    "schema_name web_fetch_schema = ''web_fetch''" "schema_name http_request_schema = ''http_request''"
    by code_simp+
  then show ?thesis by (simp add: tools_schema_def)
qed

lemma tools_schema_well_formed: "list_all well_formed_schema (tools_schema t)"
proof -
  have "well_formed_schema shell_schema" "well_formed_schema web_search_schema"
    "well_formed_schema web_fetch_schema" "well_formed_schema http_request_schema"
    by code_simp+
  then show ?thesis by (simp add: tools_schema_def)
qed

lemma control_schema_names:
  "map schema_name (control_schemas c) = filter (\<lambda>n. c \<or> n \<noteq> ''agent_clarify'') CONTROL_TOOL_NAMES"
  "list_all well_formed_schema (control_schemas c)"
proof -
  have w: "well_formed_schema done_schema" "well_formed_schema clarify_schema" "well_formed_schema replan_schema"
      "well_formed_schema read_skill_file_schema"
    by code_simp+
  have n: "schema_name done_schema = ''agent_done''" "schema_name clarify_schema = ''agent_clarify''"
      "schema_name replan_schema = ''agent_replan''" "schema_name read_skill_file_schema = ''agent_read_skill_file''"
      "dget (as_dict done_schema) ''name'' = VStr ''agent_done''"
      "dget (as_dict clarify_schema) ''name'' = VStr ''agent_clarify''"
      "dget (as_dict replan_schema) ''name'' = VStr ''agent_replan''"
      "dget (as_dict read_skill_file_schema) ''name'' = VStr ''agent_read_skill_file''"
    by code_simp+
  show "map schema_name (control_schemas c) = filter (\<lambda>n. c \<or> n \<noteq> ''agent_clarify'') CONTROL_TOOL_NAMES"
    and "list_all well_formed_schema (control_schemas c)"
    by (simp_all add: control_schemas_def CONTROL_TOOL_SCHEMAS_def CONTROL_TOOL_NAMES_def n w)
qed

lemma spawn_schema_well_formed:
  "well_formed_schema SPAWN_SUBAGENT_SCHEMA" "schema_name SPAWN_SUBAGENT_SCHEMA = ''spawn_subagent''"
  by code_simp+

definition surface_names :: "tools \<Rightarrow> bool \<Rightarrow> bool \<Rightarrow> string list" where
  "surface_names t clarify spawn =
     filter (\<lambda>n. n \<in> set (to_enabled t)) KNOWN_TOOLS
     @ filter (\<lambda>n. clarify \<or> n \<noteq> ''agent_clarify'') CONTROL_TOOL_NAMES
     @ (if spawn then [''spawn_subagent''] else [])"

lemma surface_names_distinct: "distinct (surface_names t c s)"
  by (auto simp: surface_names_def KNOWN_TOOLS_def CONTROL_TOOL_NAMES_def)

lemma surface_names_safe: "n \<in> set (surface_names t c s) \<Longrightarrow> provider_safe n"
proof -
  have "\<forall>n \<in> set (KNOWN_TOOLS @ CONTROL_TOOL_NAMES @ [''spawn_subagent'']). provider_safe n" by code_simp
  then show "n \<in> set (surface_names t c s) \<Longrightarrow> provider_safe n"
    by (auto simp: surface_names_def split: if_splits)
qed

lemma agent_surface_names:
  "\<exists>surface. agent_surface t c s = Inr surface \<and> map schema_name surface = surface_names t c s
     \<and> (\<forall>e \<in> set surface. is_VDict (dget (as_dict e) ''parameters''))"
proof -
  define ss where "ss = tools_schema t @ control_schemas c @ (if s then [SPAWN_SUBAGENT_SCHEMA] else [])"
  have n: "map schema_name ss = surface_names t c s"
    by (simp add: ss_def surface_names_def tools_schema_names control_schema_names spawn_schema_well_formed
        KNOWN_TOOLS_def)
  have w: "list_all well_formed_schema ss"
    using tools_schema_well_formed control_schema_names spawn_schema_well_formed by (simp add: ss_def)
  have d: "distinct (map schema_name ss)" unfolding n by (rule surface_names_distinct)
  obtain es where es: "surface_entries [] ss = Inr es" "map schema_name es = map schema_name ss"
    and p: "map (\<lambda>e. dget (as_dict e) ''parameters'') es = map (\<lambda>e. dget (as_dict e) ''parameters'') ss"
    using surface_entries_well_formed [OF w d, of "[]"] by auto
  have "\<forall>p \<in> set (map (\<lambda>e. dget (as_dict e) ''parameters'') ss). is_VDict p"
    using w by (auto simp: list_all_iff well_formed_schema_def)
  then have "\<forall>e \<in> set es. is_VDict (dget (as_dict e) ''parameters'')"
    unfolding p [symmetric] by simp
  with es n show ?thesis by (auto simp: agent_surface_def build_execution_action_surface_def ss_def)
qed

text \<open>
  C38. The action surface of every agent is well formed: building it never raises, it offers
  exactly the enabled tools, the control tools (clarification where the agent may ask) and
  delegation where it is enabled, under distinct names that every provider accepts, each with
  a parameters object.
\<close>

theorem action_surface_type:
  "\<exists>surface. agent_surface (new_tools config) clarify spawn = Inr surface
     \<and> distinct (map schema_name surface) \<and> list_all provider_safe (map schema_name surface)
     \<and> set (map schema_name surface) =
         set (list_enabled (new_tools config)) \<union> (set CONTROL_TOOL_NAMES - (if clarify then {} else {''agent_clarify''}))
         \<union> (if spawn then {''spawn_subagent''} else {})
     \<and> list_all (\<lambda>e. is_VDict (dget (as_dict e) ''parameters'')) surface"
proof -
  let ?t = "new_tools config"
  obtain surface where s: "agent_surface ?t clarify spawn = Inr surface"
    "map schema_name surface = surface_names ?t clarify spawn"
    "\<forall>e \<in> set surface. is_VDict (dget (as_dict e) ''parameters'')"
    using agent_surface_names by blast
  have "set (to_enabled ?t) \<subseteq> set KNOWN_TOOLS" by (auto simp: new_tools_def split: pyval.splits)
  then have m: "set (surface_names ?t clarify spawn) =
      set (list_enabled ?t) \<union> (set CONTROL_TOOL_NAMES - (if clarify then {} else {''agent_clarify''}))
         \<union> (if spawn then {''spawn_subagent''} else {})"
    by (auto simp: surface_names_def list_enabled_def)
  have "list_all provider_safe (surface_names ?t clarify spawn)"
    using surface_names_safe by (auto simp: list_all_iff)
  then show ?thesis
    using s(1,3) unfolding s(2) [symmetric] m [symmetric]
    by (intro exI [of _ surface]) (simp add: s(2) surface_names_distinct list_all_iff)
qed

lemma bind_sum_eq: "bind_sum m k = Inr (Inr y) \<longleftrightarrow> (\<exists>x. m = Inr x \<and> k x = Inr (Inr y))"
  by (cases m) (auto simp: bind_sum_def)

lemma tool_entries_sound:
  "tool_entries parent es acc = Inr result \<Longrightarrow> distinct acc \<Longrightarrow> set acc \<subseteq> set parent - {''spawn_subagent''} \<Longrightarrow>
    distinct result \<and> set result \<subseteq> set parent - {''spawn_subagent''}"
proof (induction es arbitrary: acc)
  case (Cons e es)
  from Cons.prems obtain name where n: "tool_entry parent e = Inr name" by (auto split: sum.splits)
  then have "name \<in> set parent - {''spawn_subagent''}"
    by (auto simp: tool_entry_def split: pyval.splits if_splits)
  then show ?case using Cons.IH Cons.prems n by (auto split: if_splits)
qed auto

lemma allowed_tools_sound:
  assumes "validate_subagent_allowed_tools parent raw = Inr allowed" and "''spawn_subagent'' \<notin> set parent"
  shows "distinct allowed \<and> set allowed \<subseteq> set parent"
  using assms tool_entries_sound [of parent _ "[]"]
  by (fastforce simp: validate_subagent_allowed_tools_def split: pyval.splits sum.splits)

lemma positive_or_pos: "positive_or fallback raw = Inr n \<Longrightarrow> 0 < fallback \<Longrightarrow> 0 < n"
proof (cases "is_VBool raw")
  case False
  assume "positive_or fallback raw = Inr n" and f: "0 < fallback"
  then obtain x where "n = (case x of None \<Rightarrow> fallback | Some k \<Rightarrow> if k \<le> 0 then fallback else k)"
    using False by (cases "int_or_none raw") (auto simp: positive_or_def)
  then show "0 < n" using f by (simp split: option.splits if_splits)
qed (simp add: positive_or_def)

lemma clamp_bounds:
  assumes "clamp_subagent_int raw cap name least = Inr n" and "0 < cap" and "0 < least"
  shows "min least cap \<le> n \<and> n \<le> cap \<and> 0 < n"
  using assms by (auto simp: clamp_subagent_int_def min_def max_def split: pyval.splits if_splits)

lemma truncate_to_take: "0 < n \<Longrightarrow> \<exists>mark. truncate_to s n = take (nat n) s @ mark \<and> (int (length s) \<le> n \<longrightarrow> mark = [])"
  by (simp add: truncate_to_def)

text \<open>
  C32. A child gets no more than the parent gives: the request built for a \<open>spawn_subagent\<close>
  call names tools the parent has enabled only, each once and never \<open>spawn_subagent\<close> itself,
  its iteration and time limits lie between the floor and the configured cap whatever the
  model asked for, and its task is not blank.
\<close>

theorem subagent_request_confined:
  assumes "build_subagent_request (list_enabled (new_tools config)) settings args = Inr (Inr request)"
  shows "\<exists>allowed iter_cap iterations time_cap timeout task.
    dget request ''allowed_tools'' = VList (map VStr allowed)
    \<and> distinct allowed \<and> set allowed \<subseteq> set (list_enabled (new_tools config)) \<and> ''spawn_subagent'' \<notin> set allowed
    \<and> read_pos_int_field settings ''max_iterations'' 20 = Inr iter_cap
    \<and> dget request ''max_iterations'' = VInt iterations \<and> min 3 iter_cap \<le> iterations \<and> iterations \<le> iter_cap
    \<and> read_pos_int_field settings ''timeout_seconds'' 600 = Inr time_cap
    \<and> dget request ''timeout_seconds'' = VInt timeout \<and> min 3 time_cap \<le> timeout \<and> timeout \<le> time_cap
    \<and> 0 < iterations \<and> 0 < timeout
    \<and> dget request ''task'' = VStr task \<and> task \<noteq> [] \<and> dget args ''task'' \<noteq> VNone"
proof -
  let ?parent = "list_enabled (new_tools config)"
  have ns: "''spawn_subagent'' \<notin> set ?parent"
    by (auto simp: list_enabled_def new_tools_def KNOWN_TOOLS_def split: pyval.splits)
  obtain task ctx expected allowed refs iter_cap iterations time_cap timeout max_chars where
    t: "task_text args = Inr task"
    and a: "validate_subagent_allowed_tools ?parent (dget args ''allowed_tools'') = Inr allowed"
    and ic: "read_pos_int_field settings ''max_iterations'' 20 = Inr iter_cap"
    and it: "clamp_subagent_int (dget args ''max_iterations'') iter_cap ''max_iterations'' 3 = Inr iterations"
    and tc: "read_pos_int_field settings ''timeout_seconds'' 600 = Inr time_cap"
    and tm: "clamp_subagent_int (dget args ''timeout_seconds'') time_cap ''timeout_seconds'' 3 = Inr timeout"
    and r: "request = dict_of [(''task'', VStr (strip task)), (''context'', VStr (truncate_to ctx max_chars)),
         (''expected_output'', VStr expected), (''allowed_tools'', VList (map VStr allowed)),
         (''referenced_skills'', VList (map VStr refs)), (''max_iterations'', VInt iterations),
         (''timeout_seconds'', VInt timeout)]"
    using assms
    by (auto simp: build_subagent_request_def bind_sum_eq bind_res_eq_Inr SUBAGENT_MIN_OVERRIDE_def)
  have caps: "0 < iter_cap" "0 < time_cap"
    using ic tc positive_or_pos by (fastforce simp: read_pos_int_field_def)+
  have t': "strip task \<noteq> []" "dget args ''task'' \<noteq> VNone"
    using t by (auto simp: task_text_def split: pyval.splits if_splits)
  have d: "dget request ''allowed_tools'' = VList (map VStr allowed)" "dget request ''task'' = VStr (strip task)"
    "dget request ''max_iterations'' = VInt iterations" "dget request ''timeout_seconds'' = VInt timeout"
    by (simp_all add: r dget_def dget_or_def)
  note s = allowed_tools_sound [OF a ns] and bi = clamp_bounds [OF it caps(1)] and bt = clamp_bounds [OF tm caps(2)]
  have "''spawn_subagent'' \<notin> set allowed" using s ns by blast
  then show ?thesis
    by (intro exI conjI) (rule d ic tc t' | use s bi bt in simp)+
qed

lemma demo_request:
  "build_subagent_request (list_enabled (new_tools [])) []
     (dict_of [(''task'', VStr '' dig ''), (''allowed_tools'', VList [VStr ''shell'']), (''max_iterations'', VInt 1)])
   = Inr (Inr (dict_of [(''task'', VStr ''dig''), (''context'', VStr []), (''expected_output'', VStr []),
       (''allowed_tools'', VList [VStr ''shell'']), (''referenced_skills'', VList []), (''max_iterations'', VInt 3),
       (''timeout_seconds'', VInt 600)]))"
  by code_simp

lemma subagent_request_confined_witness:
  "\<exists>allowed. dget (dict_of [(''task'', VStr ''dig''), (''context'', VStr []), (''expected_output'', VStr []),
       (''allowed_tools'', VList [VStr ''shell'']), (''referenced_skills'', VList []), (''max_iterations'', VInt 3),
       (''timeout_seconds'', VInt 600)]) ''allowed_tools'' = VList (map VStr allowed)
     \<and> distinct allowed \<and> set allowed \<subseteq> set (list_enabled (new_tools []))"
  using subagent_request_confined [OF demo_request] by blast

end
