(* ===== verification/Config.thy ===== *)
theory Config
  imports AgentConfig
begin

text \<open>
  \<open>config.py\<close>: finding and loading the configuration, environment variables, the required
  fields and the validation that fills in defaults. Reading a YAML file and the environment
  are arguments. Validation mutates the configuration section by section; here every section
  is a function from the old value to the new one.
\<close>

definition config_error :: "string \<Rightarrow> 'a res" where
  "config_error msg = raise ConfigError msg"

definition field_error :: "string \<Rightarrow> string \<Rightarrow> 'a res" where
  "field_error name what = config_error (''Config field '' @ name @ '' must be '' @ what @ ''.'')"

section \<open>Environment variables\<close>

definition name_start :: "char \<Rightarrow> bool" where
  "name_start c = (is_alpha c \<or> c = CHR ''_'')"

definition name_part :: "char \<Rightarrow> bool" where
  "name_part c = (is_alnum c \<or> c = CHR ''_'')"

text \<open>\<open>${NAME}\<close> at the start of a string: the name and the rest.\<close>

definition env_reference :: "string \<Rightarrow> (string \<times> string) option" where
  "env_reference s =
     (if \<not> prefix ''${'' s then None
      else
        (let t = drop 2 s; name = takeWhile name_part t; rest = dropWhile name_part t
         in if name \<noteq> [] \<and> name_start (hd name) \<and> rest \<noteq> [] \<and> hd rest = CHR ''}'' then Some (name, tl rest)
            else None))"

lemma env_reference_shorter [termination_simp]: "env_reference s = Some (name, rest) \<Longrightarrow> length rest < length s"
proof -
  assume a: "env_reference s = Some (name, rest)"
  have "length (dropWhile name_part (drop 2 s)) \<le> length (drop 2 s)" by (rule length_dropWhile_le)
  moreover have "2 \<le> length s" "rest = tl (dropWhile name_part (drop 2 s))"
    using a by (auto simp: env_reference_def Let_def prefix_def split: if_splits)
  ultimately show ?thesis by simp
qed

definition lookup_env :: "(string \<Rightarrow> string option) \<Rightarrow> string list \<Rightarrow> string \<Rightarrow> string res" where
  "lookup_env env path name =
     (case env name of
        Some value \<Rightarrow> Inr value
      | None \<Rightarrow> config_error (''Missing environment variable '' @ quoted name @ '' required by config field ''
          @ quoted (if path = [] then ''<root>'' else join ''.'' path) @ ''.''))"

function substitute :: "(string \<Rightarrow> string res) \<Rightarrow> string \<Rightarrow> string res" where
  "substitute f s =
     (if s = [] then Inr []
      else
        (case env_reference s of
           Some (name, rest) \<Rightarrow> bind_res (f name) (\<lambda>value. bind_res (substitute f rest) (\<lambda>t. Inr (value @ t)))
         | None \<Rightarrow> bind_res (substitute f (tl s)) (\<lambda>t. Inr (hd s # t))))"
  by pat_completeness auto

termination
  by (relation "measure (\<lambda>(f, s). length s)") (auto simp: env_reference_shorter)

declare substitute.simps [simp del]

definition key_str :: "pykey \<Rightarrow> string" where
  "key_str k = (case k of KStr s \<Rightarrow> s | _ \<Rightarrow> repr_key k)"

text \<open>A fresh copy of every dictionary and list: YAML aliases no longer share anything.\<close>

function resolve_env_vars :: "(string \<Rightarrow> string option) \<Rightarrow> pyval \<Rightarrow> string list \<Rightarrow> pyval res" where
  "resolve_env_vars env (VDict d) path =
     bind_res (map_res (\<lambda>p. bind_res (resolve_env_vars env (snd p) (path @ [key_str (fst p)])) (\<lambda>v. Inr (fst p, v))) d)
       (\<lambda>d'. Inr (VDict d'))"
| "resolve_env_vars env (VList xs) path =
     bind_res (map_res (\<lambda>n. resolve_env_vars env (xs ! n) (path @ [nat_str n])) [0..<length xs]) (\<lambda>xs'. Inr (VList xs'))"
| "resolve_env_vars env (VStr s) path = bind_res (substitute (lookup_env env path) s) (\<lambda>t. Inr (VStr t))"
| "resolve_env_vars env VNone path = Inr VNone"
| "resolve_env_vars env (VBool b) path = Inr (VBool b)"
| "resolve_env_vars env (VInt n) path = Inr (VInt n)"
| "resolve_env_vars env (VFloat q) path = Inr (VFloat q)"
  by pat_completeness auto

lemma size_nth_list: "n < length xs \<Longrightarrow> size (xs ! n) < Suc (size_list size xs)"
  using size_list_estimation' [of "xs ! n" xs "size (xs ! n)" size] by (simp add: less_Suc_eq_le)

lemma size_dict_entry: "(k, v) \<in> set d \<Longrightarrow> size v < Suc (size_list (size_prod (\<lambda>x. 0) size) d)"
proof (induction d)
  case (Cons p d)
  then show ?case by (cases p) (auto simp: less_Suc_eq_le intro: le_SucI trans_le_add2)
qed simp

termination resolve_env_vars
  by (relation "measure (\<lambda>(env, v, path). size v)")
    (auto simp: size_dict_entry size_nth_list)

section \<open>Finding and loading the file\<close>

text \<open>
  What the loader meets outside: the home directory, \<open>Path.expanduser\<close> and
  \<open>Path.exists\<close>, the environment, the example next to the module, and opening a file with
  \<open>yaml.safe_load\<close>, whose \<open>YAMLError\<close> is \<open>OtherException\<close>.
\<close>

record config_env =
  ce_home :: string
  ce_fallback :: string
  ce_expanduser :: "string \<Rightarrow> string"
  ce_exists :: "string \<Rightarrow> bool"
  ce_read :: "string \<Rightarrow> pyval res"
  ce_getenv :: "string \<Rightarrow> string option"

definition default_user_config :: "config_env \<Rightarrow> string" where
  "default_user_config env = ce_home env @ ''/.strangeclaw/config.yaml''"

definition resolve_config_path :: "config_env \<Rightarrow> string option \<Rightarrow> string res" where
  "resolve_config_path env config_path =
     (case config_path of
        Some p \<Rightarrow>
          let path = ce_expanduser env p
          in if ce_exists env path then Inr path else config_error (''Config file not found: '' @ path)
      | None \<Rightarrow>
          if ce_exists env (default_user_config env) then Inr (default_user_config env)
          else if ce_exists env (ce_fallback env) then Inr (ce_fallback env)
          else config_error (''No configuration found. Expected either '' @ default_user_config env @ '' or ''
                 @ ce_fallback env @ ''.''))"

definition load_yaml :: "config_env \<Rightarrow> string \<Rightarrow> pyval res" where
  "load_yaml env path =
     (case ce_read env path of
        Inl e \<Rightarrow>
          if exn_class e = OtherException ''YAMLError''
          then config_error (''Invalid YAML in '' @ path @ '': '' @ exn_str e) else Inl e
      | Inr v \<Rightarrow>
          if is_VDict v then Inr v
          else config_error (''Config file '' @ path @ '' must contain a top-level mapping.''))"

section \<open>Required fields\<close>

definition REQUIRED_FIELDS :: "string list list" where
  "REQUIRED_FIELDS =
     [[''mode''], [''adapters'', ''enabled''], [''approval_mode''], [''llm'', ''model''],
      [''llm'', ''api_key''], [''llm'', ''max_tokens''], [''llm'', ''temperature''],
      [''context'', ''token_budget''], [''context'', ''summary_threshold''], [''context'', ''max_output_chars''],
      [''loop'', ''max_iterations''], [''firecracker'', ''binary''], [''firecracker'', ''kernel''],
      [''firecracker'', ''rootfs''], [''firecracker'', ''vcpu''], [''firecracker'', ''mem_mb''],
      [''firecracker'', ''host_iface''], [''firecracker'', ''boot_timeout''],
      [''firecracker'', ''tap_subnet_base''], [''telegram'', ''token'']]"

fun field_at :: "pyval \<Rightarrow> string list \<Rightarrow> pyval option" where
  "field_at v [] = Some v"
| "field_at (VDict d) (k # ks) = (case dlookup d k of None \<Rightarrow> None | Some w \<Rightarrow> field_at w ks)"
| "field_at _ _ = None"

definition validate_required_fields :: "pydict \<Rightarrow> string \<Rightarrow> unit res" where
  "validate_required_fields config source_path =
     (let missing = [join ''.'' p. p \<leftarrow> REQUIRED_FIELDS, field_at (VDict config) p = None]
      in if missing = [] then Inr ()
         else config_error (''Missing required config fields in '' @ source_path @ '': '' @ join '', '' missing))"

section \<open>Optional fields\<close>

definition mapping_of :: "string \<Rightarrow> pyval \<Rightarrow> pydict res" where
  "mapping_of name v = (case v of VDict d \<Rightarrow> Inr d | _ \<Rightarrow> field_error name ''a mapping'')"

text \<open>Not a bool, \<open>int(value)\<close>, and above zero. An infinite float raises \<open>OverflowError\<close>.\<close>

definition int_field :: "string \<Rightarrow> pyval \<Rightarrow> int res" where
  "int_field name v =
     (if is_VBool v then field_error name ''an integer''
      else bind_res (int_or_none v) (\<lambda>n. case n of None \<Rightarrow> field_error name ''an integer'' | Some k \<Rightarrow> Inr k))"

definition require_positive_int :: "string \<Rightarrow> pyval \<Rightarrow> int res" where
  "require_positive_int name v =
     bind_res (int_field name v) (\<lambda>n. if n \<le> 0 then field_error name ''greater than zero'' else Inr n)"

definition require_strict_int :: "string \<Rightarrow> pyval \<Rightarrow> int res" where
  "require_strict_int name v =
     (case v of
        VInt n \<Rightarrow> if n \<le> 0 then field_error name ''greater than zero'' else Inr n
      | _ \<Rightarrow> field_error name ''an integer'')"

definition require_boolean :: "string \<Rightarrow> pyval \<Rightarrow> bool res" where
  "require_boolean name v = (case v of VBool b \<Rightarrow> Inr b | _ \<Rightarrow> field_error name ''a boolean'')"

definition require_text :: "string \<Rightarrow> pyval \<Rightarrow> string res" where
  "require_text name v =
     (case v of
        VStr s \<Rightarrow> if strip s = [] then field_error name ''a non-empty string'' else Inr (strip s)
      | _ \<Rightarrow> field_error name ''a non-empty string'')"

definition require_choice :: "string \<Rightarrow> string list \<Rightarrow> string \<Rightarrow> pyval \<Rightarrow> string res" where
  "require_choice name choices what v =
     (case v of
        VStr s \<Rightarrow> if lower (strip s) \<in> set choices then Inr (lower (strip s)) else field_error name what
      | _ \<Rightarrow> field_error name ''a string'')"

text \<open>Sets field \<open>key\<close> to what \<open>check\<close> makes of its value, or of the default.\<close>

definition set_field :: "string \<Rightarrow> pyval \<Rightarrow> (pyval \<Rightarrow> pyval res) \<Rightarrow> pydict \<Rightarrow> pydict res" where
  "set_field key dflt check d = bind_res (check (dget_or d key dflt)) (\<lambda>v. Inr (dset d key v))"

definition as_int :: "(pyval \<Rightarrow> int res) \<Rightarrow> pyval \<Rightarrow> pyval res" where
  "as_int f v = bind_res (f v) (\<lambda>n. Inr (VInt n))"

definition as_bool :: "(pyval \<Rightarrow> bool res) \<Rightarrow> pyval \<Rightarrow> pyval res" where
  "as_bool f v = bind_res (f v) (\<lambda>b. Inr (VBool b))"

definition as_text :: "(pyval \<Rightarrow> string res) \<Rightarrow> pyval \<Rightarrow> pyval res" where
  "as_text f v = bind_res (f v) (\<lambda>s. Inr (VStr s))"

definition validate_legacy_integrations :: "pydict \<Rightarrow> unit res" where
  "validate_legacy_integrations config =
     (if dhas config ''integrations''
      then config_error (''Config field integrations is no longer supported. ''
             @ ''Move external API credentials to ~/.strangeclaw/secrets.yaml.'')
      else Inr ())"

definition llm_fields :: "pyval \<Rightarrow> pyval res" where
  "llm_fields v =
     bind_res (mapping_of ''llm'' v) (\<lambda>d.
       if \<not> dhas d ''api_base'' then Inr (VDict (dset d ''api_base'' VNone))
       else
         (case dget d ''api_base'' of
            VNone \<Rightarrow> Inr (VDict d)
          | VStr s \<Rightarrow>
              if strip s = [] then field_error ''llm.api_base'' ''a non-empty string or null''
              else Inr (VDict (dset d ''api_base'' (VStr (strip s))))
          | _ \<Rightarrow> field_error ''llm.api_base'' ''a non-empty string or null''))"

definition coordinator_fields :: "pyval \<Rightarrow> pyval res" where
  "coordinator_fields v =
     (if v = VNone then Inr (VDict (dict_of [(''max_active_sessions'', VInt 8)]))
      else
        bind_res (mapping_of ''coordinator'' v) (\<lambda>d.
        bind_res (set_field ''max_active_sessions'' (VInt 8)
                    (as_int (require_positive_int ''coordinator.max_active_sessions'')) d) (\<lambda>d.
        Inr (VDict d))))"

definition subagent_int_defaults :: "(string \<times> int) list" where
  "subagent_int_defaults =
     [(''max_children_per_task'', 3), (''max_iterations'', 20), (''timeout_seconds'', 600),
      (''max_context_chars'', 20000), (''max_result_chars'', 20000), (''max_files_bytes'', 10 * 1024 * 1024)]"

definition subagents_defaults :: pydict where
  "subagents_defaults =
     dict_of ((''enabled'', VBool False) # map (\<lambda>(k, n). (k, VInt n)) subagent_int_defaults
              @ [(''journal_events'', VStr ''summary'')])"

definition subagents_fields :: "pyval \<Rightarrow> pyval res" where
  "subagents_fields v =
     (if v = VNone then Inr (VDict subagents_defaults)
      else
        bind_res (mapping_of ''subagents'' v) (\<lambda>d.
        bind_res (require_boolean ''subagents.enabled'' (dget_or d ''enabled'' (VBool False))) (\<lambda>enabled.
        bind_res (map_res (\<lambda>(key, n).
                    bind_res (require_positive_int (''subagents.'' @ key) (dget_or d key (VInt n)))
                      (\<lambda>m. Inr (key, VInt m))) subagent_int_defaults) (\<lambda>ints.
        bind_res (require_choice ''subagents.journal_events'' [''none'', ''summary'', ''full'']
                    ''one of: none, summary, full'' (dget_or d ''journal_events'' (VStr ''summary''))) (\<lambda>journal_events.
        Inr (VDict (dict_of ((''enabled'', VBool enabled) # ints
                             @ [(''journal_events'', VStr journal_events)]))))))))"

text \<open>An unknown tool name is warned about and dropped.\<close>

fun normalize_tools :: "pydict \<Rightarrow> pydict \<Rightarrow> pydict res" where
  "normalize_tools [] acc = Inr acc"
| "normalize_tools ((KStr key, v) # d) acc =
     (case v of
        VBool b \<Rightarrow> normalize_tools d (if key \<in> set (KNOWN_TOOLS @ [''spawn_subagent'']) then dset acc key v else acc)
      | _ \<Rightarrow> field_error (''tools.'' @ key) ''a boolean'')"
| "normalize_tools ((_, _) # d) acc = config_error ''Config field tools keys must be strings.''"

definition tools_defaults :: pydict where
  "tools_defaults = dict_of
     [(''shell'', VBool True), (''web_search'', VBool True), (''web_fetch'', VBool True),
      (''http_request'', VBool True), (''spawn_subagent'', VBool False)]"

definition tools_fields :: "pyval \<Rightarrow> pyval res" where
  "tools_fields v =
     (if v = VNone then Inr (VDict tools_defaults)
      else bind_res (mapping_of ''tools'' v) (\<lambda>d.
           bind_res (normalize_tools d tools_defaults) (\<lambda>d'. Inr (VDict d'))))"

definition search_api_key :: "pydict \<Rightarrow> pydict res" where
  "search_api_key d =
     (if \<not> dhas d ''api_key'' then Inr d
      else
        (case dget d ''api_key'' of
           VStr s \<Rightarrow>
             if strip s \<noteq> []
             then config_error (''web_search.api_key is no longer supported. Move search credentials to ''
                    @ ''~/.strangeclaw/secrets.yaml under credentials._web_search.token.'')
             else Inr (dpop d ''api_key'')
         | _ \<Rightarrow> config_error ''Config field web_search.api_key must be a string when provided.''))"

definition search_endpoint :: string where
  "search_endpoint = ''https://api.search.brave.com/res/v1/web/search''"

definition web_search_fields :: "pyval \<Rightarrow> pyval res" where
  "web_search_fields v =
     bind_res (mapping_of ''web_search''
       (if v = VNone
        then VDict (dict_of [(''endpoint'', VStr search_endpoint), (''format'', VStr ''brave''),
                             (''max_results'', VInt 10)])
        else v)) (\<lambda>d.
     bind_res (set_field ''endpoint'' (VStr search_endpoint) (as_text (require_text ''web_search.endpoint'')) d) (\<lambda>d.
     bind_res (set_field ''format'' (VStr ''brave'')
                 (as_text (require_choice ''web_search.format'' [''brave'', ''searxng'']
                    (''either '' @ quoted ''brave'' @ '' or '' @ quoted ''searxng''))) d) (\<lambda>d.
     bind_res (search_api_key d) (\<lambda>d.
     bind_res (set_field ''max_results'' (VInt 10) (as_int (require_positive_int ''web_search.max_results'')) d) (\<lambda>d.
     Inr (VDict d))))))"

definition web_fetch_fields :: "pyval \<Rightarrow> pyval res" where
  "web_fetch_fields v =
     (if v = VNone then Inr (VDict (dict_of [(''max_response_bytes'', VInt 524288)]))
      else
        bind_res (mapping_of ''web_fetch'' v) (\<lambda>d.
        if dhas d ''max_chars''
        then config_error (''Config field web_fetch.max_chars has been removed. Use ''
               @ ''web_fetch.max_response_bytes instead.'')
        else
          bind_res (set_field ''max_response_bytes'' (VInt 524288)
                      (as_int (require_positive_int ''web_fetch.max_response_bytes'')) d) (\<lambda>d.
          Inr (VDict d))))"

definition skills_fields :: "pyval \<Rightarrow> pyval res" where
  "skills_fields v =
     bind_res (mapping_of ''skills''
       (if v = VNone
        then VDict (dict_of [(''directory'', VStr ''./skills''), (''max_file_chars'', VInt 20000)]) else v)) (\<lambda>d.
     bind_res (set_field ''directory'' (VStr ''./skills'') (as_text (require_text ''skills.directory'')) d) (\<lambda>d.
     bind_res (set_field ''max_file_chars'' (VInt 20000) (as_int (require_positive_int ''skills.max_file_chars'')) d) (\<lambda>d.
     Inr (VDict d))))"

definition host_services_fields :: "pyval \<Rightarrow> pyval res" where
  "host_services_fields v =
     (if v = VNone
      then Inr (VDict (dict_of [(''llm_timeout_seconds'', VInt 120), (''llm_max_request_bytes'', VInt (2 * 1024 * 1024))]))
      else
        bind_res (mapping_of ''host_services'' v) (\<lambda>d.
        bind_res (set_field ''llm_timeout_seconds'' (VInt 120)
                    (as_int (require_strict_int ''host_services.llm_timeout_seconds'')) d) (\<lambda>d.
        bind_res (set_field ''llm_max_request_bytes'' (VInt (2 * 1024 * 1024))
                    (as_int (require_strict_int ''host_services.llm_max_request_bytes'')) d) (\<lambda>d.
        Inr (VDict d)))))"

definition log_export_fields :: "pyval \<Rightarrow> pyval res" where
  "log_export_fields v =
     bind_res (mapping_of ''firecracker.log_export''
       (if v = VNone then VDict (dict_of [(''enabled'', VBool False), (''max_bytes'', VInt (32 * 1024))]) else v)) (\<lambda>d.
     bind_res (require_boolean ''firecracker.log_export.enabled'' (dget_or d ''enabled'' (VBool False))) (\<lambda>enabled.
     bind_res (require_positive_int ''firecracker.log_export.max_bytes'' (dget_or d ''max_bytes'' (VInt (32 * 1024)))) (\<lambda>n.
     Inr (VDict (dset (dset d ''enabled'' (VBool enabled)) ''max_bytes'' (VInt n))))))"

definition idle_timeout_field :: "pyval \<Rightarrow> int res" where
  "idle_timeout_field v =
     bind_res (int_field ''firecracker.session_idle_timeout_seconds'' v) (\<lambda>n.
       if n < 0 then field_error ''firecracker.session_idle_timeout_seconds'' ''greater than or equal to zero''
       else Inr n)"

definition firecracker_fields :: "pyval \<Rightarrow> pyval res" where
  "firecracker_fields v =
     bind_res (mapping_of ''firecracker'' v) (\<lambda>d.
     bind_res (set_field ''log_export'' VNone log_export_fields d) (\<lambda>d.
     bind_res (set_field ''lifecycle_status_messages'' (VBool True)
                 (as_bool (require_boolean ''firecracker.lifecycle_status_messages'')) d) (\<lambda>d.
     bind_res (set_field ''session_idle_timeout_seconds'' (VInt 1800) (as_int idle_timeout_field) d) (\<lambda>d.
     Inr (VDict d)))))"

definition session_journal_fields :: "pyval \<Rightarrow> pyval res" where
  "session_journal_fields v =
     (if v = VNone
      then Inr (VDict (dict_of [(''enabled'', VBool False), (''max_bytes'', VInt (1 * 1024 * 1024))]))
      else
        bind_res (mapping_of ''session_journal'' v) (\<lambda>d.
        bind_res (require_boolean ''session_journal.enabled'' (dget_or d ''enabled'' (VBool False))) (\<lambda>enabled.
        bind_res (require_positive_int ''session_journal.max_bytes'' (dget_or d ''max_bytes'' (VInt (1 * 1024 * 1024)))) (\<lambda>n.
        Inr (VDict (dset (dset d ''enabled'' (VBool enabled)) ''max_bytes'' (VInt n)))))))"

text \<open>Each section in turn is replaced by what its validation makes of it.\<close>

fun run_sections :: "(string \<times> (pyval \<Rightarrow> pyval res)) list \<Rightarrow> pydict \<Rightarrow> pydict res" where
  "run_sections [] config = Inr config"
| "run_sections ((key, f) # secs) config =
     bind_res (f (dget config key)) (\<lambda>v. run_sections secs (dset config key v))"

definition config_sections :: "(string \<times> (pyval \<Rightarrow> pyval res)) list" where
  "config_sections =
     [(''llm'', llm_fields), (''coordinator'', coordinator_fields), (''subagents'', subagents_fields),
      (''tools'', tools_fields), (''web_search'', web_search_fields), (''web_fetch'', web_fetch_fields),
      (''skills'', skills_fields), (''host_services'', host_services_fields),
      (''firecracker'', firecracker_fields), (''session_journal'', session_journal_fields)]"

definition validate_optional_fields :: "pydict \<Rightarrow> pydict res" where
  "validate_optional_fields config =
     bind_res (validate_legacy_integrations config) (\<lambda>_. run_sections config_sections config)"

definition load_config :: "config_env \<Rightarrow> string option \<Rightarrow> pydict res" where
  "load_config env config_path =
     bind_res (resolve_config_path env config_path) (\<lambda>source_path.
     bind_res (load_yaml env source_path) (\<lambda>raw.
     bind_res (resolve_env_vars (ce_getenv env) raw []) (\<lambda>resolved.
     case resolved of
       VDict config \<Rightarrow>
         bind_res (validate_required_fields config source_path) (\<lambda>_. validate_optional_fields config)
     | _ \<Rightarrow> config_error (''Config file '' @ source_path @ '' must contain a top-level mapping.''))))"

section \<open>Validated sections\<close>

text \<open>A validator settles when what it returns is returned unchanged by a second run.\<close>

definition settles :: "(pyval \<Rightarrow> pyval res) \<Rightarrow> bool" where
  "settles f = (\<forall>v w. f v = Inr w \<longrightarrow> f w = Inr w)"

lemma settlesI: "(\<And>v w. f v = Inr w \<Longrightarrow> f w = Inr w) \<Longrightarrow> settles f"
  by (simp add: settles_def)

lemma settlesD: "settles f \<Longrightarrow> f v = Inr w \<Longrightarrow> f w = Inr w"
  by (simp add: settles_def)

lemma dset_same: "dlookup d k = Some v \<Longrightarrow> dset d k v = d"
  unfolding dlookup_def dset_def by (induction d) (auto split: if_splits)

lemma dget_or_some: "dlookup d k = Some v \<Longrightarrow> dget_or d k x = v"
  by (simp add: dget_or_def)

lemma int_field_VInt [simp]: "int_field name (VInt n) = Inr n"
  by (simp add: int_field_def int_or_none_def)

lemma require_positive_int_value:
  "require_positive_int name v = Inr n \<Longrightarrow> 0 < n"
  by (auto simp: require_positive_int_def bind_res_eq_Inr field_error_def config_error_def split: if_splits)

lemma require_strict_int_value:
  "require_strict_int name v = Inr n \<Longrightarrow> v = VInt n \<and> 0 < n"
  by (auto simp: require_strict_int_def field_error_def config_error_def split: if_splits pyval.splits)

lemma require_boolean_value: "require_boolean name v = Inr b \<longleftrightarrow> v = VBool b"
  by (auto simp: require_boolean_def field_error_def config_error_def split: pyval.splits)

lemma require_text_value:
  "require_text name v = Inr s \<Longrightarrow> s \<noteq> [] \<and> strip s = s"
  by (auto simp: require_text_def field_error_def config_error_def split: if_splits pyval.splits)

lemma require_choice_value:
  "require_choice name choices what v = Inr s \<Longrightarrow> s \<in> set choices"
  by (auto simp: require_choice_def field_error_def config_error_def split: if_splits pyval.splits)

lemma set_field_again: "dlookup d k = Some v \<Longrightarrow> f v = Inr v \<Longrightarrow> set_field k x f d = Inr d"
  by (simp add: set_field_def dget_or_some dset_same)

lemma mapping_of_VDict [simp]: "mapping_of name (VDict d) = Inr d"
  by (simp add: mapping_of_def)

lemma mapping_of_Inr: "mapping_of name v = Inr d \<longleftrightarrow> v = VDict d"
  by (auto simp: mapping_of_def field_error_def config_error_def split: pyval.splits)

lemma positive_int_again [simp]: "0 < n \<Longrightarrow> require_positive_int name (VInt n) = Inr n"
  by (simp add: require_positive_int_def)

lemma strict_int_again [simp]: "0 < n \<Longrightarrow> require_strict_int name (VInt n) = Inr n"
  by (simp add: require_strict_int_def)

lemma bool_again [simp]: "require_boolean name (VBool b) = Inr b"
  by (simp add: require_boolean_def)

lemma text_again [simp]: "s \<noteq> [] \<Longrightarrow> strip s = s \<Longrightarrow> require_text name (VStr s) = Inr s"
  by (simp add: require_text_def)

lemma idle_again [simp]: "0 \<le> n \<Longrightarrow> idle_timeout_field (VInt n) = Inr n"
  by (simp add: idle_timeout_field_def)

lemma idle_value: "idle_timeout_field v = Inr n \<Longrightarrow> 0 \<le> n"
  by (auto simp: idle_timeout_field_def bind_res_eq_Inr field_error_def config_error_def split: if_splits)

lemma as_again [simp]:
  "f (VInt n) = Inr n \<Longrightarrow> as_int f (VInt n) = Inr (VInt n)"
  "g (VBool b) = Inr b \<Longrightarrow> as_bool g (VBool b) = Inr (VBool b)"
  "h (VStr s) = Inr s \<Longrightarrow> as_text h (VStr s) = Inr (VStr s)"
  by (simp_all add: as_int_def as_bool_def as_text_def)

lemmas section_elims = bind_res_eq_Inr mapping_of_Inr as_int_def as_bool_def as_text_def set_field_def

lemma dlookup_dict_of_Cons: "dlookup (dict_of ((k, v) # kvs)) k' = (if k' = k then Some v else dlookup (dict_of kvs) k')"
  by simp

text \<open>The shape of each validated section, and that a section of this shape is kept.\<close>

lemma llm_shape:
  assumes "llm_fields v = Inr w"
  obtains d where "w = VDict d" "llm_fields (VDict d) = Inr (VDict d)"
proof -
  from assms obtain d where v: "v = VDict d" by (auto simp: llm_fields_def section_elims)
  consider "\<not> dhas d ''api_base''" "w = VDict (dset d ''api_base'' VNone)"
    | "dlookup d ''api_base'' = Some VNone" "w = VDict d"
    | s where "strip s \<noteq> []" "w = VDict (dset d ''api_base'' (VStr (strip s)))"
    using assms unfolding v
    by (fastforce simp: llm_fields_def dhas_def dget_def dget_or_def field_error_def config_error_def
        split: if_splits pyval.splits)
  then show ?thesis
    by cases (auto intro!: that simp: llm_fields_def dset_same dhas_def dget_def dget_or_def)
qed

lemma coordinator_shape:
  assumes "coordinator_fields v = Inr w"
  obtains d n where "w = VDict d" "dlookup d ''max_active_sessions'' = Some (VInt n)" "0 < n"
proof (cases "v = VNone")
  case False
  with assms show ?thesis
    by (auto simp: coordinator_fields_def section_elims dest: require_positive_int_value intro!: that)
qed (use assms in \<open>auto simp: coordinator_fields_def intro!: that\<close>)

lemma coordinator_kept:
  "dlookup d ''max_active_sessions'' = Some (VInt n) \<Longrightarrow> 0 < n \<Longrightarrow> coordinator_fields (VDict d) = Inr (VDict d)"
  by (simp add: coordinator_fields_def set_field_again)

lemma web_fetch_shape:
  assumes "web_fetch_fields v = Inr w"
  obtains d n where "w = VDict d" "dlookup d ''max_response_bytes'' = Some (VInt n)" "0 < n" "\<not> dhas d ''max_chars''"
proof (cases "v = VNone")
  case False
  with assms show ?thesis
    by (auto simp: web_fetch_fields_def section_elims config_error_def dest: require_positive_int_value intro!: that split: if_splits)
qed (use assms in \<open>auto simp: web_fetch_fields_def intro!: that\<close>)

lemma web_fetch_kept:
  "dlookup d ''max_response_bytes'' = Some (VInt n) \<Longrightarrow> 0 < n \<Longrightarrow> \<not> dhas d ''max_chars''
    \<Longrightarrow> web_fetch_fields (VDict d) = Inr (VDict d)"
  by (simp add: web_fetch_fields_def set_field_again)

lemma skills_shape:
  assumes "skills_fields v = Inr w"
  obtains d s n where "w = VDict d" "dlookup d ''directory'' = Some (VStr s)" "s \<noteq> []" "strip s = s"
    "dlookup d ''max_file_chars'' = Some (VInt n)" "0 < n"
  using assms
  by (auto simp: skills_fields_def section_elims dest!: require_positive_int_value require_text_value intro!: that)

lemma skills_kept:
  "dlookup d ''directory'' = Some (VStr s) \<Longrightarrow> s \<noteq> [] \<Longrightarrow> strip s = s
    \<Longrightarrow> dlookup d ''max_file_chars'' = Some (VInt n) \<Longrightarrow> 0 < n \<Longrightarrow> skills_fields (VDict d) = Inr (VDict d)"
  by (simp add: skills_fields_def set_field_again)

lemma host_services_shape:
  assumes "host_services_fields v = Inr w"
  obtains d n m where "w = VDict d" "dlookup d ''llm_timeout_seconds'' = Some (VInt n)" "0 < n"
    "dlookup d ''llm_max_request_bytes'' = Some (VInt m)" "0 < m"
proof (cases "v = VNone")
  case False
  with assms show ?thesis
    by (auto simp: host_services_fields_def section_elims dest!: require_strict_int_value intro!: that)
qed (use assms in \<open>auto simp: host_services_fields_def intro!: that\<close>)

lemma host_services_kept:
  "dlookup d ''llm_timeout_seconds'' = Some (VInt n) \<Longrightarrow> 0 < n
    \<Longrightarrow> dlookup d ''llm_max_request_bytes'' = Some (VInt m) \<Longrightarrow> 0 < m
    \<Longrightarrow> host_services_fields (VDict d) = Inr (VDict d)"
  by (simp add: host_services_fields_def set_field_again)

lemma session_journal_shape:
  assumes "session_journal_fields v = Inr w"
  obtains d b n where "w = VDict d" "dlookup d ''enabled'' = Some (VBool b)"
    "dlookup d ''max_bytes'' = Some (VInt n)" "0 < n"
proof (cases "v = VNone")
  case False
  with assms show ?thesis
    by (auto simp: session_journal_fields_def section_elims dest!: require_positive_int_value intro!: that)
qed (use assms in \<open>auto simp: session_journal_fields_def intro!: that\<close>)

lemma session_journal_kept:
  "dlookup d ''enabled'' = Some (VBool b) \<Longrightarrow> dlookup d ''max_bytes'' = Some (VInt n) \<Longrightarrow> 0 < n
    \<Longrightarrow> session_journal_fields (VDict d) = Inr (VDict d)"
  by (simp add: session_journal_fields_def dget_or_some dset_same)

lemma choice_again [simp]:
  "s \<in> set choices \<Longrightarrow> lower (strip s) = s \<Longrightarrow> require_choice name choices what (VStr s) = Inr s"
  by (simp add: require_choice_def)

lemma search_formats: "s \<in> set [''brave'', ''searxng''] \<Longrightarrow> lower (strip s) = s"
proof -
  assume "s \<in> set [''brave'', ''searxng'']"
  then consider "s = ''brave''" | "s = ''searxng''" by auto
  then show ?thesis by cases (simp_all only:, code_simp+)
qed

lemma set_field_text: "set_field k x (as_text f) d = Inr d' \<Longrightarrow> \<exists>u s. f u = Inr s \<and> d' = dset d k (VStr s)"
  by (auto simp: section_elims)

lemma set_field_int: "set_field k x (as_int f) d = Inr d' \<Longrightarrow> \<exists>u n. f u = Inr n \<and> d' = dset d k (VInt n)"
  by (auto simp: section_elims)

lemma search_api_key_shape:
  "search_api_key d = Inr d' \<Longrightarrow> \<not> dhas d' ''api_key'' \<and> (\<forall>k. k \<noteq> ''api_key'' \<longrightarrow> dlookup d' k = dlookup d k)"
  by (auto simp: search_api_key_def dhas_def field_error_def config_error_def split: if_splits pyval.splits)

lemma web_search_shape:
  assumes "web_search_fields v = Inr w"
  obtains d e f n where "w = VDict d" "dlookup d ''endpoint'' = Some (VStr e)" "e \<noteq> []" "strip e = e"
    "dlookup d ''format'' = Some (VStr f)" "f \<in> set [''brave'', ''searxng'']"
    "\<not> dhas d ''api_key''" "dlookup d ''max_results'' = Some (VInt n)" "0 < n"
proof -
  from assms obtain d0 d1 d2 d3 d4 where
    "set_field ''endpoint'' (VStr search_endpoint) (as_text (require_text ''web_search.endpoint'')) d0 = Inr d1"
    "set_field ''format'' (VStr ''brave'')
       (as_text (require_choice ''web_search.format'' [''brave'', ''searxng'']
          (''either '' @ quoted ''brave'' @ '' or '' @ quoted ''searxng''))) d1 = Inr d2"
    "search_api_key d2 = Inr d3"
    "set_field ''max_results'' (VInt 10) (as_int (require_positive_int ''web_search.max_results'')) d3 = Inr d4"
    "Inr (VDict d4) = (Inr w :: pyval res)"
    unfolding web_search_fields_def bind_res_eq_Inr by (elim exE conjE) (rule that; assumption)
  note steps = this
  obtain e u where e: "require_text ''web_search.endpoint'' u = Inr e" "d1 = dset d0 ''endpoint'' (VStr e)"
    using set_field_text [OF steps(1)] by blast
  obtain f u' where f: "f \<in> set [''brave'', ''searxng'']" "d2 = dset d1 ''format'' (VStr f)"
    using set_field_text [OF steps(2)] by (blast dest: require_choice_value)
  obtain n where n: "0 < n" "d4 = dset d3 ''max_results'' (VInt n)"
    using set_field_int [OF steps(4)] by (blast dest: require_positive_int_value)
  show ?thesis
    by (rule that [of d4 e f n])
       (use steps(5) search_api_key_shape [OF steps(3)] e(2) f n require_text_value [OF e(1)] in
         \<open>simp_all add: dhas_def del: set_simps\<close>)
qed

lemma web_search_kept:
  "dlookup d ''endpoint'' = Some (VStr e) \<Longrightarrow> e \<noteq> [] \<Longrightarrow> strip e = e
    \<Longrightarrow> dlookup d ''format'' = Some (VStr f) \<Longrightarrow> f \<in> set [''brave'', ''searxng'']
    \<Longrightarrow> \<not> dhas d ''api_key'' \<Longrightarrow> dlookup d ''max_results'' = Some (VInt n) \<Longrightarrow> 0 < n
    \<Longrightarrow> web_search_fields (VDict d) = Inr (VDict d)"
  by (simp add: web_search_fields_def set_field_again search_formats search_api_key_def del: set_simps)

lemma log_export_shape:
  assumes "log_export_fields v = Inr w"
  obtains d b n where "w = VDict d" "dlookup d ''enabled'' = Some (VBool b)"
    "dlookup d ''max_bytes'' = Some (VInt n)" "0 < n"
  using assms
  by (auto simp: log_export_fields_def section_elims dest!: require_positive_int_value intro!: that)

lemma log_export_kept:
  "dlookup d ''enabled'' = Some (VBool b) \<Longrightarrow> dlookup d ''max_bytes'' = Some (VInt n) \<Longrightarrow> 0 < n
    \<Longrightarrow> log_export_fields (VDict d) = Inr (VDict d)"
  by (simp add: log_export_fields_def dget_or_some dset_same)

lemma firecracker_shape:
  assumes "firecracker_fields v = Inr w"
  obtains c d e b k n t where "v = VDict c" "w = VDict d" "dlookup d ''log_export'' = Some (VDict e)"
    "dlookup e ''enabled'' = Some (VBool b)" "dlookup e ''max_bytes'' = Some (VInt n)" "0 < n"
    "dlookup d ''lifecycle_status_messages'' = Some (VBool k)"
    "dlookup d ''session_idle_timeout_seconds'' = Some (VInt t)" "0 \<le> t"
  using assms
  by (auto simp: firecracker_fields_def section_elims dest!: idle_value elim!: log_export_shape intro!: that)

lemma firecracker_kept:
  "dlookup d ''log_export'' = Some (VDict e) \<Longrightarrow> dlookup e ''enabled'' = Some (VBool b)
    \<Longrightarrow> dlookup e ''max_bytes'' = Some (VInt n) \<Longrightarrow> 0 < n
    \<Longrightarrow> dlookup d ''lifecycle_status_messages'' = Some (VBool k)
    \<Longrightarrow> dlookup d ''session_idle_timeout_seconds'' = Some (VInt t) \<Longrightarrow> 0 \<le> t
    \<Longrightarrow> firecracker_fields (VDict d) = Inr (VDict d)"
  by (simp add: firecracker_fields_def set_field_again log_export_kept)

text \<open>The tool switches always have the five known keys, in the default order.\<close>

definition tool_switches :: "bool list \<Rightarrow> pydict" where
  "tool_switches bs = dict_of (zip (KNOWN_TOOLS @ [''spawn_subagent'']) (map VBool bs))"

lemma dset_dict_of_known:
  "k \<in> set ks \<Longrightarrow> length bs = length ks \<Longrightarrow>
     \<exists>cs. length cs = length ks \<and> dset (dict_of (zip ks (map VBool bs))) k (VBool b) = dict_of (zip ks (map VBool cs))"
proof (induction ks arbitrary: bs)
  case (Cons k' ks)
  then obtain c bs' where bs: "bs = c # bs'" "length bs' = length ks" by (cases bs) auto
  show ?case
  proof (cases "k' = k")
    case True
    then show ?thesis using bs by (intro exI [of _ "b # bs'"]) (simp add: dset_def dict_of_def)
  next
    case False
    then obtain cs where "length cs = length ks"
      "dset (dict_of (zip ks (map VBool bs'))) k (VBool b) = dict_of (zip ks (map VBool cs))"
      using Cons.IH [OF _ bs(2)] Cons.prems(1) by auto
    then show ?thesis using False bs by (intro exI [of _ "c # cs"]) (simp add: dset_def dict_of_def)
  qed
qed simp

lemma length_all_tools: "length (KNOWN_TOOLS @ [''spawn_subagent'']) = 5"
  by (simp add: KNOWN_TOOLS_def)

lemma normalize_tools_shape:
  "normalize_tools d (tool_switches bs) = Inr d' \<Longrightarrow> length bs = 5 \<Longrightarrow> \<exists>cs. length cs = 5 \<and> d' = tool_switches cs"
proof (induction d "tool_switches bs" arbitrary: bs rule: normalize_tools.induct)
  case (2 key v d)
  obtain b where v: "v = VBool b"
    using "2.prems"(1) by (auto simp: field_error_def config_error_def split: pyval.splits)
  show ?case
  proof (cases "key \<in> set (KNOWN_TOOLS @ [''spawn_subagent''])")
    case True
    then obtain cs where "length cs = 5" "dset (tool_switches bs) key (VBool b) = tool_switches cs"
      using dset_dict_of_known [of key "KNOWN_TOOLS @ [''spawn_subagent'']" bs b] "2.prems"(2)
      unfolding tool_switches_def length_all_tools by metis
    with 2 v True show ?thesis by (simp del: set_append)
  qed (use 2 v in \<open>simp del: set_append\<close>)
qed (auto simp: config_error_def)

lemma tools_defaults_switches: "tools_defaults = tool_switches [True, True, True, True, False]"
  by (simp add: tools_defaults_def tool_switches_def KNOWN_TOOLS_def dict_of_def)

lemma tools_shape:
  assumes "tools_fields v = Inr w"
  obtains bs where "w = VDict (tool_switches bs)" "length bs = 5"
proof (cases "v = VNone")
  case False
  with assms obtain d d' where "normalize_tools d (tool_switches [True, True, True, True, False]) = Inr d'" "w = VDict d'"
    unfolding tools_fields_def tools_defaults_switches by (auto simp: section_elims)
  with normalize_tools_shape [of d "[True, True, True, True, False]" d'] that show ?thesis by auto
qed (use assms that [of "[True, True, True, True, False]"] in \<open>auto simp: tools_fields_def tools_defaults_switches\<close>)

lemma normalize_tools_dict_of:
  "set ks \<subseteq> set (KNOWN_TOOLS @ [''spawn_subagent'']) \<Longrightarrow> length bs = length ks \<Longrightarrow>
     normalize_tools (dict_of (zip ks (map VBool bs))) acc =
       Inr (foldl (\<lambda>d (k, b). dset d k (VBool b)) acc (zip ks bs))"
proof (induction ks arbitrary: bs acc)
  case (Cons k ks)
  then obtain b bs' where "bs = b # bs'" "length bs' = length ks" by (cases bs) auto
  with Cons show ?case by (simp add: dict_of_def del: set_append)
qed (simp add: dict_of_def)

lemma tools_kept: "length bs = 5 \<Longrightarrow> tools_fields (VDict (tool_switches bs)) = Inr (VDict (tool_switches bs))"
proof -
  assume l: "length bs = 5"
  then obtain a b c d e where bs: "bs = [a, b, c, d, e]" by (auto simp: numeral_eq_Suc length_Suc_conv)
  have "normalize_tools (tool_switches bs) tools_defaults =
      Inr (foldl (\<lambda>d (k, b). dset d k (VBool b)) tools_defaults (zip (KNOWN_TOOLS @ [''spawn_subagent'']) bs))"
    using normalize_tools_dict_of [of "KNOWN_TOOLS @ [''spawn_subagent'']" bs] l
    unfolding tool_switches_def length_all_tools by auto
  also have "\<dots> = Inr (tool_switches bs)"
    by (simp add: bs tool_switches_def KNOWN_TOOLS_def tools_defaults_def dict_of_def dset_def)
  finally show ?thesis by (simp add: tools_fields_def)
qed

text \<open>The subagent settings: the switch, the limits and the journal level.\<close>

definition subagent_settings :: "bool \<Rightarrow> int list \<Rightarrow> string \<Rightarrow> pydict" where
  "subagent_settings enabled ns journal_events =
     dict_of ((''enabled'', VBool enabled)
              # map (\<lambda>((k, d), n). (k, VInt n)) (zip subagent_int_defaults ns)
              @ [(''journal_events'', VStr journal_events)])"

lemma map_res_ints:
  "map_res (\<lambda>(key, n). bind_res (f key n) (\<lambda>m. Inr (key, VInt m))) kns = Inr ints \<Longrightarrow>
     \<exists>ns. list_all2 (\<lambda>(key, n) m. f key n = Inr m) kns ns \<and> ints = map (\<lambda>((k, d), n). (k, VInt n)) (zip kns ns)"
proof (induction kns arbitrary: ints)
  case (Cons p kns)
  then obtain m rest where m: "f (fst p) (snd p) = Inr m" and
    rest: "map_res (\<lambda>(key, n). bind_res (f key n) (\<lambda>m. Inr (key, VInt m))) kns = Inr rest"
    "ints = (fst p, VInt m) # rest"
    by (auto simp: bind_res_eq_Inr split: prod.splits)
  from Cons.IH [OF rest(1)] obtain ns where
    "list_all2 (\<lambda>(key, n) m. f key n = Inr m) kns ns" "rest = map (\<lambda>((k, d), n). (k, VInt n)) (zip kns ns)" by blast
  with m rest(2) show ?case by (intro exI [of _ "m # ns"]) (auto split: prod.splits)
qed simp

lemma list_all2_right: "list_all2 P xs ys \<Longrightarrow> (\<And>x y. P x y \<Longrightarrow> Q y) \<Longrightarrow> \<forall>y \<in> set ys. Q y"
  by (induction rule: list_all2_induct) auto

lemma subagents_shape:
  assumes "subagents_fields v = Inr w"
  obtains enabled ns journal_events where "w = VDict (subagent_settings enabled ns journal_events)"
    "length ns = 6" "\<forall>n \<in> set ns. 0 < n" "journal_events \<in> set [''none'', ''summary'', ''full'']"
proof (cases "v = VNone")
  case True
  with assms have "w = VDict (subagent_settings False (map snd subagent_int_defaults) ''summary'')"
    by (simp add: subagents_fields_def subagents_defaults_def subagent_settings_def subagent_int_defaults_def)
  then show ?thesis by (rule that) (auto simp: subagent_int_defaults_def)
next
  case False
  with assms obtain d enabled ints journal_events x where
    i: "map_res (\<lambda>(key, n). bind_res (require_positive_int (''subagents.'' @ key) (dget_or d key (VInt n)))
                (\<lambda>m. Inr (key, VInt m))) subagent_int_defaults = Inr ints"
    and j: "require_choice ''subagents.journal_events'' [''none'', ''summary'', ''full'']
              ''one of: none, summary, full'' x = Inr journal_events"
    and w: "w = VDict (dict_of ((''enabled'', VBool enabled) # ints @ [(''journal_events'', VStr journal_events)]))"
    unfolding subagents_fields_def by (simp only: if_False bind_res_eq_Inr) (elim exE conjE, rule that, assumption, assumption, rule sym, simp)
  from map_res_ints [OF i] obtain ns where ns:
    "list_all2 (\<lambda>(key, n) m. require_positive_int (''subagents.'' @ key) (dget_or d key (VInt n)) = Inr m) subagent_int_defaults ns"
    "ints = map (\<lambda>((k, d), n). (k, VInt n)) (zip subagent_int_defaults ns)" by blast
  show ?thesis
  proof (rule that)
    show "w = VDict (subagent_settings enabled ns journal_events)" using w ns(2) by (simp add: subagent_settings_def)
    show "length ns = 6" using list_all2_lengthD [OF ns(1)] by (simp add: subagent_int_defaults_def)
    show "\<forall>n \<in> set ns. 0 < n"
      by (rule list_all2_right [OF ns(1)]) (auto split: prod.splits dest: require_positive_int_value)
    show "journal_events \<in> set [''none'', ''summary'', ''full'']" using require_choice_value [OF j] .
  qed
qed

lemma subagents_kept:
  assumes "length ns = 6" "\<forall>n \<in> set ns. 0 < n" "journal_events \<in> set [''none'', ''summary'', ''full'']"
  shows "subagents_fields (VDict (subagent_settings enabled ns journal_events)) =
           Inr (VDict (subagent_settings enabled ns journal_events))"
proof -
  from assms(1) obtain a b c d e f where ns: "ns = [a, b, c, d, e, f]"
    by (auto simp: numeral_eq_Suc length_Suc_conv)
  have j: "lower (strip journal_events) = journal_events"
  proof -
    from assms(3) consider "journal_events = ''none''" | "journal_events = ''summary''" | "journal_events = ''full''" by auto
    then show ?thesis by cases (simp_all only:, code_simp+)
  qed
  show ?thesis
    using assms(2,3) j
    by (simp add: ns subagents_fields_def subagent_settings_def subagent_int_defaults_def del: set_simps)
       (simp add: require_choice_def)
qed

section \<open>The whole configuration\<close>

lemma settles_sections: "list_all (\<lambda>(key, f). settles f) config_sections"
proof -
  have "settles llm_fields" by (rule settlesI) (auto elim: llm_shape)
  moreover have "settles coordinator_fields" by (rule settlesI) (auto elim!: coordinator_shape simp: coordinator_kept)
  moreover have "settles subagents_fields" by (rule settlesI) (auto elim!: subagents_shape simp: subagents_kept)
  moreover have "settles tools_fields" by (rule settlesI) (auto elim!: tools_shape simp: tools_kept)
  moreover have "settles web_search_fields"
    by (rule settlesI) (auto elim!: web_search_shape simp: web_search_kept simp del: set_simps)
  moreover have "settles web_fetch_fields" by (rule settlesI) (auto elim!: web_fetch_shape simp: web_fetch_kept)
  moreover have "settles skills_fields" by (rule settlesI) (auto elim!: skills_shape simp: skills_kept)
  moreover have "settles host_services_fields" by (rule settlesI) (auto elim!: host_services_shape simp: host_services_kept)
  moreover have "settles firecracker_fields" by (rule settlesI) (auto elim!: firecracker_shape simp: firecracker_kept)
  moreover have "settles session_journal_fields" by (rule settlesI) (auto elim!: session_journal_shape simp: session_journal_kept)
  ultimately show ?thesis by (simp add: config_sections_def)
qed

lemma run_sections_other: "run_sections secs c = Inr c' \<Longrightarrow> key \<notin> fst ` set secs \<Longrightarrow> dlookup c' key = dlookup c key"
proof (induction secs arbitrary: c)
  case (Cons p secs)
  then obtain v where "run_sections secs (dset c (fst p) v) = Inr c'" by (cases p) (auto simp: bind_res_eq_Inr)
  from Cons.IH [OF this] Cons.prems(2) show ?case by simp
qed simp

lemma run_sections_value:
  "run_sections secs c = Inr c' \<Longrightarrow> distinct (map fst secs) \<Longrightarrow> (key, f) \<in> set secs
    \<Longrightarrow> \<exists>w. f (dget c key) = Inr w \<and> dlookup c' key = Some w"
proof (induction secs arbitrary: c)
  case (Cons p secs)
  then obtain v where v: "snd p (dget c (fst p)) = Inr v" "run_sections secs (dset c (fst p) v) = Inr c'"
    by (cases p) (auto simp: bind_res_eq_Inr)
  show ?case
  proof (cases "p = (key, f)")
    case True
    then have "dlookup c' key = Some v"
      using run_sections_other [OF v(2), of key] Cons.prems(2) by auto
    with True v(1) show ?thesis by auto
  next
    case False
    then have in': "(key, f) \<in> set secs" using Cons.prems(3) by simp
    have "fst p \<notin> fst ` set secs" using Cons.prems(2) by auto
    then have "key \<noteq> fst p" using in' by (metis fst_conv image_eqI)
    with Cons.IH [OF v(2) _ in'] Cons.prems(2) show ?thesis by simp
  qed
qed simp

lemma run_sections_again:
  "list_all (\<lambda>(key, f). dlookup c key = Some (dget c key) \<and> f (dget c key) = Inr (dget c key)) secs \<Longrightarrow> run_sections secs c = Inr c"
  by (induction secs) (auto simp: dset_same)

lemma distinct_sections: "distinct (map fst config_sections)"
  by (simp add: config_sections_def)

lemma section_value:
  assumes "run_sections config_sections c = Inr c'" "(key, f) \<in> set config_sections"
  shows "f (dget c key) = Inr (dget c' key)" "f (dget c' key) = Inr (dget c' key)" "dlookup c' key = Some (dget c' key)"
proof -
  obtain w where w: "f (dget c key) = Inr w" "dlookup c' key = Some w"
    using run_sections_value [OF assms(1) distinct_sections assms(2)] by blast
  then show "f (dget c key) = Inr (dget c' key)" "dlookup c' key = Some (dget c' key)"
    by (simp_all add: dget_def dget_or_def)
  moreover have "settles f" using settles_sections assms(2) by (auto simp: list_all_iff)
  ultimately show "f (dget c' key) = Inr (dget c' key)" by (simp add: settlesD)
qed

lemma section_mapping: "(key, f) \<in> set config_sections \<Longrightarrow> f v = Inr w \<Longrightarrow> is_VDict w"
proof -
  assume a: "(key, f) \<in> set config_sections" "f v = Inr w"
  have llm: "llm_fields v = Inr w \<Longrightarrow> is_VDict w" by (erule llm_shape) simp
  have coordinator: "coordinator_fields v = Inr w \<Longrightarrow> is_VDict w" by (erule coordinator_shape) simp
  have subagents: "subagents_fields v = Inr w \<Longrightarrow> is_VDict w" by (erule subagents_shape) simp
  have tools: "tools_fields v = Inr w \<Longrightarrow> is_VDict w" by (erule tools_shape) simp
  have web_search: "web_search_fields v = Inr w \<Longrightarrow> is_VDict w" by (erule web_search_shape) simp
  have web_fetch: "web_fetch_fields v = Inr w \<Longrightarrow> is_VDict w" by (erule web_fetch_shape) simp
  have skills: "skills_fields v = Inr w \<Longrightarrow> is_VDict w" by (erule skills_shape) simp
  have host_services: "host_services_fields v = Inr w \<Longrightarrow> is_VDict w" by (erule host_services_shape) simp
  have firecracker: "firecracker_fields v = Inr w \<Longrightarrow> is_VDict w" by (erule firecracker_shape) simp
  have session_journal: "session_journal_fields v = Inr w \<Longrightarrow> is_VDict w" by (erule session_journal_shape) simp
  have "f \<in> {llm_fields, coordinator_fields, subagents_fields, tools_fields, web_search_fields, web_fetch_fields, skills_fields, host_services_fields, firecracker_fields, session_journal_fields}"
    using a(1) unfolding config_sections_def by auto
  with a(2) show ?thesis
    by (elim insertE emptyE) (simp_all only: llm coordinator subagents tools web_search web_fetch skills host_services firecracker session_journal)
qed

text \<open>
  C16. Validation is stable: a configuration that passed validation has all ten optional
  sections, passes again and is then returned unchanged, and no other field was touched.
\<close>

theorem validation_stable:
  assumes "validate_optional_fields c = Inr c'"
  shows "validate_optional_fields c' = Inr c'
     \<and> list_all (\<lambda>(key, f). f (dget c key) = Inr (dget c' key) \<and> is_VDict (dget c' key)) config_sections
     \<and> (key \<in> fst ` set config_sections \<or> dlookup c' key = dlookup c key)"
proof -
  have a: "\<not> dhas c ''integrations''" "run_sections config_sections c = Inr c'"
    using assms by (auto simp: validate_optional_fields_def validate_legacy_integrations_def config_error_def bind_res_eq_Inr split: if_splits)
  have "''integrations'' \<notin> fst ` set config_sections" by (simp add: config_sections_def)
  then have i: "\<not> dhas c' ''integrations''" using a run_sections_other [OF a(2)] by (simp add: dhas_def)
  note sv = section_value [OF a(2)]
  have "run_sections config_sections c' = Inr c'"
    by (rule run_sections_again) (use sv in \<open>auto simp: list_all_iff dest: sv(2,3)\<close>)
  moreover have "f (dget c key) = Inr (dget c' key) \<and> is_VDict (dget c' key)" if "(key, f) \<in> set config_sections" for key f
  proof -
    have "is_VDict (dget c' key)" by (rule section_mapping [OF that sv(1) [OF that]])
    with sv(1) [OF that] show ?thesis by simp
  qed
  ultimately show ?thesis
    using i run_sections_other [OF a(2)]
    by (auto simp: validate_optional_fields_def validate_legacy_integrations_def list_all_iff)
qed

text \<open>A configuration with a tool switched off, an unknown tool and an API base to be trimmed.\<close>

definition demo_sections :: pydict where
  "demo_sections = dict_of
     [(''mode'', VStr ''fire''), (''llm'', VDict (dict_of [(''api_base'', VStr '' http://llm '')])),
      (''firecracker'', VDict (dict_of [(''vcpu'', VInt 2)])),
      (''tools'', VDict (dict_of [(''shell'', VBool False), (''telepathy'', VBool True)]))]"

theorem validation_stable_witness:
  "\<exists>c'. validate_optional_fields demo_sections = Inr c' \<and> validate_optional_fields c' = Inr c'
     \<and> dlookup c' ''mode'' = Some (VStr ''fire'')"
proof -
  have "case validate_optional_fields demo_sections of Inl e \<Rightarrow> False | Inr c' \<Rightarrow> True"
    by code_simp
  then obtain c' where c: "validate_optional_fields demo_sections = Inr c'"
    by (auto split: sum.splits)
  have "''mode'' \<notin> fst ` set config_sections" "dlookup demo_sections ''mode'' = Some (VStr ''fire'')"
    by code_simp+
  with validation_stable [OF c, of "''mode''"] c show ?thesis
    by auto
qed

end
