(* ===== verification/FireConfig.thy ===== *)
theory FireConfig
  imports Config Effect Secrets
begin

text \<open>
  The settings of the Firecracker sandbox (\<open>sandbox/fire.py\<close>): its own section of the
  configuration, the configuration handed to the guest through the metadata service (MMDS),
  the check that no secret is in it, and the sequence of API calls that starts the machine.
\<close>

definition fire_error :: "string \<Rightarrow> 'a res" where
  "fire_error msg = raise FirecrackerConfigError msg"

definition fire_field :: "string \<Rightarrow> string \<Rightarrow> 'a res" where
  "fire_field name what = fire_error (''Config field '' @ name @ '' '' @ what)"

section \<open>The firecracker section\<close>

text \<open>What the host tells of a path: \<open>expanduser\<close>, \<open>exists\<close>, \<open>is_file\<close>, \<open>os.access\<close>, \<open>resolve\<close>.\<close>

record path_env =
  pe_expanduser :: "string \<Rightarrow> string"
  pe_exists :: "string \<Rightarrow> bool"
  pe_is_file :: "string \<Rightarrow> bool"
  pe_executable :: "string \<Rightarrow> bool"
  pe_resolve :: "string \<Rightarrow> string"

record fire_config =
  fc_binary :: string
  fc_kernel :: string
  fc_rootfs :: string
  fc_vcpu :: int
  fc_mem_mb :: int
  fc_host_iface :: "string option"
  fc_boot_timeout :: pyfloat
  fc_log_export :: bool
  fc_log_max_bytes :: int

definition require_file_path :: "path_env \<Rightarrow> pyval \<Rightarrow> string \<Rightarrow> bool \<Rightarrow> string res" where
  "require_file_path env v name executable =
     (case v of
        VStr s \<Rightarrow>
          if strip s = [] then fire_field name ''must be a non-empty path string.''
          else
            (let path = pe_expanduser env s
             in if \<not> pe_exists env path then fire_field name (''file not found: '' @ path)
                else if \<not> pe_is_file env path then fire_field name (''must point to a file: '' @ path)
                else if executable \<and> \<not> pe_executable env path
                then fire_field name (''binary is not executable: '' @ path)
                else Inr (pe_resolve env path))
      | _ \<Rightarrow> fire_field name ''must be a non-empty path string.'')"

text \<open>A bool is an int here.\<close>

definition fire_positive_int :: "pyval \<Rightarrow> string \<Rightarrow> int res" where
  "fire_positive_int v name =
     bind_res (int_or_none v) (\<lambda>n.
       case n of
         None \<Rightarrow> fire_field name ''must be an integer.''
       | Some k \<Rightarrow> if k \<le> 0 then fire_field name ''must be greater than zero.'' else Inr k)"

definition fire_positive_float :: "pyval \<Rightarrow> string \<Rightarrow> pyfloat res" where
  "fire_positive_float v name =
     (case py_float v of
        Inl e \<Rightarrow>
          if exn_class e = TypeError \<or> exn_class e = ValueError then fire_field name ''must be a number.'' else Inl e
      | Inr q \<Rightarrow> if float_le_zero q then fire_field name ''must be greater than zero.'' else Inr q)"

text \<open>\<open>[A-Za-z0-9._-]{1,15}\<close>\<close>

definition iface_name :: "string \<Rightarrow> bool" where
  "iface_name s = (s \<noteq> [] \<and> length s \<le> 15 \<and> list_all (\<lambda>c. is_alnum c \<or> c \<in> set ''._-'') s)"

definition validate_host_iface :: "pyval \<Rightarrow> string option res" where
  "validate_host_iface v =
     (case v of
        VNone \<Rightarrow> Inr None
      | VStr s \<Rightarrow>
          if strip s = [] then Inr None
          else if iface_name (strip s) then Inr (Some (strip s))
          else fire_field ''firecracker.host_iface''
                 (''has invalid format: '' @ repr_str (strip s) @ ''. Expected 1-15 chars [A-Za-z0-9._-].'')
      | _ \<Rightarrow> fire_field ''firecracker.host_iface'' ''must be a string or null.'')"

definition parse_log_export :: "pydict \<Rightarrow> (bool \<times> int) res" where
  "parse_log_export d =
     (case dget d ''log_export'' of
        VNone \<Rightarrow> Inr (False, 32 * 1024)
      | VDict raw \<Rightarrow>
          (case dget_or raw ''enabled'' (VBool False) of
             VBool enabled \<Rightarrow>
               let v = dget_or raw ''max_bytes'' (VInt (32 * 1024)); name = ''firecracker.log_export.max_bytes''
               in if is_VBool v then fire_field name ''must be an integer.''
                  else bind_res (fire_positive_int v name) (\<lambda>n. Inr (enabled, n))
           | _ \<Rightarrow> fire_field ''firecracker.log_export.enabled'' ''must be a boolean.'')
      | _ \<Rightarrow> fire_field ''firecracker.log_export'' ''must be a mapping.'')"

definition load_firecracker_config :: "path_env \<Rightarrow> pydict \<Rightarrow> fire_config res" where
  "load_firecracker_config env config =
     (case dget config ''firecracker'' of
        VDict d \<Rightarrow>
          bind_res (require_file_path env (dget d ''binary'') ''firecracker.binary'' True) (\<lambda>binary.
          bind_res (require_file_path env (dget d ''kernel'') ''firecracker.kernel'' False) (\<lambda>kernel.
          bind_res (require_file_path env (dget d ''rootfs'') ''firecracker.rootfs'' False) (\<lambda>rootfs.
          bind_res (fire_positive_int (dget d ''vcpu'') ''firecracker.vcpu'') (\<lambda>vcpu.
          bind_res (fire_positive_int (dget d ''mem_mb'') ''firecracker.mem_mb'') (\<lambda>mem_mb.
          bind_res (fire_positive_float (dget d ''boot_timeout'') ''firecracker.boot_timeout'') (\<lambda>boot_timeout.
          bind_res (validate_host_iface (dget d ''host_iface'')) (\<lambda>host_iface.
          bind_res (parse_log_export d) (\<lambda>(enabled, max_bytes).
          Inr \<lparr>fc_binary = binary, fc_kernel = kernel, fc_rootfs = rootfs, fc_vcpu = vcpu,
               fc_mem_mb = mem_mb, fc_host_iface = host_iface, fc_boot_timeout = boot_timeout,
               fc_log_export = enabled, fc_log_max_bytes = max_bytes\<rparr>))))))))
      | _ \<Rightarrow> fire_error ''Config field firecracker must be a mapping.'')"

section \<open>The configuration of the guest\<close>

text \<open>
  A positive number, or the default: bools and other types are ignored, a string is read as an
  int. Converting a float that is not finite raises.
\<close>

definition pos_int_or :: "int \<Rightarrow> pyval \<Rightarrow> int res" where
  "pos_int_or dflt v =
     (case v of
        VInt n \<Rightarrow> Inr (if 0 < n then n else dflt)
      | VFloat q \<Rightarrow> bind_res (py_int (VFloat q)) (\<lambda>n. Inr (if 0 < n then n else dflt))
      | VStr s \<Rightarrow> Inr (case int_of_str s of Some n \<Rightarrow> if 0 < n then n else dflt | None \<Rightarrow> dflt)
      | _ \<Rightarrow> Inr dflt)"

definition nonblank_or :: "string \<Rightarrow> pyval \<Rightarrow> pyval" where
  "nonblank_or dflt v = (case v of VStr s \<Rightarrow> if strip s = [] then VStr dflt else v | _ \<Rightarrow> VStr dflt)"

definition guest_tools :: "pydict \<Rightarrow> pydict" where
  "guest_tools config =
     (case dget config ''tools'' of
        VDict raw \<Rightarrow>
          dict_of (map (\<lambda>name. (name, VBool (truthy (dget_or raw name (VBool True))))) KNOWN_TOOLS
                   @ [(''spawn_subagent'', VBool (truthy (dget_or raw ''spawn_subagent'' (VBool False))))])
      | _ \<Rightarrow> tools_defaults)"

definition guest_web_search :: "pydict \<Rightarrow> pydict res" where
  "guest_web_search config =
     (let raw = as_dict (dget config ''web_search'')
      in bind_res (pos_int_or 10 (dget_or raw ''max_results'' (VInt 10))) (\<lambda>n.
         Inr (dict_of [(''endpoint'', nonblank_or search_endpoint (dget raw ''endpoint'')),
                       (''format'', nonblank_or ''brave'' (dget raw ''format'')),
                       (''max_results'', VInt n)])))"

definition guest_subagents :: "pydict \<Rightarrow> pydict res" where
  "guest_subagents config =
     (let src = as_dict (dget config ''subagents'')
      in bind_res (map_res (\<lambda>(key, n). bind_res (pos_int_or n (dget_or src key (VInt n))) (\<lambda>m. Inr (key, VInt m)))
                     subagent_int_defaults) (\<lambda>ints.
         Inr (dict_of ((''enabled'', VBool (truthy (dget_or src ''enabled'' (VBool False)))) # ints
                @ [(''journal_events'',
                    case dget_or src ''journal_events'' (VStr ''summary'') of
                      VStr s \<Rightarrow> if lower (strip s) \<in> set [''none'', ''summary'', ''full'']
                                then VStr (lower (strip s)) else VStr ''summary''
                    | _ \<Rightarrow> VStr ''summary'')]))))"

definition positive_int_value :: "pyval \<Rightarrow> int option" where
  "positive_int_value v = (case v of VInt n \<Rightarrow> if 0 < n then Some n else None | _ \<Rightarrow> None)"

text \<open>\<open>max_iterations\<close> of the top level goes before \<open>loop.max_iterations\<close>.\<close>

definition guest_max_iterations :: "pydict \<Rightarrow> int" where
  "guest_max_iterations config =
     (case positive_int_value (dget config ''max_iterations'') of
        Some n \<Rightarrow> n
      | None \<Rightarrow>
          (case positive_int_value (dget (as_dict (dget config ''loop'')) ''max_iterations'') of
             Some n \<Rightarrow> n | None \<Rightarrow> 50))"

definition guest_llm_timeout :: "pydict \<Rightarrow> int" where
  "guest_llm_timeout config =
     (case dget config ''host_services'' of
        VDict d \<Rightarrow>
          (case positive_int_value (dget_or d ''llm_timeout_seconds'' (VInt 120)) of Some n \<Rightarrow> n | None \<Rightarrow> 120)
      | _ \<Rightarrow> 120)"

definition mapping_or_null :: "pydict \<Rightarrow> string \<Rightarrow> unit res" where
  "mapping_or_null payload key =
     (if dget payload key = VNone \<or> is_VDict (dget payload key) then Inr ()
      else fire_error (''config.'' @ key @ '' must be an object when provided.''))"

definition strict_positive :: "string \<Rightarrow> string \<Rightarrow> pyval \<Rightarrow> unit res" where
  "strict_positive name what v =
     (case v of
        VNone \<Rightarrow> Inr ()
      | VInt n \<Rightarrow> if n \<le> 0 then fire_error (name @ '' must be greater than zero.'') else Inr ()
      | _ \<Rightarrow> fire_error (name @ '' must be an integer'' @ what))"

definition validate_agent_config_payload :: "pydict \<Rightarrow> unit res" where
  "validate_agent_config_payload payload =
     bind_res (map_res (mapping_or_null payload)
                 [''tools'', ''web_search'', ''web_fetch'', ''skills'', ''context'', ''subagents'', ''host_services'']) (\<lambda>_.
     bind_res (strict_positive ''config.host_services.llm_timeout_seconds'' ''.''
                 (dget (as_dict (dget payload ''host_services'')) ''llm_timeout_seconds'')) (\<lambda>_.
     bind_res (if dget payload ''approval_mode'' = VNone \<or> is_VStr (dget payload ''approval_mode'') then Inr ()
               else fire_error ''config.approval_mode must be a string when provided.'') (\<lambda>_.
     strict_positive ''config.max_iterations'' '' when provided.'' (dget payload ''max_iterations''))))"

definition sanitize_agent_config_for_mmds :: "pydict \<Rightarrow> pydict res" where
  "sanitize_agent_config_for_mmds config =
     (let web_fetch = dsetdefault (as_dict (dget config ''web_fetch'')) ''max_response_bytes'' (VInt 524288);
          skills = dsetdefault (dsetdefault (as_dict (dget config ''skills'')) ''directory'' (VStr ''./skills''))
                     ''max_file_chars'' (VInt 20000);
          context = dsetdefault (dsetdefault (dsetdefault (as_dict (dget config ''context''))
                      ''token_budget'' (VInt 4000)) ''summary_threshold'' (VInt 10)) ''max_output_chars'' (VInt 8000)
      in bind_res (guest_web_search config) (\<lambda>web_search.
         bind_res (guest_subagents config) (\<lambda>subagents.
         let payload = dict_of
               [(''tools'', VDict (guest_tools config)), (''web_search'', VDict web_search),
                (''web_fetch'', VDict web_fetch), (''skills'', VDict skills),
                (''approval_mode'', nonblank_or ''review'' (dget_or config ''approval_mode'' (VStr ''review''))),
                (''max_iterations'', VInt (guest_max_iterations config)), (''context'', VDict context),
                (''subagents'', VDict subagents),
                (''host_services'', VDict (dict_of [(''llm_timeout_seconds'', VInt (guest_llm_timeout config))]))]
         in bind_res (validate_agent_config_payload payload) (\<lambda>_. Inr payload))))"

text \<open>What the sandbox keeps as its template: the configuration it was given, once it passes.\<close>

definition default_template :: "pydict \<Rightarrow> pydict" where
  "default_template llm = dict_of
     [(''llm'', VDict llm), (''tools'', VDict tools_defaults),
      (''web_search'', VDict (dict_of [(''endpoint'', VStr search_endpoint), (''format'', VStr ''brave''),
                                       (''max_results'', VInt 10)])),
      (''web_fetch'', VDict (dict_of [(''max_response_bytes'', VInt 524288)])),
      (''skills'', VDict (dict_of [(''directory'', VStr ''./skills''), (''max_file_chars'', VInt 20000)])),
      (''approval_mode'', VStr ''review''), (''max_iterations'', VInt 50),
      (''context'', VDict (dict_of [(''token_budget'', VInt 4000), (''summary_threshold'', VInt 10),
                                    (''max_output_chars'', VInt 8000)])),
      (''subagents'', VDict subagents_defaults),
      (''host_services'', VDict (dict_of [(''llm_timeout_seconds'', VInt 120),
                                          (''llm_max_request_bytes'', VInt (2 * 1024 * 1024))]))]"

definition coerce_agent_config_template :: "pydict option \<Rightarrow> pydict option \<Rightarrow> pydict res" where
  "coerce_agent_config_template llm_cfg agent_config =
     (case agent_config of
        Some c \<Rightarrow>
          bind_res (sanitize_agent_config_for_mmds c) (\<lambda>p.
          bind_res (validate_agent_config_payload p) (\<lambda>_. Inr c))
      | None \<Rightarrow>
          (case llm_cfg of
             Some llm \<Rightarrow> Inr (default_template llm)
           | None \<Rightarrow> fire_error ''FireSandbox requires either agent_config or llm_config.''))"

definition extract_llm_config :: "pydict \<Rightarrow> pydict option" where
  "extract_llm_config config = (case dget config ''llm'' of VDict d \<Rightarrow> Some d | _ \<Rightarrow> None)"

section \<open>No secret leaves for the guest\<close>

definition leaks :: "string \<Rightarrow> pyval \<Rightarrow> bool" where
  "leaks text secret = (case secret of VStr s \<Rightarrow> s \<noteq> [] \<and> sublist s text | _ \<Rightarrow> False)"

definition assert_no_secrets :: "string \<Rightarrow> (string \<times> pydict) list \<Rightarrow> pydict option \<Rightarrow> unit res" where
  "assert_no_secrets mmds_json credentials llm =
     (case find (\<lambda>(name, r). leaks mmds_json (dget r ''token'')) credentials of
        Some (name, _) \<Rightarrow> raise ValueError (''credential leaked into MMDS: '' @ name)
      | None \<Rightarrow>
          (case llm of
             Some d \<Rightarrow>
               if leaks mmds_json (dget d ''api_key'') then raise ValueError ''LLM API key leaked into MMDS''
               else Inr ()
           | None \<Rightarrow> Inr ()))"

section \<open>Starting the machine\<close>

record preboot =
  pb_rootfs :: string
  pb_tap :: string
  pb_mac :: string
  pb_cid :: int
  pb_uds :: string
  pb_log :: string
  pb_network :: pydict
  pb_agent_config :: pydict

definition hex_char :: "char \<Rightarrow> bool" where
  "hex_char c = (is_digit c \<or> 65 \<le> code c \<and> code c \<le> 70 \<or> 97 \<le> code c \<and> code c \<le> 102)"

definition mac_address :: "string \<Rightarrow> bool" where
  "mac_address s =
     (let groups = split_on (CHR '':'') s
      in length groups = 6 \<and> list_all (\<lambda>g. length g = 2 \<and> list_all hex_char g) groups)"

definition validate_network_payload :: "pydict \<Rightarrow> unit res" where
  "validate_network_payload network =
     (let missing = filter (\<lambda>k. \<not> dhas network k) [''ip'', ''gateway'', ''netmask'', ''dns'']
      in if missing \<noteq> [] then fire_error (''network payload missing required fields: '' @ join '', '' missing)
         else
           bind_res (map_res (\<lambda>k. if nonblank_or [] (dget network k) = VStr [] then
                         fire_error (''network.'' @ k @ '' must be a non-empty string.'') else Inr ())
                       [''ip'', ''gateway'', ''netmask'']) (\<lambda>_.
           case dget network ''dns'' of
             VList dns \<Rightarrow>
               if dns \<noteq> [] \<and> list_all is_VStr dns then Inr ()
               else fire_error ''network.dns must be a non-empty list of strings.''
           | _ \<Rightarrow> fire_error ''network.dns must be a non-empty list of strings.''))"

definition validate_preboot_config :: "(string \<Rightarrow> bool) \<Rightarrow> preboot \<Rightarrow> unit res" where
  "validate_preboot_config is_regular pb =
     (if \<not> is_regular (pb_rootfs pb) then fire_error (''Rootfs copy not found: '' @ pb_rootfs pb)
      else if \<not> iface_name (pb_tap pb) then
        fire_error (''tap_name has invalid format: '' @ repr_str (pb_tap pb) @ ''. Expected 1-15 chars [A-Za-z0-9._-].'')
      else if \<not> mac_address (pb_mac pb) then
        fire_error (''Invalid guest MAC format. Expected six hex bytes, for example ''
                    @ quoted ''06:00:AC:10:00:02'' @ ''.'')
      else if pb_cid pb < 3 \<or> 4294967294 < pb_cid pb then fire_error ''guest_cid must be in range 3..4294967294.''
      else if pb_uds pb = [] then fire_error ''vsock_uds_path must be non-empty.''
      else if pb_log pb = [] then fire_error ''log_path must be non-empty.''
      else bind_res (validate_network_payload (pb_network pb)) (\<lambda>_.
             validate_agent_config_payload (pb_agent_config pb)))"

definition DEFAULT_BOOT_ARGS :: string where
  "DEFAULT_BOOT_ARGS = ''console=ttyS0 reboot=k panic=1 pci=off init=/sbin/init''"

definition mmds_payload :: "preboot \<Rightarrow> pydict" where
  "mmds_payload pb = dict_of [(''network'', VDict (pb_network pb)), (''config'', VDict (pb_agent_config pb))]"

definition preboot_requests :: "fire_config \<Rightarrow> preboot \<Rightarrow> (string \<times> pydict) list" where
  "preboot_requests fc pb =
     [(''/boot-source'',
        dict_of [(''kernel_image_path'', VStr (fc_kernel fc)), (''boot_args'', VStr DEFAULT_BOOT_ARGS)]),
      (''/drives/rootfs'',
        dict_of [(''drive_id'', VStr ''rootfs''), (''path_on_host'', VStr (pb_rootfs pb)),
                 (''is_root_device'', VBool True), (''is_read_only'', VBool False)]),
      (''/machine-config'', dict_of [(''vcpu_count'', VInt (fc_vcpu fc)), (''mem_size_mib'', VInt (fc_mem_mb fc))]),
      (''/network-interfaces/eth0'',
        dict_of [(''iface_id'', VStr ''eth0''), (''guest_mac'', VStr (pb_mac pb)), (''host_dev_name'', VStr (pb_tap pb))]),
      (''/vsock'', dict_of [(''guest_cid'', VInt (pb_cid pb)), (''uds_path'', VStr (pb_uds pb))]),
      (''/logger'',
        dict_of [(''log_path'', VStr (pb_log pb)), (''level'', VStr ''Info''), (''show_level'', VBool True),
                 (''show_log_origin'', VBool True)]),
      (''/mmds/config'', dict_of [(''network_interfaces'', VList [VStr ''eth0'']), (''version'', VStr ''V2'')]),
      (''/mmds'', mmds_payload pb),
      (''/actions'', dict_of [(''action_type'', VStr ''InstanceStart'')])]"

text \<open>The PUT requests in order; the metadata is checked for secrets before it is sent.\<close>

fun put_all ::
    "(string \<Rightarrow> pydict \<Rightarrow> ('st, unit) effect) \<Rightarrow> (string \<times> pydict) list \<Rightarrow> pydict option
      \<Rightarrow> (string \<times> pydict) list \<Rightarrow> ('st, unit) effect" where
  "put_all put credentials llm [] = give ()"
| "put_all put credentials llm ((path, payload) # requests) =
     seq (from_res (if path = ''/mmds'' then assert_no_secrets (dumps_compact (VDict payload)) credentials llm
                    else Inr ())) (\<lambda>_.
     seq (put path payload) (\<lambda>_. put_all put credentials llm requests))"

definition configure_microvm_preboot ::
    "(string \<Rightarrow> pydict \<Rightarrow> ('st, unit) effect) \<Rightarrow> (string \<Rightarrow> bool) \<Rightarrow> fire_config \<Rightarrow> preboot
      \<Rightarrow> (string \<times> pydict) list \<Rightarrow> pydict option \<Rightarrow> ('st, unit) effect" where
  "configure_microvm_preboot put is_regular fc pb credentials llm =
     seq (from_res (validate_preboot_config is_regular pb)) (\<lambda>_.
       put_all put credentials llm (preboot_requests fc pb))"

text \<open>
  \<open>FirecrackerAPIClient.put\<close>: one HTTP exchange over the API socket, given as the function
  \<open>http\<close> from path and body to status and text of the response.
\<close>

definition api_put ::
    "(string \<Rightarrow> string \<Rightarrow> 'st \<Rightarrow> (int \<times> string) res \<times> 'st) \<Rightarrow> string \<Rightarrow> string \<Rightarrow> pydict \<Rightarrow> ('st, unit) effect" where
  "api_put http api_socket path payload =
     (if \<not> prefix ''/'' path then throw ValueError (''path must start with '' @ quoted ''/'' @ ''.'')
      else
        seq (handle_exn
               (\<lambda>k. k \<in> {OSError, TimeoutError, OtherException ''HTTPException''} \<or> is_ValueError k)
               (\<lambda>st. case http path (dumps_compact (VDict payload)) st of (r, st') \<Rightarrow> (outcome_of r, st'))
               (\<lambda>e. throw FirecrackerAPIError
                  (''Failed Firecracker API PUT '' @ path @ '' via '' @ api_socket @ '': '' @ exn_str e))) (\<lambda>(status, body).
        if status < 200 \<or> 300 \<le> status then
          throw FirecrackerAPIError (''Firecracker API PUT '' @ path @ '' failed with HTTP '' @ int_str status @ '': ''
            @ (if strip body = [] then ''<empty response body>'' else strip body))
        else give ()))"

section \<open>What the guest is configured with\<close>

lemma map_res_unit_ok: "list_all (\<lambda>x. f x = Inr ()) xs \<Longrightarrow> is_ok (map_res f xs)"
  by (induction xs) (auto simp: is_ok_iff)

lemma guest_max_iterations_pos: "0 < guest_max_iterations c" "0 < guest_llm_timeout c"
  by (auto simp: guest_max_iterations_def guest_llm_timeout_def positive_int_value_def split: pyval.splits if_splits)

text \<open>Whatever the configuration, the payload built from it passes its own check.\<close>

lemma payload_passes:
  assumes "p = dict_of
       [(''tools'', VDict t), (''web_search'', VDict ws), (''web_fetch'', VDict fe), (''skills'', VDict sk),
        (''approval_mode'', nonblank_or dflt v), (''max_iterations'', VInt (guest_max_iterations c)),
        (''context'', VDict ctx), (''subagents'', VDict sa),
        (''host_services'', VDict (dict_of [(''llm_timeout_seconds'', VInt (guest_llm_timeout c))]))]"
  shows "validate_agent_config_payload p = Inr ()"
  using guest_max_iterations_pos [of c] unfolding assms
  by (auto simp: validate_agent_config_payload_def mapping_or_null_def strict_positive_def nonblank_or_def
      split: pyval.splits)

lemma pos_int_or_value: "0 < n \<Longrightarrow> pos_int_or dflt (VInt n) = Inr n"
  by (simp add: pos_int_or_def)

lemma nonblank_or_value: "strip s \<noteq> [] \<Longrightarrow> nonblank_or dflt (VStr s) = VStr s"
  by (simp add: nonblank_or_def)

lemma dsetdefault_same: "dlookup d k = Some v \<Longrightarrow> dsetdefault d k x = d"
  by (simp add: dsetdefault_def dhas_def)

lemma guest_tools_switches:
  "length bs = 5 \<Longrightarrow> dget c ''tools'' = VDict (tool_switches bs) \<Longrightarrow> guest_tools c = tool_switches bs"
  by (auto simp: numeral_eq_Suc length_Suc_conv guest_tools_def tool_switches_def KNOWN_TOOLS_def dict_of_def
      dget_or_def dlookup_def)

lemma guest_subagents_settings:
  assumes "length ns = 6" "\<forall>n \<in> set ns. 0 < n" "j \<in> set [''none'', ''summary'', ''full'']"
    and "dget c ''subagents'' = VDict (subagent_settings b ns j)"
  shows "guest_subagents c = Inr (subagent_settings b ns j)"
proof -
  from assms(1) obtain n1 n2 n3 n4 n5 n6 where ns: "ns = [n1, n2, n3, n4, n5, n6]"
    by (auto simp: numeral_eq_Suc length_Suc_conv)
  have "lower (strip j) = j"
  proof -
    from assms(3) consider "j = ''none''" | "j = ''summary''" | "j = ''full''" by auto
    then show ?thesis by cases (simp_all only:, code_simp+)
  qed
  with assms(2,3,4) show ?thesis
    by (simp add: guest_subagents_def ns subagent_settings_def subagent_int_defaults_def pos_int_or_value del: set_simps)
       (simp add: pos_int_or_value)
qed

text \<open>The sections of a validated configuration, in one place.\<close>

lemma validated_sections:
  assumes "validate_optional_fields c0 = Inr c" "(key, f) \<in> set config_sections"
  shows "f (dget c0 key) = Inr (dget c key)"
proof -
  have "run_sections config_sections c0 = Inr c"
    using assms(1) by (auto simp: validate_optional_fields_def validate_legacy_integrations_def config_error_def
        bind_res_eq_Inr split: if_splits)
  then show ?thesis using section_value(1) assms(2) by blast
qed

lemmas validated = validated_sections [unfolded config_sections_def]

lemma sanitized_fields:
  assumes v: "validate_optional_fields c0 = Inr c"
  obtains p where "sanitize_agent_config_for_mmds c = Inr p" "\<not> dhas p ''llm''"
    "dget p ''tools'' = dget c ''tools''" "dget p ''subagents'' = dget c ''subagents''"
    "dget p ''skills'' = dget c ''skills''" "dget p ''web_fetch'' = dget c ''web_fetch''"
    "dget p ''host_services'' = VDict (dict_of [(''llm_timeout_seconds'', dget (as_dict (dget c ''host_services'')) ''llm_timeout_seconds'')])"
    "dget p ''web_search'' = VDict (dict_of (map (\<lambda>key. (key, dget (as_dict (dget c ''web_search'')) key))
        [''endpoint'', ''format'', ''max_results'']))"
    "dget p ''max_iterations'' = VInt (guest_max_iterations c)" "dget p ''loop'' = VNone"
    "dget p ''context'' = VDict (dsetdefault (dsetdefault (dsetdefault (as_dict (dget c ''context''))
                      ''token_budget'' (VInt 4000)) ''summary_threshold'' (VInt 10)) ''max_output_chars'' (VInt 8000))"
proof -
  obtain bs where t: "dget c ''tools'' = VDict (tool_switches bs)" "length bs = 5"
    using validated [OF v, of "''tools''" tools_fields] by (auto elim: tools_shape)
  obtain b ns j where sa: "dget c ''subagents'' = VDict (subagent_settings b ns j)" "length ns = 6"
    "\<forall>n \<in> set ns. 0 < n" "j \<in> set [''none'', ''summary'', ''full'']"
    using validated [OF v, of "''subagents''" subagents_fields] by (auto elim: subagents_shape)
  obtain d e f n where ws: "dget c ''web_search'' = VDict d" "dlookup d ''endpoint'' = Some (VStr e)" "e \<noteq> []"
    "strip e = e" "dlookup d ''format'' = Some (VStr f)" "f \<in> set [''brave'', ''searxng'']"
    "dlookup d ''max_results'' = Some (VInt n)" "0 < n"
  proof -
    have "web_search_fields (dget c0 ''web_search'') = Inr (dget c ''web_search'')" by (rule validated [OF v]) simp
    then show ?thesis by (rule web_search_shape) (rule that)
  qed
  obtain sd s m where sk: "dget c ''skills'' = VDict sd" "dlookup sd ''directory'' = Some (VStr s)"
    "dlookup sd ''max_file_chars'' = Some (VInt m)"
    using validated [OF v, of "''skills''" skills_fields] by (auto elim: skills_shape)
  obtain fd fn where fe: "dget c ''web_fetch'' = VDict fd" "dlookup fd ''max_response_bytes'' = Some (VInt fn)"
    using validated [OF v, of "''web_fetch''" web_fetch_fields] by (auto elim: web_fetch_shape)
  obtain hd' hn where hs: "dget c ''host_services'' = VDict hd'" "dlookup hd' ''llm_timeout_seconds'' = Some (VInt hn)" "0 < hn"
    using validated [OF v, of "''host_services''" host_services_fields] by (auto elim: host_services_shape)
  have f: "strip f \<noteq> []" using search_formats [OF ws(6)] ws(6) by (auto simp: lower_def)
  have gw: "guest_web_search c = Inr (dict_of [(''endpoint'', VStr e), (''format'', VStr f), (''max_results'', VInt n)])"
    using ws f by (simp add: guest_web_search_def pos_int_or_value nonblank_or_value dget_def dget_or_some del: set_simps)
  show ?thesis
  proof (rule that)
    show "sanitize_agent_config_for_mmds c = Inr (dict_of
       [(''tools'', VDict (tool_switches bs)),
        (''web_search'', VDict (dict_of [(''endpoint'', VStr e), (''format'', VStr f), (''max_results'', VInt n)])),
        (''web_fetch'', VDict fd), (''skills'', VDict sd),
        (''approval_mode'', nonblank_or ''review'' (dget_or c ''approval_mode'' (VStr ''review''))),
        (''max_iterations'', VInt (guest_max_iterations c)),
        (''context'', VDict (dsetdefault (dsetdefault (dsetdefault (as_dict (dget c ''context''))
                      ''token_budget'' (VInt 4000)) ''summary_threshold'' (VInt 10)) ''max_output_chars'' (VInt 8000))),
        (''subagents'', VDict (subagent_settings b ns j)),
        (''host_services'', VDict (dict_of [(''llm_timeout_seconds'', VInt (guest_llm_timeout c))]))])"
      unfolding sanitize_agent_config_for_mmds_def Let_def gw guest_subagents_settings [OF sa(2,3,4,1)]
      by (simp add: payload_passes [OF refl] guest_tools_switches [OF t(2,1)] sk fe dsetdefault_same)
  qed (use t sa ws sk fe hs in \<open>simp_all add: dget_def dget_or_some guest_llm_timeout_def positive_int_value_def del: set_simps\<close>)
qed

lemma load_config_cases:
  assumes "(case v of VDict d \<Rightarrow> f d | _ \<Rightarrow> config_error msg) = Inr c"
  obtains d where "v = VDict d" "f d = Inr c"
  using assms by (cases v) (auto simp: config_error_def)

lemma load_config_validated:
  assumes "load_config env path = Inr c"
  obtains c0 where "validate_optional_fields c0 = Inr c" "list_all (\<lambda>p. field_at (VDict c0) p \<noteq> None) REQUIRED_FIELDS"
proof -
  obtain source c0 where r: "validate_required_fields c0 source = Inr ()" "validate_optional_fields c0 = Inr c"
    using assms unfolding load_config_def bind_res_eq_Inr
    by (elim exE conjE) (erule load_config_cases, auto simp: bind_res_eq_Inr intro: that)
  then have "[join ''.'' p. p \<leftarrow> REQUIRED_FIELDS, field_at (VDict c0) p = None] = []"
    by (auto simp: validate_required_fields_def config_error_def Let_def simp del: concat_eq_Nil_conv split: if_splits)
  then have nil: "set [join ''.'' p. p \<leftarrow> REQUIRED_FIELDS, field_at (VDict c0) p = None] = {}" by (simp only: list.set)
  have "list_all (\<lambda>p. field_at (VDict c0) p \<noteq> None) REQUIRED_FIELDS"
    unfolding list_all_iff
  proof (intro ballI notI)
    fix p assume "p \<in> set REQUIRED_FIELDS" "field_at (VDict c0) p = None"
    then have "join ''.'' p \<in> set [join ''.'' p. p \<leftarrow> REQUIRED_FIELDS, field_at (VDict c0) p = None]" by auto
    then show False unfolding nil by simp
  qed
  with r(2) that show ?thesis by blast
qed

lemma validated_other:
  assumes "validate_optional_fields c0 = Inr c" "key \<notin> fst ` set config_sections"
  shows "dlookup c key = dlookup c0 key"
  using assms run_sections_other
  by (auto simp: validate_optional_fields_def validate_legacy_integrations_def config_error_def bind_res_eq_Inr split: if_splits)

text \<open>
  C14. In Fire mode the guest runs with the settings of the host: for every configuration the
  loader accepts, the payload delivered to the guest has no \<open>llm\<close> section, is accepted as a
  guest configuration, and each reader of the agent, but the one of the iterations, reads from it
  what it reads from the host's configuration. The iterations of the guest are the first positive
  int found at the top level and under \<open>loop\<close>, or 50; that is what the host reads when there is
  one under \<open>loop\<close> alone, and may differ otherwise (see \<open>text_iterations_diverge\<close>).
\<close>

theorem guest_config_faithful:
  assumes l: "load_config env path = Inr c"
  shows "\<exists>p. sanitize_agent_config_for_mmds c = Inr p \<and> \<not> dhas p ''llm'' \<and> validate_guest_proxy_config p guest_path = Inr ()
     \<and> new_tools p = (new_tools c)\<lparr>to_config := p\<rparr> \<and> configured_max_results (new_tools p) = configured_max_results (new_tools c)
     \<and> read_subagents_settings (Some p) = read_subagents_settings (Some c)
     \<and> read_subagents_enabled (Some p) = read_subagents_enabled (Some c)
     \<and> read_skills_max_file_chars (Some p) = read_skills_max_file_chars (Some c)
     \<and> read_skills_directory p = read_skills_directory c
     \<and> read_host_service_llm_timeout p = read_host_service_llm_timeout c
     \<and> read_context_int p ''token_budget'' k = read_context_int c ''token_budget'' k
     \<and> read_context_int p ''summary_threshold'' k = read_context_int c ''summary_threshold'' k
     \<and> read_loop_max_iterations p m = Inr
          (case positive_int_value (dget c ''max_iterations'') of
             Some i \<Rightarrow> i
           | None \<Rightarrow> (case positive_int_value (dget (as_dict (dget c ''loop'')) ''max_iterations'') of Some i \<Rightarrow> i | None \<Rightarrow> 50))
     \<and> (dget c ''max_iterations'' = VNone \<and> dget (as_dict (dget c ''loop'')) ''max_iterations'' = VInt n \<and> 0 < n
        \<longrightarrow> read_loop_max_iterations p m = read_loop_max_iterations c m)"
proof -
  obtain c0 where v: "validate_optional_fields c0 = Inr c"
    and req: "list_all (\<lambda>p. field_at (VDict c0) p \<noteq> None) REQUIRED_FIELDS" by (rule load_config_validated [OF l])
  have other: "dget c ''context'' = dget c0 ''context''" "dget c ''loop'' = dget c0 ''loop''"
    using validated_other [OF v] by (simp_all add: dget_def dget_or_def config_sections_def)
  from req obtain ctx tb st mo where ctx: "dget c ''context'' = VDict ctx" "dlookup ctx ''token_budget'' = Some tb"
    "dlookup ctx ''summary_threshold'' = Some st" "dlookup ctx ''max_output_chars'' = Some mo"
    unfolding other by (auto simp: REQUIRED_FIELDS_def dget_def dget_or_def split: option.splits pyval.splits elim!: field_at.elims)
  from req obtain lp where lp: "dget c ''loop'' = VDict lp"
    unfolding other by (auto simp: REQUIRED_FIELDS_def dget_def dget_or_def split: option.splits pyval.splits elim!: field_at.elims)
  obtain hd' hn where hs: "dget c ''host_services'' = VDict hd'" "dlookup hd' ''llm_timeout_seconds'' = Some (VInt hn)" "0 < hn"
    using validated [OF v, of "''host_services''" host_services_fields] by (auto elim: host_services_shape)
  obtain p where p: "sanitize_agent_config_for_mmds c = Inr p" "\<not> dhas p ''llm''"
    "dget p ''tools'' = dget c ''tools''" "dget p ''subagents'' = dget c ''subagents''"
    "dget p ''skills'' = dget c ''skills''"
    "dget p ''host_services'' = VDict (dict_of [(''llm_timeout_seconds'', dget (as_dict (dget c ''host_services'')) ''llm_timeout_seconds'')])"
    "dget p ''web_search'' = VDict (dict_of (map (\<lambda>key. (key, dget (as_dict (dget c ''web_search'')) key))
        [''endpoint'', ''format'', ''max_results'']))"
    "dget p ''max_iterations'' = VInt (guest_max_iterations c)" "dget p ''loop'' = VNone" "dget p ''context'' = dget c ''context''"
    by (rule sanitized_fields [OF v]) (auto simp: ctx dsetdefault_same intro: that)
  obtain wd n' where ws: "dget c ''web_search'' = VDict wd" "dlookup wd ''max_results'' = Some (VInt n')"
  proof -
    have "web_search_fields (dget c0 ''web_search'') = Inr (dget c ''web_search'')" by (rule validated [OF v]) simp
    then show ?thesis by (rule web_search_shape) (rule that)
  qed
  have "configured_max_results (new_tools p) = configured_max_results (new_tools c)"
    using ws p(7) by (simp add: configured_max_results_def new_tools_def dget_def dget_or_def split: option.splits)
  moreover have "read_host_service_llm_timeout p = read_host_service_llm_timeout c"
    using hs p(6) by (simp add: read_host_service_llm_timeout_def dget_def dget_or_def)
  moreover have "read_loop_max_iterations p m = Inr (guest_max_iterations c)"
    using p(8,9) guest_max_iterations_pos(1) [of c]
    by (simp add: read_loop_max_iterations_def positive_or_def int_or_none_def)
  moreover note guest_max_iterations_def [of c]
  moreover have "read_loop_max_iterations p m = read_loop_max_iterations c m"
    if "dget c ''max_iterations'' = VNone" "dget (as_dict (dget c ''loop'')) ''max_iterations'' = VInt n" "0 < n"
    using that lp p(8,9)
    by (simp add: read_loop_max_iterations_def guest_max_iterations_def positive_int_value_def positive_or_def int_or_none_def)
  ultimately show ?thesis
    using p hs
    by (intro exI [of _ p])
       (simp add: validate_guest_proxy_config_def new_tools_def read_subagents_settings_def read_subagents_enabled_def
         read_skills_max_file_chars_def read_skills_directory_def read_context_int_def)
qed

text \<open>A small configuration file, with the API key taken from the environment.\<close>

definition demo_yaml :: "pyval \<Rightarrow> pydict" where
  "demo_yaml iterations = dict_of
     [(''mode'', VStr ''fire''), (''adapters'', VDict (dict_of [(''enabled'', VList [VStr ''cli''])])),
      (''approval_mode'', VStr ''auto''),
      (''llm'', VDict (dict_of [(''model'', VStr ''m''), (''api_key'', VStr ''${KEY}''), (''max_tokens'', VInt 100),
                                (''temperature'', VFloat (FFin 0))])),
      (''context'', VDict (dict_of [(''token_budget'', VInt 4000), (''summary_threshold'', VInt 10),
                                    (''max_output_chars'', VInt 8000)])),
      (''loop'', VDict (dict_of [(''max_iterations'', iterations)])),
      (''tools'', VDict (dict_of [(''shell'', VBool False)])),
      (''firecracker'', VDict (dict_of [(''binary'', VStr ''/fc''), (''kernel'', VStr ''/k''), (''rootfs'', VStr ''/r''),
         (''vcpu'', VInt 2), (''mem_mb'', VInt 512), (''host_iface'', VNone), (''boot_timeout'', VInt 10),
         (''tap_subnet_base'', VNone)])),
      (''telegram'', VDict (dict_of [(''token'', VStr [])]))]"

definition demo_config_env :: "pyval \<Rightarrow> config_env" where
  "demo_config_env iterations =
     \<lparr>ce_home = ''/h'', ce_fallback = ''/f'', ce_expanduser = id, ce_exists = (\<lambda>p. p = ''/f''),
      ce_read = (\<lambda>p. Inr (VDict (demo_yaml iterations))), ce_getenv = map_of [(''KEY'', ''sk-1'')]\<rparr>"

definition demo_config :: "pyval \<Rightarrow> pydict" where
  "demo_config iterations = projr (load_config (demo_config_env iterations) None)"

lemma demo_config_loads:
  "load_config (demo_config_env (VInt 30)) None = Inr (demo_config (VInt 30))"
  "dget (demo_config (VInt 30)) ''max_iterations'' = VNone"
  "dget (as_dict (dget (demo_config (VInt 30)) ''loop'')) ''max_iterations'' = VInt 30"
  "dget (as_dict (dget (demo_config (VInt 30)) ''llm'')) ''api_key'' = VStr ''sk-1''"
  by code_simp+

lemma guest_config_faithful_witness:
  "\<exists>p. sanitize_agent_config_for_mmds (demo_config (VInt 30)) = Inr p \<and> new_tools p = (new_tools (demo_config (VInt 30)))\<lparr>to_config := p\<rparr>
     \<and> read_loop_max_iterations p 50 = read_loop_max_iterations (demo_config (VInt 30)) 50"
  using guest_config_faithful [OF demo_config_loads(1), where k = 0 and n = 30 and m = 50] demo_config_loads(2,3) by auto

text \<open>
  The two modes disagree on a number written as text, as an environment variable always is:
  the host's reader converts it, the payload for the guest falls back to 50.
\<close>

lemma text_iterations_diverge:
  "load_config (demo_config_env (VStr ''30'')) None = Inr (demo_config (VStr ''30''))
     \<and> read_loop_max_iterations (demo_config (VStr ''30'')) 50 = Inr 30
     \<and> read_loop_max_iterations (projr (sanitize_agent_config_for_mmds (demo_config (VStr ''30'')))) 50 = Inr 50"
  by (intro conjI; code_simp)

section \<open>Starting the machine, step by step\<close>

text \<open>An API that lists the requests it has taken.\<close>

definition recorded ::
    "(string \<Rightarrow> pydict \<Rightarrow> ('st, unit) effect) \<Rightarrow> string \<Rightarrow> pydict \<Rightarrow> ('st \<times> (string \<times> pydict) list, unit) effect" where
  "recorded put path payload st =
     (case put path payload (fst st) of
        (Done u, s) \<Rightarrow> (Done u, (s, snd st @ [(path, payload)]))
      | (r, s) \<Rightarrow> (r, (s, snd st)))"

definition secret_free :: "(string \<times> pydict) list \<Rightarrow> pydict option \<Rightarrow> pydict \<Rightarrow> bool" where
  "secret_free credentials llm payload =
     (list_all (\<lambda>(name, r). \<not> leaks (dumps_compact (VDict payload)) (dget r ''token'')) credentials
      \<and> (case llm of Some d \<Rightarrow> \<not> leaks (dumps_compact (VDict payload)) (dget d ''api_key'') | None \<Rightarrow> True))"

lemma assert_no_secrets_ok:
  "assert_no_secrets (dumps_compact (VDict payload)) credentials llm = Inr () \<longleftrightarrow> secret_free credentials llm payload"
proof -
  let ?bad = "\<lambda>(name, r). leaks (dumps_compact (VDict payload)) (dget r ''token'')"
  have n: "find ?bad credentials = None \<longleftrightarrow> list_all (\<lambda>(name, r). \<not> leaks (dumps_compact (VDict payload)) (dget r ''token'')) credentials"
    by (auto simp: find_None_iff list_all_iff)
  show ?thesis
  proof (cases "find ?bad credentials")
    case None
    with n show ?thesis by (auto simp: assert_no_secrets_def secret_free_def raise_def split: option.splits)
  next
    case (Some p)
    then have "\<not> list_all (\<lambda>(name, r). \<not> leaks (dumps_compact (VDict payload)) (dget r ''token'')) credentials"
      using n by simp
    with Some show ?thesis by (simp add: assert_no_secrets_def secret_free_def raise_def split: prod.splits)
  qed
qed

lemma recorded_cases:
  "put path payload s = (Done u, s1) \<Longrightarrow> recorded put path payload (s, taken) = (Done u, (s1, taken @ [(path, payload)]))"
  "put path payload s = (Raised e, s1) \<Longrightarrow> recorded put path payload (s, taken) = (Raised e, (s1, taken))"
  "put path payload s = (Blocked, s1) \<Longrightarrow> recorded put path payload (s, taken) = (Blocked, (s1, taken))"
  by (simp_all add: recorded_def)

lemma put_all_recorded:
  assumes "put_all (recorded put) credentials llm reqs (s, taken0) = (r, (s', taken))"
  shows "\<exists>sent. taken = taken0 @ sent \<and> prefix sent reqs \<and> (r = Done () \<longleftrightarrow> sent = reqs)
     \<and> list_all (\<lambda>(path, payload). path = ''/mmds'' \<longrightarrow> secret_free credentials llm payload) sent"
  using assms
proof (induction reqs arbitrary: s taken0)
  case Nil
  then show ?case by (simp add: effect_defs)
next
  case (Cons q reqs)
  obtain path payload where q: "q = (path, payload)" by (cases q)
  let ?check = "if path = ''/mmds'' then assert_no_secrets (dumps_compact (VDict payload)) credentials llm else Inr ()"
  show ?case
  proof (cases ?check)
    case (Inl e)
    with Cons.prems have "r = Raised e" "taken = taken0" by (auto simp: q effect_defs)
    then show ?thesis by auto
  next
    case (Inr u)
    then have ok: "path = ''/mmds'' \<Longrightarrow> secret_free credentials llm payload"
      using assert_no_secrets_ok [of payload credentials llm] by auto
    obtain o1 s1 where p: "put path payload s = (o1, s1)" by fastforce
    show ?thesis
    proof (cases o1)
      case (Done v)
      then have "put_all (recorded put) credentials llm reqs (s1, taken0 @ [(path, payload)]) = (r, (s', taken))"
        using Cons.prems p Inr by (simp add: q effect_defs recorded_cases)
      from Cons.IH [OF this] obtain sent where "taken = (taken0 @ [(path, payload)]) @ sent" "prefix sent reqs"
        "r = Done () \<longleftrightarrow> sent = reqs"
        "list_all (\<lambda>(path, payload). path = ''/mmds'' \<longrightarrow> secret_free credentials llm payload) sent" by blast
      with ok show ?thesis by (intro exI [of _ "(path, payload) # sent"]) (auto simp: q)
    next
      case (Raised e)
      with Cons.prems p Inr have "r = Raised e" "taken = taken0" by (auto simp: q effect_defs recorded_cases)
      then show ?thesis by auto
    next
      case Blocked
      with Cons.prems p Inr have "r = Blocked" "taken = taken0" by (auto simp: q effect_defs recorded_cases)
      then show ?thesis by auto
    qed
  qed
qed

text \<open>
  C13. The machine is started last and with no secret in its metadata: the API takes an initial
  part of the nine requests in their order, all of them exactly when the configuration
  succeeds; so \<open>InstanceStart\<close> is taken only after the other eight, and what was sent to
  \<open>/mmds\<close> contains no credential token and not the model's API key.
\<close>

theorem machine_configured_without_secrets:
  assumes "configure_microvm_preboot (recorded put) is_regular fc pb credentials llm (s, []) = (r, (s', taken))"
  shows "prefix taken (preboot_requests fc pb) \<and> (r = Done () \<longleftrightarrow> taken = preboot_requests fc pb)
     \<and> ((''/mmds'', mmds_payload pb) \<in> set taken \<longrightarrow> secret_free credentials llm (mmds_payload pb))
     \<and> (''/actions'' \<in> fst ` set taken \<longrightarrow> r = Done () \<and> length taken = 9 \<and> secret_free credentials llm (mmds_payload pb))"
proof (cases "validate_preboot_config is_regular pb")
  case (Inl e)
  with assms have "taken = []" "r = Raised e" by (auto simp: configure_microvm_preboot_def effect_defs)
  then show ?thesis by (simp add: preboot_requests_def)
next
  case (Inr u)
  with assms have "put_all (recorded put) credentials llm (preboot_requests fc pb) (s, []) = (r, (s', taken))"
    by (simp add: configure_microvm_preboot_def effect_defs)
  from put_all_recorded [OF this] have p: "prefix taken (preboot_requests fc pb)" "r = Done () \<longleftrightarrow> taken = preboot_requests fc pb"
    and l: "list_all (\<lambda>(path, payload). path = ''/mmds'' \<longrightarrow> secret_free credentials llm payload) taken" by auto
  have m: "(''/mmds'', mmds_payload pb) \<in> set taken \<Longrightarrow> secret_free credentials llm (mmds_payload pb)"
    using l by (auto simp: list_all_iff)
  have whole: "taken = preboot_requests fc pb" if a: "''/actions'' \<in> fst ` set taken"
  proof -
    from p(1) obtain n where n: "taken = take n (preboot_requests fc pb)" by (metis append_eq_conv_conj prefixE)
    have "''/actions'' \<notin> fst ` set (take 8 (preboot_requests fc pb))" by (simp add: preboot_requests_def)
    moreover have "fst ` set taken \<subseteq> fst ` set (take 8 (preboot_requests fc pb))" if "n \<le> 8"
      unfolding n by (rule image_mono [OF set_take_subset_set_take [OF that]])
    ultimately have "8 < n" using a by (meson not_le subsetD)
    then show ?thesis using n by (simp add: preboot_requests_def)
  qed
  have all: "(''/mmds'', mmds_payload pb) \<in> set (preboot_requests fc pb)" "length (preboot_requests fc pb) = 9"
    by (simp_all add: preboot_requests_def)
  have "r = Done () \<and> length taken = 9 \<and> secret_free credentials llm (mmds_payload pb)"
    if a: "''/actions'' \<in> fst ` set taken"
    using whole [OF a] all m p(2) by simp
  then have "''/actions'' \<in> fst ` set taken \<longrightarrow>
      r = Done () \<and> length taken = 9 \<and> secret_free credentials llm (mmds_payload pb)" ..
  with p m show ?thesis by (intro conjI) (assumption | rule impI)+
qed

definition demo_fire_config :: fire_config where
  "demo_fire_config = \<lparr>fc_binary = ''/fc'', fc_kernel = ''/k'', fc_rootfs = ''/r'', fc_vcpu = 2, fc_mem_mb = 512,
     fc_host_iface = None, fc_boot_timeout = FFin 10, fc_log_export = False, fc_log_max_bytes = 32768\<rparr>"

definition demo_preboot :: preboot where
  "demo_preboot = \<lparr>pb_rootfs = ''/t/rootfs.ext4'', pb_tap = ''fc0123456789ab'', pb_mac = ''06:00:AC:10:00:02'',
     pb_cid = 7, pb_uds = ''/t/fire.vsock'', pb_log = ''/t/firecracker.log'',
     pb_network = dict_of [(''ip'', VStr ''172.16.0.2''), (''gateway'', VStr ''172.16.0.1''),
       (''netmask'', VStr ''255.255.255.252''), (''dns'', VList [VStr ''8.8.8.8''])],
     pb_agent_config = dict_of [(''max_iterations'', VInt 30)]\<rparr>"

lemma machine_configured_without_secrets_witness:
  "''/actions'' \<in> fst ` set (preboot_requests demo_fire_config demo_preboot)
     \<and> secret_free [(''github'', dict_of [(''token'', VStr ''ghp_1'')])] (extract_llm_config (demo_config (VInt 30)))
         (mmds_payload demo_preboot)"
proof -
  let ?creds = "[(''github'', dict_of [(''token'', VStr ''ghp_1'')])]"
  let ?llm = "extract_llm_config (demo_config (VInt 30))"
  let ?run = "configure_microvm_preboot (recorded (\<lambda>path payload s. (Done (), Suc s))) (\<lambda>p. p = ''/t/rootfs.ext4'')
      demo_fire_config demo_preboot ?creds ?llm (0, [])"
  have "\<exists>s. ?run = (Done (), (s, preboot_requests demo_fire_config demo_preboot))"
    by (rule exI [of _ 9]) code_simp
  then obtain s where "?run = (Done (), (s, preboot_requests demo_fire_config demo_preboot))" ..
  from machine_configured_without_secrets [OF this] show ?thesis by (simp add: preboot_requests_def)
qed

end
