(* ===== verification/FireNet.thy ===== *)
theory FireNet
  imports Pattern Effect PyJson FireConfig
begin

text \<open>
  The host's network for a Firecracker session (\<open>sandbox/fire.py\<close>): TAP devices and their /30
  subnets, the iptables rules, and the leases of guest CIDs. Commands are run by a function
  \<open>run\<close> of the world; the counter file and the CID lock file are read and written under an
  exclusive lock, so each operation is one step.
\<close>

section \<open>Names and addresses\<close>

definition session_char :: "char \<Rightarrow> bool" where
  "session_char c = (is_alnum c \<or> c = CHR ''-'')"

definition sanitize_session_id :: "string \<Rightarrow> string res" where
  "sanitize_session_id s =
     (if s = [] then fire_error ''session_id must be a non-empty string.''
      else if list_all session_char s then Inr s
      else fire_error ''Invalid session_id format. Expected characters [a-zA-Z0-9-] only.'')"

text \<open>\<open>sha256 hexdigest\<close> is the parameter \<open>digest\<close>.\<close>

definition tap_name_for_session :: "(string \<Rightarrow> string) \<Rightarrow> string \<Rightarrow> string res" where
  "tap_name_for_session digest s =
     bind_res (sanitize_session_id s) (\<lambda>sane. Inr (''fc'' @ take 12 (digest sane)))"

definition ip_from_host_offset :: "int \<Rightarrow> string res" where
  "ip_from_host_offset offset =
     (if offset < 0 \<or> 65535 < offset
      then fire_error (''Invalid host offset for TAP /30 allocation: '' @ int_str offset)
      else Inr (''172.16.'' @ int_str (offset div 256) @ ''.'' @ int_str (offset mod 256)))"

definition MAX_TAP_SUBNETS :: int where
  "MAX_TAP_SUBNETS = 16384"

definition tap_guest_ips_from_index :: "int \<Rightarrow> (string \<times> string) res" where
  "tap_guest_ips_from_index session_index =
     (if session_index < 0 then fire_error ''session_index must be greater than or equal to zero.''
      else
        (let tap_offset = 4 * (session_index mod MAX_TAP_SUBNETS) + 1
         in bind_res (ip_from_host_offset tap_offset) (\<lambda>tap.
            bind_res (ip_from_host_offset (tap_offset + 1)) (\<lambda>guest. Inr (tap, guest)))))"

record tap_allocation =
  ta_session :: string
  ta_index :: int
  ta_tap :: string
  ta_ip :: string
  ta_guest :: string
  ta_iface :: string

definition tap_cidr :: "tap_allocation \<Rightarrow> string" where
  "tap_cidr a = ta_ip a @ ''/30''"

section \<open>Reading the output of \<open>ip\<close>\<close>

text \<open>One or more characters of a class, and the rest.\<close>

definition some_of :: "(char \<Rightarrow> bool) \<Rightarrow> string \<Rightarrow> (string \<times> string) option" where
  "some_of P s = (let run = takeWhile P s in if run = [] then None else Some (run, drop (length run) s))"

definition expect :: "char \<Rightarrow> string \<Rightarrow> string option" where
  "expect c s = (case s of [] \<Rightarrow> None | d # t \<Rightarrow> if d = c then Some t else None)"

fun dotted :: "nat \<Rightarrow> string \<Rightarrow> (string \<times> string) option" where
  "dotted 0 s = some_of is_digit s"
| "dotted (Suc n) s =
     Option.bind (some_of is_digit s) (\<lambda>(d, t). Option.bind (expect (CHR ''.'') t) (\<lambda>u.
       map_option (\<lambda>(r, v). (d @ ''.'' @ r, v)) (dotted n u)))"

text \<open>\<open>\binet\s+(\d+\.\d+\.\d+\.\d+)/\d+\b\<close>\<close>

definition inet_matcher :: "string matcher" where
  "inet_matcher prev s =
     (if prev \<or> \<not> prefix ''inet'' s then None
      else
        Option.bind (some_of py_space (drop 4 s)) (\<lambda>(_, t).
        Option.bind (dotted 3 t) (\<lambda>(ip, u).
        Option.bind (expect (CHR ''/'') u) (\<lambda>v.
        Option.bind (some_of is_digit v) (\<lambda>(_, w).
          if boundary True w then Some (ip, w) else None)))))"

definition assigned_ipv4_addrs :: "string \<Rightarrow> string list" where
  "assigned_ipv4_addrs out = List.map_filter (search inet_matcher False) (splitlines out)"

definition iface_char :: "char \<Rightarrow> bool" where
  "iface_char c = (is_alnum c \<or> c \<in> set ''._-'')"

definition route_dev :: "pyval \<Rightarrow> string option" where
  "route_dev entry =
     (case entry of
        VDict d \<Rightarrow> (case dget d ''dev'' of VStr dev \<Rightarrow> if iface_name dev then Some dev else None | _ \<Rightarrow> None)
      | _ \<Rightarrow> None)"

definition parse_default_route_iface_json :: "string \<Rightarrow> string option res" where
  "parse_default_route_iface_json out =
     (case json_loads out of
        Inl e \<Rightarrow> if exn_class e = JSONDecodeError then Inr None else Inl e
      | Inr (VList entries) \<Rightarrow>
          Inr (case List.map_filter route_dev entries of [] \<Rightarrow> None | dev # _ \<Rightarrow> Some dev)
      | Inr _ \<Rightarrow> Inr None)"

text \<open>\<open>\bdev\s+([A-Za-z0-9._-]{1,15})\b\<close>\<close>

definition dev_matcher :: "string matcher" where
  "dev_matcher prev s =
     (if prev \<or> \<not> prefix ''dev'' s then None
      else Option.bind (some_of py_space (drop 3 s)) (\<lambda>(_, t). match_class iface_char 1 15 t))"

definition parse_default_route_iface_text :: "string \<Rightarrow> string option" where
  "parse_default_route_iface_text out = search dev_matcher False out"

text \<open>
  \<open>^\d+:\s+([^:]+):\<close>, then the part before \<open>@\<close>. When a colon follows the white space, the
  pattern gives the last of several spaces to the name.
\<close>

definition parse_link_name :: "string \<Rightarrow> string option" where
  "parse_link_name line =
     Option.bind (some_of is_digit line) (\<lambda>(_, t).
     Option.bind (expect (CHR '':'') t) (\<lambda>u.
     Option.bind (some_of py_space u) (\<lambda>(spaces, v).
       (let name = takeWhile (\<lambda>c. c \<noteq> CHR '':'') v
        in if CHR '':'' \<notin> set v then None
           else if name \<noteq> [] then Some (before (CHR ''@'') name)
           else if 1 < length spaces then Some [last spaces]
           else None))))"

section \<open>TAP devices\<close>

record completed =
  cp_code :: int
  cp_out :: string
  cp_err :: string

type_synonym 's runner = "string list \<Rightarrow> ('s, completed) effect"

definition command_failed :: "string list \<Rightarrow> completed \<Rightarrow> string" where
  "command_failed args r =
     ''Command failed: '' @ join '' '' args @ '': ''
     @ (if strip (cp_err r) \<noteq> [] then strip (cp_err r)
        else if strip (cp_out r) \<noteq> [] then strip (cp_out r)
        else ''exit code '' @ int_str (cp_code r))"

text \<open>\<open>_run_command\<close> and \<open>_run_checked\<close>; \<open>_run_unchecked\<close> turns an exception into a failure.\<close>

definition run_checked :: "'s runner \<Rightarrow> string list \<Rightarrow> ('s, string) effect" where
  "run_checked run args =
     seq (run args) (\<lambda>r.
       if cp_code r \<noteq> 0 then throw FirecrackerConfigError (command_failed args r) else give (cp_out r))"

definition run_output :: "'s runner \<Rightarrow> string list \<Rightarrow> ('s, string) effect" where
  "run_output run args = seq (run args) (\<lambda>r. give (cp_out r))"

definition run_unchecked :: "'s runner \<Rightarrow> string list \<Rightarrow> ('s, completed) effect" where
  "run_unchecked run args =
     handle_exn (\<lambda>_. True) (run args) (\<lambda>_. give \<lparr>cp_code = 1, cp_out = [], cp_err = []\<rparr>)"

record 's tap_env =
  te_run :: "'s runner"
  te_counter_path :: string
  te_counter_read :: "('s, string) effect"
  te_counter_write :: "string \<Rightarrow> ('s, unit) effect"
  te_iface :: "string option"

definition new_tap_manager :: "'s tap_env \<Rightarrow> 's tap_env res" where
  "new_tap_manager e =
     (case te_iface e of
        Some i \<Rightarrow>
          if iface_name i then Inr e
          else fire_field ''firecracker.host_iface''
                 (''has invalid format: '' @ repr_str i @ ''. Expected 1-15 chars [A-Za-z0-9._-].'')
      | None \<Rightarrow> Inr e)"

definition counter_error :: "'s tap_env \<Rightarrow> string \<Rightarrow> ('s, 'a) effect" where
  "counter_error e raw =
     throw FirecrackerConfigError (''Invalid TAP counter value in '' @ te_counter_path e @ '': '' @ repr_str raw)"

definition next_session_index :: "'s tap_env \<Rightarrow> ('s, int) effect" where
  "next_session_index e =
     seq (te_counter_read e) (\<lambda>s.
       (let raw = strip s
        in case (if raw = [] then Some 0 else int_of_str raw) of
             None \<Rightarrow> counter_error e raw
           | Some current \<Rightarrow>
               if current < 0 then counter_error e raw
               else seq (te_counter_write e (int_str (current + 1) @ [newline])) (\<lambda>_. give current)))"

definition detect_host_iface :: "'s tap_env \<Rightarrow> ('s, string) effect" where
  "detect_host_iface e =
     (case te_iface e of
        Some i \<Rightarrow> give i
      | None \<Rightarrow>
          seq (run_output (te_run e) [''ip'', ''-j'', ''route'', ''list'', ''default'']) (\<lambda>out.
          seq (from_res (parse_default_route_iface_json out)) (\<lambda>found.
          case found of
            Some i \<Rightarrow> give i
          | None \<Rightarrow>
              seq (run_output (te_run e) [''ip'', ''route'', ''show'', ''default'']) (\<lambda>out.
              case parse_default_route_iface_text out of
                Some i \<Rightarrow> give i
              | None \<Rightarrow>
                  throw FirecrackerConfigError
                    (''Unable to detect host outbound interface from default route. ''
                     @ ''Set firecracker.host_iface in config.'')))))"

definition list_assigned_ipv4_addrs :: "'s tap_env \<Rightarrow> ('s, string list) effect" where
  "list_assigned_ipv4_addrs e =
     seq (run_output (te_run e) [''ip'', ''-4'', ''-o'', ''addr'', ''show'']) (\<lambda>out. give (assigned_ipv4_addrs out))"

definition destroy_tap :: "'s runner \<Rightarrow> string \<Rightarrow> ('s, unit) effect" where
  "destroy_tap run tap =
     (if tap = [] then give ()
      else seq (handle_exn (\<lambda>_. True) (run_output run [''ip'', ''link'', ''del'', tap]) (\<lambda>_. give [])) (\<lambda>_. give ()))"

text \<open>A device whose address or state cannot be set is removed again.\<close>

definition create_tap_interface :: "'s runner \<Rightarrow> tap_allocation \<Rightarrow> ('s, unit) effect" where
  "create_tap_interface run a =
     seq (run_checked run [''ip'', ''tuntap'', ''add'', ''dev'', ta_tap a, ''mode'', ''tap'']) (\<lambda>_.
       handle_exn (\<lambda>k. k = FirecrackerConfigError)
         (seq (run_checked run [''ip'', ''addr'', ''add'', tap_cidr a, ''dev'', ta_tap a]) (\<lambda>_.
          seq (run_checked run [''ip'', ''link'', ''set'', ''dev'', ta_tap a, ''up'']) (\<lambda>_. give ())))
         (\<lambda>exc. seq (destroy_tap run (ta_tap a)) (\<lambda>_ s. (Raised exc, s))))"

fun try_subnets ::
    "'s tap_env \<Rightarrow> string \<Rightarrow> string \<Rightarrow> string \<Rightarrow> nat \<Rightarrow> (string \<times> string) option \<Rightarrow> nat \<Rightarrow> ('s, tap_allocation) effect" where
  "try_subnets e session tap iface tries last_pair 0 =
     throw FirecrackerConfigError
       (''Failed to allocate TAP subnet without IP collision after '' @ nat_str tries @ '' attempts.''
        @ (case last_pair of
             None \<Rightarrow> []
           | Some (t, g) \<Rightarrow> '' Last attempted pair tap_ip='' @ t @ '' guest_ip='' @ g @ ''.''))"
| "try_subnets e session tap iface tries last_pair (Suc n) =
     seq (next_session_index e) (\<lambda>index.
     seq (from_res (tap_guest_ips_from_index index)) (\<lambda>(tap_ip, guest_ip).
     seq (list_assigned_ipv4_addrs e) (\<lambda>used.
       if tap_ip \<in> set used \<or> guest_ip \<in> set used
       then try_subnets e session tap iface tries (Some (tap_ip, guest_ip)) n
       else
         (let a = \<lparr>ta_session = session, ta_index = index, ta_tap = tap, ta_ip = tap_ip,
                   ta_guest = guest_ip, ta_iface = iface\<rparr>
          in seq (create_tap_interface (te_run e) a) (\<lambda>_. give a)))))"

definition create_tap :: "(string \<Rightarrow> string) \<Rightarrow> 's tap_env \<Rightarrow> string \<Rightarrow> int \<Rightarrow> ('s, tap_allocation) effect" where
  "create_tap digest e session max_retries =
     (if max_retries \<le> 0 then throw ValueError ''max_retries must be greater than zero.''
      else
        seq (from_res (sanitize_session_id session)) (\<lambda>sane.
        seq (from_res (tap_name_for_session digest sane)) (\<lambda>tap.
        seq (detect_host_iface e) (\<lambda>iface.
          try_subnets e sane tap iface (nat max_retries) None (nat max_retries)))))"

section \<open>Firewall rules\<close>

definition masquerade_rule :: "string \<Rightarrow> tap_allocation \<Rightarrow> string list" where
  "masquerade_rule action a =
     [''iptables'', ''-t'', ''nat'', action, ''POSTROUTING'', ''-o'', ta_iface a, ''-s'', ta_guest a, ''-j'', ''MASQUERADE'']"

definition forward_rule :: "string \<Rightarrow> tap_allocation \<Rightarrow> string list" where
  "forward_rule action a =
     [''iptables'', action, ''FORWARD'', ''-i'', ta_tap a, ''-o'', ta_iface a, ''-j'', ''ACCEPT'']"

definition input_rule :: "string \<Rightarrow> tap_allocation \<Rightarrow> string list" where
  "input_rule action a = [''iptables'', action, ''INPUT'', ''-i'', ta_tap a, ''-j'', ''DROP'']"

definition conntrack_rule :: "string \<Rightarrow> string list" where
  "conntrack_rule action =
     [''iptables'', action, ''FORWARD'', ''-m'', ''conntrack'', ''--ctstate'', ''RELATED,ESTABLISHED'', ''-j'', ''ACCEPT'']"

definition validate_iptables_context :: "tap_allocation \<Rightarrow> unit res" where
  "validate_iptables_context a =
     (if \<not> iface_name (ta_iface a) then fire_error (''Invalid host interface for iptables rules: '' @ repr_str (ta_iface a))
      else if \<not> iface_name (ta_tap a) then fire_error (''Invalid TAP interface for iptables rules: '' @ repr_str (ta_tap a))
      else if ta_guest a = [] then fire_error ''Invalid guest_ip for iptables rules.''
      else Inr ())"

definition ensure_conntrack_rule :: "'s runner \<Rightarrow> ('s, unit) effect" where
  "ensure_conntrack_rule run =
     seq (run_unchecked run (conntrack_rule ''-C'')) (\<lambda>existing.
       if cp_code existing = 0 then give ()
       else seq (run_checked run (conntrack_rule ''-A'')) (\<lambda>_. give ()))"

definition fire_tap_name :: "string \<Rightarrow> bool" where
  "fire_tap_name s =
     (prefix ''fc'' s \<and> length s = 14 \<and> list_all (\<lambda>c. is_digit c \<or> 97 \<le> code c \<and> code c \<le> 102) (drop 2 s))"

definition has_active_fire_taps :: "'s runner \<Rightarrow> ('s, bool) effect" where
  "has_active_fire_taps run =
     seq (run_unchecked run [''ip'', ''-o'', ''link'', ''show'']) (\<lambda>r.
       give (cp_code r \<noteq> 0
             \<or> list_ex fire_tap_name (List.map_filter parse_link_name (splitlines (cp_out r)))))"

fun run_all :: "(string list \<Rightarrow> ('s, 'a) effect) \<Rightarrow> string list list \<Rightarrow> ('s, unit) effect" where
  "run_all exec [] = give ()"
| "run_all exec (c # cs) = seq (exec c) (\<lambda>_. run_all exec cs)"

definition session_rules :: "string \<Rightarrow> tap_allocation \<Rightarrow> string list list" where
  "session_rules action a = [masquerade_rule action a, forward_rule action a, input_rule action a]"

definition apply_rules :: "'s runner \<Rightarrow> tap_allocation \<Rightarrow> ('s, unit) effect" where
  "apply_rules run a =
     seq (from_res (validate_iptables_context a)) (\<lambda>_.
     seq (ensure_conntrack_rule run) (\<lambda>_. run_all (run_checked run) (session_rules ''-A'' a)))"

definition cleanup_rules :: "'s runner \<Rightarrow> tap_allocation \<Rightarrow> ('s, unit) effect" where
  "cleanup_rules run a =
     seq (from_res (validate_iptables_context a)) (\<lambda>_.
     seq (run_all (run_unchecked run) (session_rules ''-D'' a)) (\<lambda>_.
     seq (has_active_fire_taps run) (\<lambda>active.
       if active then give () else seq (run_unchecked run (conntrack_rule ''-D'')) (\<lambda>_. give ()))))"

section \<open>Guest CIDs\<close>

definition CID_MIN :: int where "CID_MIN = 3"
definition CID_MAX :: int where "CID_MAX = 4294967294"

text \<open>
  The state of an allocator: the text of the lock file, if it exists, and the random source,
  from which \<open>draw\<close> takes a number of the range it is given.
\<close>

type_synonym 's cid_state = "string option \<times> 's"
type_synonym 's draw = "int \<Rightarrow> int \<Rightarrow> 's \<Rightarrow> int \<times> 's"

text \<open>The texts of the errors leave out the path of the lock file, as in "... in PATH: ...".\<close>

definition read_cid_state :: "string \<Rightarrow> pyval list res" where
  "read_cid_state s =
     (let raw = strip s
      in if raw = [] then Inr []
         else
           (case json_loads raw of
              Inl e \<Rightarrow>
                if exn_class e = JSONDecodeError
                then fire_error (''Invalid CID lock file content: '' @ repr_str raw) else Inl e
            | Inr (VDict d) \<Rightarrow>
                (case dget_or d ''active'' (VList []) of
                   VList active \<Rightarrow> Inr active
                 | _ \<Rightarrow> fire_error ''Invalid CID lock file structure: active must be list.'')
            | Inr _ \<Rightarrow> fire_error ''Invalid CID lock file structure: expected object.''))"

definition active_cids :: "string \<Rightarrow> int list res" where
  "active_cids s = bind_res (read_cid_state s) (map_res py_int)"

definition cid_text :: "int list \<Rightarrow> string" where
  "cid_text active = dumps_compact (VDict (dict_of [(''active'', VList (map VInt active))])) @ [newline]"

definition sorted_set :: "int list \<Rightarrow> int list" where
  "sorted_set xs = sort (remdups xs)"

fun draw_cid :: "'s draw \<Rightarrow> int list \<Rightarrow> nat \<Rightarrow> nat \<Rightarrow> 's \<Rightarrow> int res \<times> 's" where
  "draw_cid draw in_use attempts 0 s =
     (fire_error (''Unable to allocate guest_cid after '' @ nat_str attempts @ '' attempts.''), s)"
| "draw_cid draw in_use attempts (Suc n) s =
     (case draw CID_MIN CID_MAX s of
        (candidate, s') \<Rightarrow>
          if candidate \<in> set in_use then draw_cid draw in_use attempts n s' else (Inr candidate, s'))"

text \<open>Opening the file in append mode creates it when it is not there.\<close>

definition allocate_cid :: "'s draw \<Rightarrow> int \<Rightarrow> ('s cid_state, int) effect" where
  "allocate_cid draw attempts st =
     (if attempts \<le> 0 then throw ValueError ''attempts must be greater than zero.'' st
      else
        (let s = (case fst st of None \<Rightarrow> [] | Some s \<Rightarrow> s)
         in case active_cids s of
              Inl e \<Rightarrow> (Raised e, (Some s, snd st))
            | Inr in_use \<Rightarrow>
                (case draw_cid draw in_use (nat attempts) (nat attempts) (snd st) of
                   (Inl e, rng) \<Rightarrow> (Raised e, (Some s, rng))
                 | (Inr cid, rng) \<Rightarrow> (Done cid, (Some (cid_text (sorted_set (cid # in_use))), rng)))))"

definition release_cid :: "int \<Rightarrow> ('s cid_state, unit) effect" where
  "release_cid cid st =
     (case fst st of
        None \<Rightarrow> (Done (), st)
      | Some s \<Rightarrow>
          (case active_cids s of
             Inl _ \<Rightarrow> (Done (), st)
           | Inr in_use \<Rightarrow>
               if cid \<in> set in_use
               then (Done (), (Some (cid_text (sorted_set (removeAll cid in_use))), snd st))
               else (Done (), st)))"

section \<open>Subnets\<close>

definition ip_text :: "nat \<Rightarrow> string" where
  "ip_text n = ''172.16.'' @ nat_str (n div 256) @ ''.'' @ nat_str (n mod 256)"

lemma nat_str_inj: "nat_str m = nat_str n \<longleftrightarrow> m = n"
  by (metis digits_val_nat_str)

lemma dot_not_digit: "CHR ''.'' \<notin> set (nat_str n)"
  by (auto dest!: nat_str_digits simp: is_digit_def code_def)

lemma ip_text_inj: "ip_text m = ip_text n \<longleftrightarrow> m = n"
proof
  assume "ip_text m = ip_text n"
  then have e: "nat_str (m div 256) @ CHR ''.'' # nat_str (m mod 256) = nat_str (n div 256) @ CHR ''.'' # nat_str (n mod 256)"
    by (simp add: ip_text_def)
  from arg_cong [OF e, of "takeWhile (\<lambda>c. c \<noteq> CHR ''.'')"] arg_cong [OF e, of "\<lambda>s. tl (dropWhile (\<lambda>c. c \<noteq> CHR ''.'') s)"]
  have "m div 256 = n div 256" "m mod 256 = n mod 256"
    using takeWhile_dropWhile_sep [OF dot_not_digit] by (simp_all add: nat_str_inj)
  then show "m = n" by (metis div_mult_mod_eq)
qed simp

lemma ip_from_host_offset_text: "n < 65536 \<Longrightarrow> ip_from_host_offset (int n) = Inr (ip_text n)"
proof -
  assume a: "n < 65536"
  have "int n div 256 = int (n div 256)" "int n mod 256 = int (n mod 256)"
    by (simp_all add: zdiv_int zmod_int)
  then show ?thesis using a by (simp add: ip_from_host_offset_def ip_text_def int_str_def)
qed

lemma tap_guest_ips_text:
  assumes "0 \<le> i"
  shows "tap_guest_ips_from_index i = Inr (ip_text (4 * nat (i mod 16384) + 1), ip_text (4 * nat (i mod 16384) + 2))"
proof -
  have b: "nat (i mod 16384) < 16384" by (simp add: nat_less_iff)
  have m: "4 * (i mod 16384) + 1 = int (4 * nat (i mod 16384) + 1)" "4 * (i mod 16384) + 1 + 1 = int (4 * nat (i mod 16384) + 2)"
    by simp_all
  have "ip_from_host_offset (4 * (i mod 16384) + 1) = Inr (ip_text (4 * nat (i mod 16384) + 1))"
    unfolding m(1) by (rule ip_from_host_offset_text) (use b in simp)
  moreover have "ip_from_host_offset (4 * (i mod 16384) + 1 + 1) = Inr (ip_text (4 * nat (i mod 16384) + 2))"
    unfolding m(2) by (rule ip_from_host_offset_text) (use b in simp)
  ultimately show ?thesis
    using assms by (simp add: tap_guest_ips_from_index_def MAX_TAP_SUBNETS_def)
qed

lemma pair_disjoint:
  "{ip_text (4 * a + 1), ip_text (4 * a + 2)} \<inter> {ip_text (4 * b + 1), ip_text (4 * b + 2)} = {} \<longleftrightarrow> a \<noteq> b"
proof (cases "a = b")
  case False
  then have "4 * a + 1 \<noteq> 4 * b + 1" "4 * a + 1 \<noteq> 4 * b + 2" "4 * a + 2 \<noteq> 4 * b + 1" "4 * a + 2 \<noteq> 4 * b + 2"
    by presburger+
  with False show ?thesis by (simp only: ip_text_inj Int_insert_left insert_iff empty_iff) simp
qed simp

text \<open>
  Every session index has its own /30 subnet: the TAP and the guest get the two host
  addresses of block \<open>i mod 16384\<close> of 172.16.0.0/16, never the network or the broadcast
  address, and two sessions share an address exactly when their indices agree modulo 16384.
\<close>

theorem tap_subnets_disjoint:
  assumes "0 \<le> i" "0 \<le> j"
  shows "\<exists>b b'. b < 16384 \<and> b' < 16384 \<and> (b = b' \<longleftrightarrow> i mod MAX_TAP_SUBNETS = j mod MAX_TAP_SUBNETS)
     \<and> tap_guest_ips_from_index i = Inr (ip_text (4 * b + 1), ip_text (4 * b + 2))
     \<and> tap_guest_ips_from_index j = Inr (ip_text (4 * b' + 1), ip_text (4 * b' + 2))
     \<and> ({ip_text (4 * b + 1), ip_text (4 * b + 2)} \<inter> {ip_text (4 * b' + 1), ip_text (4 * b' + 2)} = {} \<longleftrightarrow> b \<noteq> b')"
proof (intro exI conjI)
  show "nat (i mod 16384) < 16384" "nat (j mod 16384) < 16384" by (simp_all add: nat_less_iff)
  show "nat (i mod 16384) = nat (j mod 16384) \<longleftrightarrow> i mod MAX_TAP_SUBNETS = j mod MAX_TAP_SUBNETS"
    by (simp add: MAX_TAP_SUBNETS_def eq_nat_nat_iff)
  show "{ip_text (4 * nat (i mod 16384) + 1), ip_text (4 * nat (i mod 16384) + 2)}
      \<inter> {ip_text (4 * nat (j mod 16384) + 1), ip_text (4 * nat (j mod 16384) + 2)} = {}
      \<longleftrightarrow> nat (i mod 16384) \<noteq> nat (j mod 16384)"
    by (rule pair_disjoint)
qed (simp_all add: tap_guest_ips_text assms)

lemma tap_subnets_disjoint_witness:
  "\<exists>b b'. b < 16384 \<and> b' < 16384 \<and> b = b' \<and> tap_guest_ips_from_index 1 = Inr (ip_text (4 * b + 1), ip_text (4 * b + 2))
     \<and> tap_guest_ips_from_index 16385 = Inr (ip_text (4 * b' + 1), ip_text (4 * b' + 2))"
  using tap_subnets_disjoint [of 1 16385] by (auto simp: MAX_TAP_SUBNETS_def)

section \<open>Leases\<close>

lemma json_exact_ints [simp]: "json_exact (VDict (dict_of [(''active'', VList (map VInt ns))]))"
  by (simp add: dict_of_def list_all_iff)

lemma strip_line: "s \<noteq> [] \<Longrightarrow> \<not> py_space (hd s) \<Longrightarrow> \<not> py_space (last s) \<Longrightarrow> strip (s @ [newline]) = s"
proof -
  assume a: "s \<noteq> []" "\<not> py_space (hd s)" "\<not> py_space (last s)"
  have n: "py_space newline" by (simp add: py_space_def code_def)
  have "lstrip (s @ [newline]) = s @ [newline]" using a by (subst lstrip_fix) simp
  then have "strip (s @ [newline]) = rev (dropWhile py_space (rev s))" using n by (simp add: strip_def rstrip_def)
  then show ?thesis using strip_nonspace [OF a] rstrip_fix [of s] a by (simp add: rstrip_def)
qed

lemma active_cid_text [simp]: "active_cids (cid_text ns) = Inr ns"
proof -
  let ?v = "VDict (dict_of [(''active'', VList (map VInt ns))])"
  have "dumps_compact ?v = CHR ''{'' # (tl (butlast (dumps_compact ?v))) @ ''}''"
    by (simp add: dumps_compact_def)
  then have ends: "dumps_compact ?v \<noteq> []" "hd (dumps_compact ?v) = CHR ''{''" "last (dumps_compact ?v) = CHR ''}''"
    by (metis list.distinct(1), metis list.sel(1), metis last_ConsR last_appendR last.simps snoc_eq_iff_butlast list.distinct(1) append_is_Nil_conv)
  have "strip (cid_text ns) = dumps_compact ?v"
    unfolding cid_text_def by (rule strip_line) (use ends in \<open>simp_all add: py_space_def code_def\<close>)
  moreover have "json_loads (dumps_compact ?v) = Inr ?v"
    using json_loads_dumps [OF json_exact_ints, of "[]" ns] by simp
  moreover have "map_res py_int (map VInt ns) = Inr ns" by (induction ns) simp_all
  ultimately show ?thesis
    using ends(1) by (simp add: active_cids_def read_cid_state_def Let_def dict_of_def dget_or_def dlookup_def)
qed

lemma active_cids_empty [simp]: "active_cids [] = Inr []"
  by (simp add: active_cids_def read_cid_state_def strip_def lstrip_def rstrip_def)

definition lease_set :: "'s cid_state \<Rightarrow> int set" where
  "lease_set st =
     (case fst st of
        None \<Rightarrow> {}
      | Some s \<Rightarrow> (case active_cids s of Inr ns \<Rightarrow> set ns | Inl _ \<Rightarrow> {}))"

definition lease_file :: "'s cid_state \<Rightarrow> bool" where
  "lease_file st =
     (case fst st of
        None \<Rightarrow> True
      | Some s \<Rightarrow> s = [] \<or> (\<exists>ns. s = cid_text ns \<and> sorted ns \<and> distinct ns))"

lemma sorted_set_simps [simp]: "set (sorted_set xs) = set xs" "sorted (sorted_set xs)" "distinct (sorted_set xs)"
  by (simp_all add: sorted_set_def)

lemma draw_cid_fresh: "draw_cid draw in_use attempts n s = (Inr c, s') \<Longrightarrow> c \<notin> set in_use"
  by (induction n arbitrary: s) (auto simp: fire_error_def split: prod.splits if_splits)

text \<open>A history of requests (\<open>None\<close>) and returns; the list holds what is handed out.\<close>

fun pool_history ::
    "('st, 'r) effect \<Rightarrow> ('r \<Rightarrow> ('st, unit) effect) \<Rightarrow> 'r option list \<Rightarrow> 'r list \<Rightarrow> 'st \<Rightarrow> 'r list \<times> 'st" where
  "pool_history acquire release [] out st = (out, st)"
| "pool_history acquire release (x # xs) out st =
     (case x of
        None \<Rightarrow> (case acquire st of (Done r, st') \<Rightarrow> pool_history acquire release xs (r # out) st' | (_, st') \<Rightarrow> pool_history acquire release xs out st')
      | Some r \<Rightarrow> pool_history acquire release xs (removeAll r out) (snd (release r st)))"

text \<open>
  The interface the sandbox relies on: a pool hands out resources nobody holds, and takes
  them back; a failed request changes nothing that is held.
\<close>

locale resource_pool =
  fixes acquire :: "('st, 'r) effect" and release :: "'r \<Rightarrow> ('st, unit) effect"
    and held :: "'st \<Rightarrow> 'r set" and ok :: "'st \<Rightarrow> bool"
  assumes acquired: "ok st \<Longrightarrow> acquire st = (Done r, st') \<Longrightarrow> ok st' \<and> r \<notin> held st \<and> held st' = insert r (held st)"
    and refused: "ok st \<Longrightarrow> acquire st = (res, st') \<Longrightarrow> (\<And>r. res \<noteq> Done r) \<Longrightarrow> ok st' \<and> held st' = held st"
    and released: "ok st \<Longrightarrow> fst (release r st) = Done () \<and> ok (snd (release r st)) \<and> held (snd (release r st)) = held st - {r}"
begin

lemma history_exact:
  assumes "ok st" "distinct out" "held st = set out" "pool_history acquire release xs out st = (out', st')"
  shows "ok st' \<and> distinct out' \<and> held st' = set out'"
  using assms
proof (induction xs arbitrary: out st)
  case (Cons x xs)
  show ?case
  proof (cases x)
    case None
    show ?thesis
    proof (cases "\<exists>r. fst (acquire st) = Done r")
      case True
      then obtain r st1 where a: "acquire st = (Done r, st1)" by (metis prod.collapse)
      with acquired [OF Cons.prems(1) a] Cons.prems None
      show ?thesis by (intro Cons.IH [of st1 "r # out"]) auto
    next
      case False
      then have "ok (snd (acquire st)) \<and> held (snd (acquire st)) = held st"
        using refused [OF Cons.prems(1), of "fst (acquire st)" "snd (acquire st)"] by simp
      moreover have "pool_history acquire release xs out (snd (acquire st)) = (out', st')"
        using False Cons.prems(4) None by (auto split: prod.splits outcome.splits)
      ultimately show ?thesis using Cons.prems Cons.IH [of "snd (acquire st)" out] by simp
    qed
  next
    case (Some r)
    then show ?thesis
      using Cons.prems released [OF Cons.prems(1), of r] by (intro Cons.IH [of "snd (release r st)" "removeAll r out"]) (auto simp: distinct_removeAll)
  qed
qed simp

end

interpretation cids: resource_pool "allocate_cid draw attempts" release_cid lease_set lease_file
proof
  fix st st' :: "'a cid_state" and r
  assume ok: "lease_file st" and a: "allocate_cid draw attempts st = (Done r, st')"
  obtain ns where ns: "active_cids (case fst st of None \<Rightarrow> [] | Some s \<Rightarrow> s) = Inr ns" "lease_set st = set ns"
    using ok by (auto simp: lease_file_def lease_set_def split: option.splits)
  have "st' = (Some (cid_text (sorted_set (r # ns))), snd st') \<and> r \<notin> set ns"
    using a ns(1) by (auto simp: allocate_cid_def throw_def Let_def dest: draw_cid_fresh split: if_splits prod.splits sum.splits)
  then show "lease_file st' \<and> r \<notin> lease_set st \<and> lease_set st' = insert r (lease_set st)"
    unfolding ns(2) by (cases st') (auto simp: lease_file_def lease_set_def)
next
  fix st st' :: "'a cid_state" and res
  assume ok: "lease_file st" and a: "allocate_cid draw attempts st = (res, st')" "\<And>r. res \<noteq> Done r"
  obtain ns where ns: "active_cids (case fst st of None \<Rightarrow> [] | Some s \<Rightarrow> s) = Inr ns" "lease_set st = set ns"
    using ok by (auto simp: lease_file_def lease_set_def split: option.splits)
  then have "fst st' = fst st \<or> fst st' = Some (case fst st of None \<Rightarrow> [] | Some s \<Rightarrow> s)"
    using a by (auto simp: allocate_cid_def throw_def Let_def split: if_splits prod.splits sum.splits)
  then show "lease_file st' \<and> lease_set st' = lease_set st"
    using ok by (auto simp: lease_file_def lease_set_def split: option.splits)
next
  fix st :: "'a cid_state" and r
  assume ok: "lease_file st"
  show "fst (release_cid r st) = Done () \<and> lease_file (snd (release_cid r st)) \<and> lease_set (snd (release_cid r st)) = lease_set st - {r}"
  proof (cases "fst st")
    case (Some s)
    then obtain ns where ns: "active_cids s = Inr ns" using ok by (auto simp: lease_file_def)
    show ?thesis
      using ok Some ns by (cases "r \<in> set ns") (auto simp: release_cid_def lease_file_def lease_set_def)
  qed (auto simp: release_cid_def lease_file_def lease_set_def)
qed

text \<open>
  C17. No two sandboxes ever hold the same guest CID: after any history of requests and
  releases that starts without a lock file, the CIDs handed out and not released are distinct
  and are exactly those in the lock file, which is readable and lists them in order.
\<close>

theorem cid_leases_exact:
  assumes "pool_history (allocate_cid draw attempts) release_cid ops [] (None, rng) = (out, st)"
  shows "distinct out \<and> lease_set st = set out
     \<and> (fst st = None \<or> fst st = Some [] \<or> fst st = Some (cid_text (sorted_list_of_set (set out))))"
proof -
  have e: "lease_file st" "distinct out" "lease_set st = set out"
    using cids.history_exact [OF _ _ _ assms] by (auto simp: lease_file_def lease_set_def)
  have "fst st = Some (cid_text (sorted_list_of_set (set out)))" if f: "fst st = Some s" "s \<noteq> []" for s
  proof -
    obtain ns where ns: "s = cid_text ns" "sorted ns" "distinct ns" using e(1) f by (auto simp: lease_file_def)
    then have "set ns = set out" using e(3) f(1) by (simp add: lease_set_def)
    then show ?thesis using f(1) ns sorted_list_of_set.idem_if_sorted_distinct [of ns] by simp
  qed
  then show ?thesis using e by (cases "fst st") auto
qed

lemma cid_leases_exact_witness:
  "distinct [5, 4 :: int] \<and> lease_set (Some (cid_text [4, 5]), [3 :: int]) = {4, 5}"
proof -
  have "pool_history (allocate_cid (\<lambda>lo hi xs. (hd xs, tl xs)) 10) release_cid [None, None, Some 3, None] [] (None, [3, 3, 4, 4, 5, 3 :: int])
      = ([5, 4], (Some (cid_text [4, 5]), [3]))"
    by code_simp
  from cid_leases_exact [OF this] show ?thesis by auto
qed

text \<open>The CID itself lies in the range asked of the random source.\<close>

lemma draw_cid_range:
  assumes "\<And>s. lo \<le> fst (draw CID_MIN CID_MAX s) \<and> fst (draw CID_MIN CID_MAX s) \<le> hi"
  shows "draw_cid draw in_use attempts n s = (Inr c, s') \<Longrightarrow> lo \<le> c \<and> c \<le> hi"
proof (induction n arbitrary: s)
  case (Suc n)
  with assms [of s] show ?case by (auto split: prod.splits if_splits)
qed (simp add: fire_error_def)

section \<open>What the firewall commands amount to\<close>

text \<open>A runner that lists the commands it was given, those that failed included.\<close>

definition traced :: "'s runner \<Rightarrow> ('s \<times> string list list) runner" where
  "traced run args st = (case run args (fst st) of (r, s) \<Rightarrow> (r, (s, snd st @ [args])))"

definition never_waits :: "'s runner \<Rightarrow> bool" where
  "never_waits run = (\<forall>args s. fst (run args s) \<noteq> Blocked)"

lemma unchecked_traced:
  assumes "never_waits run"
  shows "\<exists>r s'. run_unchecked (traced run) args (s, tr) = (Done r, (s', tr @ [args]))"
proof -
  obtain o1 s1 where o: "run args s = (o1, s1)" by fastforce
  then have "o1 \<noteq> Blocked" using assms by (metis fst_conv never_waits_def)
  then show ?thesis
    by (cases o1) (auto simp: run_unchecked_def handle_exn_def traced_def o give_def)
qed

lemma run_all_unchecked:
  assumes "never_waits run"
  shows "\<exists>s'. run_all (run_unchecked (traced run)) cs (s, tr) = (Done (), (s', tr @ cs))"
proof (induction cs arbitrary: s tr)
  case (Cons c cs)
  obtain r s1 where "run_unchecked (traced run) c (s, tr) = (Done r, (s1, tr @ [c]))"
    using unchecked_traced [OF assms] by blast
  moreover obtain s2 where "run_all (run_unchecked (traced run)) cs (s1, tr @ [c]) = (Done (), (s2, (tr @ [c]) @ cs))"
    using Cons.IH by blast
  ultimately show ?case by (simp add: seq_def)
qed (simp add: give_def)

lemma run_checked_traced:
  "run args s = (Done r, s1) \<Longrightarrow> cp_code r = 0 \<Longrightarrow> run_checked (traced run) args (s, tr) = (Done (cp_out r), (s1, tr @ [args]))"
  by (simp add: seq_def run_checked_def traced_def give_def)

lemma run_checked_Done:
  "run_checked (traced run) args (s, tr) = (Done x, st) \<Longrightarrow> \<exists>r s1. run args s = (Done r, s1) \<and> cp_code r = 0 \<and> st = (s1, tr @ [args])"
  by (auto simp: seq_def run_checked_def traced_def give_def throw_def split: prod.splits outcome.splits if_splits)

lemma run_all_checked:
  "run_all (run_checked (traced run)) cs (s, tr) = (Done u, (s', tr')) \<Longrightarrow> tr' = tr @ cs"
proof (induction cs arbitrary: s tr)
  case (Cons c cs)
  obtain x st where x: "run_checked (traced run) c (s, tr) = (Done x, st)"
    using Cons.prems by (auto simp: seq_def split: prod.splits outcome.splits)
  obtain s1 where "st = (s1, tr @ [c])" using run_checked_Done [OF x] by blast
  then have "run_all (run_checked (traced run)) cs (s1, tr @ [c]) = (Done u, (s', tr'))"
    using Cons.prems x by (simp add: seq_def)
  from Cons.IH [OF this] show ?case by simp
qed (simp add: give_def)

text \<open>What the listing of links says of the devices of Firecracker sessions.\<close>

definition lists_fire_tap :: "completed \<Rightarrow> bool" where
  "lists_fire_tap r = list_ex fire_tap_name (List.map_filter parse_link_name (splitlines (cp_out r)))"

text \<open>
  Whatever the commands answer, tearing the firewall down completes and deletes exactly
  the three rules that setting it up added for the session; the shared connection tracking
  rule goes too exactly when the links can be listed and none is a Firecracker TAP. When the
  set-up succeeds it has added these three rules, after the shared one if that was missing.
\<close>

theorem firewall_torn_down:
  assumes w: "never_waits run" and v: "validate_iptables_context a = Inr ()"
  shows "\<exists>s1 r s2 s3. run_all (run_unchecked (traced run)) (session_rules ''-D'' a) (s, []) = (Done (), (s1, session_rules ''-D'' a))
     \<and> run_unchecked run [''ip'', ''-o'', ''link'', ''show''] s1 = (Done r, s2)
     \<and> cleanup_rules (traced run) a (s, []) =
         (Done (), (s3, session_rules ''-D'' a @ [[''ip'', ''-o'', ''link'', ''show'']]
            @ (if cp_code r = 0 \<and> \<not> lists_fire_tap r then [conntrack_rule ''-D''] else [])))
     \<and> (\<forall>t tr. apply_rules (traced run) a (s, []) = (Done (), (t, tr)) \<longrightarrow>
          tr = [conntrack_rule ''-C''] @ session_rules ''-A'' a
          \<or> tr = [conntrack_rule ''-C'', conntrack_rule ''-A''] @ session_rules ''-A'' a)"
proof -
  let ?show = "[''ip'', ''-o'', ''link'', ''show'']"
  obtain s1 where s1: "run_all (run_unchecked (traced run)) (session_rules ''-D'' a) (s, []) = (Done (), (s1, session_rules ''-D'' a))"
    using run_all_unchecked [OF w, of "session_rules ''-D'' a" s "[]"] by auto
  obtain o1 s2 where o: "run ?show s1 = (o1, s2)" by fastforce
  then have nb: "o1 \<noteq> Blocked" using w by (metis fst_conv never_waits_def)
  define r where "r = (case o1 of Done r \<Rightarrow> r | _ \<Rightarrow> \<lparr>cp_code = 1, cp_out = [], cp_err = []\<rparr>)"
  have r: "run_unchecked run ?show s1 = (Done r, s2)"
      "run_unchecked (traced run) ?show (s1, tr) = (Done r, (s2, tr @ [?show]))" for tr
    using o nb by (auto simp: run_unchecked_def handle_exn_def traced_def give_def r_def split: outcome.splits)
  obtain r3 s3 where r3: "run_unchecked (traced run) (conntrack_rule ''-D'') (s2, session_rules ''-D'' a @ [?show])
      = (Done r3, (s3, (session_rules ''-D'' a @ [?show]) @ [conntrack_rule ''-D'']))"
    using unchecked_traced [OF w] by blast
  have "cleanup_rules (traced run) a (s, []) = (Done (), (if cp_code r = 0 \<and> \<not> lists_fire_tap r then s3 else s2,
      session_rules ''-D'' a @ [?show] @ (if cp_code r = 0 \<and> \<not> lists_fire_tap r then [conntrack_rule ''-D''] else [])))"
    using r3 by (simp add: cleanup_rules_def v from_res_def seq_def s1 has_active_fire_taps_def r(2) give_def lists_fire_tap_def)
  moreover have "tr = [conntrack_rule ''-C''] @ session_rules ''-A'' a
      \<or> tr = [conntrack_rule ''-C'', conntrack_rule ''-A''] @ session_rules ''-A'' a"
    if a: "apply_rules (traced run) a (s, []) = (Done (), (t, tr))" for t tr
  proof -
    obtain c t1 where c: "run_unchecked (traced run) (conntrack_rule ''-C'') (s, []) = (Done c, (t1, [conntrack_rule ''-C'']))"
      using unchecked_traced [OF w, of "conntrack_rule ''-C''" s "[]"] by auto
    show ?thesis
    proof (cases "cp_code c = 0")
      case True
      then have "run_all (run_checked (traced run)) (session_rules ''-A'' a) (t1, [conntrack_rule ''-C'']) = (Done (), (t, tr))"
        using a c by (simp add: apply_rules_def v from_res_def seq_def ensure_conntrack_rule_def give_def)
      from run_all_checked [OF this] show ?thesis by simp
    next
      case False
      obtain x st where x: "run_checked (traced run) (conntrack_rule ''-A'') (t1, [conntrack_rule ''-C'']) = (Done x, st)"
        using a c False
        by (auto simp: apply_rules_def v from_res_def seq_def ensure_conntrack_rule_def split: prod.splits outcome.splits)
      obtain t2 where "st = (t2, [conntrack_rule ''-C'', conntrack_rule ''-A''])" using run_checked_Done [OF x] by auto
      then have "run_all (run_checked (traced run)) (session_rules ''-A'' a) (t2, [conntrack_rule ''-C'', conntrack_rule ''-A'']) = (Done (), (t, tr))"
        using a c False x by (simp add: apply_rules_def v from_res_def seq_def ensure_conntrack_rule_def give_def)
      from run_all_checked [OF this] show ?thesis by simp
    qed
  qed
  ultimately show ?thesis using s1 r(1) by blast
qed

definition demo_allocation :: tap_allocation where
  "demo_allocation = \<lparr>ta_session = ''s1'', ta_index = 0, ta_tap = ''fc0123456789ab'', ta_ip = ''172.16.0.1'',
     ta_guest = ''172.16.0.2'', ta_iface = ''eth0''\<rparr>"

text \<open>A host on which every command succeeds and whose list of links is \<open>links\<close>.\<close>

definition demo_runner :: "string \<Rightarrow> nat runner" where
  "demo_runner links args n =
     (Done \<lparr>cp_code = 0, cp_out = (if take 4 args = [''ip'', ''-o'', ''link'', ''show''] then links else []), cp_err = []\<rparr>, Suc n)"

lemma demo_never_waits: "never_waits (demo_runner links)"
  by (simp add: never_waits_def demo_runner_def)

lemma demo_allocation_valid: "validate_iptables_context demo_allocation = Inr ()"
  by code_simp

lemma firewall_torn_down_witness:
  "\<exists>s3. cleanup_rules (traced (demo_runner ''1: lo: <LOOPBACK>'')) demo_allocation (0, []) =
     (Done (), (s3, session_rules ''-D'' demo_allocation @ [[''ip'', ''-o'', ''link'', ''show''], conntrack_rule ''-D'']))"
proof -
  have "\<not> lists_fire_tap \<lparr>cp_code = 0, cp_out = ''1: lo: <LOOPBACK>'', cp_err = []\<rparr>" by code_simp
  then show ?thesis
    using firewall_torn_down [OF demo_never_waits demo_allocation_valid, of "''1: lo: <LOOPBACK>''" 0]
    by (auto simp: run_unchecked_def handle_exn_def demo_runner_def)
qed

text \<open>
  The sandbox removes the rules before it removes the TAP device, so its own device is still
  listed and the shared rule is never deleted.
\<close>

lemma own_tap_keeps_conntrack:
  "cleanup_rules (traced (demo_runner ''7: fc0123456789ab: <BROADCAST>'')) demo_allocation (0, []) =
     (Done (), (4, session_rules ''-D'' demo_allocation @ [[''ip'', ''-o'', ''link'', ''show'']]))"
  by code_simp

end
