(* ===== verification/FireSandbox.thy ===== *)
theory FireSandbox
  imports FireNet Broker LlmService
begin

text \<open>
  The Firecracker sandbox (\<open>FireSandbox\<close> in \<open>sandbox/fire.py\<close>): booting the machine, the event
  stream with the guest, the host services it asks for, tearing everything down, and the logs.
  The record \<open>fire_env\<close> holds what the constructor takes (managers, command runner, process and
  socket factories, clock) as operations of a world; \<open>fire\<close> holds the object's own fields.
\<close>

section \<open>Logs\<close>

definition no_space_sep :: "char \<Rightarrow> bool" where
  "no_space_sep c = (\<not> py_space c \<and> c \<noteq> CHR '','' \<and> c \<noteq> CHR '';'')"

text \<open>\<open>\s*[:=]\s*\<close>\<close>

definition match_separator :: "string \<Rightarrow> (string \<times> string) option" where
  "match_separator s =
     (let ws = takeWhile py_space s; t = drop (length ws) s
      in if t \<noteq> [] \<and> (hd t = CHR '':'' \<or> hd t = CHR ''='')
         then (let ws' = takeWhile py_space (tl t) in Some (ws @ [hd t] @ ws', drop (length ws') (tl t)))
         else None)"

definition REDACTED :: string where
  "REDACTED = ''[REDACTED]''"

definition bearer_value :: "string matcher" where
  "bearer_value prev s =
     Option.bind (match_word [''authorization''] prev s) (\<lambda>(w, t).
     Option.bind (match_separator t) (\<lambda>(sep, u).
       if lower (take 6 u) \<noteq> ''bearer'' then None
       else
         Option.bind (some_of py_space (drop 6 u)) (\<lambda>(_, v).
         Option.bind (some_of no_space_sep v) (\<lambda>(_, rest). Some (w @ sep @ REDACTED, rest)))))"

definition named_value :: "string matcher" where
  "named_value prev s =
     Option.bind (match_word [''api_key'', ''api-key'', ''apikey'', ''authorization'', ''token'', ''secret'', ''password''] prev s)
       (\<lambda>(w, t).
     Option.bind (match_separator t) (\<lambda>(sep, u).
     Option.bind (some_of no_space_sep u) (\<lambda>(_, rest). Some (w @ sep @ REDACTED, rest))))"

definition bearer_token :: "string matcher" where
  "bearer_token prev s =
     Option.bind (match_word [''bearer''] prev s) (\<lambda>(w, t).
     Option.bind (some_of py_space t) (\<lambda>(_, u).
     Option.bind (some_of (\<lambda>c. is_alnum c \<or> c \<in> set ''._~+/=-'') u) (\<lambda>(_, rest).
       Some (w @ '' '' @ REDACTED, rest))))"

definition sk_key :: "string matcher" where
  "sk_key prev s =
     (if prev \<or> \<not> prefix ''sk-'' s then None
      else map_option (\<lambda>(_, rest). (REDACTED, rest))
             (match_class (\<lambda>c. is_word c \<or> c = CHR ''-'') 6 (length s) (drop 3 s)))"

definition redact_log_text :: "string \<Rightarrow> string" where
  "redact_log_text s =
     fold (\<lambda>m t. sub_all m False t) [bearer_value, named_value, bearer_token, sk_key] s"

lemma redact_log_examples:
  "redact_log_text ''POST Authorization: Bearer abc.def ok'' = ''POST Authorization: [REDACTED] ok''"
  "redact_log_text ''api_key=xyz, n=1'' = ''api_key=[REDACTED], n=1''"
  "redact_log_text ''key sk-abcdef- end'' = ''key [REDACTED]- end''"
  "redact_log_text ''mytoken=1'' = ''mytoken=1''"
  by code_simp+

section \<open>The object and its surroundings\<close>

type_synonym process_exit = "int option"

record 's fire_env =
  fe_config :: fire_config
  fe_template :: pydict
  fe_exit_handlers :: bool
  fe_home :: string
  fe_secrets :: "('s, secrets_file) effect"
  fe_services :: "(string \<times> pydict) list \<Rightarrow> pydict \<Rightarrow> ('s, 's server) effect"
  fe_mkdtemp :: "string \<Rightarrow> ('s, string) effect"
  fe_rmtree :: "string \<Rightarrow> ('s, unit) effect"
  fe_run :: "'s runner"
  fe_tap_create :: "string \<Rightarrow> ('s, tap_allocation) effect"
  fe_tap_destroy :: "string \<Rightarrow> ('s, unit) effect"
  fe_fw_apply :: "tap_allocation \<Rightarrow> ('s, unit) effect"
  fe_fw_cleanup :: "tap_allocation \<Rightarrow> ('s, unit) effect"
  fe_cid_allocate :: "('s, int) effect"
  fe_cid_release :: "int \<Rightarrow> ('s, unit) effect"
  fe_popen :: "string list \<Rightarrow> string \<Rightarrow> ('s, unit) effect"
  fe_poll :: "('s, process_exit) effect"
  fe_wait :: "rat \<Rightarrow> ('s, unit) effect"
  fe_terminate :: "('s, unit) effect"
  fe_kill :: "('s, unit) effect"
  fe_stderr :: "('s, string) effect"
  fe_put :: "string \<Rightarrow> string \<Rightarrow> pydict \<Rightarrow> ('s, unit) effect"
  fe_exists :: "string \<Rightarrow> ('s, bool) effect"
  fe_is_regular :: "'s \<Rightarrow> string \<Rightarrow> bool"
  fe_read :: "string \<Rightarrow> ('s, string) effect"
  fe_write :: "string \<Rightarrow> string \<Rightarrow> ('s, unit) effect"
  fe_clock :: "('s, rat) effect"
  fe_sleep :: "rat \<Rightarrow> ('s, unit) effect"
  fe_connect :: "string \<Rightarrow> ('s, unit) effect"
  fe_sendall :: "string \<Rightarrow> ('s, unit) effect"
  fe_recv :: "pyfloat option \<Rightarrow> ('s, string) effect"
  fe_close :: "('s, unit) effect"

text \<open>
  \<open>fi_dir\<close> is the session's temporary directory; the API socket, the vsock path, the logs and the
  copy of the root file system are fixed names in it, set and cleared together with it.
\<close>

record 's fire =
  fi_world :: 's
  fi_process :: bool
  fi_dir :: "string option"
  fi_session :: "string option"
  fi_start_session :: string
  fi_allocation :: "tap_allocation option"
  fi_cid :: "int option"
  fi_conn :: bool
  fi_buffer :: string
  fi_stopping :: bool
  fi_services :: "'s server option"
  fi_credentials :: "(string \<times> pydict) list"
  fi_handlers :: bool

type_synonym ('s, 'a) fact = "('s fire, 'a) effect"

definition api_socket_path :: "string \<Rightarrow> string" where "api_socket_path dir = dir @ ''/firecracker.socket''"
definition vsock_path :: "string \<Rightarrow> string" where "vsock_path dir = dir @ ''/fire.vsock''"
definition log_path :: "string \<Rightarrow> string" where "log_path dir = dir @ ''/firecracker.log''"
definition console_path :: "string \<Rightarrow> string" where "console_path dir = dir @ ''/console.log''"
definition rootfs_path :: "string \<Rightarrow> string" where "rootfs_path dir = dir @ ''/rootfs.ext4''"

definition host :: "('s, 'a) effect \<Rightarrow> ('s, 'a) fact" where
  "host f st = (case f (fi_world st) of (r, w) \<Rightarrow> (r, st\<lparr>fi_world := w\<rparr>))"

text \<open>\<open>try: m except Exception: x\<close>\<close>

definition or_else :: "('st, 'a) effect \<Rightarrow> 'a \<Rightarrow> ('st, 'a) effect" where
  "or_else m x = handle_exn (\<lambda>_. True) m (\<lambda>_. give x)"

definition fail :: "string \<Rightarrow> ('st, 'a) effect" where
  "fail msg = throw RuntimeError msg"

definition new_fire :: "'s fire_env \<Rightarrow> 's \<Rightarrow> 's fire" where
  "new_fire env w =
     \<lparr>fi_world = w, fi_process = False, fi_dir = None, fi_session = None, fi_start_session = ''default'',
      fi_allocation = None, fi_cid = None, fi_conn = False, fi_buffer = [], fi_stopping = False,
      fi_services = None, fi_credentials = [], fi_handlers = fe_exit_handlers env\<rparr>"

text \<open>The services the sandbox registers: the request broker and the LLM service.\<close>

definition build_services ::
    "'s net \<Rightarrow> 's bstate llm_runtime \<Rightarrow> (string \<times> pydict) list \<Rightarrow> pydict \<Rightarrow> ('s bstate, 's bstate server) effect" where
  "build_services net rt credentials template st =
     (case new_broker net (map (\<lambda>(name, r). (KStr name, VDict r)) credentials) template (snd st) of
        (Inl e, w) \<Rightarrow> (Raised e, (fst st, w))
      | (Inr (br, lims), w) \<Rightarrow>
          (case new_llm_service template of
             Inl e \<Rightarrow> (Raised e, (lims, w))
           | Inr svc \<Rightarrow>
               (Done (register (register [] ''broker'' (broker_handler net br)) ''llm'' (llm_handler svc rt)), (lims, w))))"

definition is_running :: "'s fire_env \<Rightarrow> ('s, bool) fact" where
  "is_running env = reading (\<lambda>st.
     if \<not> fi_process st then give False
     else seq (host (fe_poll env)) (\<lambda>code. give (code = None \<and> fi_conn st)))"

section \<open>Diagnostics\<close>

definition tail_of :: "nat \<Rightarrow> string \<Rightarrow> string" where
  "tail_of n s = drop (length s - n) s"

text \<open>The last bytes of a file that is there and can be read.\<close>

definition read_tail :: "'s fire_env \<Rightarrow> string option \<Rightarrow> int \<Rightarrow> ('s, string) fact" where
  "read_tail env path max_bytes =
     (case path of
        None \<Rightarrow> give []
      | Some p \<Rightarrow>
          if max_bytes \<le> 0 then give []
          else
            seq (host (fe_exists env p)) (\<lambda>there.
              if \<not> there then give []
              else or_else (seq (host (fe_read env p)) (\<lambda>data. give (tail_of (nat max_bytes) data))) []))"

definition read_console_tail :: "'s fire_env \<Rightarrow> int \<Rightarrow> ('s, string) fact" where
  "read_console_tail env max_bytes = reading (\<lambda>st.
     seq (read_tail env (map_option console_path (fi_dir st)) max_bytes) (\<lambda>data. give (strip data)))"

definition read_log_tail_bytes :: "'s fire_env \<Rightarrow> int \<Rightarrow> ('s, string) fact" where
  "read_log_tail_bytes env max_bytes = reading (\<lambda>st. read_tail env (map_option log_path (fi_dir st)) max_bytes)"

definition read_process_stderr :: "'s fire_env \<Rightarrow> ('s, string) fact" where
  "read_process_stderr env = reading (\<lambda>st.
     if \<not> fi_process st then give []
     else or_else
       (seq (host (fe_poll env)) (\<lambda>code.
          if code = None then give []
          else seq (host (fe_stderr env)) (\<lambda>s. give (tail_of 2000 (strip s))))) [])"

definition guest_console_diagnostics :: "'s fire_env \<Rightarrow> ('s, string) fact" where
  "guest_console_diagnostics env =
     seq (read_console_tail env 4096) (\<lambda>s.
       give (if s = [] then [] else '' Guest console tail: '' @ redact_log_text s))"

definition shown :: "string \<Rightarrow> string" where
  "shown s = (let t = redact_log_text s in if t = [] then ''<empty>'' else t)"

definition build_boot_diagnostics :: "'s fire_env \<Rightarrow> ('s, string) fact" where
  "build_boot_diagnostics env =
     seq (read_process_stderr env) (\<lambda>err.
     seq (read_log_tail_bytes env 4096) (\<lambda>logged.
     seq (read_console_tail env 4096) (\<lambda>console.
     reading (\<lambda>st.
       (let parts =
              (if fi_process st then [''firecracker stderr: '' @ shown err] else [])
              @ (if fi_dir st \<noteq> None then [''firecracker log tail: '' @ shown (strip logged)] else [])
              @ (if console \<noteq> [] then [''guest console tail: '' @ redact_log_text console] else [])
        in give (if parts = [] then [] else '' | '' @ join '' | '' parts))))))"

definition write_log_artifact :: "'s fire_env \<Rightarrow> string \<Rightarrow> string \<Rightarrow> ('s, unit) fact" where
  "write_log_artifact env path raw =
     (let s = strip (redact_log_text raw)
      in if raw = [] \<or> s = [] then give () else host (fe_write env path (s @ [newline])))"

definition export_log_artifact :: "'s fire_env \<Rightarrow> ('s, unit) fact" where
  "export_log_artifact env = reading (\<lambda>st.
     case fi_session st of
       None \<Rightarrow> give ()
     | Some session \<Rightarrow>
         if \<not> fc_log_export (fe_config env) then give ()
         else
           (let dir = fe_home env @ ''/.strangeclaw/sessions/'' @ session @ ''/outputs/system'';
                n = fc_log_max_bytes (fe_config env)
            in seq (read_log_tail_bytes env n) (\<lambda>logged.
               seq (write_log_artifact env (dir @ ''/firecracker.log.tail.txt'') logged) (\<lambda>_.
               seq (read_console_tail env n) (\<lambda>console.
                 if console = [] then give ()
                 else write_log_artifact env (dir @ ''/guest-console.tail.txt'') console)))))"

section \<open>Time\<close>

text \<open>Deadlines and what remains of them are floats; \<open>boot_timeout\<close> may be infinite or NaN.\<close>

definition deadline_from :: "rat \<Rightarrow> pyfloat \<Rightarrow> pyfloat" where
  "deadline_from now t = (case t of FFin q \<Rightarrow> FFin (now + q) | _ \<Rightarrow> t)"

definition time_left :: "pyfloat \<Rightarrow> rat \<Rightarrow> pyfloat" where
  "time_left deadline now = (case deadline of FFin q \<Rightarrow> FFin (q - now) | _ \<Rightarrow> deadline)"

definition before_deadline :: "rat \<Rightarrow> pyfloat \<Rightarrow> bool" where
  "before_deadline now deadline = (case deadline of FFin q \<Rightarrow> now < q | FInf \<Rightarrow> True | _ \<Rightarrow> False)"

definition negative_time :: "pyfloat \<Rightarrow> bool" where
  "negative_time t = (case t of FFin q \<Rightarrow> q < 0 | FNegInf \<Rightarrow> True | _ \<Rightarrow> False)"

definition set_deadline :: "'s fire_env \<Rightarrow> pyfloat option \<Rightarrow> ('s, pyfloat option) fact" where
  "set_deadline env timeout =
     (case timeout of
        None \<Rightarrow> give None
      | Some t \<Rightarrow> seq (host (fe_clock env)) (\<lambda>now. give (Some (deadline_from now t))))"

definition remaining :: "'s fire_env \<Rightarrow> pyfloat option \<Rightarrow> ('s, pyfloat option) fact" where
  "remaining env deadline =
     (case deadline of
        None \<Rightarrow> give None
      | Some d \<Rightarrow> seq (host (fe_clock env)) (\<lambda>now. give (Some (time_left d now))))"

definition run_out :: "pyfloat option \<Rightarrow> bool" where
  "run_out left = (case left of Some r \<Rightarrow> float_le_zero r | None \<Rightarrow> False)"

section \<open>The event stream\<close>

definition fire_send :: "'s fire_env \<Rightarrow> pydict \<Rightarrow> ('s, unit) fact" where
  "fire_send env event = reading (\<lambda>st.
     if \<not> fi_conn st then fail ''FireSandbox is not connected to guest vsock.''
     else
       seq (from_res (encode_event event)) (\<lambda>line.
         handle_exn (\<lambda>k. k \<in> {OSError, TimeoutError}) (host (fe_sendall env line))
           (\<lambda>e. fail (''Failed to send event over vsock: '' @ exn_str e))))"

definition decoded :: "string \<Rightarrow> ('s, pydict option) fact" where
  "decoded line = from_res (bind_res (decode_event line) (\<lambda>event. Inr (Some event)))"

definition take_line :: "('s, string option) fact" where
  "take_line = reading (\<lambda>st.
     case extract_line (fi_buffer st) of
       None \<Rightarrow> give None
     | Some (line, rest) \<Rightarrow> seq (update (\<lambda>st. st\<lparr>fi_buffer := rest\<rparr>)) (\<lambda>_. give (Some line)))"

definition closed_error :: "'s fire_env \<Rightarrow> ('s, pydict option) fact" where
  "closed_error env = reading (\<lambda>st.
     seq (if fi_process st then host (fe_poll env) else give None) (\<lambda>exit_code.
     seq (guest_console_diagnostics env) (\<lambda>console.
       case exit_code of
         None \<Rightarrow> fail (''Guest vsock connection closed unexpectedly.'' @ console)
       | Some n \<Rightarrow> fail (''Guest vsock connection closed (firecracker exited with code ''
                        @ int_str n @ '').'' @ console))))"

text \<open>
  The reading loop. The number bounds its rounds: at zero the run is left unfinished, as when it
  waits.
\<close>

fun recv_loop :: "'s fire_env \<Rightarrow> pyfloat option \<Rightarrow> nat \<Rightarrow> ('s, pydict option) fact" where
  "recv_loop env deadline 0 = (\<lambda>st. (Blocked, st))"
| "recv_loop env deadline (Suc n) =
     seq (remaining env deadline) (\<lambda>left.
       if run_out left then give None
       else
         seq (attempt (\<lambda>k. k \<in> {TimeoutError, OSError}) (host (fe_recv env left))) (\<lambda>r.
         reading (\<lambda>st.
           case r of
             Inl e \<Rightarrow>
               if exn_class e = TimeoutError \<or> fi_stopping st then give None
               else fail (''Failed to receive event over vsock: '' @ exn_str e)
           | Inr chunk \<Rightarrow>
               if chunk = [] then (if fi_stopping st then give None else closed_error env)
               else
                 seq (from_res (decode_ascii chunk)) (\<lambda>more_text.
                 seq (update (\<lambda>st. st\<lparr>fi_buffer := fi_buffer st @ more_text\<rparr>)) (\<lambda>_.
                 seq take_line (\<lambda>line.
                   case line of Some l \<Rightarrow> decoded l | None \<Rightarrow> recv_loop env deadline n))))))"

definition receive_raw_event :: "'s fire_env \<Rightarrow> nat \<Rightarrow> pyfloat option \<Rightarrow> ('s, pydict option) fact" where
  "receive_raw_event env n timeout = reading (\<lambda>st.
     if \<not> fi_conn st then fail ''FireSandbox is not connected to guest vsock.''
     else
       seq take_line (\<lambda>line.
         case line of
           Some l \<Rightarrow> decoded l
         | None \<Rightarrow> seq (set_deadline env timeout) (\<lambda>deadline. recv_loop env deadline n)))"

definition services_unavailable :: "string \<Rightarrow> pydict" where
  "services_unavailable request_id =
     dict_of [(''type'', VStr ''broker_response''), (''request_id'', VStr request_id),
              (''success'', VBool False), (''error'', VStr ''host services unavailable'')]"

definition handle_broker_request_event :: "'s fire_env \<Rightarrow> pydict \<Rightarrow> ('s, unit) fact" where
  "handle_broker_request_event env event =
     (case dget event ''request_id'' of
        VStr request_id \<Rightarrow>
          reading (\<lambda>st.
            case fi_services st of
              None \<Rightarrow> fire_send env (services_unavailable request_id)
            | Some srv \<Rightarrow>
                seq (host (\<lambda>w. case handle_incoming srv event w of (response, w') \<Rightarrow> (Done response, w'))) (\<lambda>response.
                handle_exn (\<lambda>_. True) (fire_send env response)
                  (\<lambda>e. throw HostServiceError (''Failed to send broker_response to guest: '' @ exn_str e))))
      | _ \<Rightarrow> give ())"

text \<open>Requests are answered and stray responses dropped until something else arrives.\<close>

fun receive_loop :: "'s fire_env \<Rightarrow> nat \<Rightarrow> pyfloat option \<Rightarrow> nat \<Rightarrow> ('s, pydict option) fact" where
  "receive_loop env n deadline 0 = (\<lambda>st. (Blocked, st))"
| "receive_loop env n deadline (Suc k) =
     seq (remaining env deadline) (\<lambda>left.
       if run_out left then give None
       else
         seq (receive_raw_event env n left) (\<lambda>event.
           case event of
             None \<Rightarrow> give None
           | Some e \<Rightarrow>
               if dget e ''type'' = VStr ''broker_request''
               then seq (handle_broker_request_event env e) (\<lambda>_. receive_loop env n deadline k)
               else if dget e ''type'' = VStr ''broker_response'' then receive_loop env n deadline k
               else give (Some e)))"

definition fire_receive :: "'s fire_env \<Rightarrow> nat \<Rightarrow> pyfloat option \<Rightarrow> ('s, pydict option) fact" where
  "fire_receive env n timeout =
     (if (case timeout of Some t \<Rightarrow> negative_time t | None \<Rightarrow> False)
      then throw ValueError ''timeout_seconds must be >= 0.''
      else seq (set_deadline env timeout) (\<lambda>deadline. receive_loop env n deadline n))"

section \<open>Teardown\<close>

definition close_vsock_conn :: "'s fire_env \<Rightarrow> ('s, unit) fact" where
  "close_vsock_conn env = reading (\<lambda>st.
     if \<not> fi_conn st then give ()
     else seq (or_else (host (fe_close env)) ()) (\<lambda>_. update (\<lambda>st. st\<lparr>fi_conn := False\<rparr>)))"

definition try_send_ctrl_alt_del :: "'s fire_env \<Rightarrow> ('s, unit) fact" where
  "try_send_ctrl_alt_del env = reading (\<lambda>st.
     case fi_dir st of
       None \<Rightarrow> give ()
     | Some dir \<Rightarrow>
         seq (host (fe_exists env (api_socket_path dir))) (\<lambda>there.
           if there
           then or_else (host (fe_put env (api_socket_path dir) ''/actions''
                  (dict_of [(''action_type'', VStr ''SendCtrlAltDel'')]))) ()
           else give ()))"

definition wait_for_process_exit :: "'s fire_env \<Rightarrow> rat \<Rightarrow> ('s, bool) fact" where
  "wait_for_process_exit env t = reading (\<lambda>st.
     if \<not> fi_process st then give True
     else
       seq (attempt (\<lambda>_. True) (host (fe_wait env t))) (\<lambda>r.
         case r of
           Inr _ \<Rightarrow> give True
         | Inl e \<Rightarrow>
             if exn_class e = OtherException ''TimeoutExpired'' then give False
             else seq (host (fe_poll env)) (\<lambda>code. give (code \<noteq> None))))"

definition kill_process :: "'s fire_env \<Rightarrow> ('s, unit) fact" where
  "kill_process env =
     seq (or_else (host (fe_kill env)) ()) (\<lambda>_. seq (wait_for_process_exit env 1) (\<lambda>_. give ()))"

definition terminate_process :: "'s fire_env \<Rightarrow> ('s, unit) fact" where
  "terminate_process env =
     seq (or_else (host (fe_terminate env)) ()) (\<lambda>_.
     seq (wait_for_process_exit env 2) (\<lambda>gone. if gone then give () else kill_process env))"

definition graceful_shutdown_process :: "'s fire_env \<Rightarrow> ('s, unit) fact" where
  "graceful_shutdown_process env = reading (\<lambda>st.
     if \<not> fi_process st then give ()
     else
       seq (try_send_ctrl_alt_del env) (\<lambda>_.
       seq (wait_for_process_exit env 5) (\<lambda>gone. if gone then give () else terminate_process env)))"

definition drop_services :: "('s, unit) fact" where
  "drop_services = update (\<lambda>st. st\<lparr>fi_services := None\<rparr>)"

definition drop_network :: "'s fire_env \<Rightarrow> ('s, unit) fact" where
  "drop_network env = reading (\<lambda>st.
     case fi_allocation st of
       None \<Rightarrow> give ()
     | Some a \<Rightarrow>
         seq (or_else (host (fe_fw_cleanup env a)) ()) (\<lambda>_.
         seq (or_else (host (fe_tap_destroy env (ta_tap a))) ()) (\<lambda>_.
           update (\<lambda>st. st\<lparr>fi_allocation := None\<rparr>))))"

definition drop_cid :: "'s fire_env \<Rightarrow> ('s, unit) fact" where
  "drop_cid env = reading (\<lambda>st.
     case fi_cid st of
       None \<Rightarrow> give ()
     | Some cid \<Rightarrow>
         seq (or_else (host (fe_cid_release env cid)) ()) (\<lambda>_. update (\<lambda>st. st\<lparr>fi_cid := None\<rparr>)))"

definition drop_dir :: "'s fire_env \<Rightarrow> ('s, unit) fact" where
  "drop_dir env = reading (\<lambda>st.
     case fi_dir st of
       None \<Rightarrow> give ()
     | Some dir \<Rightarrow> or_else (host (fe_rmtree env dir)) ())"

definition forget :: "('s, unit) fact" where
  "forget = update (\<lambda>st. st\<lparr>fi_dir := None, fi_session := None, fi_buffer := [], fi_credentials := [],
       fi_process := False, fi_services := None, fi_handlers := False, fi_stopping := False\<rparr>)"

definition fire_stop :: "'s fire_env \<Rightarrow> ('s, unit) fact" where
  "fire_stop env = reading (\<lambda>st.
     if fi_stopping st then give ()
     else
       seq (update (\<lambda>st. st\<lparr>fi_stopping := True\<rparr>)) (\<lambda>_.
       seq (or_else (close_vsock_conn env) ()) (\<lambda>_.
       seq (or_else (graceful_shutdown_process env) ()) (\<lambda>_.
       seq (or_else (export_log_artifact env) ()) (\<lambda>_.
       seq drop_services (\<lambda>_.
       seq (drop_network env) (\<lambda>_.
       seq (drop_cid env) (\<lambda>_.
       seq (drop_dir env) (\<lambda>_. forget)))))))))"


section \<open>Booting\<close>

definition prepare_runtime_paths :: "'s fire_env \<Rightarrow> string \<Rightarrow> ('s, unit) fact" where
  "prepare_runtime_paths env session =
     seq (host (fe_mkdtemp env (''strangeclaw-'' @ session @ ''-''))) (\<lambda>dir. update (\<lambda>st. st\<lparr>fi_dir := Some dir\<rparr>))"

definition with_dir :: "string \<Rightarrow> (string \<Rightarrow> ('s, 'a) fact) \<Rightarrow> ('s, 'a) fact" where
  "with_dir msg f = reading (\<lambda>st. case fi_dir st of None \<Rightarrow> fail msg | Some dir \<Rightarrow> f dir)"

definition copy_rootfs :: "'s fire_env \<Rightarrow> ('s, unit) fact" where
  "copy_rootfs env = with_dir ''Rootfs copy path was not initialized.'' (\<lambda>dir.
     seq (host (fe_run env [''cp'', ''--reflink=auto'', fc_rootfs (fe_config env), rootfs_path dir])) (\<lambda>r.
       if cp_code r = 0 then give ()
       else throw FirecrackerConfigError (''Failed to copy rootfs image: ''
              @ (if strip (cp_err r) \<noteq> [] then strip (cp_err r)
                 else if strip (cp_out r) \<noteq> [] then strip (cp_out r)
                 else ''exit code '' @ int_str (cp_code r)))))"

definition launch_firecracker :: "'s fire_env \<Rightarrow> ('s, unit) fact" where
  "launch_firecracker env = with_dir ''API socket path was not initialized.'' (\<lambda>dir.
     seq (host (fe_popen env [fc_binary (fe_config env), ''--api-sock'', api_socket_path dir] (console_path dir))) (\<lambda>_.
       update (\<lambda>st. st\<lparr>fi_process := True\<rparr>)))"

fun api_socket_loop :: "'s fire_env \<Rightarrow> string \<Rightarrow> pyfloat \<Rightarrow> nat \<Rightarrow> ('s, unit) fact" where
  "api_socket_loop env path deadline 0 = (\<lambda>st. (Blocked, st))"
| "api_socket_loop env path deadline (Suc n) =
     seq (host (fe_clock env)) (\<lambda>now.
       if \<not> before_deadline now deadline
       then throw VMBootError (''Timed out waiting for Firecracker API socket: '' @ path)
       else
         seq (host (fe_exists env path)) (\<lambda>there.
           if there then give ()
           else reading (\<lambda>st.
             seq (if fi_process st then host (fe_poll env) else give None) (\<lambda>code.
               if code \<noteq> None
               then throw VMBootError ''Firecracker process exited before API socket became available.''
               else seq (host (fe_sleep env (1 / 10))) (\<lambda>_. api_socket_loop env path deadline n)))))"

definition wait_for_api_socket :: "'s fire_env \<Rightarrow> nat \<Rightarrow> rat \<Rightarrow> ('s, unit) fact" where
  "wait_for_api_socket env n timeout = with_dir ''API socket path was not initialized.'' (\<lambda>dir.
     seq (host (fe_clock env)) (\<lambda>now. api_socket_loop env (api_socket_path dir) (FFin (now + timeout)) n))"

definition guest_network :: "tap_allocation \<Rightarrow> pydict" where
  "guest_network a = dict_of
     [(''ip'', VStr (ta_guest a)), (''gateway'', VStr (ta_ip a)), (''netmask'', VStr ''255.255.255.252''),
      (''dns'', VList [VStr ''8.8.8.8'', VStr ''1.1.1.1''])]"

definition configure_microvm :: "'s fire_env \<Rightarrow> pydict \<Rightarrow> ('s, unit) fact" where
  "configure_microvm env payload = with_dir ''API socket path was not initialized.'' (\<lambda>dir.
     reading (\<lambda>st.
       case fi_allocation st of
         None \<Rightarrow> fail ''TAP allocation was not initialized.''
       | Some a \<Rightarrow>
           (case fi_cid st of
              None \<Rightarrow> fail ''guest_cid was not initialized.''
            | Some cid \<Rightarrow>
                configure_microvm_preboot (\<lambda>path p. host (fe_put env (api_socket_path dir) path p))
                  (fe_is_regular env (fi_world st)) (fe_config env)
                  \<lparr>pb_rootfs = rootfs_path dir, pb_tap = ta_tap a, pb_mac = ''06:00:AC:10:00:02'', pb_cid = cid,
                   pb_uds = vsock_path dir, pb_log = log_path dir, pb_network = guest_network a,
                   pb_agent_config = payload\<rparr>
                  (fi_credentials st) (extract_llm_config (fe_template env)))))"

fun recv_line_loop :: "'s fire_env \<Rightarrow> string \<Rightarrow> nat \<Rightarrow> ('s, string) fact" where
  "recv_line_loop env data 0 = (\<lambda>st. (Blocked, st))"
| "recv_line_loop env data (Suc n) =
     (case extract_line data of
        Some (line, rest) \<Rightarrow>
          seq (if rest = [] then give ()
               else seq (from_res (decode_ascii rest)) (\<lambda>t. update (\<lambda>st. st\<lparr>fi_buffer := fi_buffer st @ t\<rparr>))) (\<lambda>_.
            give (butlast line))
      | None \<Rightarrow>
          seq (host (fe_recv env (Some (FFin 2)))) (\<lambda>chunk.
            if chunk = [] then throw VMBootError ''EOF while waiting for vsock handshake line.''
            else recv_line_loop env (data @ chunk) n))"

definition handshake :: "'s fire_env \<Rightarrow> string \<Rightarrow> nat \<Rightarrow> ('s, unit) fact" where
  "handshake env path n =
     seq (host (fe_connect env path)) (\<lambda>_.
     seq (host (fe_sendall env (''CONNECT 5000'' @ [newline]))) (\<lambda>_.
     seq (recv_line_loop env [] n) (\<lambda>ack.
       if prefix ''OK '' ack then give ()
       else throw VMBootError (''Unexpected vsock CONNECT acknowledgment: '' @ repr_str ack))))"

fun connect_loop :: "'s fire_env \<Rightarrow> string \<Rightarrow> pyfloat \<Rightarrow> nat \<Rightarrow> exn option \<Rightarrow> nat \<Rightarrow> ('s, unit) fact" where
  "connect_loop env path deadline m last_error 0 = (\<lambda>st. (Blocked, st))"
| "connect_loop env path deadline m last_error (Suc n) =
     seq (host (fe_clock env)) (\<lambda>now.
       if \<not> before_deadline now deadline
       then throw VMBootError (''Timed out waiting for vsock CONNECT handshake on '' @ path @ ''. Last error: ''
              @ (case last_error of None \<Rightarrow> ''None'' | Some e \<Rightarrow> exn_str e))
       else
         seq (host (fe_exists env path)) (\<lambda>there.
           if \<not> there
           then seq (host (fe_sleep env (1 / 10))) (\<lambda>_. connect_loop env path deadline m last_error n)
           else
             seq (attempt (\<lambda>_. True) (handshake env path m)) (\<lambda>r.
               case r of
                 Inr _ \<Rightarrow> give ()
               | Inl e \<Rightarrow>
                   seq (or_else (host (fe_close env)) ()) (\<lambda>_.
                   seq (host (fe_sleep env (1 / 2))) (\<lambda>_.
                     connect_loop env path deadline m (Some e) n)))))"

definition connect_vsock_with_retry :: "'s fire_env \<Rightarrow> nat \<Rightarrow> pyfloat \<Rightarrow> ('s, unit) fact" where
  "connect_vsock_with_retry env n timeout = with_dir ''vsock uds path was not initialized.'' (\<lambda>dir.
     seq (host (fe_clock env)) (\<lambda>now. connect_loop env (vsock_path dir) (deadline_from now timeout) n None n))"

definition await_agent_ready :: "'s fire_env \<Rightarrow> nat \<Rightarrow> ('s, unit) fact" where
  "await_agent_ready env n =
     seq (fire_receive env n (Some (fc_boot_timeout (fe_config env)))) (\<lambda>event.
       case event of
         Some e \<Rightarrow>
           if dget e ''type'' = VStr ''agent_ready'' then give ()
           else throw VMBootError ''Did not receive agent_ready after successful vsock CONNECT handshake.''
       | None \<Rightarrow> throw VMBootError ''Did not receive agent_ready after successful vsock CONNECT handshake.'')"

definition boot :: "'s fire_env \<Rightarrow> nat \<Rightarrow> string \<Rightarrow> ('s, unit) fact" where
  "boot env n session =
     seq (seq (host (fe_secrets env)) (\<lambda>file. from_res (load_secrets file))) (\<lambda>credentials.
     seq (update (\<lambda>st. st\<lparr>fi_credentials := credentials\<rparr>)) (\<lambda>_.
     seq (host (fe_services env credentials (fe_template env))) (\<lambda>srv.
     seq (update (\<lambda>st. st\<lparr>fi_services := Some srv\<rparr>)) (\<lambda>_.
     seq (prepare_runtime_paths env session) (\<lambda>_.
     seq (copy_rootfs env) (\<lambda>_.
     seq (seq (host (fe_tap_create env session)) (\<lambda>a. seq (update (\<lambda>st. st\<lparr>fi_allocation := Some a\<rparr>)) (\<lambda>_. give a))) (\<lambda>a.
     seq (host (fe_fw_apply env a)) (\<lambda>_.
     seq (seq (host (fe_cid_allocate env)) (\<lambda>cid. update (\<lambda>st. st\<lparr>fi_cid := Some cid\<rparr>))) (\<lambda>_.
     seq (launch_firecracker env) (\<lambda>_.
     seq (wait_for_api_socket env n 5) (\<lambda>_.
     seq (from_res (sanitize_agent_config_for_mmds (fe_template env))) (\<lambda>payload.
     seq (configure_microvm env payload) (\<lambda>_.
     seq (seq (connect_vsock_with_retry env n (fc_boot_timeout (fe_config env))) (\<lambda>_. update (\<lambda>st. st\<lparr>fi_conn := True\<rparr>))) (\<lambda>_.
       await_agent_ready env n))))))))))))))"

definition fire_start :: "'s fire_env \<Rightarrow> nat \<Rightarrow> string option \<Rightarrow> ('s, unit) fact" where
  "fire_start env n session_id =
     seq (is_running env) (\<lambda>running.
       if running then fail ''FireSandbox is already running.''
       else
         seq (reading (\<lambda>st. if fi_process st then fire_stop env else give ())) (\<lambda>_.
         seq (update (\<lambda>st. st\<lparr>fi_handlers := fi_handlers st \<or> fe_exit_handlers env\<rparr>)) (\<lambda>_.
         seq (case session_id of
                None \<Rightarrow> give ()
              | Some s \<Rightarrow> seq (from_res (sanitize_session_id s)) (\<lambda>sane. update (\<lambda>st. st\<lparr>fi_start_session := sane\<rparr>))) (\<lambda>_.
         reading (\<lambda>st.
         seq (from_res (sanitize_session_id (fi_start_session st))) (\<lambda>session.
         seq (update (\<lambda>st. st\<lparr>fi_session := Some session\<rparr>)) (\<lambda>_.
           handle_exn (\<lambda>_. True) (boot env n session) (\<lambda>e.
             seq (build_boot_diagnostics env) (\<lambda>diagnostics.
             seq (fire_stop env) (\<lambda>_.
               throw VMBootError ((if exn_class e = VMBootError then [] else ''Failed to start FireSandbox: '')
                 @ exn_str e @ diagnostics)))))))))))"

definition fire_send_task :: "'s fire_env \<Rightarrow> pydict \<Rightarrow> ('s, unit) fact" where
  "fire_send_task env task =
     seq (is_running env) (\<lambda>running. if running then fire_send env task else fail ''FireSandbox is not running.'')"

definition fire_run :: "'s fire_env \<Rightarrow> nat \<Rightarrow> pydict \<Rightarrow> ('s, unit) fact" where
  "fire_run env n task =
     seq (from_res (sanitize_session_id (py_str (dget_or task ''session_id'' (VStr []))))) (\<lambda>session.
     seq (update (\<lambda>st. st\<lparr>fi_start_session := session\<rparr>)) (\<lambda>_.
     seq (fire_start env n None) (\<lambda>_. fire_send_task env task)))"

end
