(* ===== verification/EffectLogic.thy ===== *)
theory EffectLogic
  imports Effect
begin

text \<open>
  What an effect may do to its state, as \<open>valid P m Q E\<close>: from states with \<open>P\<close> a result comes
  with \<open>Q\<close> and an exception with \<open>E\<close>. The rules in \<open>act_rules\<close> follow the structure of the
  code; the lifecycle of the Firecracker sandbox and the adapters are proved with them.
\<close>

definition valid :: "('st \<Rightarrow> bool) \<Rightarrow> ('st, 'a) effect \<Rightarrow> ('a \<Rightarrow> 'st \<Rightarrow> bool) \<Rightarrow> ('st \<Rightarrow> bool) \<Rightarrow> bool" where
  "valid P m Q E =
     (\<forall>st. P st \<longrightarrow> (case m st of (Done x, st') \<Rightarrow> Q x st' | (Raised e, st') \<Rightarrow> E st' | (Blocked, st') \<Rightarrow> True))"

abbreviation keeps :: "('st \<Rightarrow> bool) \<Rightarrow> ('st, 'a) effect \<Rightarrow> bool" where
  "keeps P m \<equiv> valid P m (\<lambda>_. P) P"

text \<open>\<open>P\<close> is kept and nothing is raised.\<close>

abbreviation calm :: "('st \<Rightarrow> bool) \<Rightarrow> ('st, 'a) effect \<Rightarrow> bool" where
  "calm P m \<equiv> valid P m (\<lambda>_. P) (\<lambda>_. False)"

lemma validI:
  "(\<And>st x st'. P st \<Longrightarrow> m st = (Done x, st') \<Longrightarrow> Q x st') \<Longrightarrow>
   (\<And>st e st'. P st \<Longrightarrow> m st = (Raised e, st') \<Longrightarrow> E st') \<Longrightarrow> valid P m Q E"
  unfolding valid_def by (auto split: prod.splits outcome.splits)

lemma validD:
  "valid P m Q E \<Longrightarrow> P st \<Longrightarrow> m st = (Done x, st') \<Longrightarrow> Q x st'"
  "valid P m Q E \<Longrightarrow> P st \<Longrightarrow> m st = (Raised e, st') \<Longrightarrow> E st'"
  unfolding valid_def by (auto dest!: spec [of _ st])

lemma valid_weaken:
  "valid P m Q E \<Longrightarrow> (\<And>st. P' st \<Longrightarrow> P st) \<Longrightarrow> (\<And>x st. Q x st \<Longrightarrow> Q' x st) \<Longrightarrow> (\<And>st. E st \<Longrightarrow> E' st)
    \<Longrightarrow> valid P' m Q' E'"
  unfolding valid_def by (fastforce split: prod.splits outcome.splits)

lemma calm_keeps: "calm P m \<Longrightarrow> keeps P m"
  by (erule valid_weaken) auto

lemma valid_give [act_rules]: "(\<And>st. P st \<Longrightarrow> Q x st) \<Longrightarrow> valid P (give x) Q E"
  by (simp add: valid_def give_def)

lemma valid_throw [act_rules]: "(\<And>st. P st \<Longrightarrow> E st) \<Longrightarrow> valid P (throw k msg) Q E"
  by (simp add: valid_def throw_def)

lemma valid_from_res: "(\<And>st x. P st \<Longrightarrow> r = Inr x \<Longrightarrow> Q x st) \<Longrightarrow> (\<And>st. P st \<Longrightarrow> E st) \<Longrightarrow> valid P (from_res r) Q E"
  by (cases r) (auto simp: valid_def from_res_def)

lemma keeps_from_res [act_rules]: "keeps P (from_res r)"
  by (rule valid_from_res)

lemma valid_blocked [act_rules]: "valid P (\<lambda>st. (Blocked, st)) Q E"
  by (simp add: valid_def)

lemma valid_update [act_rules]: "(\<And>st. P st \<Longrightarrow> Q () (f st)) \<Longrightarrow> valid P (update f) Q E"
  by (simp add: valid_def update_def)

lemma valid_seq: "valid P m R E \<Longrightarrow> (\<And>x. valid (R x) (f x) Q E) \<Longrightarrow> valid P (seq m f) Q E"
  unfolding valid_def seq_def by (fastforce split: prod.splits outcome.splits)

lemma keeps_seq [act_rules]: "valid P m (\<lambda>_. P) E \<Longrightarrow> (\<And>x. valid P (f x) Q E) \<Longrightarrow> valid P (seq m f) Q E"
  by (rule valid_seq)

lemma valid_handle:
  "valid P m Q R \<Longrightarrow> (\<And>e. valid R (h e) Q E) \<Longrightarrow> (\<And>st. R st \<Longrightarrow> E st) \<Longrightarrow> valid P (handle_exn p m h) Q E"
  unfolding valid_def handle_exn_def by (fastforce split: prod.splits outcome.splits if_splits)

lemma valid_handle_all:
  "valid P m Q R \<Longrightarrow> (\<And>e. valid R (h e) Q E) \<Longrightarrow> valid P (handle_exn (\<lambda>_. True) m h) Q E"
  unfolding valid_def handle_exn_def by (fastforce split: prod.splits outcome.splits if_splits)

lemma keeps_handle [act_rules]: "keeps P m \<Longrightarrow> (\<And>e. keeps P (h e)) \<Longrightarrow> keeps P (handle_exn p m h)"
  by (rule valid_handle)

lemma keeps_attempt [act_rules]: "keeps P m \<Longrightarrow> keeps P (attempt p m)"
  unfolding attempt_def by (intro act_rules)

lemma valid_reading [act_rules]: "(\<And>st. P st \<Longrightarrow> valid P (f st) Q E) \<Longrightarrow> valid P (reading f) Q E"
  unfolding valid_def reading_def by (fastforce split: prod.splits outcome.splits)

lemma valid_reading_at: "(\<And>st0. P st0 \<Longrightarrow> valid (\<lambda>st. st = st0) (f st0) Q E) \<Longrightarrow> valid P (reading f) Q E"
  unfolding valid_def reading_def by (fastforce split: prod.splits outcome.splits)

lemma valid_at: "valid P m Q E \<Longrightarrow> P st0 \<Longrightarrow> valid (\<lambda>st. st = st0) m Q E"
  by (simp add: valid_def)

lemma valid_option_at:
  "(x = None \<Longrightarrow> Q () st0) \<Longrightarrow> (\<And>y. x = Some y \<Longrightarrow> valid (P y) (f y) Q E) \<Longrightarrow> (\<And>y. x = Some y \<Longrightarrow> P y st0)
    \<Longrightarrow> valid (\<lambda>st. st = st0) (case x of None \<Rightarrow> give () | Some y \<Rightarrow> f y) Q E"
  by (cases x) (simp_all add: valid_def give_def)

lemma valid_if [act_rules]: "(b \<Longrightarrow> valid P m Q E) \<Longrightarrow> (\<not> b \<Longrightarrow> valid P m' Q E) \<Longrightarrow> valid P (if b then m else m') Q E"
  by simp

lemma valid_option [act_rules]:
  "(x = None \<Longrightarrow> valid P m Q E) \<Longrightarrow> (\<And>y. x = Some y \<Longrightarrow> valid P (f y) Q E) \<Longrightarrow> valid P (case x of None \<Rightarrow> m | Some y \<Rightarrow> f y) Q E"
  by (cases x) auto

lemma valid_sum [act_rules]:
  "(\<And>e. x = Inl e \<Longrightarrow> valid P (m e) Q E) \<Longrightarrow> (\<And>y. x = Inr y \<Longrightarrow> valid P (f y) Q E)
    \<Longrightarrow> valid P (case x of Inl e \<Rightarrow> m e | Inr y \<Rightarrow> f y) Q E"
  by (cases x) auto

lemma valid_prod [act_rules]: "(\<And>a b. x = (a, b) \<Longrightarrow> valid P (f a b) Q E) \<Longrightarrow> valid P (case x of (a, b) \<Rightarrow> f a b) Q E"
  by (cases x) auto

end
