(* ===== verification/FireSafety.thy ===== *)
theory FireSafety
  imports FireSandbox EffectLogic
begin

text \<open>
  The lifecycle of the Firecracker sandbox: what an operation may do to the object is stated as
  \<open>valid P m Q E\<close> (before, result, exception) and carried through the operations by the locale
  \<open>fire_frame\<close>; a ledger of acquired resources then shows that none is forgotten.
\<close>

section \<open>Failures and teardown steps\<close>

lemma valid_fail [act_rules]: "(\<And>st. P st \<Longrightarrow> E st) \<Longrightarrow> valid P (fail msg) Q E"
  by (simp add: fail_def valid_throw)

lemma calm_or_else [act_rules]: "keeps P m \<Longrightarrow> valid P (or_else m x) (\<lambda>_. P) E"
  unfolding valid_def or_else_def handle_exn_def give_def by (fastforce split: prod.splits outcome.splits)

lemma or_else_calm: "valid P m Q (\<lambda>_. False) \<Longrightarrow> valid P (or_else m x) Q (\<lambda>_. False)"
  unfolding or_else_def by (rule valid_handle) (auto simp: valid_def)

lemma valid_with_dir [act_rules]:
  "(\<And>st. P st \<Longrightarrow> E st) \<Longrightarrow> (\<And>dir. valid P (f dir) Q E) \<Longrightarrow> valid P (with_dir msg f) Q E"
  unfolding with_dir_def by (intro act_rules) auto

section \<open>Operations that only use the world\<close>

text \<open>
  \<open>P\<close> is kept by the buffer, by the operations of the world that acquire nothing, and by what a
  service does.
\<close>

locale fire_frame =
  fixes env :: "'s fire_env" and P :: "'s fire \<Rightarrow> bool"
  assumes buffer: "P st \<Longrightarrow> P (st\<lparr>fi_buffer := b\<rparr>)"
    and time: "keeps P (host (fe_clock env))" "keeps P (host (fe_sleep env t))"
    and files: "keeps P (host (fe_exists env path))" "keeps P (host (fe_read env path))"
      "keeps P (host (fe_write env path s))"
    and process: "keeps P (host (fe_poll env))" "keeps P (host (fe_stderr env))" "keeps P (host (fe_run env args))"
      "keeps P (host (fe_put env sock path payload))"
    and stream: "keeps P (host (fe_sendall env s))" "keeps P (host (fe_recv env left))"
    and served: "P st \<Longrightarrow> fi_services st = Some srv \<Longrightarrow>
      P (st\<lparr>fi_world := snd (handle_incoming srv event (fi_world st))\<rparr>)"
begin

lemmas quiet [act_rules] = time files process stream

lemma buffer_keeps [act_rules]: "keeps P (update (\<lambda>st. st\<lparr>fi_buffer := f st\<rparr>))"
  by (intro act_rules buffer)

lemma take_line_keeps [act_rules]: "keeps P take_line"
  unfolding take_line_def by (intro act_rules) auto

lemma decoded_keeps [act_rules]: "keeps P (decoded line)"
  unfolding decoded_def by (intro act_rules | assumption)+

lemma read_tail_keeps [act_rules]: "keeps P (read_tail env path n)"
  unfolding read_tail_def by (intro act_rules | assumption)+

lemma console_keeps [act_rules]: "keeps P (read_console_tail env n)" "keeps P (read_log_tail_bytes env n)"
  unfolding read_console_tail_def read_log_tail_bytes_def by (intro act_rules | assumption)+

lemma stderr_keeps [act_rules]: "keeps P (read_process_stderr env)"
  unfolding read_process_stderr_def by (intro act_rules | assumption)+

lemma diagnostics_keeps [act_rules]: "keeps P (guest_console_diagnostics env)" "keeps P (build_boot_diagnostics env)"
  unfolding guest_console_diagnostics_def build_boot_diagnostics_def Let_def by (intro act_rules | assumption)+

lemma artifact_keeps [act_rules]: "keeps P (write_log_artifact env path raw)"
  unfolding write_log_artifact_def Let_def by (intro act_rules | assumption)+

lemma export_keeps [act_rules]: "keeps P (export_log_artifact env)"
  unfolding export_log_artifact_def Let_def by (intro act_rules | assumption)+

lemma is_running_keeps [act_rules]: "keeps P (is_running env)"
  unfolding is_running_def by (intro act_rules | assumption)+

lemma deadline_keeps [act_rules]: "keeps P (set_deadline env t)" "keeps P (remaining env d)"
  unfolding set_deadline_def remaining_def by (intro act_rules | assumption)+

lemma send_keeps [act_rules]: "keeps P (fire_send env event)"
  unfolding fire_send_def by (intro act_rules | assumption)+

lemma closed_error_keeps [act_rules]: "keeps P (closed_error env)"
  unfolding closed_error_def by (intro act_rules | assumption)+

lemma recv_loop_keeps [act_rules]: "keeps P (recv_loop env deadline n)"
  by (induction n) (simp_all, (intro act_rules | assumption)+)

lemma receive_raw_keeps [act_rules]: "keeps P (receive_raw_event env n t)"
  unfolding receive_raw_event_def by (intro act_rules | assumption)+

lemma handle_broker_keeps [act_rules]: "keeps P (handle_broker_request_event env event)"
proof -
  have "valid (\<lambda>st. st = st0) (seq (host (\<lambda>w. case handle_incoming srv event w of (response, w') \<Rightarrow> (Done response, w'))) (\<lambda>response.
          handle_exn (\<lambda>_. True) (fire_send env response)
            (\<lambda>e. throw HostServiceError (''Failed to send broker_response to guest: '' @ exn_str e)))) (\<lambda>_. P) P"
    if p: "P st0" "fi_services st0 = Some srv" for st0 srv
  proof (rule valid_seq)
    show "valid (\<lambda>st. st = st0) (host (\<lambda>w. case handle_incoming srv event w of (response, w') \<Rightarrow> (Done response, w'))) (\<lambda>_. P) P"
      using served [OF p, of event] by (auto simp: valid_def host_def split: prod.splits)
  qed (intro act_rules | assumption)+
  moreover have "valid (\<lambda>st. st = st0) (fire_send env e) (\<lambda>_. P) P" if "P st0" for st0 e
    by (rule valid_weaken [OF send_keeps]) (use that in auto)
  ultimately show ?thesis
    unfolding handle_broker_request_event_def
    by (cases "dget event ''request_id''")
       (auto intro!: valid_reading_at valid_give split: option.split)
qed

lemma receive_loop_keeps [act_rules]: "keeps P (receive_loop env n deadline k)"
  by (induction k) (simp_all, (intro act_rules | assumption)+)

lemma receive_keeps [act_rules]: "keeps P (fire_receive env n t)"
  unfolding fire_receive_def by (intro act_rules | assumption)+

lemma api_socket_keeps [act_rules]: "keeps P (api_socket_loop env path d n)" "keeps P (wait_for_api_socket env n t)"
proof -
  show l: "keeps P (api_socket_loop env path d n)" for path d
    by (induction n) (simp_all, (intro act_rules | assumption)+)
  show "keeps P (wait_for_api_socket env n t)"
    unfolding wait_for_api_socket_def by (intro act_rules l | assumption)+
qed

lemma copy_rootfs_keeps [act_rules]: "keeps P (copy_rootfs env)"
  unfolding copy_rootfs_def by (intro act_rules | assumption)+

lemma put_all_keeps: "(\<And>path p. keeps P (put path p)) \<Longrightarrow> keeps P (put_all put credentials llm reqs)"
  by (induction reqs) (auto intro!: act_rules)

lemma configure_keeps [act_rules]: "keeps P (configure_microvm env payload)"
  unfolding configure_microvm_def configure_microvm_preboot_def
  by (intro act_rules put_all_keeps | assumption)+

lemma recv_line_keeps [act_rules]: "keeps P (recv_line_loop env data n)"
  by (induction n arbitrary: data) (simp_all, (intro act_rules | assumption)+)

lemma await_ready_keeps [act_rules]: "keeps P (await_agent_ready env n)"
  unfolding await_agent_ready_def by (intro act_rules | assumption)+

lemma send_task_keeps [act_rules]: "keeps P (fire_send_task env task)"
  unfolding fire_send_task_def by (intro act_rules | assumption)+

end

section \<open>A ledger of resources\<close>

datatype resource =
  TempDir string | TapDevice string | Rules tap_allocation | CidLease int | Machine | Connection

text \<open>
  An entry of the ledger: a resource that was acquired and not released yet, or one whose release
  was called and raised.
\<close>

datatype entry = Held resource | Failed resource

type_synonym 's ledgered = "'s \<times> entry list"

definition held :: "entry list \<Rightarrow> resource set" where
  "held l = {x. Held x \<in> set l}"

definition failures :: "entry list \<Rightarrow> resource set" where
  "failures l = {x. Failed x \<in> set l}"

lemma held_simps [simp]:
  "held [] = {}" "held (Held x # l) = insert x (held l)" "held (Failed x # l) = held l"
  "held (removeAll (Held x) l) = held l - {x}"
  by (auto simp: held_def)

lemma failures_simps [simp]:
  "failures [] = {}" "failures (Held x # l) = failures l" "failures (Failed x # l) = insert x (failures l)"
  "failures (removeAll (Held x) l) = failures l"
  by (auto simp: failures_def)

definition through :: "('s, 'a) effect \<Rightarrow> ('s ledgered, 'a) effect" where
  "through f st = (case f (fst st) of (r, s) \<Rightarrow> (r, (s, snd st)))"

text \<open>
  Entered when the operation succeeds; entered whatever it does; struck out when the release
  returns, and entered as failed when it raises.
\<close>

definition taking :: "('a \<Rightarrow> resource) \<Rightarrow> ('s, 'a) effect \<Rightarrow> ('s ledgered, 'a) effect" where
  "taking mk f st = (case f (fst st) of (r, s) \<Rightarrow> (r, (s, (case r of Done x \<Rightarrow> [Held (mk x)] | _ \<Rightarrow> []) @ snd st)))"

definition trying :: "resource \<Rightarrow> ('s, 'a) effect \<Rightarrow> ('s ledgered, 'a) effect" where
  "trying x f st = (case f (fst st) of (r, s) \<Rightarrow> (r, (s, Held x # snd st)))"

definition returning :: "resource \<Rightarrow> ('s, 'a) effect \<Rightarrow> ('s ledgered, 'a) effect" where
  "returning x f st =
     (case f (fst st) of
        (r, s) \<Rightarrow> (r, (s, (case r of Raised e \<Rightarrow> [Failed x] | _ \<Rightarrow> []) @ removeAll (Held x) (snd st))))"

text \<open>The machine is gone when a wait returns or a poll gives its exit code.\<close>

definition reaping :: "('a \<Rightarrow> bool) \<Rightarrow> ('s, 'a) effect \<Rightarrow> ('s ledgered, 'a) effect" where
  "reaping gone f st =
     (case f (fst st) of
        (r, s) \<Rightarrow> (r, (s, if (case r of Done x \<Rightarrow> gone x | _ \<Rightarrow> False) then removeAll (Held Machine) (snd st) else snd st)))"

definition lift_handler :: "'s handler \<Rightarrow> 's ledgered handler" where
  "lift_handler h payload st = (case h payload (fst st) of (r, s) \<Rightarrow> (r, (s, snd st)))"

definition lift_server :: "'s server \<Rightarrow> 's ledgered server" where
  "lift_server srv = map (\<lambda>(name, h). (name, lift_handler h)) srv"

definition ledgered :: "'s fire_env \<Rightarrow> 's ledgered fire_env" where
  "ledgered env =
     \<lparr>fe_config = fe_config env, fe_template = fe_template env, fe_exit_handlers = fe_exit_handlers env,
      fe_home = fe_home env, fe_secrets = through (fe_secrets env),
      fe_services = (\<lambda>creds template. through (seq (fe_services env creds template) (\<lambda>srv. give (lift_server srv)))),
      fe_mkdtemp = (\<lambda>p. taking TempDir (fe_mkdtemp env p)), fe_rmtree = (\<lambda>d. returning (TempDir d) (fe_rmtree env d)),
      fe_run = (\<lambda>args. through (fe_run env args)),
      fe_tap_create = (\<lambda>s. taking (\<lambda>a. TapDevice (ta_tap a)) (fe_tap_create env s)),
      fe_tap_destroy = (\<lambda>t. returning (TapDevice t) (fe_tap_destroy env t)),
      fe_fw_apply = (\<lambda>a. trying (Rules a) (fe_fw_apply env a)),
      fe_fw_cleanup = (\<lambda>a. returning (Rules a) (fe_fw_cleanup env a)),
      fe_cid_allocate = taking CidLease (fe_cid_allocate env),
      fe_cid_release = (\<lambda>c. returning (CidLease c) (fe_cid_release env c)),
      fe_popen = (\<lambda>args path. taking (\<lambda>_. Machine) (fe_popen env args path)),
      fe_poll = reaping (\<lambda>code. code \<noteq> None) (fe_poll env), fe_wait = (\<lambda>t. reaping (\<lambda>_. True) (fe_wait env t)),
      fe_terminate = through (fe_terminate env), fe_kill = returning Machine (fe_kill env),
      fe_stderr = through (fe_stderr env), fe_put = (\<lambda>sock path p. through (fe_put env sock path p)),
      fe_exists = (\<lambda>p. through (fe_exists env p)), fe_is_regular = (\<lambda>st. fe_is_regular env (fst st)),
      fe_read = (\<lambda>p. through (fe_read env p)), fe_write = (\<lambda>p s. through (fe_write env p s)),
      fe_clock = through (fe_clock env), fe_sleep = (\<lambda>t. through (fe_sleep env t)),
      fe_connect = (\<lambda>p. trying Connection (fe_connect env p)), fe_sendall = (\<lambda>s. through (fe_sendall env s)),
      fe_recv = (\<lambda>t. through (fe_recv env t)), fe_close = returning Connection (fe_close env)\<rparr>"

text \<open>What the object holds, by its fields, and what it then answers for.\<close>

type_synonym handles = "bool \<times> string option \<times> tap_allocation option \<times> int option \<times> bool \<times> bool"

definition handles :: "'s fire \<Rightarrow> handles" where
  "handles st = (fi_process st, fi_dir st, fi_allocation st, fi_cid st, fi_conn st, fi_stopping st)"

fun owned :: "handles \<Rightarrow> resource set" where
  "owned (process, dir, allocation, cid, conn, stopping) =
     (if process then {Machine} else {}) \<union> TempDir ` set_option dir
     \<union> (\<Union>a \<in> set_option allocation. {TapDevice (ta_tap a), Rules a})
     \<union> CidLease ` set_option cid \<union> (if conn then {Connection} else {})"

definition ledger :: "'s ledgered fire \<Rightarrow> resource set" where
  "ledger st = held (snd (fi_world st))"

definition failed :: "'s ledgered fire \<Rightarrow> resource set" where
  "failed st = failures (snd (fi_world st))"

definition tracked :: "(handles \<Rightarrow> resource set) \<Rightarrow> (handles \<Rightarrow> bool) \<Rightarrow> 's ledgered fire \<Rightarrow> bool" where
  "tracked B F st =
     (ledger st \<subseteq> B (handles st) \<and> (\<forall>srv. fi_services st = Some srv \<longrightarrow> (\<exists>srv0. srv = lift_server srv0)) \<and> F (handles st))"

lemma dispatch_lifted: "snd (snd (dispatch (lift_server srv) request st)) = snd st"
proof -
  have "map_of (lift_server srv) s = map_option lift_handler (map_of srv s)" for s
    by (simp add: lift_server_def map_of_map)
  then show ?thesis
    by (auto simp: dispatch_def Let_def lift_handler_def split: pyval.splits option.splits prod.splits sum.splits)
qed

lemma handle_incoming_lifted: "snd (snd (handle_incoming (lift_server srv) event st)) = snd st"
proof -
  obtain d w' where d: "dispatch (lift_server srv) (dict_of [(''request_id'', dget event ''request_id''),
        (''service'', dget event ''service''), (''payload'', dget event ''payload'')]) st = (d, w')" by (rule prod.exhaust)
  then have "snd w' = snd st" using dispatch_lifted by (metis snd_conv)
  with d show ?thesis by (simp add: handle_incoming_def Let_def)
qed

lemma world_step:
  assumes "\<And>s l r s' l'. f (s, l) = (r, (s', l')) \<Longrightarrow> held l' \<subseteq> held l"
  shows "keeps (tracked B F) (host f)"
proof -
  have "tracked B F (st\<lparr>fi_world := w\<rparr>)" if "tracked B F st" "f (fi_world st) = (r, w)" for st r w
  proof -
    have "held (snd w) \<subseteq> held (snd (fi_world st))"
      using assms [of "fst (fi_world st)" "snd (fi_world st)" r "fst w" "snd w"] that(2) by simp
    with that(1) show ?thesis by (auto simp: tracked_def ledger_def handles_def)
  qed
  then show ?thesis by (auto simp: valid_def host_def split: prod.splits outcome.splits)
qed

lemma ledger_steps:
  "keeps (tracked B F) (host (through f))" "keeps (tracked B F) (host (returning x f))"
  "keeps (tracked B F) (host (reaping gone g))"
  by (rule world_step; auto simp: through_def returning_def reaping_def split: prod.splits if_splits outcome.splits)+

interpretation ledger_frame: fire_frame "ledgered env" "tracked B F"
proof
  fix st :: "'a ledgered fire" and b
  show "tracked B F st \<Longrightarrow> tracked B F (st\<lparr>fi_buffer := b\<rparr>)" by (simp add: tracked_def ledger_def handles_def)
next
  fix st :: "'a ledgered fire" and srv event
  assume t: "tracked B F st" "fi_services st = Some srv"
  then obtain srv0 where "srv = lift_server srv0" by (auto simp: tracked_def)
  with t show "tracked B F (st\<lparr>fi_world := snd (handle_incoming srv event (fi_world st))\<rparr>)"
    by (simp add: tracked_def ledger_def handles_def handle_incoming_lifted)
qed (simp_all add: ledgered_def ledger_steps)

declare ledger_frame.export_keeps [act_rules] ledger_frame.diagnostics_keeps [act_rules]
  ledger_frame.is_running_keeps [act_rules]

section \<open>Teardown returns everything\<close>

text \<open>Asking whether a file exists and polling the process raise nothing.\<close>

definition steady :: "'s fire_env \<Rightarrow> bool" where
  "steady env = ((\<forall>p w e. fst (fe_exists env p w) \<noteq> Raised e) \<and> (\<forall>w e. fst (fe_poll env w) \<noteq> Raised e))"

lemma returned:
  "valid (tracked B F) (or_else (host (returning x f)) ()) (\<lambda>_. tracked (\<lambda>h. B h - {x}) F) E"
  by (auto simp: valid_def or_else_def handle_exn_def host_def returning_def give_def tracked_def ledger_def handles_def
      split: prod.splits outcome.splits)

lemma tracked_mono: "tracked B F st \<Longrightarrow> (\<And>h. F h \<Longrightarrow> B h \<subseteq> B' h) \<Longrightarrow> (\<And>h. F h \<Longrightarrow> F' h) \<Longrightarrow> tracked B' F' st"
  unfolding tracked_def by blast

lemma host_keeps:
  "keeps (tracked B F) (host (fe_put (ledgered env) sock path p))"
  "keeps (tracked B F) (host (fe_exists (ledgered env) path))"
  "keeps (tracked B F) (host (fe_terminate (ledgered env)))"
  "keeps (tracked B F) (host (fe_poll (ledgered env)))"
  by (simp_all add: ledgered_def ledger_steps)

text \<open>Without the machine in the bound, the bound says that it is gone.\<close>

definition without :: "resource \<Rightarrow> (handles \<Rightarrow> resource set) \<Rightarrow> handles \<Rightarrow> resource set" where
  "without x B h = B h - {x}"

lemma exists_calm: "steady env \<Longrightarrow> calm (tracked B F) (host (fe_exists (ledgered env) path))"
  by (rule validI)
     (auto simp: steady_def ledgered_def host_def through_def tracked_def ledger_def handles_def split: prod.splits,
      metis fst_conv)

lemma ctrl_alt_del_calm: "steady env \<Longrightarrow> calm (tracked B F) (try_send_ctrl_alt_del (ledgered env))"
  unfolding try_send_ctrl_alt_del_def
  by (intro act_rules valid_reading valid_option keeps_seq [OF exists_calm] host_keeps | assumption)+

lemma wait_gone:
  assumes s: "steady env"
  shows "valid (tracked B (\<lambda>h. F h \<and> fst h)) (wait_for_process_exit (ledgered env) t)
     (\<lambda>gone st. tracked (if gone then without Machine B else B) (\<lambda>h. F h \<and> fst h) st) (\<lambda>_. False)"
proof (rule validI)
  let ?F = "\<lambda>h. F h \<and> fst h"
  have stay: "tracked B ?F (st\<lparr>fi_world := (w, l)\<rparr>)" if "tracked B ?F st" "held l \<subseteq> ledger st" for st w l
    using that by (auto simp: tracked_def ledger_def handles_def)
  have gone: "tracked (without Machine B) ?F (st\<lparr>fi_world := (w, removeAll (Held Machine) l)\<rparr>)"
    if "tracked B ?F st" "held l \<subseteq> ledger st" for st w l
    using that by (auto simp: tracked_def ledger_def handles_def without_def)
  have nopoll: "fst (fe_poll env w) \<noteq> Raised e" for w e using s by (simp add: steady_def)
  {
    fix st x st'
    assume a: "tracked B ?F st" "wait_for_process_exit (ledgered env) t st = (Done x, st')"
    then have p: "fi_process st" by (simp add: tracked_def handles_def)
    obtain w l where w: "fi_world st = (w, l)" by (cases "fi_world st")
    then have l: "held l \<subseteq> ledger st" by (simp add: ledger_def)
    obtain o1 w1 where o: "fe_wait env t w = (o1, w1)" by (rule prod.exhaust)
    show "tracked (if x then without Machine B else B) ?F st'"
    proof (cases o1)
      case (Done u)
      with a(2) p w o have "x" "st' = st\<lparr>fi_world := (w1, removeAll (Held Machine) l)\<rparr>"
        by (auto simp: wait_for_process_exit_def reading_def seq_def attempt_def handle_exn_def give_def host_def
            ledgered_def reaping_def)
      then show ?thesis using gone [OF a(1) l] by simp
    next
      case (Raised e)
      show ?thesis
      proof (cases "exn_class e = OtherException ''TimeoutExpired''")
        case True
        with Raised a(2) p w o have "\<not> x" "st' = st\<lparr>fi_world := (w1, l)\<rparr>"
          by (auto simp: wait_for_process_exit_def reading_def seq_def attempt_def handle_exn_def give_def host_def
              ledgered_def reaping_def)
        then show ?thesis using stay [OF a(1) l] by simp
      next
        case False
        obtain o2 w2 where o2: "fe_poll env w1 = (o2, w2)" by (rule prod.exhaust)
        with False Raised a(2) p w o obtain code where "o2 = Done code" "x = (code \<noteq> None)"
          "st' = st\<lparr>fi_world := (w2, if code \<noteq> None then removeAll (Held Machine) l else l)\<rparr>"
          by (auto simp: wait_for_process_exit_def reading_def seq_def attempt_def handle_exn_def give_def host_def
              ledgered_def reaping_def split: outcome.splits)
        then show ?thesis using stay [OF a(1) l] gone [OF a(1) l] by simp
      qed
    next
      case Blocked
      with a(2) p w o show ?thesis
        by (simp add: wait_for_process_exit_def reading_def seq_def attempt_def handle_exn_def give_def host_def
            ledgered_def reaping_def)
    qed
  }
  {
    fix st e st'
    assume a: "tracked B ?F st" "wait_for_process_exit (ledgered env) t st = (Raised e, st')"
    then show False
      using nopoll
      by (auto simp: wait_for_process_exit_def reading_def seq_def attempt_def handle_exn_def give_def host_def
          ledgered_def reaping_def tracked_def handles_def split: outcome.splits prod.splits if_splits)
         (metis fst_conv)+
  }
qed

lemma without_simps: "without x B h \<subseteq> B h" "without x (without x B) = without x B"
  by (auto simp: without_def)

lemma reaped_stage:
  assumes "valid (tracked B (\<lambda>h. F h \<and> fst h)) m (\<lambda>_. tracked (without Machine B) F) (\<lambda>_. False)"
  shows "valid (tracked (if gone then without Machine B else B) (\<lambda>h. F h \<and> fst h)) (if gone then give () else m)
     (\<lambda>_. tracked (without Machine B) F) (\<lambda>_. False)"
  using assms by (cases gone) (auto intro!: valid_give elim!: tracked_mono)

lemma kill_gone:
  assumes s: "steady env"
  shows "valid (tracked B (\<lambda>h. F h \<and> fst h)) (kill_process (ledgered env)) (\<lambda>_. tracked (without Machine B) F) (\<lambda>_. False)"
  unfolding kill_process_def
proof (rule valid_seq)
  let ?F = "\<lambda>h. F h \<and> fst h"
  show "valid (tracked B ?F) (or_else (host (fe_kill (ledgered env))) ()) (\<lambda>_. tracked (without Machine B) ?F) (\<lambda>_. False)"
    using returned [of B ?F Machine "fe_kill env"] by (simp add: ledgered_def without_def [abs_def])
  show "valid (tracked (without Machine B) ?F) (seq (wait_for_process_exit (ledgered env) 1) (\<lambda>_. give ()))
      (\<lambda>_. tracked (without Machine B) F) (\<lambda>_. False)" for x :: unit
    by (rule valid_seq [OF wait_gone [OF s]])
       (auto intro!: valid_give elim!: tracked_mono simp: without_simps split: if_splits)
qed

lemma terminate_gone:
  assumes s: "steady env"
  shows "valid (tracked B (\<lambda>h. F h \<and> fst h)) (terminate_process (ledgered env)) (\<lambda>_. tracked (without Machine B) F) (\<lambda>_. False)"
  unfolding terminate_process_def
  by (rule valid_seq [OF calm_or_else [OF host_keeps(3)]], rule valid_seq [OF wait_gone [OF s]],
      rule reaped_stage, rule kill_gone [OF s])

lemma graceful_gone:
  assumes s: "steady env" and b: "\<And>h. \<not> fst h \<Longrightarrow> Machine \<notin> B h"
  shows "valid (tracked B F) (graceful_shutdown_process (ledgered env)) (\<lambda>_. tracked (without Machine B) F) (\<lambda>_. False)"
  unfolding graceful_shutdown_process_def
proof (rule valid_reading_at)
  fix st0 :: "'a ledgered fire"
  assume t: "tracked B F st0"
  let ?stop = "seq (try_send_ctrl_alt_del (ledgered env)) (\<lambda>_. seq (wait_for_process_exit (ledgered env) 5)
      (\<lambda>gone. if gone then give () else terminate_process (ledgered env)))"
  have stop: "valid (tracked B (\<lambda>h. F h \<and> fst h)) ?stop (\<lambda>_. tracked (without Machine B) F) (\<lambda>_. False)"
    by (rule valid_seq [OF ctrl_alt_del_calm [OF s]], rule valid_seq [OF wait_gone [OF s]], rule reaped_stage,
        rule terminate_gone [OF s])
  show "valid (\<lambda>st. st = st0) (if \<not> fi_process st0 then give () else ?stop)
      (\<lambda>_. tracked (without Machine B) F) (\<lambda>_. False)"
  proof (cases "fi_process st0")
    case True
    then have "tracked B (\<lambda>h. F h \<and> fst h) st0" using t by (simp add: tracked_def handles_def)
    with True stop show ?thesis by (simp add: valid_def)
  next
    case False
    then have "tracked (without Machine B) F st0"
      using t b [of "handles st0"] by (auto simp: tracked_def handles_def without_def)
    with False show ?thesis by (simp add: valid_def give_def)
  qed
qed

text \<open>The steps of \<open>stop\<close>. The last component of the handles is the flag \<open>fi_stopping\<close>.\<close>

lemma update_tracked:
  assumes "\<And>st. handles (f st) = g (handles st)" "\<And>st. fi_world (f st) = fi_world st"
    "\<And>st. fi_services (f st) = fi_services st \<or> fi_services (f st) = None"
    "\<And>h. F h \<Longrightarrow> B h \<subseteq> B' (g h)" "\<And>h. F h \<Longrightarrow> F' (g h)"
  shows "valid (tracked B F) (update f) (\<lambda>_. tracked B' F') E"
proof (rule valid_update)
  fix st :: "'a ledgered fire"
  assume t: "tracked B F st"
  have "\<exists>srv0. srv = lift_server srv0" if "fi_services (f st) = Some srv" for srv
    using assms(3) [of st] t that by (auto simp: tracked_def)
  then show "tracked B' F' (f st)"
    using t assms(1,2) [of st] assms(4,5) [of "handles st"] by (auto simp: tracked_def ledger_def)
qed

lemma close_conn_tracked:
  "valid (tracked owned F) (close_vsock_conn (ledgered env))
     (\<lambda>_. tracked owned (\<lambda>h. case h of (p, d, a, c, conn, s) \<Rightarrow> \<not> conn \<and> (\<exists>conn. F (p, d, a, c, conn, s)))) (\<lambda>_. False)"
  unfolding close_vsock_conn_def
proof (rule valid_reading_at)
  fix st0 :: "'a ledgered fire"
  assume t: "tracked owned F st0"
  let ?G = "\<lambda>h. case h of (p, d, a, c, conn, s) \<Rightarrow> \<not> conn \<and> (\<exists>conn. F (p, d, a, c, conn, s))"
  have "valid (tracked owned F) (seq (or_else (host (fe_close (ledgered env))) ()) (\<lambda>_. update (\<lambda>st. st\<lparr>fi_conn := False\<rparr>)))
      (\<lambda>_. tracked owned ?G) (\<lambda>_. False)"
  proof (rule valid_seq)
    show "valid (tracked owned F) (or_else (host (fe_close (ledgered env))) ()) (\<lambda>_. tracked (\<lambda>h. owned h - {Connection}) F) (\<lambda>_. False)"
      using returned [of owned F Connection "fe_close env"] by (simp add: ledgered_def)
    show "valid (tracked (\<lambda>h. owned h - {Connection}) F) (update (\<lambda>st. st\<lparr>fi_conn := False\<rparr>)) (\<lambda>_. tracked owned ?G) (\<lambda>_. False)" for x :: unit
      by (rule update_tracked [where g = "\<lambda>(p, d, a, c, conn, s). (p, d, a, c, False, s)"])
         (auto simp: handles_def split: prod.splits)
  qed
  with t show "valid (\<lambda>st. st = st0) (if \<not> fi_conn st0 then give () else
       seq (or_else (host (fe_close (ledgered env))) ()) (\<lambda>_. update (\<lambda>st. st\<lparr>fi_conn := False\<rparr>)))
      (\<lambda>_. tracked owned ?G) (\<lambda>_. False)"
    by (auto simp: valid_def give_def tracked_def handles_def split: if_splits)
qed

lemma drop_network_tracked:
  "valid (tracked (without Machine owned) (\<lambda>h. case h of (p, d, a, c, conn, s) \<Rightarrow> \<not> conn)) (drop_network (ledgered env))
     (\<lambda>_. tracked (without Machine owned) (\<lambda>h. case h of (p, d, a, c, conn, s) \<Rightarrow> \<not> conn \<and> a = None)) (\<lambda>_. False)"
  unfolding drop_network_def
proof (rule valid_reading_at)
  fix st0 :: "'a ledgered fire"
  let ?B = "without Machine owned" and ?F = "\<lambda>h. case h of (p, d, a, c, conn, s) \<Rightarrow> \<not> conn"
  let ?G = "\<lambda>h. case h of (p, d, a, c, conn, s) \<Rightarrow> \<not> conn \<and> a = None"
  assume t: "tracked ?B ?F st0"
  have step: "valid (tracked ?B (\<lambda>h. ?F h \<and> fst (snd (snd h)) = Some al))
      (seq (or_else (host (fe_fw_cleanup (ledgered env) al)) ()) (\<lambda>_.
       seq (or_else (host (fe_tap_destroy (ledgered env) (ta_tap al))) ()) (\<lambda>_.
         update (\<lambda>st. st\<lparr>fi_allocation := None\<rparr>))))
      (\<lambda>_. tracked ?B ?G) (\<lambda>_. False)" for al
  proof (rule valid_seq)
    let ?FA = "\<lambda>h. ?F h \<and> fst (snd (snd h)) = Some al"
    show "valid (tracked ?B ?FA) (or_else (host (fe_fw_cleanup (ledgered env) al)) ())
        (\<lambda>_. tracked (\<lambda>h. ?B h - {Rules al}) ?FA) (\<lambda>_. False)"
      using returned [of ?B ?FA "Rules al" "fe_fw_cleanup env al"] by (simp add: ledgered_def)
    show "valid (tracked (\<lambda>h. ?B h - {Rules al}) ?FA)
        (seq (or_else (host (fe_tap_destroy (ledgered env) (ta_tap al))) ()) (\<lambda>_. update (\<lambda>st. st\<lparr>fi_allocation := None\<rparr>)))
        (\<lambda>_. tracked ?B ?G) (\<lambda>_. False)" for x :: unit
    proof (rule valid_seq)
      show "valid (tracked (\<lambda>h. ?B h - {Rules al}) ?FA) (or_else (host (fe_tap_destroy (ledgered env) (ta_tap al))) ())
          (\<lambda>_. tracked (\<lambda>h. ?B h - {Rules al} - {TapDevice (ta_tap al)}) ?FA) (\<lambda>_. False)"
        using returned [of "\<lambda>h. ?B h - {Rules al}" ?FA "TapDevice (ta_tap al)" "fe_tap_destroy env (ta_tap al)"]
        by (simp add: ledgered_def)
      show "valid (tracked (\<lambda>h. ?B h - {Rules al} - {TapDevice (ta_tap al)}) ?FA)
          (update (\<lambda>st. st\<lparr>fi_allocation := None\<rparr>)) (\<lambda>_. tracked ?B ?G) (\<lambda>_. False)" for x :: unit
        by (rule update_tracked [where g = "\<lambda>(p, d, a, c, conn, s). (p, d, None, c, conn, s)"])
           (auto simp: handles_def without_def split: prod.splits if_splits)
    qed
  qed
  show "valid (\<lambda>st. st = st0)
      (case fi_allocation st0 of None \<Rightarrow> give ()
       | Some al \<Rightarrow> seq (or_else (host (fe_fw_cleanup (ledgered env) al)) ()) (\<lambda>_.
           seq (or_else (host (fe_tap_destroy (ledgered env) (ta_tap al))) ()) (\<lambda>_.
             update (\<lambda>st. st\<lparr>fi_allocation := None\<rparr>))))
      (\<lambda>_. tracked ?B ?G) (\<lambda>_. False)"
    by (rule valid_option_at [OF _ step]) (use t in \<open>auto simp: tracked_def handles_def\<close>)
qed

lemma drop_cid_tracked:
  "valid (tracked (without Machine owned) (\<lambda>h. case h of (p, d, a, c, conn, s) \<Rightarrow> \<not> conn \<and> a = None)) (drop_cid (ledgered env))
     (\<lambda>_. tracked (without Machine owned) (\<lambda>h. case h of (p, d, a, c, conn, s) \<Rightarrow> \<not> conn \<and> a = None \<and> c = None)) (\<lambda>_. False)"
  unfolding drop_cid_def
proof (rule valid_reading_at)
  fix st0 :: "'a ledgered fire"
  let ?B = "without Machine owned" and ?F = "\<lambda>h. case h of (p, d, a, c, conn, s) \<Rightarrow> \<not> conn \<and> a = None"
  let ?G = "\<lambda>h. case h of (p, d, a, c, conn, s) \<Rightarrow> \<not> conn \<and> a = None \<and> c = None"
  assume t: "tracked ?B ?F st0"
  have step: "valid (tracked ?B (\<lambda>h. ?F h \<and> fst (snd (snd (snd h))) = Some cid))
      (seq (or_else (host (fe_cid_release (ledgered env) cid)) ()) (\<lambda>_. update (\<lambda>st. st\<lparr>fi_cid := None\<rparr>)))
      (\<lambda>_. tracked ?B ?G) (\<lambda>_. False)" for cid
  proof (rule valid_seq)
    let ?FA = "\<lambda>h. ?F h \<and> fst (snd (snd (snd h))) = Some cid"
    show "valid (tracked ?B ?FA) (or_else (host (fe_cid_release (ledgered env) cid)) ())
        (\<lambda>_. tracked (\<lambda>h. ?B h - {CidLease cid}) ?FA) (\<lambda>_. False)"
      using returned [of ?B ?FA "CidLease cid" "fe_cid_release env cid"] by (simp add: ledgered_def)
    show "valid (tracked (\<lambda>h. ?B h - {CidLease cid}) ?FA) (update (\<lambda>st. st\<lparr>fi_cid := None\<rparr>))
        (\<lambda>_. tracked ?B ?G) (\<lambda>_. False)" for x :: unit
      by (rule update_tracked [where g = "\<lambda>(p, d, a, c, conn, s). (p, d, a, None, conn, s)"])
         (auto simp: handles_def without_def split: prod.splits if_splits)
  qed
  show "valid (\<lambda>st. st = st0)
      (case fi_cid st0 of None \<Rightarrow> give ()
       | Some cid \<Rightarrow> seq (or_else (host (fe_cid_release (ledgered env) cid)) ()) (\<lambda>_. update (\<lambda>st. st\<lparr>fi_cid := None\<rparr>)))
      (\<lambda>_. tracked ?B ?G) (\<lambda>_. False)"
    by (rule valid_option_at [OF _ step]) (use t in \<open>auto simp: tracked_def handles_def\<close>)
qed

definition idle :: "handles \<Rightarrow> bool" where
  "idle h = (h = (False, None, None, None, False, False))"

lemma drop_rest_tracked:
  "valid (tracked (without Machine owned) (\<lambda>h. case h of (p, d, a, c, conn, s) \<Rightarrow> \<not> conn \<and> a = None \<and> c = None))
     (seq (drop_dir (ledgered env)) (\<lambda>_. forget)) (\<lambda>_. tracked (\<lambda>h. {}) idle) (\<lambda>_. False)"
  unfolding drop_dir_def
proof (rule valid_reading_at [THEN valid_seq])
  fix st0 :: "'a ledgered fire"
  let ?B = "without Machine owned" and ?F = "\<lambda>h. case h of (p, d, a, c, conn, s) \<Rightarrow> \<not> conn \<and> a = None \<and> c = None"
  assume t: "tracked ?B ?F st0"
  have step: "valid (tracked ?B (\<lambda>h. ?F h \<and> fst (snd h) = Some dir)) (or_else (host (fe_rmtree (ledgered env) dir)) ())
      (\<lambda>_. tracked (\<lambda>h. {}) ?F) (\<lambda>_. False)" for dir
  proof -
    have "valid (tracked ?B (\<lambda>h. ?F h \<and> fst (snd h) = Some dir)) (or_else (host (fe_rmtree (ledgered env) dir)) ())
        (\<lambda>_. tracked (\<lambda>h. ?B h - {TempDir dir}) (\<lambda>h. ?F h \<and> fst (snd h) = Some dir)) (\<lambda>_. False)"
      using returned [of ?B _ "TempDir dir" "fe_rmtree env dir"] by (simp add: ledgered_def)
    then show ?thesis
      by (rule valid_weaken) (auto elim!: tracked_mono simp: without_def split: if_splits)
  qed
  show "valid (\<lambda>st. st = st0)
      (case fi_dir st0 of None \<Rightarrow> give () | Some dir \<Rightarrow> or_else (host (fe_rmtree (ledgered env) dir)) ())
      (\<lambda>_. tracked (\<lambda>h. {}) ?F) (\<lambda>_. False)"
    by (rule valid_option_at [OF _ step]) (use t in \<open>auto simp: tracked_def handles_def without_def split: if_splits\<close>)
next
  show "valid (tracked (\<lambda>h. {}) (\<lambda>h. case h of (p, d, a, c, conn, s) \<Rightarrow> \<not> conn \<and> a = None \<and> c = None)) forget
      (\<lambda>_. tracked (\<lambda>h. {}) idle) (\<lambda>_. False)" for x :: unit
    unfolding forget_def
    by (rule update_tracked [where g = "\<lambda>(p, d, a, c, conn, s). (False, None, a, c, conn, False)"])
       (auto simp: handles_def idle_def split: prod.splits)
qed

lemma stop_tracked:
  assumes s: "steady env"
  shows "valid (tracked owned (\<lambda>h. case h of (p, d, a, c, conn, stopping) \<Rightarrow> \<not> stopping)) (fire_stop (ledgered env))
     (\<lambda>_. tracked (\<lambda>h. {}) idle) (\<lambda>_. False)"
  unfolding fire_stop_def
proof (rule valid_reading_at)
  fix st0 :: "'a ledgered fire"
  let ?env = "ledgered env" and ?open = "\<lambda>h :: handles. case h of (p, d, a, c, conn, stopping) \<Rightarrow> True"
    and ?shut = "\<lambda>h :: handles. case h of (p, d, a, c, conn, stopping) \<Rightarrow> \<not> conn"
  assume t: "tracked owned (\<lambda>h. case h of (p, d, a, c, conn, stopping) \<Rightarrow> \<not> stopping) st0"
  note first = update_tracked [where g = "\<lambda>(p, d, a, c, conn, s). (p, d, a, c, conn, True)"
      and F = "\<lambda>h. case h of (p, d, a, c, conn, stopping) \<Rightarrow> \<not> stopping" and F' = ?open and B = owned and B' = owned]
  have close: "valid (tracked owned ?open) (or_else (close_vsock_conn ?env) ()) (\<lambda>_. tracked owned ?shut) (\<lambda>_. False)"
    by (rule or_else_calm, rule valid_weaken [OF close_conn_tracked]) (auto elim!: tracked_mono split: prod.splits)
  have gone: "valid (tracked owned ?shut) (or_else (graceful_shutdown_process ?env) ())
      (\<lambda>_. tracked (without Machine owned) ?shut) (\<lambda>_. False)"
    by (rule or_else_calm, rule graceful_gone [OF s]) (auto split: prod.splits if_splits)
  have services: "valid (tracked B F) drop_services (\<lambda>_. tracked B F) (\<lambda>_. False)" for B F
    unfolding drop_services_def by (rule update_tracked [where g = id]) (auto simp: handles_def)
  have all: "valid (tracked owned (\<lambda>h. case h of (p, d, a, c, conn, stopping) \<Rightarrow> \<not> stopping))
      (seq (update (\<lambda>st. st\<lparr>fi_stopping := True\<rparr>)) (\<lambda>_.
       seq (or_else (close_vsock_conn ?env) ()) (\<lambda>_.
       seq (or_else (graceful_shutdown_process ?env) ()) (\<lambda>_.
       seq (or_else (export_log_artifact ?env) ()) (\<lambda>_.
       seq drop_services (\<lambda>_.
       seq (drop_network ?env) (\<lambda>_.
       seq (drop_cid ?env) (\<lambda>_.
       seq (drop_dir ?env) (\<lambda>_. forget)))))))))
      (\<lambda>_. tracked (\<lambda>h. {}) idle) (\<lambda>_. False)"
    by (rule valid_seq [OF first], (auto simp: handles_def split: prod.splits)[5])
       (rule valid_seq [OF close] valid_seq [OF gone] valid_seq [OF calm_or_else [OF ledger_frame.export_keeps]]
         valid_seq [OF services] valid_seq [OF drop_network_tracked] valid_seq [OF drop_cid_tracked] drop_rest_tracked)+
  show "valid (\<lambda>st. st = st0) (if fi_stopping st0 then give () else
      (seq (update (\<lambda>st. st\<lparr>fi_stopping := True\<rparr>)) (\<lambda>_.
       seq (or_else (close_vsock_conn ?env) ()) (\<lambda>_.
       seq (or_else (graceful_shutdown_process ?env) ()) (\<lambda>_.
       seq (or_else (export_log_artifact ?env) ()) (\<lambda>_.
       seq drop_services (\<lambda>_.
       seq (drop_network ?env) (\<lambda>_.
       seq (drop_cid ?env) (\<lambda>_.
       seq (drop_dir ?env) (\<lambda>_. forget))))))))))
      (\<lambda>_. tracked (\<lambda>h. {}) idle) (\<lambda>_. False)"
    using valid_at [of _ _ _ _ st0, OF all t] t by (simp add: tracked_def handles_def)
qed

section \<open>Booting keeps track of what it takes\<close>

lemma taken:
  "valid (tracked B F) (host (taking mk f)) (\<lambda>x. tracked (\<lambda>h. insert (mk x) (B h)) F) (tracked B F)"
  by (auto simp: valid_def host_def taking_def tracked_def ledger_def handles_def split: prod.splits outcome.splits)

lemma tried: "valid (tracked B F) (host (trying x f)) (\<lambda>_. tracked (\<lambda>h. insert x (B h)) F) (tracked (\<lambda>h. insert x (B h)) F)"
  by (auto simp: valid_def host_def trying_def tracked_def ledger_def handles_def split: prod.splits outcome.splits)

abbreviation having :: "(handles \<Rightarrow> bool) \<Rightarrow> 's ledgered fire \<Rightarrow> bool" where
  "having F \<equiv> tracked owned F"

abbreviation settled :: "handles \<Rightarrow> bool" where
  "settled \<equiv> \<lambda>h. case h of (p, d, a, c, conn, stopping) \<Rightarrow> \<not> stopping"

lemma having_weaken: "having F st \<Longrightarrow> (\<And>h. F h \<Longrightarrow> F' h) \<Longrightarrow> having F' st"
  by (erule tracked_mono) auto

lemma ledgered_simps:
  "fe_mkdtemp (ledgered env) q = taking TempDir (fe_mkdtemp env q)"
  "fe_tap_create (ledgered env) q = taking (\<lambda>a. TapDevice (ta_tap a)) (fe_tap_create env q)"
  "fe_fw_apply (ledgered env) a = trying (Rules a) (fe_fw_apply env a)"
  "fe_cid_allocate (ledgered env) = taking CidLease (fe_cid_allocate env)"
  "fe_popen (ledgered env) args path = taking (\<lambda>_. Machine) (fe_popen env args path)"
  "fe_connect (ledgered env) path = trying Connection (fe_connect env path)"
  "fe_close (ledgered env) = returning Connection (fe_close env)"
  "fe_config (ledgered env) = fe_config env" "fe_template (ledgered env) = fe_template env"
  by (simp_all add: ledgered_def)

text \<open>
  Taking a resource and noting it in a field, as one step from handles \<open>h0\<close>: with the field set
  the object owns the resource too.
\<close>

lemma take_and_note:
  assumes "\<And>x st. handles (note x st) = g x (handles st)" "\<And>x st. fi_world (note x st) = fi_world st"
    "\<And>x st. fi_services (note x st) = fi_services st"
    "\<And>x h. F h \<Longrightarrow> insert (mk x) (owned h) \<subseteq> owned (g x h)" "\<And>x h. F h \<Longrightarrow> G x (g x h)" "\<And>h. F h \<Longrightarrow> settled h"
  shows "valid (having F) (seq (host (taking mk f)) (\<lambda>x. seq (update (note x)) (\<lambda>_. give x))) (\<lambda>x. having (G x)) (having settled)"
proof (rule valid_seq)
  show "valid (having F) (host (taking mk f)) (\<lambda>x. tracked (\<lambda>h. insert (mk x) (owned h)) F) (having settled)"
    by (rule valid_weaken [OF taken [of owned F mk f]]) (assumption, assumption, erule having_weaken, erule assms(6))
  show "valid (tracked (\<lambda>h. insert (mk x) (owned h)) F) (seq (update (note x)) (\<lambda>_. give x)) (\<lambda>x. having (G x)) (having settled)" for x
    by (rule valid_seq, rule update_tracked [where g = "g x" and F' = "G x" and B' = owned])
       (use assms(1-5) in \<open>auto intro!: valid_give\<close>)
qed

lemma take_and_note_unit:
  assumes "valid P (seq m (\<lambda>x. seq (update (note x)) (\<lambda>_. give x))) Q E"
  shows "valid P (seq m (\<lambda>x. update (note x))) (\<lambda>_ st. \<exists>x. Q x st) E"
proof (rule validI)
  fix st u st'
  assume a: "P st" "seq m (\<lambda>x. update (note x)) st = (Done u, st')"
  then obtain x st1 where "m st = (Done x, st1)" "st' = note x st1"
    by (auto simp: seq_def update_def split: prod.splits outcome.splits)
  then have "seq m (\<lambda>x. seq (update (note x)) (\<lambda>_. give x)) st = (Done x, st')"
    by (simp add: seq_def update_def give_def)
  with validD(1) [OF assms a(1)] show "\<exists>x. Q x st'" by blast
next
  fix st e st'
  assume a: "P st" "seq m (\<lambda>x. update (note x)) st = (Raised e, st')"
  then have "seq m (\<lambda>x. seq (update (note x)) (\<lambda>_. give x)) st = (Raised e, st')"
    by (auto simp: seq_def update_def split: prod.splits outcome.splits)
  with validD(2) [OF assms a(1)] show "E st'" by blast
qed

lemma prepare_tracked:
  "valid (having idle) (prepare_runtime_paths (ledgered env) session)
     (\<lambda>_. having (\<lambda>h. \<exists>d. h = (False, Some d, None, None, False, False))) (having settled)"
proof -
  have step: "valid (having idle)
      (seq (host (taking TempDir (fe_mkdtemp env (''strangeclaw-'' @ session @ ''-'')))) (\<lambda>x. seq (update (fi_dir_update (\<lambda>_. Some x))) (\<lambda>_. give x)))
      (\<lambda>x. having (\<lambda>h. h = (False, Some x, None, None, False, False))) (having settled)"
    by (rule take_and_note [where g = "\<lambda>x (p, d, a, c, conn, s). (p, Some x, a, c, conn, s)"])
       (auto simp: handles_def idle_def)
  show ?thesis
    unfolding prepare_runtime_paths_def ledgered_simps
    by (rule valid_weaken [OF take_and_note_unit [OF step]]) (auto elim!: having_weaken)
qed

lemma tap_tracked:
  "valid (having (\<lambda>h. \<exists>d. h = (False, Some d, None, None, False, False)))
     (seq (host (fe_tap_create (ledgered env) session)) (\<lambda>a. seq (update (\<lambda>st. st\<lparr>fi_allocation := Some a\<rparr>)) (\<lambda>_. give a)))
     (\<lambda>a. having (\<lambda>h. \<exists>d. h = (False, Some d, Some a, None, False, False))) (having settled)"
proof -
  have "valid (having (\<lambda>h. \<exists>d. h = (False, Some d, None, None, False, False)))
     (seq (host (taking (\<lambda>a. TapDevice (ta_tap a)) (fe_tap_create env session)))
        (\<lambda>a. seq (update (\<lambda>st. st\<lparr>fi_allocation := Some a\<rparr>)) (\<lambda>_. give a)))
     (\<lambda>a. having (\<lambda>h. \<exists>d. h = (False, Some d, Some a, None, False, False))) (having settled)"
    by (rule take_and_note [where g = "\<lambda>x (p, d, a, c, conn, s). (p, d, Some x, c, conn, s)"])
       (auto simp: handles_def)
  then show ?thesis by (simp add: ledgered_def)
qed

lemma fw_tracked:
  "valid (having (\<lambda>h. \<exists>d. h = (False, Some d, Some a, None, False, False))) (host (fe_fw_apply (ledgered env) a))
     (\<lambda>_. having (\<lambda>h. \<exists>d. h = (False, Some d, Some a, None, False, False))) (having settled)"
  unfolding ledgered_simps by (rule valid_weaken [OF tried]) (auto elim!: tracked_mono)

lemma cid_tracked:
  "valid (having (\<lambda>h. \<exists>d. h = (False, Some d, Some a, None, False, False)))
     (seq (host (fe_cid_allocate (ledgered env))) (\<lambda>cid. update (\<lambda>st. st\<lparr>fi_cid := Some cid\<rparr>)))
     (\<lambda>_. having (\<lambda>h. \<exists>d cid. h = (False, Some d, Some a, Some cid, False, False))) (having settled)"
proof -
  have step: "valid (having (\<lambda>h. \<exists>d. h = (False, Some d, Some a, None, False, False)))
     (seq (host (taking CidLease (fe_cid_allocate env))) (\<lambda>x. seq (update (fi_cid_update (\<lambda>_. Some x))) (\<lambda>_. give x)))
     (\<lambda>x. having (\<lambda>h. \<exists>d. h = (False, Some d, Some a, Some x, False, False))) (having settled)"
    by (rule take_and_note [where g = "\<lambda>x (p, d, a, c, conn, s). (p, d, a, Some x, conn, s)"]) (auto simp: handles_def)
  show ?thesis
    unfolding ledgered_simps by (rule valid_weaken [OF take_and_note_unit [OF step]]) (auto elim!: having_weaken)
qed

lemma launch_tracked:
  "valid (having (\<lambda>h. \<exists>d cid. h = (False, Some d, Some a, Some cid, False, False))) (launch_firecracker (ledgered env))
     (\<lambda>_. having (\<lambda>h. \<exists>d cid. h = (True, Some d, Some a, Some cid, False, False))) (having settled)"
proof -
  have step: "valid (having (\<lambda>h. \<exists>d cid. h = (False, Some d, Some a, Some cid, False, False)))
     (seq (host (taking (\<lambda>_. Machine) (fe_popen env args path))) (\<lambda>x. seq (update (fi_process_update (\<lambda>_. True))) (\<lambda>_. give x)))
     (\<lambda>x. having (\<lambda>h. \<exists>d cid. h = (True, Some d, Some a, Some cid, False, False))) (having settled)" for args path
    by (rule take_and_note [where g = "\<lambda>x (p, d, a, c, conn, s). (True, d, a, c, conn, s)"]) (auto simp: handles_def)
  show ?thesis
    unfolding launch_firecracker_def ledgered_simps
    by (rule valid_with_dir) (auto elim!: having_weaken intro!: valid_weaken [OF take_and_note_unit [OF step]])
qed

section \<open>Connecting\<close>

lemma handshake_tracked:
  "valid (having F) (handshake (ledgered env) path n) (\<lambda>_. tracked (\<lambda>h. insert Connection (owned h)) F)
     (tracked (\<lambda>h. insert Connection (owned h)) F)"
  unfolding handshake_def ledgered_simps
  by (rule valid_seq [OF tried])
     (intro act_rules ledger_frame.quiet ledger_frame.recv_line_keeps | assumption)+

lemma connect_loop_tracked:
  "valid (having F) (connect_loop (ledgered env) path d m last_error n)
     (\<lambda>_. tracked (\<lambda>h. insert Connection (owned h)) F) (having F)"
proof (induction n arbitrary: last_error)
  case (Suc n)
  let ?C = "tracked (\<lambda>h. insert Connection (owned h)) F"
  have tried: "valid (having F) (attempt (\<lambda>_. True) (handshake (ledgered env) path m)) (\<lambda>_. ?C) (having F)"
    unfolding attempt_def
    by (rule valid_handle_all, rule valid_seq [OF handshake_tracked]) (auto intro!: valid_give)
  have closed: "valid ?C (or_else (host (fe_close (ledgered env))) ()) (\<lambda>_. having F) (having F)"
    unfolding ledgered_simps by (rule valid_weaken [OF returned]) (auto elim!: tracked_mono)
  show ?case
    by (simp, (intro act_rules ledger_frame.quiet Suc.IH valid_seq [OF tried] valid_seq [OF closed]
        valid_sum valid_give | assumption)+)
qed (simp, intro act_rules)

section \<open>Starting and stopping\<close>

definition up :: "handles \<Rightarrow> bool" where
  "up h = (\<exists>d a cid. h = (True, Some d, Some a, Some cid, True, False))"

lemma keeps_settled:
  assumes "keeps (having F) m" "\<And>h. F h \<Longrightarrow> settled h"
  shows "valid (having F) m (\<lambda>_. having F) (having settled)"
  by (rule valid_weaken [OF assms(1)]) (assumption, assumption, erule having_weaken, erule assms(2))

lemma services_tracked:
  "valid (having idle) (host (fe_services (ledgered env) creds template))
     (\<lambda>srv st. having idle st \<and> (\<exists>srv0. srv = lift_server srv0)) (having settled)"
proof (rule validI)
  fix st :: "'a ledgered fire" and x st'
  assume a: "having idle st" "host (fe_services (ledgered env) creds template) st = (Done x, st')"
  then have "having idle st'"
    using validD(1) [OF ledger_steps(1) [of owned idle], of st "seq (fe_services env creds template) (\<lambda>srv. give (lift_server srv))" x st']
    by (simp add: ledgered_def)
  moreover have "\<exists>srv0. x = lift_server srv0"
    using a(2) by (auto simp: ledgered_def host_def through_def seq_def give_def split: prod.splits outcome.splits)
  ultimately show "having idle st' \<and> (\<exists>srv0. x = lift_server srv0)" ..
next
  fix st :: "'a ledgered fire" and e st'
  assume a: "having idle st" "host (fe_services (ledgered env) creds template) st = (Raised e, st')"
  then have "having idle st'"
    using validD(2) [OF ledger_steps(1) [of owned idle], of st "seq (fe_services env creds template) (\<lambda>srv. give (lift_server srv))" e st']
    by (simp add: ledgered_def)
  then show "having settled st'" by (rule having_weaken) (simp add: idle_def)
qed

lemma note_services:
  "valid (\<lambda>st. having idle st \<and> (\<exists>srv0. srv = lift_server srv0)) (update (\<lambda>st. st\<lparr>fi_services := Some srv\<rparr>))
     (\<lambda>_. having idle) E"
  by (rule valid_update) (auto simp: tracked_def handles_def ledger_def)

lemma boot_tracked: "valid (having idle) (boot (ledgered env) n session) (\<lambda>_. having up) (having settled)"
proof -
  let ?env = "ledgered env"
  let ?D = "\<lambda>h. \<exists>d. h = (False, Some d, None, None, False, False)"
  let ?U = "\<lambda>a h. \<exists>d cid. h = (True, Some d, Some a, Some cid, False, False)"
  have settled: "idle h \<Longrightarrow> settled h" "?D h \<Longrightarrow> settled h" "?U a h \<Longrightarrow> settled h" "up h \<Longrightarrow> settled h" for h a
    by (auto simp: idle_def up_def)
  have secrets: "valid (having idle) (seq (host (fe_secrets ?env)) (\<lambda>file. from_res (load_secrets file)))
      (\<lambda>_. having idle) (having settled)"
    by (rule keeps_settled [OF _ settled(1)]) (auto intro!: act_rules simp: ledgered_def ledger_steps)
  have creds: "valid (having idle) (update (\<lambda>st. st\<lparr>fi_credentials := c\<rparr>)) (\<lambda>_. having idle) (having settled)" for c
    by (rule update_tracked [where g = id]) (auto simp: handles_def)
  have copy: "valid (having ?D) (copy_rootfs ?env) (\<lambda>_. having ?D) (having settled)"
    by (rule keeps_settled [OF ledger_frame.copy_rootfs_keeps settled(2)])
  have wait: "valid (having (?U a)) (wait_for_api_socket ?env n t) (\<lambda>_. having (?U a)) (having settled)" for a t
    by (rule keeps_settled [OF ledger_frame.api_socket_keeps(2) settled(3)])
  have payload: "valid (having (?U a)) (from_res r) (\<lambda>_. having (?U a)) (having settled)" for a and r :: "pydict res"
    by (rule keeps_settled [OF keeps_from_res settled(3)])
  have conf: "valid (having (?U a)) (configure_microvm ?env p) (\<lambda>_. having (?U a)) (having settled)" for a p
    by (rule keeps_settled [OF ledger_frame.configure_keeps settled(3)])
  have loop: "valid (having (?U a)) (connect_loop ?env path d m last_error k)
      (\<lambda>_. tracked (\<lambda>h. insert Connection (owned h)) (?U a)) (having settled)" for a path d m last_error k
    by (rule valid_weaken [OF connect_loop_tracked]) (assumption, assumption, erule having_weaken, erule settled(3))
  have connect: "valid (having (?U a)) (seq (connect_vsock_with_retry ?env n t) (\<lambda>_. update (\<lambda>st. st\<lparr>fi_conn := True\<rparr>)))
      (\<lambda>_. having up) (having settled)" for a t
  proof (rule valid_seq)
    show "valid (having (?U a)) (connect_vsock_with_retry ?env n t) (\<lambda>_. tracked (\<lambda>h. insert Connection (owned h)) (?U a)) (having settled)"
      unfolding connect_vsock_with_retry_def
      by (rule valid_with_dir, erule having_weaken, erule settled(3),
          rule valid_seq [OF keeps_settled [OF ledger_frame.quiet(1) settled(3)]], assumption, rule loop)
    show "valid (tracked (\<lambda>h. insert Connection (owned h)) (?U a)) (update (\<lambda>st. st\<lparr>fi_conn := True\<rparr>))
        (\<lambda>_. having up) (having settled)" for x :: unit
      by (rule update_tracked [where g = "\<lambda>(p, d, a, c, conn, s). (p, d, a, c, True, s)"]) (auto simp: handles_def up_def)
  qed
  have ready: "valid (having up) (await_agent_ready ?env n) (\<lambda>_. having up) (having settled)"
    by (rule keeps_settled [OF ledger_frame.await_ready_keeps settled(4)])
  show ?thesis
    unfolding boot_def
    by (rule valid_seq [OF secrets] valid_seq [OF creds] valid_seq [OF services_tracked] valid_seq [OF note_services]
        valid_seq [OF prepare_tracked] valid_seq [OF copy] valid_seq [OF tap_tracked] valid_seq [OF fw_tracked]
        valid_seq [OF cid_tracked] valid_seq [OF launch_tracked] valid_seq [OF wait] valid_seq [OF payload]
        valid_seq [OF conf] valid_seq [OF connect] ready)+
qed

lemma read_tail_calm: "steady env \<Longrightarrow> calm (tracked B F) (read_tail (ledgered env) path n)"
  unfolding read_tail_def
  by (intro act_rules keeps_seq [OF exists_calm] ledger_frame.quiet | assumption)+

lemma diagnostics_calm: "steady env \<Longrightarrow> calm (tracked B F) (build_boot_diagnostics (ledgered env))"
  unfolding build_boot_diagnostics_def read_process_stderr_def read_log_tail_bytes_def read_console_tail_def Let_def
  by (intro act_rules read_tail_calm ledger_frame.quiet | assumption)+

lemma stop_idle:
  assumes "steady env"
  shows "valid (having settled) (fire_stop (ledgered env)) (\<lambda>_. having idle) (\<lambda>_. False)"
  by (rule valid_weaken [OF stop_tracked [OF assms]]) (auto elim!: tracked_mono)

lemma is_running_calm: "steady env \<Longrightarrow> calm (tracked B F) (is_running (ledgered env))"
proof -
  assume "steady env"
  then have "calm (tracked B F) (host (fe_poll (ledgered env)))"
    using host_keeps(4) [of B F env]
    by (auto simp: steady_def valid_def ledgered_def host_def reaping_def split: prod.splits outcome.splits) (metis fst_conv)
  then show ?thesis
    unfolding is_running_def by (intro valid_reading valid_if valid_give valid_seq) (auto intro: valid_give)
qed

lemma start_running:
  "is_running env st = (Done True, st') \<Longrightarrow>
    fire_start env n session_id st = (Raised (Exn RuntimeError ''FireSandbox is already running.''), st')"
  by (simp add: fire_start_def seq_def fail_def throw_def)

lemma valid_cases:
  "valid (\<lambda>st. P st \<and> C st) m Q E \<Longrightarrow> valid (\<lambda>st. P st \<and> \<not> C st) m Q E \<Longrightarrow> valid P m Q E"
  by (rule validI) (metis (mono_tags, lifting) validD)+

text \<open>A start that does not find the sandbox running ends up, or with everything given back.\<close>

lemma start_down:
  assumes s: "steady env" and g: "\<And>h. G h \<Longrightarrow> idle h \<or> up h"
  shows "valid (\<lambda>st. having G st \<and> fst (is_running (ledgered env) st) \<noteq> Done True)
    (fire_start (ledgered env) n session_id) (\<lambda>_. having up) (having idle)"
proof -
  let ?env = "ledgered env"
  have settled: "idle h \<Longrightarrow> settled h" "G h \<Longrightarrow> settled h" for h
    using g [of h] by (auto simp: idle_def up_def)
  have down: "valid (\<lambda>st. having G st \<and> fst (is_running ?env st) \<noteq> Done True) (is_running ?env)
      (\<lambda>running st. having G st \<and> \<not> running) (having idle)"
    using is_running_calm [OF s, of owned G] by (fastforce simp: valid_def split: prod.splits outcome.splits)
  have fresh: "valid (having G) (reading (\<lambda>st. if fi_process st then fire_stop ?env else give ())) (\<lambda>_. having idle) (having idle)"
  proof (rule valid_reading_at)
    fix st0 :: "'a ledgered fire"
    assume t: "having G st0"
    then have "having settled st0" by (rule having_weaken) (rule settled(2))
    moreover have "having idle st0" if "\<not> fi_process st0"
      using t g [of "handles st0"] that by (auto simp: tracked_def handles_def idle_def up_def)
    moreover have "valid (having settled) (fire_stop ?env) (\<lambda>_. having idle) (having idle)"
      by (rule valid_weaken [OF stop_idle [OF s]]) simp_all
    ultimately show "valid (\<lambda>st. st = st0) (if fi_process st0 then fire_stop ?env else give ()) (\<lambda>_. having idle) (having idle)"
      by (cases "fi_process st0") (auto intro!: valid_give elim: valid_at)
  qed
  have quiet: "valid (having idle) (update f) (\<lambda>_. having idle) (having idle)"
    if "\<And>st. handles (f st) = handles st" "\<And>st. fi_world (f st) = fi_world st" "\<And>st. fi_services (f st) = fi_services st" for f
    by (rule update_tracked [where g = id]) (use that in auto)
  have fail_boot: "valid (having settled) (seq (build_boot_diagnostics ?env) (\<lambda>d. seq (fire_stop ?env) (\<lambda>_. throw VMBootError (msg d))))
      Q (having idle)" for Q :: "unit \<Rightarrow> 'a ledgered fire \<Rightarrow> bool" and msg
    by (rule valid_seq [OF valid_weaken [OF diagnostics_calm [OF s]]], assumption, assumption, simp,
        rule valid_seq [OF valid_weaken [OF stop_idle [OF s]]], assumption, assumption, simp,
        rule valid_throw, assumption)
  have boot: "valid (having idle) (handle_exn (\<lambda>_. True) (boot ?env n session) (\<lambda>e.
      seq (build_boot_diagnostics ?env) (\<lambda>d. seq (fire_stop ?env) (\<lambda>_. throw VMBootError (msg e d))))) (\<lambda>_. having up) (having idle)" for session msg
    by (rule valid_handle_all [OF boot_tracked fail_boot])
  have sane: "valid (having idle) (from_res r) (\<lambda>_. having idle) (having idle)" for r :: "string res"
    by (rule valid_from_res) auto
  have choose: "valid (having idle) (case session_id of None \<Rightarrow> give ()
      | Some q \<Rightarrow> seq (from_res (sanitize_session_id q)) (\<lambda>sane. update (\<lambda>st. st\<lparr>fi_start_session := sane\<rparr>)))
      (\<lambda>_. having idle) (having idle)"
    by (intro valid_option valid_give valid_seq [OF sane] quiet) (auto simp: handles_def)
  have rest: "valid (having G)
      (seq (reading (\<lambda>st. if fi_process st then fire_stop ?env else give ())) (\<lambda>_.
       seq (update (\<lambda>st. st\<lparr>fi_handlers := fi_handlers st \<or> fe_exit_handlers ?env\<rparr>)) k)) (\<lambda>_. having up) (having idle)"
    if "\<And>x. valid (having idle) (k x) (\<lambda>_. having up) (having idle)" for k
    by (rule valid_seq [OF fresh], rule valid_seq [OF quiet]) (simp_all add: handles_def that)
  show ?thesis
    unfolding fire_start_def
    by (rule valid_seq [OF down], rule valid_if, rule valid_fail, simp, rule valid_weaken [OF rest], simp_all,
        rule valid_seq [OF choose], rule valid_reading, rule valid_seq [OF sane],
        rule valid_seq [OF quiet], simp_all add: handles_def, rule boot)
qed

lemma start_tracked:
  assumes s: "steady env" and g: "\<And>h. idle h \<Longrightarrow> G h" "\<And>h. G h \<Longrightarrow> idle h \<or> up h"
  shows "valid (having G) (fire_start (ledgered env) n session_id) (\<lambda>_. having up) (having G)"
proof -
  have down: "valid (\<lambda>st. having G st \<and> fst (is_running (ledgered env) st) \<noteq> Done True)
      (fire_start (ledgered env) n session_id) (\<lambda>_. having up) (having G)"
    by (rule valid_weaken [OF start_down [OF s g(2)]]) (auto elim!: having_weaken dest: g(1))
  have "valid (\<lambda>st. having G st \<and> fst (is_running (ledgered env) st) = Done True)
      (fire_start (ledgered env) n session_id) (\<lambda>_. having up) (having G)"
  proof (rule validI)
    fix st :: "'a ledgered fire" and r st'
    assume "having G st \<and> fst (is_running (ledgered env) st) = Done True"
    then obtain st1 where r: "is_running (ledgered env) st = (Done True, st1)" "having G st" by (metis prod.collapse)
    from validD(1) [OF is_running_calm [OF s] r(2,1)] have "having G st1" .
    moreover note start_running [OF r(1), of n session_id]
    ultimately show "fire_start (ledgered env) n session_id st = (Done r, st') \<Longrightarrow> having up st'"
      "fire_start (ledgered env) n session_id st = (Raised e, st') \<Longrightarrow> having G st'" for e
      by simp_all
  qed
  from valid_cases [OF this down] show ?thesis .
qed

section \<open>The sandbox over its life\<close>

datatype fire_op =
    Start nat "string option"
  | Stop
  | Send pydict
  | Receive nat "pyfloat option"
  | SendTask pydict
  | Run nat pydict

text \<open>
  What a caller does with the sandbox; the result of an operation is left aside, its exceptions are
  caught. A history ends in no state when an operation does not return.
\<close>

primrec fire_step :: "'s fire_env \<Rightarrow> fire_op \<Rightarrow> ('s, unit) fact" where
  "fire_step env (Start n session_id) = fire_start env n session_id"
| "fire_step env Stop = fire_stop env"
| "fire_step env (Send event) = fire_send env event"
| "fire_step env (Receive n timeout) = seq (fire_receive env n timeout) (\<lambda>_. give ())"
| "fire_step env (SendTask task) = fire_send_task env task"
| "fire_step env (Run n task) = fire_run env n task"

primrec fire_history :: "'s fire_env \<Rightarrow> fire_op list \<Rightarrow> 's fire \<Rightarrow> 's fire option" where
  "fire_history env [] st = Some st"
| "fire_history env (x # xs) st =
     (case fire_step env x st of (Blocked, st') \<Rightarrow> None | (_, st') \<Rightarrow> fire_history env xs st')"

definition resting :: "handles \<Rightarrow> bool" where
  "resting h = (idle h \<or> up h)"

lemma settled_resting: "resting h \<Longrightarrow> settled h"
  by (auto simp: resting_def idle_def up_def)

lemma start_resting:
  "steady env \<Longrightarrow> valid (having resting) (fire_start (ledgered env) n session_id) (\<lambda>_. having up) (having resting)"
  by (rule start_tracked) (auto simp: resting_def)

lemma stop_resting:
  "steady env \<Longrightarrow> valid (having resting) (fire_stop (ledgered env)) (\<lambda>_. having idle) (\<lambda>_. False)"
  by (erule valid_weaken [OF stop_idle]) (erule having_weaken, erule settled_resting, assumption+)

lemma step_resting:
  assumes s: "steady env"
  shows "keeps (having resting) (fire_step (ledgered env) x)"
proof -
  have resting: "having up st \<Longrightarrow> having resting st" "having idle st \<Longrightarrow> having resting st" for st :: "'a ledgered fire"
    by (auto elim: having_weaken simp: resting_def)
  have start: "keeps (having resting) (fire_start (ledgered env) n session_id)" for n session_id
    by (rule valid_weaken [OF start_resting [OF s]]) (auto intro: resting)
  have stop: "keeps (having resting) (fire_stop (ledgered env))"
    by (rule valid_weaken [OF stop_resting [OF s]]) (auto intro: resting)
  have quiet: "keeps (having resting) (update (\<lambda>st. st\<lparr>fi_start_session := q\<rparr>))" for q
    by (rule update_tracked [where g = id]) (auto simp: handles_def)
  show ?thesis
    by (cases x) (simp_all add: fire_run_def,
      (intro act_rules start stop quiet ledger_frame.send_keeps ledger_frame.receive_keeps
         ledger_frame.send_task_keeps | assumption)+)
qed

lemma keeps_step: "keeps P m \<Longrightarrow> P st \<Longrightarrow> m st = (r, st') \<Longrightarrow> r \<noteq> Blocked \<Longrightarrow> P st'"
  unfolding valid_def by (cases r) force+

lemma valid_result:
  "valid P m Q E \<Longrightarrow> P st
    \<Longrightarrow> (case m st of (Done x, st') \<Rightarrow> Q x st' | (Raised e, st') \<Rightarrow> E st' | (Blocked, st') \<Rightarrow> True)"
  by (simp add: valid_def)

lemma history_resting:
  "steady env \<Longrightarrow> having resting st \<Longrightarrow> fire_history (ledgered env) xs st = Some st' \<Longrightarrow> having resting st'"
proof (induction xs arbitrary: st)
  case (Cons x xs)
  obtain r st1 where m: "fire_step (ledgered env) x st = (r, st1)" by fastforce
  with Cons.prems(3) have "r \<noteq> Blocked" "fire_history (ledgered env) xs st1 = Some st'"
    by (cases r; simp)+
  then show ?case
    using Cons.IH [OF Cons.prems(1)] keeps_step [OF step_resting [OF Cons.prems(1)] Cons.prems(2) m] by blast
qed simp

lemma new_resting: "having resting (new_fire (ledgered env) (w, []))"
  by (simp add: tracked_def ledger_def handles_def new_fire_def resting_def idle_def)

section \<open>When no release raises\<close>

text \<open>An environment none of whose releases raises: then no release is recorded as failed.\<close>

definition releasing :: "'s fire_env \<Rightarrow> bool" where
  "releasing env \<longleftrightarrow>
     (\<forall>d w e. fst (fe_rmtree env d w) \<noteq> Raised e) \<and> (\<forall>t w e. fst (fe_tap_destroy env t w) \<noteq> Raised e)
     \<and> (\<forall>a w e. fst (fe_fw_cleanup env a w) \<noteq> Raised e) \<and> (\<forall>c w e. fst (fe_cid_release env c w) \<noteq> Raised e)
     \<and> (\<forall>w e. fst (fe_kill env w) \<noteq> Raised e) \<and> (\<forall>w e. fst (fe_close env w) \<noteq> Raised e)"

definition clean :: "'s fire_env \<Rightarrow> 's ledgered fire \<Rightarrow> bool" where
  "clean env st \<longleftrightarrow> (\<forall>srv. fi_services st = Some srv \<longrightarrow> (\<exists>srv0. srv = lift_server srv0)) \<and> (releasing env \<longrightarrow> failed st = {})"

lemma clean_steps:
  "keeps (clean env) (host (through f))" "keeps (clean env) (host (taking mk g))" "keeps (clean env) (host (trying x f))"
  "keeps (clean env) (host (reaping gone g))"
  "(\<And>w e. releasing env \<Longrightarrow> fst (f w) \<noteq> Raised e) \<Longrightarrow> keeps (clean env) (host (returning x f))"
proof -
  show "keeps (clean env) (host (returning x f))" if "\<And>w e. releasing env \<Longrightarrow> fst (f w) \<noteq> Raised e"
    using that
    by (auto simp: valid_def host_def returning_def clean_def failed_def split: prod.splits outcome.splits) (metis fst_conv)
qed (auto simp: valid_def host_def through_def taking_def trying_def reaping_def clean_def failed_def
    split: prod.splits outcome.splits)

interpretation clean_frame: fire_frame "ledgered env" "clean env" for env
proof
  fix st :: "'a ledgered fire" and b
  show "clean env st \<Longrightarrow> clean env (st\<lparr>fi_buffer := b\<rparr>)" by (simp add: clean_def failed_def)
next
  fix st :: "'a ledgered fire" and srv event
  assume t: "clean env st" "fi_services st = Some srv"
  then obtain srv0 where "srv = lift_server srv0" by (auto simp: clean_def)
  with t show "clean env (st\<lparr>fi_world := snd (handle_incoming srv event (fi_world st))\<rparr>)"
    by (simp add: clean_def failed_def handle_incoming_lifted)
qed (simp_all add: ledgered_def clean_steps)

lemma clean_ops:
  "keeps (clean env) (host (fe_mkdtemp (ledgered env) q))" "keeps (clean env) (host (fe_tap_create (ledgered env) q))"
  "keeps (clean env) (host (fe_fw_apply (ledgered env) a))" "keeps (clean env) (host (fe_cid_allocate (ledgered env)))"
  "keeps (clean env) (host (fe_popen (ledgered env) args q))" "keeps (clean env) (host (fe_connect (ledgered env) q))"
  "keeps (clean env) (host (fe_rmtree (ledgered env) q))" "keeps (clean env) (host (fe_tap_destroy (ledgered env) q))"
  "keeps (clean env) (host (fe_fw_cleanup (ledgered env) a))" "keeps (clean env) (host (fe_cid_release (ledgered env) c))"
  "keeps (clean env) (host (fe_kill (ledgered env)))" "keeps (clean env) (host (fe_close (ledgered env)))"
  "keeps (clean env) (host (fe_secrets (ledgered env)))" "keeps (clean env) (host (fe_wait (ledgered env) t))"
  "keeps (clean env) (host (fe_terminate (ledgered env)))"
  by (simp_all add: ledgered_def clean_steps(1-4)) ((rule clean_steps(5), simp add: releasing_def)+)

lemma clean_update:
  assumes "\<And>st. fi_world (f st) = fi_world st" "\<And>st. fi_services (f st) = fi_services st \<or> fi_services (f st) = None"
  shows "keeps (clean env) (update f)"
proof (rule valid_update)
  fix st :: "'a ledgered fire"
  assume "clean env st"
  then show "clean env (f st)"
    using assms(1,2) [of st] by (auto simp: clean_def failed_def)
qed

lemma clean_or_else: "keeps (clean env) m \<Longrightarrow> keeps (clean env) (or_else m x)"
  by (rule calm_or_else)

text \<open>The rules of \<open>act_rules\<close> that leave updates alone, since \<open>clean_update\<close> treats them.\<close>

lemmas walk_rules = valid_give valid_throw valid_fail keeps_from_res valid_blocked keeps_seq keeps_handle keeps_attempt
  valid_reading valid_if valid_option valid_sum valid_prod valid_with_dir clean_update clean_or_else

lemma clean_stop: "keeps (clean env) (fire_stop (ledgered env))"
proof -
  note rules = walk_rules clean_ops clean_frame.quiet clean_frame.export_keeps
  have wait: "keeps (clean env) (wait_for_process_exit (ledgered env) t)" for t
    unfolding wait_for_process_exit_def by (intro rules | assumption)+
  have kill: "keeps (clean env) (kill_process (ledgered env))"
    unfolding kill_process_def by (intro rules wait | assumption)+
  have terminate: "keeps (clean env) (terminate_process (ledgered env))"
    unfolding terminate_process_def by (intro rules wait kill | assumption)+
  have shutdown: "keeps (clean env) (graceful_shutdown_process (ledgered env))"
    unfolding graceful_shutdown_process_def try_send_ctrl_alt_del_def by (intro rules wait terminate | assumption)+
  show ?thesis
    unfolding fire_stop_def close_vsock_conn_def drop_services_def drop_network_def drop_cid_def drop_dir_def forget_def
    by ((intro rules shutdown | assumption)+; simp)
qed

lemma clean_services:
  "valid (clean env) (host (fe_services (ledgered env) creds template))
     (\<lambda>srv st. clean env st \<and> (\<exists>srv0. srv = lift_server srv0)) (clean env)"
  by (auto simp: valid_def host_def ledgered_def through_def seq_def give_def clean_def failed_def
      split: prod.splits outcome.splits)

lemma clean_boot: "keeps (clean env) (boot (ledgered env) n session)"
proof -
  note rules = walk_rules clean_ops clean_frame.quiet
  have handshake: "keeps (clean env) (handshake (ledgered env) path m)" for path m
    unfolding handshake_def by (intro rules clean_frame.recv_line_keeps | assumption)+
  have connect: "keeps (clean env) (connect_loop (ledgered env) path d m last_error k)" for path d m last_error k
    by (induction k arbitrary: last_error) (simp_all, (intro rules handshake | assumption)+)
  have note_services: "valid (\<lambda>st. clean env st \<and> (\<exists>srv0. srv = lift_server srv0)) (update (\<lambda>st. st\<lparr>fi_services := Some srv\<rparr>))
      (\<lambda>_. clean env) (clean env)" for srv
    by (rule valid_update) (auto simp: clean_def failed_def)
  show ?thesis
    unfolding boot_def prepare_runtime_paths_def launch_firecracker_def connect_vsock_with_retry_def
    by (rule keeps_seq, (intro rules)[1], rule keeps_seq, (intro rules)[1], simp_all,
        rule valid_seq [OF clean_services], rule valid_seq [OF note_services],
        (intro rules clean_frame.copy_rootfs_keeps clean_frame.api_socket_keeps clean_frame.configure_keeps
           clean_frame.await_ready_keeps connect | assumption)+; simp)
qed

lemma clean_start: "keeps (clean env) (fire_start (ledgered env) n session_id)"
  unfolding fire_start_def
  by ((intro walk_rules clean_frame.is_running_keeps clean_frame.diagnostics_keeps clean_stop clean_boot | assumption)+; simp)

lemma clean_step: "keeps (clean env) (fire_step (ledgered env) x)"
  by (cases x) (simp_all add: fire_run_def,
    ((intro walk_rules clean_start clean_stop clean_frame.send_keeps clean_frame.receive_keeps
       clean_frame.send_task_keeps | assumption)+; simp)+)

lemma clean_history:
  "clean env st \<Longrightarrow> fire_history (ledgered env) xs st = Some st' \<Longrightarrow> clean env st'"
proof (induction xs arbitrary: st)
  case (Cons x xs)
  obtain r st1 where m: "fire_step (ledgered env) x st = (r, st1)" by fastforce
  with Cons.prems(2) have "r \<noteq> Blocked" "fire_history (ledgered env) xs st1 = Some st'"
    by (cases r; simp)+
  then show ?case
    using Cons.IH keeps_step [OF clean_step Cons.prems(1) m] by blast
qed simp

lemma new_clean: "clean env (new_fire (ledgered env) (w, []))"
  by (simp add: clean_def failed_def new_fire_def)

text \<open>
  C3. Whatever a caller does with the sandbox, over any environment in which asking whether a file
  exists and polling the process raise nothing: between operations every resource it ever
  acquired (the session's directory, the TAP device, its firewall rules, the CID lease, the machine,
  the connection) is still reachable through a handle, or its release was called; a release that
  returned has given the resource back, one that raised is recorded as failed, and when no release
  raises nothing is. Without a process nothing is held. \<open>stop()\<close> raises nothing and leaves nothing
  held, whichever of its steps fail. A \<open>start()\<close> that succeeds holds all handles; one that raises
  leaves no handle and nothing held, unless it was refused because the sandbox was running, and
  then it has only asked that and left the sandbox up.
\<close>

theorem no_resource_forgotten:
  assumes "steady env"
    and "fire_history (ledgered env) xs (new_fire (ledgered env) (w, [])) = Some st"
  shows "ledger st \<subseteq> owned (handles st) \<and> (releasing env \<longrightarrow> failed st = {})
    \<and> (if fi_process st then up (handles st) else idle (handles st) \<and> ledger st = {})
    \<and> (case fire_stop (ledgered env) st of
         (Done _, st') \<Rightarrow> idle (handles st') \<and> ledger st' = {} \<and> (releasing env \<longrightarrow> failed st' = {})
       | (Raised e, st') \<Rightarrow> False
       | (Blocked, st') \<Rightarrow> True)
    \<and> (case fire_start (ledgered env) n session_id st of
         (Done _, st') \<Rightarrow> up (handles st') \<and> ledger st' \<subseteq> owned (handles st') \<and> (releasing env \<longrightarrow> failed st' = {})
       | (Raised e, st') \<Rightarrow>
           idle (handles st') \<and> ledger st' = {} \<and> (releasing env \<longrightarrow> failed st' = {})
           \<or> is_running (ledgered env) st = (Done True, st') \<and> up (handles st')
       | (Blocked, st') \<Rightarrow> True)"
proof -
  have r: "having resting st"
    using history_resting [OF assms(1) new_resting assms(2)] .
  have c: "clean env st"
    using clean_history [OF new_clean assms(2)] .
  have empty: "idle h \<Longrightarrow> owned h = {}" for h
    by (auto simp: idle_def)
  have gone: "having idle s \<Longrightarrow> idle (handles s) \<and> ledger s = {}" for s :: "'a ledgered fire"
    using empty [of "handles s"] by (auto simp: tracked_def)
  have upD: "having up s \<Longrightarrow> up (handles s) \<and> ledger s \<subseteq> owned (handles s)" for s :: "'a ledgered fire"
    by (simp add: tracked_def)
  have unfailed: "clean env s \<Longrightarrow> releasing env \<longrightarrow> failed s = {}" for s
    by (simp add: clean_def)
  have "ledger st \<subseteq> owned (handles st)" "if fi_process st then up (handles st) else idle (handles st) \<and> ledger st = {}"
    using r empty [of "handles st"] by (auto simp: tracked_def resting_def idle_def up_def handles_def)
  moreover have "case fire_stop (ledgered env) st of
      (Done _, st') \<Rightarrow> idle (handles st') \<and> ledger st' = {} \<and> (releasing env \<longrightarrow> failed st' = {})
    | (Raised e, st') \<Rightarrow> False | (Blocked, st') \<Rightarrow> True"
    using valid_result [OF stop_resting [OF assms(1)] r] valid_result [OF clean_stop c]
    by (auto dest: gone unfailed split: prod.splits outcome.splits)
  moreover have "case fire_start (ledgered env) n session_id st of
      (Done _, st') \<Rightarrow> up (handles st') \<and> ledger st' \<subseteq> owned (handles st') \<and> (releasing env \<longrightarrow> failed st' = {})
    | (Raised e, st') \<Rightarrow>
        idle (handles st') \<and> ledger st' = {} \<and> (releasing env \<longrightarrow> failed st' = {})
        \<or> is_running (ledgered env) st = (Done True, st') \<and> up (handles st')
    | (Blocked, st') \<Rightarrow> True"
  proof (cases "fst (is_running (ledgered env) st) = Done True")
    case True
    then obtain st1 where running: "is_running (ledgered env) st = (Done True, st1)" by (metis prod.collapse)
    have "fi_process st" using running by (auto simp: is_running_def reading_def give_def split: if_splits)
    then have "having up st"
      using r by (auto simp: tracked_def resting_def idle_def handles_def)
    from validD(1) [OF is_running_calm [OF assms(1)] this running] have "up (handles st1)"
      by (simp add: tracked_def)
    then show ?thesis using start_running [OF running, of n session_id] running by simp
  next
    case False
    with r have "having resting st \<and> fst (is_running (ledgered env) st) \<noteq> Done True" by simp
    from valid_result [OF start_down [OF assms(1)] this, of n session_id] valid_result [OF clean_start c, of n session_id]
    show ?thesis
      by (auto simp: resting_def dest: unfailed gone upD split: prod.splits outcome.splits)
  qed
  ultimately show ?thesis using unfailed [OF c] by blast
qed

text \<open>
  A host that boots: the first read on the connection is the handshake's answer, the second the
  ready event; what it removes afterwards fails.
\<close>

definition demo_fire_env :: "nat fire_env" where
  "demo_fire_env =
     (let broken = (\<lambda>msg. throw OSError msg) in
     \<lparr>fe_config = demo_fire_config, fe_template = [], fe_exit_handlers = True, fe_home = ''/home/me'',
      fe_secrets = give NoFile, fe_services = (\<lambda>_ _. give []),
      fe_mkdtemp = (\<lambda>p. give (''/tmp/'' @ p @ ''1'')), fe_rmtree = (\<lambda>_. broken ''busy''),
      fe_run = (\<lambda>args. give \<lparr>cp_code = 0, cp_out = [], cp_err = []\<rparr>),
      fe_tap_create = (\<lambda>s. give \<lparr>ta_session = s, ta_index = 0, ta_tap = ''fc0'', ta_ip = ''172.16.0.1'',
         ta_guest = ''172.16.0.2'', ta_iface = ''eth0''\<rparr>),
      fe_tap_destroy = (\<lambda>_. give ()), fe_fw_apply = (\<lambda>_. give ()), fe_fw_cleanup = (\<lambda>_. broken ''iptables''),
      fe_cid_allocate = give 3, fe_cid_release = (\<lambda>_. give ()), fe_popen = (\<lambda>_ _. give ()),
      fe_poll = give None, fe_wait = (\<lambda>_. throw (OtherException ''TimeoutExpired'') ''''), fe_terminate = broken ''gone'',
      fe_kill = give (), fe_stderr = give [], fe_put = (\<lambda>_ _ _. give ()), fe_exists = (\<lambda>_. give True),
      fe_is_regular = (\<lambda>_ _. True), fe_read = (\<lambda>_. give []), fe_write = (\<lambda>_ _. give ()), fe_clock = give 0,
      fe_sleep = (\<lambda>_. give ()), fe_connect = (\<lambda>_. give ()), fe_sendall = (\<lambda>_. give ()),
      fe_recv = (\<lambda>_ n. (Done (if even n then ''OK 5000'' @ [newline]
         else projr (encode_event (dict_of [(''type'', VStr ''agent_ready'')]))), n + 1)),
      fe_close = give ()\<rparr>)"

text \<open>Evaluation that leaves a continuation alone until its state is there.\<close>

lemma lazy:
  "seq m f = seq m f" "handle_exn p m h = handle_exn p m h" "attempt p m = attempt p m" "reading g = reading g"
  "or_else m x = or_else m x" "host f' = host f'" "with_dir msg k = with_dir msg k" "update u = update u"
  by simp_all

lemma eval_effects:
  "seq m f st = (case m st of (Done x, st') \<Rightarrow> f x st' | (Raised e, st') \<Rightarrow> (Raised e, st') | (Blocked, st') \<Rightarrow> (Blocked, st'))"
  "handle_exn p m h st = (case m st of (Done x, st') \<Rightarrow> (Done x, st') | (Raised e, st') \<Rightarrow> if p (exn_class e) then h e st' else (Raised e, st') | (Blocked, st') \<Rightarrow> (Blocked, st'))"
  "attempt p m st = (case m st of
     (Done x, st') \<Rightarrow> (Done (Inr x), st')
   | (Raised e, st') \<Rightarrow> if p (exn_class e) then (Done (Inl e), st') else (Raised e, st')
   | (Blocked, st') \<Rightarrow> (Blocked, st'))"
  "or_else m x st = (case m st of (Done x, st') \<Rightarrow> (Done x, st') | (Raised e, st') \<Rightarrow> (Done x, st') | (Blocked, st') \<Rightarrow> (Blocked, st'))"
  "with_dir msg k st = (case fi_dir st of None \<Rightarrow> (Raised (Exn RuntimeError msg), st) | Some dir \<Rightarrow> k dir st)"
  "reading g st = g st st"
  by (auto simp: effect_defs or_else_def with_dir_def fail_def split: prod.splits outcome.splits option.splits)




definition demo_payload :: pydict where
  "demo_payload = projr (sanitize_agent_config_for_mmds [])"

definition demo_ok :: string where
  "demo_ok = ''OK 5000'' @ [newline]"

definition demo_ready :: string where
  "demo_ready = projr (encode_event (dict_of [(''type'', VStr ''agent_ready'')]))"

lemma demo_ops:
  "fe_exists (ledgered demo_fire_env) p st = (Done True, st)"
  "fe_read (ledgered demo_fire_env) p st = (Done [], st)"
  "fe_poll (ledgered demo_fire_env) st = (Done None, st)"
  "fe_clock (ledgered demo_fire_env) st = (Done 0, st)"
  "fe_put (ledgered demo_fire_env) a b c st = (Done (), st)"
  "fe_sendall (ledgered demo_fire_env) d st = (Done (), st)"
  "fe_is_regular (ledgered demo_fire_env) w path = True"
  "fe_secrets (ledgered demo_fire_env) st = (Done NoFile, st)"
  "fe_services (ledgered demo_fire_env) creds template st = (Done [], st)"
  "fe_run (ledgered demo_fire_env) args st = (Done \<lparr>cp_code = 0, cp_out = [], cp_err = []\<rparr>, st)"
  "fe_template (ledgered demo_fire_env) = []"
  "fe_exit_handlers (ledgered demo_fire_env) = True"
  "fe_config (ledgered demo_fire_env) = demo_fire_config"
  "fe_wait (ledgered demo_fire_env) t st = (Raised (Exn (OtherException ''TimeoutExpired'') []), st)"
  "fe_terminate (ledgered demo_fire_env) st = (Raised (Exn OSError ''gone''), st)"
  by (simp_all add: ledgered_def demo_fire_env_def through_def reaping_def give_def throw_def Let_def seq_def lift_server_def)

lemma demo_takes:
  "fe_mkdtemp (ledgered demo_fire_env) p (n, l) = (Done (''/tmp/'' @ p @ ''1''), (n, Held (TempDir (''/tmp/'' @ p @ ''1'')) # l))"
  "fe_cid_allocate (ledgered demo_fire_env) (n, l) = (Done 3, (n, Held (CidLease 3) # l))"
  "fe_fw_apply (ledgered demo_fire_env) a (n, l) = (Done (), (n, Held (Rules a) # l))"
  "fe_tap_create (ledgered demo_fire_env) s (n, l) = (let a = \<lparr>ta_session = s, ta_index = 0, ta_tap = ''fc0'', ta_ip = ''172.16.0.1'',
         ta_guest = ''172.16.0.2'', ta_iface = ''eth0''\<rparr> in (Done a, (n, Held (TapDevice (ta_tap a)) # l)))"
  "fe_popen (ledgered demo_fire_env) args q (n, l) = (Done (), (n, Held Machine # l))"
  "fe_connect (ledgered demo_fire_env) q (n, l) = (Done (), (n, Held Connection # l))"
  "fe_recv (ledgered demo_fire_env) t (n, l) = (Done (if even n then demo_ok else demo_ready), (n + 1, l))"
  "fe_fw_cleanup (ledgered demo_fire_env) a (n, l) = (Raised (Exn OSError ''iptables''), (n, Failed (Rules a) # removeAll (Held (Rules a)) l))"
  "fe_tap_destroy (ledgered demo_fire_env) tap (n, l) = (Done (), (n, removeAll (Held (TapDevice tap)) l))"
  "fe_rmtree (ledgered demo_fire_env) d (n, l) = (Raised (Exn OSError ''busy''), (n, Failed (TempDir d) # removeAll (Held (TempDir d)) l))"
  "fe_cid_release (ledgered demo_fire_env) c (n, l) = (Done (), (n, removeAll (Held (CidLease c)) l))"
  "fe_kill (ledgered demo_fire_env) (n, l) = (Done (), (n, removeAll (Held Machine) l))"
  "fe_close (ledgered demo_fire_env) (n, l) = (Done (), (n, removeAll (Held Connection) l))"
  by (simp_all add: ledgered_def demo_fire_env_def returning_def taking_def trying_def through_def give_def throw_def Let_def demo_ready_def demo_ok_def)

lemma demo_texts:
  "sanitize_session_id ''default'' = Inr ''default''" "load_secrets NoFile = Inr []"
  "decode_event demo_ready = Inr (dict_of [(''type'', VStr ''agent_ready'')])"
  "extract_line demo_ready = Some (demo_ready, [])"
  "decode_ascii demo_ready = Inr demo_ready"
  "demo_ready \<noteq> []"
  "extract_line demo_ok = Some (demo_ok, [])" "demo_ok \<noteq> []" "butlast demo_ok = ''OK 5000''"
  "extract_line [] = None"
  by code_simp+

lemma demo_valid:
  "sanitize_agent_config_for_mmds [] = Inr demo_payload" "validate_agent_config_payload demo_payload = Inr ()"
  by code_simp+

lemma demo_checks:
  "iface_name ''fc0''" "mac_address ''06:00:AC:10:00:02''"
  "validate_network_payload (guest_network \<lparr>ta_session = ''default'', ta_index = 0, ta_tap = ''fc0'', ta_ip = ''172.16.0.1'',
         ta_guest = ''172.16.0.2'', ta_iface = ''eth0''\<rparr>) = Inr ()"
  "extract_llm_config [] = None"
  "dget (dict_of [(''type'', VStr ''agent_ready'')]) ''type'' = VStr ''agent_ready''"
  by code_simp+

lemma demo_no_secrets: "assert_no_secrets s [] None = Inr ()"
  by (simp add: assert_no_secrets_def)

lemmas demo_eval = eval_effects give_def throw_def update_def fail_def from_res_def host_def
  demo_ops demo_takes demo_texts demo_valid demo_checks demo_no_secrets

lemmas boot_steps = fire_start_def is_running_def new_fire_def boot_def prepare_runtime_paths_def copy_rootfs_def
  launch_firecracker_def wait_for_api_socket_def before_deadline_def configure_microvm_def
  configure_microvm_preboot_def validate_preboot_config_def vsock_path_def log_path_def CID_MIN_def CID_MAX_def
  preboot_requests_def connect_vsock_with_retry_def deadline_from_def demo_fire_config_def handshake_def
  await_agent_ready_def fire_receive_def negative_time_def set_deadline_def remaining_def time_left_def
  run_out_def receive_raw_event_def take_line_def decoded_def

lemma demo_boots:
  "\<exists>st. fire_start (ledgered demo_fire_env) (Suc (Suc 0)) None (new_fire (ledgered demo_fire_env) (0, [])) = (Done (), st)
     \<and> card (ledger st) = 6"
  by (simp add: demo_eval boot_steps ledger_def cong: lazy)

text \<open>The same host with releases that work, and a start that is refused.\<close>

definition calm_fire_env :: "nat fire_env" where
  "calm_fire_env = demo_fire_env\<lparr>fe_rmtree := (\<lambda>_. give ()), fe_fw_cleanup := (\<lambda>_. give ())\<rparr>"

lemma calm_refused:
  "fst (fire_start (ledgered calm_fire_env) 2 (Some ''../x'') (new_fire (ledgered calm_fire_env) (0, [])))
    = Raised (Exn FirecrackerConfigError ''Invalid session_id format. Expected characters [a-zA-Z0-9-] only.'')"
proof -
  have "sanitize_session_id ''../x''
      = raise FirecrackerConfigError ''Invalid session_id format. Expected characters [a-zA-Z0-9-] only.''" by code_simp
  then show ?thesis
    by (simp add: fire_start_def is_running_def new_fire_def eval_effects give_def update_def from_res_def raise_def cong: lazy)
qed

theorem no_resource_forgotten_witness:
  "(\<exists>st. fire_history (ledgered demo_fire_env) [Start 2 None] (new_fire (ledgered demo_fire_env) (0, [])) = Some st
     \<and> card (ledger st) = 6 \<and> ledger st \<subseteq> owned (handles st) \<and> fi_process st \<and> up (handles st))
   \<and> (\<exists>e st. fire_start (ledgered calm_fire_env) 2 (Some ''../x'') (new_fire (ledgered calm_fire_env) (0, [])) = (Raised e, st)
     \<and> ledger st = {} \<and> failed st = {})"
proof
  let ?env = "ledgered demo_fire_env"
  have s: "steady demo_fire_env"
    by (simp add: steady_def demo_fire_env_def Let_def give_def)
  obtain st where b: "fire_start ?env (Suc (Suc 0)) None (new_fire ?env (0, [])) = (Done (), st)" "card (ledger st) = 6"
    using demo_boots by blast
  then have h: "fire_history ?env [Start 2 None] (new_fire ?env (0, [])) = Some st"
    by (simp add: numeral_2_eq_2)
  have "ledger st \<noteq> {}" using b(2) by auto
  with no_resource_forgotten [OF s h, of 0 None] h b(2)
  show "\<exists>st. fire_history ?env [Start 2 None] (new_fire ?env (0, [])) = Some st
     \<and> card (ledger st) = 6 \<and> ledger st \<subseteq> owned (handles st) \<and> fi_process st \<and> up (handles st)"
    by (auto split: if_splits)
next
  let ?env = "ledgered calm_fire_env"
  have s: "steady calm_fire_env" "releasing calm_fire_env"
    by (simp_all add: steady_def releasing_def calm_fire_env_def demo_fire_env_def Let_def give_def)
  obtain e st where r: "fire_start ?env 2 (Some ''../x'') (new_fire ?env (0, [])) = (Raised e, st)"
    using calm_refused by (metis prod.collapse)
  have h: "fire_history ?env [] (new_fire ?env (0, [])) = Some (new_fire ?env (0, []))" by simp
  have "is_running ?env (new_fire ?env (0, [])) \<noteq> (Done True, st)"
    by (simp add: is_running_def new_fire_def reading_def give_def)
  with no_resource_forgotten [OF s(1) h, of 2 "Some ''../x''"] r s(2)
  show "\<exists>e st. fire_start ?env 2 (Some ''../x'') (new_fire ?env (0, [])) = (Raised e, st) \<and> ledger st = {} \<and> failed st = {}"
    by auto
qed

end
