(* ===== verification/TelegramText.thy ===== *)
theory TelegramText
  imports PyJson
begin

text \<open>
  The texts of \<open>adapters/telegram.py\<close>: escaping for MarkdownV2, splitting into messages of at
  most 4096 characters, and how plans, actions and other values are shown.
\<close>

section \<open>JSON with indentation\<close>

text \<open>\<open>json.dumps(value, ensure_ascii=True, indent=2)\<close>, at a depth of \<open>n\<close> levels.\<close>

definition line_start :: "nat \<Rightarrow> string" where
  "line_start n = newline # replicate (2 * n) (CHR '' '')"

definition block :: "char \<Rightarrow> char \<Rightarrow> nat \<Rightarrow> string list \<Rightarrow> string" where
  "block a b n xs =
     (if xs = [] then [a, b]
      else [a] @ line_start (Suc n) @ join ('','' @ line_start (Suc n)) xs @ line_start n @ [b])"

fun json_pretty :: "nat \<Rightarrow> pyval \<Rightarrow> string" where
  "json_pretty n (VList xs) = block (CHR ''['') (CHR '']'') n (map (json_pretty (Suc n)) xs)"
| "json_pretty n (VDict d) =
     block (CHR 0x7B) (CHR 0x7D) n (map (\<lambda>p. json_string (json_key (fst p)) @ '': '' @ json_pretty (Suc n) (snd p)) d)"
| "json_pretty n v = dumps_default v"

definition to_text :: "pyval \<Rightarrow> string" where
  "to_text v = (case v of VStr s \<Rightarrow> s | _ \<Rightarrow> json_pretty 0 v)"

section \<open>Escaping\<close>

definition MARKDOWN_V2_SPECIAL_CHARS :: string where
  "MARKDOWN_V2_SPECIAL_CHARS = ''_*[]()~'' @ [CHR 0x60] @ ''>#+-=|'' @ [CHR 0x7B, CHR 0x7D] @ ''.!''"

definition backslash :: char where
  "backslash = CHR 0x5C"

definition backtick :: char where
  "backtick = CHR 0x60"

fun escape_markdown_v2 :: "string \<Rightarrow> string" where
  "escape_markdown_v2 [] = []"
| "escape_markdown_v2 (c # s) =
     (if c \<in> set MARKDOWN_V2_SPECIAL_CHARS then backslash # c # escape_markdown_v2 s else c # escape_markdown_v2 s)"

definition escape_markdown_v2_code :: "string \<Rightarrow> string" where
  "escape_markdown_v2_code s = replace [backtick] [backslash, backtick] (replace [backslash] [backslash, backslash] s)"

section \<open>Splitting into messages\<close>

text \<open>\<open>s.rfind(newline, 0, end)\<close>, \<open>None\<close> for -1.\<close>

fun last_newline :: "string \<Rightarrow> nat \<Rightarrow> nat option" where
  "last_newline s 0 = None"
| "last_newline s (Suc k) = (if k < length s \<and> s ! k = newline then Some k else last_newline s k)"

definition plain_split :: "nat \<Rightarrow> string \<Rightarrow> nat" where
  "plain_split limit s =
     (case last_newline s limit of None \<Rightarrow> limit | Some k \<Rightarrow> if k = 0 then limit else k)"

text \<open>\<open>s.count(t)\<close> for a non-empty \<open>t\<close>.\<close>

fun count_of :: "string \<Rightarrow> string \<Rightarrow> nat" where
  "count_of t [] = 0"
| "count_of t (c # s) = (if prefix t (c # s) then Suc (count_of t (drop (length t - 1) s)) else count_of t s)"

definition fence :: string where
  "fence = [backtick, backtick, backtick]"

lemma last_newline_less: "last_newline s n = Some k \<Longrightarrow> k < n \<and> k < length s \<and> s ! k = newline"
  by (induction n) (auto split: if_splits)

text \<open>The last newline before which every code fence is closed.\<close>

function balanced_newline :: "string \<Rightarrow> nat option \<Rightarrow> nat option" where
  "balanced_newline s None = None"
| "balanced_newline s (Some pos) =
     (if pos = 0 then None
      else if even (count_of fence (take pos s)) then Some pos
      else balanced_newline s (last_newline s pos))"
  by pat_completeness auto

termination balanced_newline
  by (relation "measure (\<lambda>(s, p). case p of None \<Rightarrow> 0 | Some k \<Rightarrow> Suc k)")
    (auto split: option.split dest: last_newline_less)

definition find_markdown_split :: "string \<Rightarrow> nat \<Rightarrow> nat" where
  "find_markdown_split s limit =
     (case balanced_newline s (last_newline s limit) of
        Some pos \<Rightarrow> pos
      | None \<Rightarrow> plain_split limit s)"

text \<open>
  The loop of \<open>_chunk_text\<close> and of \<open>_chunk_markdown_text\<close>, which differ in where they split. An
  empty chunk is replaced by one of full length; only the second has this guard, and in neither
  it is ever needed.
\<close>

definition drop_newline :: "string \<Rightarrow> string" where
  "drop_newline s = (case s of c # t \<Rightarrow> if c = newline then t else s | [] \<Rightarrow> [])"

function chunk_loop :: "(string \<Rightarrow> nat) \<Rightarrow> nat \<Rightarrow> string \<Rightarrow> string list" where
  "chunk_loop split limit rest =
     (if limit = 0 \<or> length rest \<le> limit then (if rest = [] then [] else [rest])
      else
        (let k = (if split rest = 0 then limit else split rest)
         in take k rest # chunk_loop split limit (drop_newline (drop k rest))))"
  by pat_completeness auto

lemma length_drop_newline: "length (drop_newline s) \<le> length s"
  by (simp add: drop_newline_def split: list.split)

termination chunk_loop
proof (relation "measure (\<lambda>(f, limit, s). length s)")
  fix split :: "string \<Rightarrow> nat" and limit rest k
  assume "\<not> (limit = 0 \<or> length rest \<le> limit)" "k = (if split rest = 0 then limit else split rest)"
  then have "0 < k" "rest \<noteq> []" by auto
  then have "length (drop k rest) < length rest" by simp
  then show "((split, limit, drop_newline (drop k rest)), (split, limit, rest)) \<in> measure (\<lambda>(f, limit, s). length s)"
    using length_drop_newline [of "drop k rest"] by simp
qed simp

declare chunk_loop.simps [simp del]

definition chunk_with :: "(nat \<Rightarrow> string \<Rightarrow> nat) \<Rightarrow> string \<Rightarrow> int \<Rightarrow> string list res" where
  "chunk_with split s limit =
     (if limit \<le> 0 then raise ValueError ''Message chunk size limit must be positive.''
      else if s = [] then Inr [[]]
      else if int (length s) \<le> limit then Inr [s]
      else Inr (chunk_loop (split (nat limit)) (nat limit) s))"

definition chunk_text :: "string \<Rightarrow> int \<Rightarrow> string list res" where
  "chunk_text = chunk_with plain_split"

definition chunk_markdown_text :: "string \<Rightarrow> int \<Rightarrow> string list res" where
  "chunk_markdown_text = chunk_with (\<lambda>limit s. find_markdown_split s limit)"

definition MAX_TELEGRAM_MESSAGE_CHARS :: int where
  "MAX_TELEGRAM_MESSAGE_CHARS = 4096"

definition message_chunks :: "bool \<Rightarrow> string \<Rightarrow> string list res" where
  "message_chunks markdown s =
     (if markdown then chunk_markdown_text s MAX_TELEGRAM_MESSAGE_CHARS else chunk_text s MAX_TELEGRAM_MESSAGE_CHARS)"

section \<open>Plans, actions, replies\<close>

fun plan_steps :: "nat \<Rightarrow> pyval list \<Rightarrow> string list" where
  "plan_steps n [] = []"
| "plan_steps n (VStr s # xs) = (nat_str n @ [backslash] @ ''. '' @ escape_markdown_v2 s) # plan_steps (Suc n) xs"
| "plan_steps n (_ # xs) = plan_steps (Suc n) xs"

definition format_plan :: "pyval \<Rightarrow> string" where
  "format_plan v =
     (case v of
        VDict d \<Rightarrow>
          join [newline]
            ([''*Plan*'']
             @ (case dget d ''goal'' of
                  VStr s \<Rightarrow> if strip s = [] then [] else [''*Goal:* '' @ escape_markdown_v2 (strip s)]
                | _ \<Rightarrow> [])
             @ (case dget d ''steps'' of VList xs \<Rightarrow> plan_steps 1 xs | _ \<Rightarrow> []))
      | _ \<Rightarrow> ''*Plan*'' @ [newline] @ escape_markdown_v2 (to_text v))"

definition stripped_text :: "pyval \<Rightarrow> string" where
  "stripped_text v = (case v of VStr s \<Rightarrow> strip s | _ \<Rightarrow> [])"

text \<open>A bool is an int for \<open>isinstance\<close> and is shown as one.\<close>

definition exit_status :: "pydict \<Rightarrow> string" where
  "exit_status d =
     (case dget d ''exit_code'' of
        VInt n \<Rightarrow> '' (exit='' @ int_str n @ '')''
      | VBool b \<Rightarrow> '' (exit='' @ py_str (VBool b) @ '')''
      | _ \<Rightarrow> [])"

definition format_action :: "pydict \<Rightarrow> string" where
  "format_action event =
     (let tool = py_str (dget_or event ''tool'' (VStr ''unknown''));
          status = (case dget event ''result'' of VDict d \<Rightarrow> exit_status d | _ \<Rightarrow> []);
          preview =
            (case dget event ''result'' of
               VDict d \<Rightarrow>
                 if stripped_text (dget d ''stdout'') \<noteq> [] then stripped_text (dget d ''stdout'')
                 else stripped_text (dget d ''stderr'')
             | _ \<Rightarrow> []);
          header = ''*Action:* '' @ escape_markdown_v2 (tool @ status)
      in if preview = [] then header
         else header @ [newline] @ fence @ ''text'' @ [newline] @ escape_markdown_v2_code (take 3000 preview)
              @ [newline] @ fence)"

definition parse_plan_reply :: "string \<Rightarrow> bool \<times> string" where
  "parse_plan_reply s =
     (let normalized = lower (strip s)
      in if normalized \<in> {''y'', ''yes'', ''approve'', ''approved'', ''ok'', ''go'', ''continue''} then (True, [])
         else if normalized \<in> {''n'', ''no'', ''reject'', ''rejected''} then (False, [])
         else (False, s))"

section \<open>Nothing is lost\<close>

text \<open>The chunks, each followed by one newline or by nothing, are the text.\<close>

definition rejoins :: "string list \<Rightarrow> string \<Rightarrow> bool" where
  "rejoins cs s =
     (\<exists>seps. length seps = length cs \<and> set seps \<subseteq> {[], [newline]} \<and> s = concat (map2 (@) cs seps))"

lemma rejoins_Nil: "rejoins [] []"
  by (simp add: rejoins_def)

lemma rejoins_Cons: "rejoins cs (drop_newline s) \<Longrightarrow> rejoins (c # cs) (c @ s)"
proof -
  assume "rejoins cs (drop_newline s)"
  then obtain seps where seps: "length seps = length cs" "set seps \<subseteq> {[], [newline]}" "drop_newline s = concat (map2 (@) cs seps)"
    unfolding rejoins_def by blast
  define t where "t = (if s \<noteq> [] \<and> hd s = newline then [newline] else [])"
  then have t: "t \<in> {[], [newline]}" "s = t @ drop_newline s"
    by (cases s; simp add: drop_newline_def)+
  have "c @ s = c @ t @ drop_newline s"
    using t(2) by (rule arg_cong)
  also have "\<dots> = concat (map2 (@) (c # cs) (t # seps))"
    by (simp add: seps(3))
  finally have "c @ s = concat (map2 (@) (c # cs) (t # seps))" .
  moreover have "length (t # seps) = length (c # cs)" "set (t # seps) \<subseteq> {[], [newline]}"
    using seps(1,2) t(1) by auto
  ultimately show ?thesis unfolding rejoins_def by blast
qed

lemma rejoins_single: "rejoins [s] s"
  using rejoins_Cons [of "[]" "[]" s] by (simp add: drop_newline_def rejoins_Nil)

text \<open>A place to split at: inside the first \<open>limit\<close> characters, and not before the first.\<close>

locale splitter =
  fixes split :: "string \<Rightarrow> nat" and limit :: nat
  assumes limit: "0 < limit"
    and inside: "limit < length s \<Longrightarrow> 0 < split s \<and> split s \<le> limit"
begin

lemma chunk_loop_step:
  "limit < length s \<Longrightarrow> chunk_loop split limit s = take (split s) s # chunk_loop split limit (drop_newline (drop (split s) s))"
  using inside [of s] limit by (subst chunk_loop.simps) (simp add: Let_def)

lemma chunk_loop_last: "length s \<le> limit \<Longrightarrow> chunk_loop split limit s = (if s = [] then [] else [s])"
  by (subst chunk_loop.simps) simp

lemma chunks_ok: "list_all (\<lambda>c. c \<noteq> [] \<and> length c \<le> limit) (chunk_loop split limit s) \<and> rejoins (chunk_loop split limit s) s"
proof (induction s rule: length_induct)
  case (1 s)
  show ?case
  proof (cases "length s \<le> limit")
    case True
    then show ?thesis by (simp add: chunk_loop_last rejoins_Nil rejoins_single)
  next
    case False
    let ?k = "split s" and ?rest = "drop_newline (drop (split s) s)"
    have k: "0 < ?k" "?k \<le> limit" "s \<noteq> []" using inside [of s] False by auto
    then have "length ?rest < length s"
      using length_drop_newline [of "drop ?k s"] by (cases s) auto
    with 1 have ih: "list_all (\<lambda>c. c \<noteq> [] \<and> length c \<le> limit) (chunk_loop split limit ?rest)" "rejoins (chunk_loop split limit ?rest) ?rest"
      by blast+
    from rejoins_Cons [OF ih(2), of "take ?k s"] have "rejoins (chunk_loop split limit s) s"
      using False by (simp add: chunk_loop_step)
    with ih(1) k False show ?thesis by (simp add: chunk_loop_step)
  qed
qed

end

lemma plain_split_inside: "0 < limit \<Longrightarrow> 0 < plain_split limit s \<and> plain_split limit s \<le> limit"
  using last_newline_less [of s limit] by (fastforce simp: plain_split_def split: option.split)

lemma balanced_newline_le: "balanced_newline s p = Some k \<Longrightarrow> \<exists>q. p = Some q \<and> 0 < k \<and> k \<le> q"
proof (induction s p rule: balanced_newline.induct)
  case (2 s pos)
  then show ?case using last_newline_less [of s pos] by (fastforce split: if_splits)
qed simp

lemma markdown_split_inside: "0 < limit \<Longrightarrow> 0 < find_markdown_split s limit \<and> find_markdown_split s limit \<le> limit"
  using balanced_newline_le [of s "last_newline s limit"] last_newline_less [of s limit] plain_split_inside [of limit s]
  by (fastforce simp: find_markdown_split_def split: option.split)

interpretation plain: splitter "plain_split (Suc n)" "Suc n"
  by unfold_locales (simp_all add: plain_split_inside)

interpretation markdown: splitter "\<lambda>s. find_markdown_split s (Suc n)" "Suc n"
  by unfold_locales (simp_all add: markdown_split_inside)

text \<open>
  C28. A text sent to Telegram arrives whole, in plain text and in MarkdownV2 mode: it is split
  into at least one message of at most 4096 characters, none empty unless the text is, and the
  messages in their order give the text back but for single newlines between them; a text that
  fits is one message. Splitting always ends.
\<close>

theorem messages_lossless:
  "\<exists>cs. message_chunks markdown s = Inr cs \<and> cs \<noteq> [] \<and> list_all (\<lambda>c. length c \<le> 4096) cs
     \<and> rejoins cs s \<and> (s \<noteq> [] \<longrightarrow> [] \<notin> set cs) \<and> (length s \<le> 4096 \<longrightarrow> cs = [s])"
proof (cases "length s \<le> 4096")
  case True
  then show ?thesis
    by (auto simp: message_chunks_def chunk_markdown_text_def chunk_text_def chunk_with_def MAX_TELEGRAM_MESSAGE_CHARS_def rejoins_single)
next
  case False
  let ?cs = "if markdown then chunk_loop (\<lambda>s. find_markdown_split s 4096) 4096 s else chunk_loop (plain_split 4096) 4096 s"
  have cs: "list_all (\<lambda>c. c \<noteq> [] \<and> length c \<le> 4096) ?cs" "rejoins ?cs s"
    using plain.chunks_ok [of 4095 s] markdown.chunks_ok [of 4095 s] by simp_all
  then have "list_all (\<lambda>c. length c \<le> 4096) ?cs" "[] \<notin> set ?cs"
    by (auto simp only: list_all_iff)
  moreover have "?cs \<noteq> []"
    using cs(2) False by (auto simp only: rejoins_def) simp
  moreover have "message_chunks markdown s = Inr ?cs"
    using False by (auto simp: message_chunks_def chunk_markdown_text_def chunk_text_def chunk_with_def MAX_TELEGRAM_MESSAGE_CHARS_def)
  ultimately show ?thesis using cs(2) False by (intro exI [of _ ?cs]) (simp only: simp_thms)
qed

theorem messages_lossless_witness:
  "replicate 5000 (CHR ''x'') \<noteq> [] \<and> (\<exists>cs. message_chunks True (replicate 5000 (CHR ''x'')) = Inr cs \<and> [] \<notin> set cs)
     \<and> message_chunks False ''hi'' = Inr [''hi'']"
  using messages_lossless [of True "replicate 5000 (CHR ''x'')"] messages_lossless [of False "''hi''"] by auto

text \<open>What Telegram shows of an escaped text is the text.\<close>

fun shown_markdown :: "string \<Rightarrow> string" where
  "shown_markdown [] = []"
| "shown_markdown [c] = [c]"
| "shown_markdown (c # d # s) =
     (if c = backslash \<and> d \<in> set MARKDOWN_V2_SPECIAL_CHARS then d # shown_markdown s else c # shown_markdown (d # s))"

lemma backslash_not_special: "backslash \<notin> set MARKDOWN_V2_SPECIAL_CHARS"
  by code_simp

lemma shown_escape: "backslash \<notin> set s \<Longrightarrow> shown_markdown (escape_markdown_v2 s) = s"
proof (induction s)
  case (Cons c s)
  show ?case
  proof (cases "c \<in> set MARKDOWN_V2_SPECIAL_CHARS")
    case True
    with Cons show ?thesis by simp
  next
    case False
    with Cons show ?thesis by (cases "escape_markdown_v2 s") auto
  qed
qed simp

end
