(* ===== verification/Telegram.thy ===== *)
theory Telegram
  imports TelegramText Effect Coordinator
begin

text \<open>
  \<open>adapters/telegram.py\<close>: the adapter between Telegram chats and the coordinator. The bot, the
  coordinator, the event loop's tasks and the clock are functions of the world; a coroutine runs
  to its end. \<open>with_coordinator\<close> puts the modelled coordinator in their place.
\<close>

section \<open>The adapter and its surroundings\<close>

record 's telegram_env =
  tv_prefix :: string
  tv_allowed :: "int list"
  tv_approval :: string
  tv_token :: string
  tv_max_total :: int
  tv_max_file :: int
  tv_send :: "int \<Rightarrow> string \<Rightarrow> bool \<Rightarrow> ('s, unit) effect"
  tv_document :: "int \<Rightarrow> string \<Rightarrow> string \<Rightarrow> string \<Rightarrow> ('s, unit) effect"
  tv_typing :: "int \<Rightarrow> ('s, unit) effect"
  tv_pending :: "string \<Rightarrow> ('s, string option) effect"
  tv_submit :: "string \<Rightarrow> bool \<Rightarrow> string \<Rightarrow> ('s, bool) effect"
  tv_start :: "string \<Rightarrow> string \<Rightarrow> int \<Rightarrow> ('s, start_status) effect"
  tv_create_task :: "int \<Rightarrow> ('s, nat) effect"
  tv_task_done :: "nat \<Rightarrow> 's \<Rightarrow> bool"
  tv_cancel :: "nat \<Rightarrow> ('s, unit) effect"
  tv_poll :: "('s, unit) effect"
  tv_stop_running :: "('s, unit) effect"
  tv_sleep :: "rat \<Rightarrow> ('s, unit) effect"

text \<open>
  Whether there is an application and a running loop, the typing tasks by chat, and the
  coroutines handed to the loop from the coordinator's threads.
\<close>

record 's telegram =
  tg_world :: 's
  tg_application :: bool
  tg_loop :: bool
  tg_tasks :: "(int \<times> nat) list"
  tg_scheduled :: "(int \<times> pydict) list"

type_synonym ('s, 'a) tact = "('s telegram, 'a) effect"

definition new_telegram :: "'s \<Rightarrow> 's telegram" where
  "new_telegram w = \<lparr>tg_world = w, tg_application = False, tg_loop = False, tg_tasks = [], tg_scheduled = []\<rparr>"

definition outside :: "('s, 'a) effect \<Rightarrow> ('s, 'a) tact" where
  "outside f st = (case f (tg_world st) of (r, w) \<Rightarrow> (r, st\<lparr>tg_world := w\<rparr>))"

text \<open>\<open>KeyboardInterrupt\<close> is no \<open>Exception\<close>.\<close>

definition is_exception :: "exn_kind \<Rightarrow> bool" where
  "is_exception k = (k \<noteq> OtherException ''KeyboardInterrupt'')"

definition session_of :: "'s telegram_env \<Rightarrow> int \<Rightarrow> string" where
  "session_of env chat = tv_prefix env @ int_str chat"

text \<open>An update: the chat id when there is one that is an int, the text when it is a string.\<close>

record chat_update =
  up_chat :: "int option"
  up_text :: "string option"

definition get_task :: "'s telegram_env \<Rightarrow> chat_update option \<Rightarrow> pydict res" where
  "get_task env up =
     (case up of
        None \<Rightarrow> raise ValueError ''update is required.''
      | Some u \<Rightarrow>
          (case up_text u of
             None \<Rightarrow> raise ValueError ''Task text cannot be empty.''
           | Some s \<Rightarrow>
               if strip s = [] then raise ValueError ''Task text cannot be empty.''
               else
                 (case up_chat u of
                    None \<Rightarrow> raise ValueError ''Missing chat id on Telegram update.''
                  | Some chat \<Rightarrow>
                      Inr (dict_of [(''type'', VStr ''task''), (''text'', VStr (strip s)),
                                    (''session_id'', VStr (session_of env chat)),
                                    (''approval_mode'', VStr (tv_approval env))]))))"

section \<open>Sending\<close>

definition require_bot :: "('s, unit) tact" where
  "require_bot = reading (\<lambda>st.
     if tg_application st then give () else throw RuntimeError ''Telegram application is not initialized.'')"

text \<open>A message that cannot be sent as MarkdownV2 is sent as plain text.\<close>

fun send_chunks :: "'s telegram_env \<Rightarrow> int \<Rightarrow> bool \<Rightarrow> string list \<Rightarrow> ('s, unit) tact" where
  "send_chunks env chat markdown [] = give ()"
| "send_chunks env chat markdown (c # cs) =
     seq (if markdown
          then handle_exn is_exception (outside (tv_send env chat c True)) (\<lambda>_. outside (tv_send env chat c False))
          else outside (tv_send env chat c False)) (\<lambda>_.
     send_chunks env chat markdown cs)"

definition send_text :: "'s telegram_env \<Rightarrow> int \<Rightarrow> bool \<Rightarrow> string \<Rightarrow> ('s, unit) tact" where
  "send_text env chat markdown s =
     seq require_bot (\<lambda>_.
     seq (from_res (message_chunks markdown s)) (\<lambda>cs. send_chunks env chat markdown cs))"

definition send_typing :: "'s telegram_env \<Rightarrow> int \<Rightarrow> ('s, unit) tact" where
  "send_typing env chat =
     seq require_bot (\<lambda>_. handle_exn is_exception (outside (tv_typing env chat)) (\<lambda>_. give ()))"

section \<open>Output files\<close>

definition declared_or_estimated_size :: "pydict \<Rightarrow> string \<Rightarrow> int" where
  "declared_or_estimated_size entry b64 =
     (let padding = (if suffix ''=='' b64 then 2 else if suffix ''='' b64 then 1 else 0);
          estimate = max 0 ((int (length b64) * 3) div 4 - padding)
      in case dget entry ''size_bytes'' of
           VInt n \<Rightarrow> if 0 \<le> n then n else estimate
         | VBool b \<Rightarrow> (if b then 1 else 0)
         | _ \<Rightarrow> estimate)"

text \<open>\<open>Path(rel).name\<close>\<close>

definition path_name :: "string \<Rightarrow> string" where
  "path_name s =
     (case filter (\<lambda>p. p \<noteq> [] \<and> p \<noteq> ''.'') (split_on (CHR ''/'') s) of [] \<Rightarrow> [] | ps \<Rightarrow> last ps)"

text \<open>\<open>b64decode\<close> of a string that is not ASCII raises \<open>ValueError\<close>, which nothing catches.\<close>

definition decode_content :: "string \<Rightarrow> string option res" where
  "decode_content s =
     (if list_all (\<lambda>c. code c < 128) s then Inr (b64_decode s)
      else raise ValueError ''string argument should contain only ASCII characters'')"

text \<open>The result tells whether a file was skipped for its size. A file over the limit of the total ends the loop.\<close>

fun send_files :: "'s telegram_env \<Rightarrow> int \<Rightarrow> int \<Rightarrow> bool \<Rightarrow> pyval list \<Rightarrow> ('s, bool) tact" where
  "send_files env chat sent skipped [] = give skipped"
| "send_files env chat sent skipped (v # vs) =
     (case v of
        VDict entry \<Rightarrow>
          (case (dget entry ''path'', dget entry ''content_b64'') of
             (VStr rel, VStr b64) \<Rightarrow>
               (let n = declared_or_estimated_size entry b64
                in if tv_max_file env < n then send_files env chat sent True vs
                   else if tv_max_total env < sent + n then give True
                   else
                     seq (from_res (decode_content b64)) (\<lambda>decoded.
                       case decoded of
                         None \<Rightarrow> send_files env chat sent skipped vs
                       | Some bytes \<Rightarrow>
                           if tv_max_file env < int (length bytes) then send_files env chat sent True vs
                           else if tv_max_total env < sent + int (length bytes) then give True
                           else
                             seq (outside (tv_document env chat
                                    (if path_name rel = [] then ''output.bin'' else path_name rel) bytes
                                    (''Output: '' @ rel))) (\<lambda>_.
                             send_files env chat (sent + int (length bytes)) skipped vs)))
           | _ \<Rightarrow> send_files env chat sent skipped vs)
      | _ \<Rightarrow> send_files env chat sent skipped vs)"

definition send_done_files :: "'s telegram_env \<Rightarrow> int \<Rightarrow> pyval \<Rightarrow> ('s, unit) tact" where
  "send_done_files env chat files =
     (case files of
        VList vs \<Rightarrow>
          seq require_bot (\<lambda>_.
          seq (send_files env chat 0 False vs) (\<lambda>skipped.
            if skipped
            then send_text env chat True
                   (''Some output files were not sent because Telegram safety limits were exceeded '' @ [backslash]
                    @ ''(max '' @ int_str (tv_max_file env div (1024 * 1024)) @ '' MB per file, ''
                    @ int_str (tv_max_total env div (1024 * 1024)) @ '' MB total'' @ [backslash] @ '')'' @ [backslash] @ ''.'')
            else give ()))
      | _ \<Rightarrow> give ())"

section \<open>Showing events\<close>

definition plan_prompt :: string where
  "plan_prompt = ''Reply with '' @ quoted ''approve'' @ '' to continue, or send feedback to revise the plan.''"

definition show_text :: "'s telegram_env \<Rightarrow> pydict \<Rightarrow> string" where
  "show_text env event =
     (let content = dget event ''content''; esc = \<lambda>v. escape_markdown_v2 (to_text v) in
      if dget event ''type'' = VStr ''message'' then
        (if dget event ''role'' = VStr ''plan'' then
           format_plan content
           @ (if tv_approval env = ''review'' then [newline, newline] @ escape_markdown_v2 plan_prompt else [])
         else if dget event ''role'' = VStr ''clarification'' then ''*Clarification Needed*'' @ [newline] @ esc content
         else if dget event ''role'' = VStr ''status'' then ''*Status:* '' @ esc content
         else esc content)
      else if dget event ''type'' = VStr ''action'' then format_action event
      else if dget event ''type'' = VStr ''done'' then
        ''*'' @ (if truthy (dget event ''success'') then ''Success'' else ''Failed'') @ '':* '' @ esc (dget event ''reply'')
      else esc (VDict event))"

definition show_event :: "'s telegram_env \<Rightarrow> int \<Rightarrow> pydict \<Rightarrow> ('s, unit) tact" where
  "show_event env chat event =
     seq (send_text env chat True (show_text env event)) (\<lambda>_.
       if dget event ''type'' = VStr ''done'' then send_done_files env chat (dget event ''files'') else give ())"

section \<open>Typing\<close>

definition ensure_typing_task :: "'s telegram_env \<Rightarrow> int \<Rightarrow> ('s, unit) tact" where
  "ensure_typing_task env chat = reading (\<lambda>st.
     if \<not> tg_loop st then give ()
     else if (case map_of (tg_tasks st) chat of None \<Rightarrow> False | Some t \<Rightarrow> \<not> tv_task_done env t (tg_world st)) then give ()
     else
       seq (outside (tv_create_task env chat)) (\<lambda>t.
         update (\<lambda>st. st\<lparr>tg_tasks := (chat, t) # filter (\<lambda>p. fst p \<noteq> chat) (tg_tasks st)\<rparr>)))"

text \<open>One round of a pulse; the result tells whether it goes on.\<close>

definition typing_round :: "'s telegram_env \<Rightarrow> int \<Rightarrow> ('s, bool) tact" where
  "typing_round env chat =
     seq (outside (tv_pending env (session_of env chat))) (\<lambda>pending.
     seq (if pending = None
          then handle_exn (\<lambda>k. k = RuntimeError) (seq (send_typing env chat) (\<lambda>_. give True)) (\<lambda>_. give False)
          else give True) (\<lambda>go_on.
       if go_on then seq (outside (tv_sleep env 3)) (\<lambda>_. give True) else give False))"

fun typing_pulse :: "'s telegram_env \<Rightarrow> int \<Rightarrow> nat \<Rightarrow> ('s, unit) tact" where
  "typing_pulse env chat 0 = (\<lambda>st. (Blocked, st))"
| "typing_pulse env chat (Suc n) =
     seq (typing_round env chat) (\<lambda>go_on. if go_on then typing_pulse env chat n else give ())"

definition cancel_typing_task :: "'s telegram_env \<Rightarrow> int \<Rightarrow> ('s, unit) tact" where
  "cancel_typing_task env chat = reading (\<lambda>st.
     case map_of (tg_tasks st) chat of
       None \<Rightarrow> give ()
     | Some t \<Rightarrow>
         seq (update (\<lambda>st. st\<lparr>tg_tasks := filter (\<lambda>p. fst p \<noteq> chat) (tg_tasks st)\<rparr>)) (\<lambda>_.
           outside (tv_cancel env t)))"

fun cancel_each :: "'s telegram_env \<Rightarrow> int list \<Rightarrow> ('s, unit) tact" where
  "cancel_each env [] = give ()"
| "cancel_each env (c # cs) = seq (cancel_typing_task env c) (\<lambda>_. cancel_each env cs)"

definition cancel_all_typing_tasks :: "'s telegram_env \<Rightarrow> ('s, unit) tact" where
  "cancel_all_typing_tasks env = reading (\<lambda>st. cancel_each env (map fst (tg_tasks st)))"

section \<open>Events of the coordinator\<close>

definition emit_from_coordinator :: "int \<Rightarrow> pydict \<Rightarrow> ('s, unit) tact" where
  "emit_from_coordinator chat event =
     update (\<lambda>st. if tg_loop st then st\<lparr>tg_scheduled := tg_scheduled st @ [(chat, event)]\<rparr> else st)"

definition show_and_track_event :: "'s telegram_env \<Rightarrow> int \<Rightarrow> pydict \<Rightarrow> ('s, unit) tact" where
  "show_and_track_event env chat event =
     seq (show_event env chat event) (\<lambda>_.
       if dget event ''type'' = VStr ''done'' then cancel_typing_task env chat else give ())"

text \<open>The loop runs the oldest coroutine; its exception is consumed.\<close>

definition run_scheduled :: "'s telegram_env \<Rightarrow> ('s, unit) tact" where
  "run_scheduled env = reading (\<lambda>st.
     case tg_scheduled st of
       [] \<Rightarrow> give ()
     | (chat, event) # rest \<Rightarrow>
         seq (update (\<lambda>st. st\<lparr>tg_scheduled := rest\<rparr>)) (\<lambda>_.
           handle_exn is_exception (show_and_track_event env chat event) (\<lambda>_. give ())))"

section \<open>Messages\<close>

definition ensure_authorized :: "'s telegram_env \<Rightarrow> int \<Rightarrow> ('s, bool) tact" where
  "ensure_authorized env chat =
     (if tv_allowed env = [] \<or> chat \<in> set (tv_allowed env) then give True
      else seq (send_text env chat False ''You are not authorized to use this bot.'') (\<lambda>_. give False))"

definition answer_prompt :: "'s telegram_env \<Rightarrow> int \<Rightarrow> string \<Rightarrow> string \<Rightarrow> ('s, unit) tact" where
  "answer_prompt env chat pending s =
     (let (approved, reply) = (if pending = ''plan'' then parse_plan_reply s else (True, s))
      in seq (outside (tv_submit env (session_of env chat) approved reply)) (\<lambda>submitted.
           if submitted then give ()
           else send_text env chat False ''No prompt is waiting for a reply right now.''))"

definition begin_task :: "'s telegram_env \<Rightarrow> int \<Rightarrow> string \<Rightarrow> ('s, unit) tact" where
  "begin_task env chat s =
     seq (outside (tv_start env (session_of env chat) s chat)) (\<lambda>status.
       case status of
         StartBusy \<Rightarrow> send_text env chat False ''A task is already running. Wait for completion or answer the active prompt.''
       | AtCapacity \<Rightarrow> send_text env chat False
           (''The bot is at capacity right now. '' @ ''Please retry after one of the active tasks finishes.'')
       | Started \<Rightarrow> ensure_typing_task env chat)"

definition on_text_message :: "'s telegram_env \<Rightarrow> chat_update \<Rightarrow> ('s, unit) tact" where
  "on_text_message env up =
     (case (up_chat up, up_text up) of
        (Some chat, Some raw) \<Rightarrow>
          (let s = strip raw
           in if s = [] then give ()
              else
                seq (ensure_authorized env chat) (\<lambda>authorized.
                  if \<not> authorized then give ()
                  else
                    seq (update (\<lambda>st. st\<lparr>tg_loop := True\<rparr>)) (\<lambda>_.
                    seq (outside (tv_pending env (session_of env chat))) (\<lambda>pending.
                      case pending of
                        Some role \<Rightarrow> answer_prompt env chat role s
                      | None \<Rightarrow> begin_task env chat s))))
      | _ \<Rightarrow> give ())"

section \<open>Running\<close>

text \<open>
  Polling with a new application each time; the number bounds the attempts. The pause doubles
  up to 30 seconds.
\<close>

fun poll_loop :: "'s telegram_env \<Rightarrow> rat \<Rightarrow> nat \<Rightarrow> ('s, unit) tact" where
  "poll_loop env backoff 0 = (\<lambda>st. (Blocked, st))"
| "poll_loop env backoff (Suc n) =
     seq (update (\<lambda>st. st\<lparr>tg_application := True\<rparr>)) (\<lambda>_.
     seq (attempt (\<lambda>_. True)
            (handle_exn is_exception (seq (outside (tv_poll env)) (\<lambda>_. give True))
               (\<lambda>_. seq (outside (tv_sleep env backoff)) (\<lambda>_. give False)))) (\<lambda>r.
     seq (cancel_all_typing_tasks env) (\<lambda>_.
     seq (update (\<lambda>st. st\<lparr>tg_application := False\<rparr>)) (\<lambda>_.
       case r of
         Inl e \<Rightarrow> (\<lambda>st. (Raised e, st))
       | Inr True \<Rightarrow> give ()
       | Inr False \<Rightarrow> poll_loop env (min (backoff * 2) 30) n))))"

text \<open>The first argument tells whether \<open>python-telegram-bot\<close> could be imported.\<close>

definition run_telegram :: "bool \<Rightarrow> 's telegram_env \<Rightarrow> nat \<Rightarrow> ('s, unit) tact" where
  "run_telegram imported env n =
     (if \<not> imported
      then throw RuntimeError ''python-telegram-bot is not installed. Install runtime dependencies first.''
      else if strip (tv_token env) = [] then throw ValueError ''telegram.token must be set when adapter=telegram.''
      else poll_loop env 1 n)"

definition stop_telegram :: "'s telegram_env \<Rightarrow> ('s, unit) tact" where
  "stop_telegram env =
     seq (cancel_all_typing_tasks env) (\<lambda>_.
     reading (\<lambda>st.
       if \<not> tg_application st then give ()
       else handle_exn is_exception (outside (tv_stop_running env)) (\<lambda>_. give ())))"

end
