(* ===== verification/TelegramSafety.thy ===== *)
theory TelegramSafety
  imports Telegram EffectLogic CoordinatorSafety
begin

text \<open>
  The Telegram adapter on top of the modelled coordinator: what a message from one chat can
  reach, and how much of a task's output is sent.
\<close>

section \<open>The adapter on the coordinator\<close>

definition on_coord :: "(coord \<Rightarrow> 'a res \<times> coord) \<Rightarrow> (coord \<times> 'b, 'a) effect" where
  "on_coord f w = (case f (fst w) of (r, c) \<Rightarrow> (outcome_of r, (c, snd w)))"

definition beside :: "('b, 'a) effect \<Rightarrow> (coord \<times> 'b, 'a) effect" where
  "beside f w = (case f (snd w) of (r, b) \<Rightarrow> (r, (fst w, b)))"

text \<open>The coordinator's calls are the modelled ones; the sink of a chat has the number \<open>snk chat\<close>.\<close>

definition with_coordinator ::
    "coord_cfg \<Rightarrow> tick \<Rightarrow> bool \<Rightarrow> launch \<Rightarrow> (int \<Rightarrow> nat) \<Rightarrow> 'b telegram_env \<Rightarrow> (coord \<times> 'b) telegram_env" where
  "with_coordinator cfg t stops l snk env =
     \<lparr>tv_prefix = tv_prefix env, tv_allowed = tv_allowed env, tv_approval = tv_approval env, tv_token = tv_token env,
      tv_max_total = tv_max_total env, tv_max_file = tv_max_file env,
      tv_send = (\<lambda>chat s markdown. beside (tv_send env chat s markdown)),
      tv_document = (\<lambda>chat name bytes caption. beside (tv_document env chat name bytes caption)),
      tv_typing = (\<lambda>chat. beside (tv_typing env chat)),
      tv_pending = (\<lambda>sid. on_coord (\<lambda>c. (Inr (pending_role_of sid c), c))),
      tv_submit = (\<lambda>sid approved s. on_coord (\<lambda>c. case submit_reply sid approved s c of (b, c') \<Rightarrow> (Inr b, c'))),
      tv_start = (\<lambda>sid s chat. on_coord (start_task cfg t stops sid s (snk chat) l)),
      tv_create_task = (\<lambda>chat. beside (tv_create_task env chat)),
      tv_task_done = (\<lambda>n w. tv_task_done env n (snd w)),
      tv_cancel = (\<lambda>n. beside (tv_cancel env n)),
      tv_poll = beside (tv_poll env), tv_stop_running = beside (tv_stop_running env),
      tv_sleep = (\<lambda>q. beside (tv_sleep env q))\<rparr>"

lemma with_coordinator_simps [simp]:
  "tv_prefix (with_coordinator cfg t stops l snk env) = tv_prefix env"
  "tv_allowed (with_coordinator cfg t stops l snk env) = tv_allowed env"
  "tv_max_total (with_coordinator cfg t stops l snk env) = tv_max_total env"
  "tv_max_file (with_coordinator cfg t stops l snk env) = tv_max_file env"
  "tv_send (with_coordinator cfg t stops l snk env) chat s markdown = beside (tv_send env chat s markdown)"
  "tv_pending (with_coordinator cfg t stops l snk env) sid = on_coord (\<lambda>c. (Inr (pending_role_of sid c), c))"
  "tv_submit (with_coordinator cfg t stops l snk env) sid approved s
     = on_coord (\<lambda>c. case submit_reply sid approved s c of (b, c') \<Rightarrow> (Inr b, c'))"
  "tv_start (with_coordinator cfg t stops l snk env) sid s chat = on_coord (start_task cfg t stops sid s (snk chat) l)"
  "tv_create_task (with_coordinator cfg t stops l snk env) chat = beside (tv_create_task env chat)"
  by (simp_all add: with_coordinator_def)

section \<open>The calls of one session leave the others alone\<close>

definition others_kept :: "string \<Rightarrow> coord \<Rightarrow> coord \<Rightarrow> bool" where
  "others_kept sid c c' = (\<forall>s. s \<noteq> sid \<longrightarrow> rec_of c' s = rec_of c s)"

lemma others_refl [simp]: "others_kept sid c c"
  by (simp add: others_kept_def)

lemma others_trans: "others_kept sid c c1 \<Longrightarrow> others_kept sid c1 c2 \<Longrightarrow> others_kept sid c c2"
  by (simp add: others_kept_def)

lemma submit_others: "others_kept sid c (snd (submit_reply sid approved s c))"
  by (auto simp: submit_reply_def others_kept_def split: option.split)

lemma worker_stop_recs [simp]: "rec_of (worker_stop w c) = rec_of c"
  by (auto simp: worker_stop_def send_to_def)

lemma outside_recs [simp]: "rec_of (op_outside stops p c) = rec_of c"
  by (simp add: op_outside_def Let_def split: option.split)

lemma complete_others: "op_session p = sid \<Longrightarrow> others_kept sid c (complete_op stops p c)"
  by (auto simp: complete_op_def finish_op_def Let_def others_kept_def split: option.split)

lemma complete_all_others:
  "list_all (\<lambda>p. op_session p = sid) ps \<Longrightarrow> others_kept sid c (fold (complete_op stops) ps c)"
proof (induction ps arbitrary: c)
  case (Cons p ps)
  then show ?case using others_trans [OF complete_others] by fastforce
qed simp

lemma retire_stale_others: "others_kept sid c (retire_stale_sandbox stops sid c)"
proof -
  have "others_kept sid c (retire_begin sid c)"
    by (auto simp: retire_begin_def begin_op_def others_kept_def split: option.split)
  moreover have "list_all (\<lambda>p. op_session p = sid) (drop (length (ops c)) (ops (retire_begin sid c)))"
    by (auto simp: retire_begin_def begin_op_def split: option.split)
  ultimately show ?thesis
    unfolding retire_stale_sandbox_def complete_new_ops_def using others_trans complete_all_others by blast
qed

lemma start_locked_others: "others_kept sid c (snd (start_locked cfg sid txt snk l c))"
proof -
  obtain r c' where r: "start_locked cfg sid txt snk l c = (r, c')" by fastforce
  then show ?thesis
  proof (cases rule: start_locked_cases)
    case (accepted task e st0)
    from run_task_starts [OF accepted(3), of "\<lambda>_. True"] accepted(4) r show ?thesis
      by (simp add: starts_def others_kept_def)
  qed (simp add: r others_kept_def)
qed

lemma start_others: "others_kept sid c (snd (start_task cfg t stops sid txt snk l c))"
proof -
  let ?c = "retire_stale_sandbox stops sid c"
  obtain r c1 where r: "start_locked cfg sid txt snk l ?c = (r, c1)" by fastforce
  have "others_kept sid c (snd (start_locked cfg sid txt snk l ?c))"
    by (rule others_trans [OF retire_stale_others start_locked_others])
  then have c1: "others_kept sid c c1" by (simp add: r)
  have "others_kept sid c1 (snd (handle_worker_error cfg t sid e c1))" for e
    using relays_error [of sid c1 cfg t e] by (simp add: relays_def others_kept_def)
  with c1 have reported: "others_kept sid c (snd (handle_worker_error cfg t sid e c1))" for e
    using others_trans by blast
  show ?thesis
  proof (cases r)
    case (Inl e)
    with r c1 show ?thesis by (simp add: start_task_def)
  next
    case (Inr q)
    obtain status err where q: "q = (status, err)" by fastforce
    have "snd (case handle_worker_error cfg t sid e c1 of (Inl e', c2) \<Rightarrow> (Inl e', c2) | (Inr _, c2) \<Rightarrow> (Inr Started, c2))
        = snd (handle_worker_error cfg t sid e c1)" for e
      by (simp split: prod.split sum.split)
    with r c1 reported Inr q show ?thesis by (cases err) (simp_all add: start_task_def)
  qed
qed

section \<open>What a message reaches\<close>

text \<open>The coordinator is as it was but for the session \<open>sid\<close>.\<close>

definition only_session :: "string \<Rightarrow> coord \<Rightarrow> (coord \<times> 'b) telegram \<Rightarrow> bool" where
  "only_session sid c st = others_kept sid c (fst (tg_world st))"

definition coord_is :: "coord \<Rightarrow> (coord \<times> 'b) telegram \<Rightarrow> bool" where
  "coord_is c st = (fst (tg_world st) = c)"

text \<open>Whatever is kept when only the world beside the coordinator changes.\<close>

locale coordinator_view =
  fixes P :: "(coord \<times> 'b) telegram \<Rightarrow> bool"
  assumes coordinator_only: "P st \<Longrightarrow> fst (tg_world st') = fst (tg_world st) \<Longrightarrow> P st'"
begin

lemma beside_keeps [act_rules]: "keeps P (outside (beside f))"
  by (auto simp: valid_def outside_def beside_def intro: coordinator_only split: prod.splits outcome.splits)

lemma asking_keeps [act_rules]: "keeps P (outside (on_coord (\<lambda>c. (Inr (f c), c))))"
  by (auto simp: valid_def outside_def on_coord_def intro: coordinator_only split: prod.splits outcome.splits)

lemma field_keeps [act_rules]: "(\<And>st. tg_world (f st) = tg_world st) \<Longrightarrow> keeps P (update f)"
  by (rule valid_update) (erule coordinator_only, simp)

lemma require_bot_keeps [act_rules]: "keeps P require_bot"
  unfolding require_bot_def by (intro act_rules | assumption)+

lemma send_text_keeps [act_rules]: "keeps P (send_text (with_coordinator cfg t stops l snk env) chat markdown s)"
proof -
  have "keeps P (send_chunks (with_coordinator cfg t stops l snk env) chat markdown cs)" for cs
    by (induction cs; cases markdown) (simp_all, (intro act_rules | assumption)+)
  then show ?thesis
    unfolding send_text_def by (intro act_rules | assumption)+
qed

lemma ensure_typing_keeps [act_rules]: "keeps P (ensure_typing_task (with_coordinator cfg t stops l snk env) chat)"
  unfolding ensure_typing_task_def with_coordinator_simps by (intro act_rules | assumption | simp)+

lemma authorized_keeps [act_rules]: "keeps P (ensure_authorized (with_coordinator cfg t stops l snk env) chat)"
  unfolding ensure_authorized_def by (intro act_rules | assumption)+

end

interpretation unchanged: coordinator_view "coord_is c"
  by unfold_locales (simp add: coord_is_def)

interpretation own_only: coordinator_view "only_session sid c"
  by unfold_locales (simp add: only_session_def)

lemma calling_keeps: "(\<And>c'. others_kept sid c' (snd (f c'))) \<Longrightarrow> keeps (only_session sid c) (outside (on_coord f))"
  by (auto simp: valid_def outside_def on_coord_def only_session_def split: prod.splits outcome.splits)
    (metis others_trans snd_conv)+

lemma answering_keeps:
  "keeps (only_session (session_of env chat) c) (answer_prompt (with_coordinator cfg t stops l snk env) chat pending s)"
proof -
  have "keeps (only_session (session_of env chat) c)
      (outside (tv_submit (with_coordinator cfg t stops l snk env) (session_of env chat) approved reply))" for approved reply
    by (simp, rule calling_keeps) (use submit_others in \<open>simp split: prod.split, metis snd_conv\<close>)
  then show ?thesis
    unfolding answer_prompt_def session_of_def with_coordinator_simps
    by (auto intro!: act_rules own_only.send_text_keeps split: prod.split)
qed

lemma starting_keeps:
  "keeps (only_session (session_of env chat) c) (begin_task (with_coordinator cfg t stops l snk env) chat s)"
proof -
  have "keeps (only_session (session_of env chat) c)
      (outside (tv_start (with_coordinator cfg t stops l snk env) (session_of env chat) s chat))"
    by (simp, rule calling_keeps) (rule start_others)
  then show ?thesis
    unfolding begin_task_def session_of_def with_coordinator_simps
    by (auto intro!: act_rules own_only.send_text_keeps own_only.ensure_typing_keeps split: start_status.split)
qed

lemma message_own_session:
  assumes "up_chat up = Some chat"
  shows "keeps (only_session (session_of env chat) c) (on_text_message (with_coordinator cfg t stops l snk env) up)"
  unfolding on_text_message_def assms Let_def
  by (cases "up_text up")
    (auto intro!: act_rules own_only.authorized_keeps own_only.field_keeps own_only.asking_keeps answering_keeps starting_keeps)

lemma stranger_refused:
  assumes "up_chat up = Some chat" "tv_allowed env \<noteq> []" "chat \<notin> set (tv_allowed env)"
  shows "keeps (coord_is c) (on_text_message (with_coordinator cfg t stops l snk env) up)"
proof -
  let ?env = "with_coordinator cfg t stops l snk env"
  have "valid (coord_is c) (ensure_authorized ?env chat) (\<lambda>b st. coord_is c st \<and> \<not> b) (coord_is c)"
    unfolding ensure_authorized_def using assms(2,3)
    by (simp, intro valid_seq [OF unchanged.send_text_keeps] valid_give) simp
  moreover have "valid (\<lambda>st. coord_is c st \<and> \<not> b) (if \<not> b then give () else m) (\<lambda>_. coord_is c) (coord_is c)" for b m
    by (cases b) (simp_all add: valid_def give_def)
  ultimately have refused: "keeps (coord_is c) (seq (ensure_authorized ?env chat) (\<lambda>b. if \<not> b then give () else m b))" for m
    by (rule valid_seq)
  show ?thesis
  proof (cases "up_text up")
    case (Some raw)
    then show ?thesis
      unfolding on_text_message_def assms(1) Let_def prod.case option.case Some
      by (intro valid_if valid_give refused)
  qed (simp add: on_text_message_def assms(1) valid_give)
qed

lemma int_str_inj: "int_str m = int_str n \<longleftrightarrow> m = n"
proof
  assume "int_str m = int_str n"
  then show "m = n" using parse_int_str [of "[]" m] parse_int_str [of "[]" n] by (simp add: delim_def)
qed simp

text \<open>
  C8. A chat reaches its own session only: on the modelled coordinator, whatever the bot and the
  sandbox do, a message from one chat leaves the records of the sessions of all other chats as
  they were, since chats have different session ids; and where chats are restricted, a message
  from a chat that is not allowed leaves the whole coordinator as it was.
\<close>

theorem chat_confined:
  assumes "on_text_message (with_coordinator cfg t stops l snk env) up st = (r, st')" "r \<noteq> Blocked"
    and "up_chat up = Some chat"
  shows "(c \<noteq> chat \<longrightarrow> rec_of (fst (tg_world st')) (session_of env c) = rec_of (fst (tg_world st)) (session_of env c))
     \<and> (tv_allowed env \<noteq> [] \<and> chat \<notin> set (tv_allowed env) \<longrightarrow> fst (tg_world st') = fst (tg_world st))"
proof -
  let ?m = "on_text_message (with_coordinator cfg t stops l snk env) up"
  have kept: "P st \<Longrightarrow> P st'" if "keeps P ?m" for P
    using that assms(1,2) by (cases r) (auto dest: validD)
  have "only_session (session_of env chat) (fst (tg_world st)) st'"
    by (rule kept [OF message_own_session [OF assms(3)]]) (simp add: only_session_def)
  moreover have "fst (tg_world st') = fst (tg_world st)" if "tv_allowed env \<noteq> []" "chat \<notin> set (tv_allowed env)"
    using kept [OF stranger_refused [OF assms(3) that]] by (simp add: coord_is_def)
  ultimately show ?thesis
    by (simp add: only_session_def others_kept_def session_of_def int_str_inj)
qed

section \<open>Uploads\<close>

text \<open>A bot that lists the documents it has sent.\<close>

definition aside :: "('b, 'a) effect \<Rightarrow> ('b \<times> (int \<times> string) list, 'a) effect" where
  "aside f w = (case f (fst w) of (r, b) \<Rightarrow> (r, (b, snd w)))"

definition listed :: "int \<Rightarrow> string \<Rightarrow> ('b, 'a) effect \<Rightarrow> ('b \<times> (int \<times> string) list, 'a) effect" where
  "listed chat bytes f w = (case f (fst w) of (r, b) \<Rightarrow> (r, (b, snd w @ [(chat, bytes)])))"

definition listing :: "'b telegram_env \<Rightarrow> ('b \<times> (int \<times> string) list) telegram_env" where
  "listing env =
     \<lparr>tv_prefix = tv_prefix env, tv_allowed = tv_allowed env, tv_approval = tv_approval env, tv_token = tv_token env,
      tv_max_total = tv_max_total env, tv_max_file = tv_max_file env,
      tv_send = (\<lambda>chat s markdown. aside (tv_send env chat s markdown)),
      tv_document = (\<lambda>chat name bytes caption. listed chat bytes (tv_document env chat name bytes caption)),
      tv_typing = (\<lambda>chat. aside (tv_typing env chat)), tv_pending = (\<lambda>sid. aside (tv_pending env sid)),
      tv_submit = (\<lambda>sid approved s. aside (tv_submit env sid approved s)),
      tv_start = (\<lambda>sid s chat. aside (tv_start env sid s chat)),
      tv_create_task = (\<lambda>chat. aside (tv_create_task env chat)), tv_task_done = (\<lambda>n w. tv_task_done env n (fst w)),
      tv_cancel = (\<lambda>n. aside (tv_cancel env n)), tv_poll = aside (tv_poll env),
      tv_stop_running = aside (tv_stop_running env), tv_sleep = (\<lambda>q. aside (tv_sleep env q))\<rparr>"

lemma listing_simps [simp]:
  "tv_max_total (listing env) = tv_max_total env" "tv_max_file (listing env) = tv_max_file env"
  "tv_send (listing env) chat s markdown = aside (tv_send env chat s markdown)"
  "tv_document (listing env) chat name bytes caption = listed chat bytes (tv_document env chat name bytes caption)"
  by (simp_all add: listing_def)

definition uploads_ok :: "'b telegram_env \<Rightarrow> int \<Rightarrow> int \<Rightarrow> (int \<times> string) list \<Rightarrow> bool" where
  "uploads_ok env chat sent docs =
     (list_all (\<lambda>(c, bytes). c = chat \<and> int (length bytes) \<le> tv_max_file env) docs
      \<and> (docs = [] \<or> sent + (\<Sum>(c, bytes) \<leftarrow> docs. int (length bytes)) \<le> tv_max_total env))"

lemma uploads_Nil [simp]: "uploads_ok env chat sent []"
  by (simp add: uploads_ok_def)

lemma uploads_Cons:
  "uploads_ok env chat (sent + int (length bytes)) docs \<Longrightarrow> int (length bytes) \<le> tv_max_file env
    \<Longrightarrow> sent + int (length bytes) \<le> tv_max_total env \<Longrightarrow> uploads_ok env chat sent ((chat, bytes) # docs)"
  by (auto simp: uploads_ok_def)

definition uploads_from ::
    "'b telegram_env \<Rightarrow> int \<Rightarrow> int \<Rightarrow> ('b \<times> (int \<times> string) list) telegram \<Rightarrow> ('b \<times> (int \<times> string) list) telegram \<Rightarrow> bool" where
  "uploads_from env chat sent st st' =
     (\<exists>docs. snd (tg_world st') = snd (tg_world st) @ docs \<and> uploads_ok env chat sent docs)"

lemma uploads_refl: "snd (tg_world st') = snd (tg_world st) \<Longrightarrow> uploads_from env chat sent st st'"
  by (auto simp: uploads_from_def)

lemma uploads_step:
  assumes "uploads_from env chat (sent + int (length bytes)) st1 st2" "snd (tg_world st1) = snd (tg_world st) @ [(chat, bytes)]"
    and "int (length bytes) \<le> tv_max_file env" "sent + int (length bytes) \<le> tv_max_total env"
  shows "uploads_from env chat sent st st2"
proof -
  obtain docs where "snd (tg_world st2) = snd (tg_world st1) @ docs" "uploads_ok env chat (sent + int (length bytes)) docs"
    using assms(1) by (auto simp: uploads_from_def)
  then show ?thesis
    using uploads_Cons [OF _ assms(3,4)] assms(2) by (auto simp: uploads_from_def)
qed

lemma send_document_listed:
  "outside (listed chat bytes f) st = (r, st1) \<Longrightarrow> snd (tg_world st1) = snd (tg_world st) @ [(chat, bytes)]"
  by (auto simp: outside_def listed_def split: prod.splits)

lemma send_files_uploads:
  "send_files (listing env) chat sent skipped vs st = (r, st') \<Longrightarrow> uploads_from env chat sent st st'"
proof (induction vs arbitrary: sent skipped st)
  case Nil
  then show ?case by (simp add: give_def uploads_refl)
next
  case (Cons v vs)
  show ?case
  proof (cases "\<exists>entry rel b64. v = VDict entry \<and> dget entry ''path'' = VStr rel \<and> dget entry ''content_b64'' = VStr b64")
    case False
    then have "send_files (listing env) chat sent skipped (v # vs) = send_files (listing env) chat sent skipped vs"
      by (auto split: pyval.split)
    with Cons show ?thesis by simp
  next
    case True
    then obtain entry rel b64 where v: "v = VDict entry" "dget entry ''path'' = VStr rel" "dget entry ''content_b64'' = VStr b64"
      by blast
    let ?n = "declared_or_estimated_size entry b64"
    consider (big) "tv_max_file env < ?n" | (full) "\<not> tv_max_file env < ?n" "tv_max_total env < sent + ?n"
      | (fits) "\<not> tv_max_file env < ?n" "\<not> tv_max_total env < sent + ?n" by blast
    then show ?thesis
    proof cases
      case fits
      show ?thesis
      proof (cases "decode_content b64")
        case (Inl e)
        with Cons.prems fits show ?thesis by (simp add: v seq_def from_res_def uploads_refl)
      next
        case (Inr decoded)
        show ?thesis
        proof (cases decoded)
          case None
          with Cons fits Inr show ?thesis by (simp add: v seq_def from_res_def)
        next
          case (Some bytes)
          let ?len = "int (length bytes)"
          consider (over) "tv_max_file env < ?len" | (last) "\<not> tv_max_file env < ?len" "tv_max_total env < sent + ?len"
            | (sent) "\<not> tv_max_file env < ?len" "\<not> tv_max_total env < sent + ?len" by blast
          then show ?thesis
          proof cases
            case sent
            let ?send = "outside (tv_document (listing env) chat (if path_name rel = [] then ''output.bin'' else path_name rel)
                bytes (''Output: '' @ rel))"
            obtain o1 st1 where m: "?send st = (o1, st1)" by fastforce
            then have listed: "snd (tg_world st1) = snd (tg_world st) @ [(chat, bytes)]"
              by (simp add: send_document_listed)
            have "uploads_from env chat (sent + ?len) st1 st'"
            proof (cases o1)
              case (Done u)
              then have "send_files (listing env) chat (sent + ?len) skipped vs st1 = (r, st')"
                using Cons.prems fits Inr Some sent m by (simp add: v seq_def from_res_def)
              then show ?thesis by (rule Cons.IH)
            qed (use Cons.prems fits Inr Some sent m in \<open>simp_all add: v seq_def from_res_def uploads_refl\<close>)
            then show ?thesis using sent by (intro uploads_step [OF _ listed]) simp_all
          qed (use Cons fits Inr Some in \<open>simp_all add: v seq_def from_res_def give_def uploads_refl\<close>)
        qed
      qed
    qed (use Cons in \<open>simp_all add: v give_def uploads_refl\<close>)
  qed
qed

lemma text_lists_nothing: "keeps (\<lambda>st. R (snd (tg_world st))) (send_text (listing env) chat markdown s)"
proof -
  have a: "keeps (\<lambda>st. R (snd (tg_world st))) (outside (aside f))" for f :: "('b, unit) effect"
    by (auto simp: valid_def outside_def aside_def split: prod.splits outcome.splits)
  have "keeps (\<lambda>st. R (snd (tg_world st))) (send_chunks (listing env) chat markdown cs)" for cs
    by (induction cs; cases markdown) (simp_all, (intro act_rules a | assumption)+)
  then show ?thesis
    unfolding send_text_def require_bot_def by (intro act_rules | assumption)+
qed

text \<open>
  C27. What a \<open>done\<close> event uploads respects the limits: every document goes to the chat of the
  task, is at most \<open>max_output_file_bytes\<close> long, and together they are at most
  \<open>max_output_total_bytes\<close>, whatever sizes the event declares and wherever sending fails. No
  other event uploads anything.
\<close>

theorem uploads_bounded:
  assumes "show_event (listing env) chat event st = (r, st')" "r \<noteq> Blocked"
  shows "\<exists>docs. snd (tg_world st') = snd (tg_world st) @ docs \<and> (docs = [] \<or> dget event ''type'' = VStr ''done'')
     \<and> list_all (\<lambda>(c, bytes). c = chat \<and> int (length bytes) \<le> tv_max_file env) docs
     \<and> (docs = [] \<or> (\<Sum>(c, bytes) \<leftarrow> docs. int (length bytes)) \<le> tv_max_total env)"
proof -
  let ?same = "\<lambda>ds. ds = snd (tg_world st)" and ?type = "dget event ''type'' = VStr ''done''"
  define grown where "grown = (\<lambda>ds. \<exists>docs. ds = snd (tg_world st) @ docs \<and> uploads_ok env chat 0 docs \<and> (docs = [] \<or> ?type))"
  have same: "grown ds" if "?same ds" for ds
    using that by (auto simp: grown_def)
  have files: "valid (\<lambda>s. ?same (snd (tg_world s))) (send_files (listing env) chat 0 False vs)
      (\<lambda>_ s. grown (snd (tg_world s))) (\<lambda>s. grown (snd (tg_world s)))" if ?type for vs
    by (rule validI) (auto dest!: send_files_uploads simp: uploads_from_def grown_def that)
  have sent: "valid (\<lambda>s. ?same (snd (tg_world s))) (send_done_files (listing env) chat v)
      (\<lambda>_ s. grown (snd (tg_world s))) (\<lambda>s. grown (snd (tg_world s)))" if ?type for v
  proof (cases v)
    case (VList vs)
    have "valid (\<lambda>s. ?same (snd (tg_world s))) require_bot (\<lambda>_ s. ?same (snd (tg_world s))) (\<lambda>s. grown (snd (tg_world s)))"
      by (auto simp: require_bot_def valid_def reading_def give_def throw_def intro: same)
    then show ?thesis
      unfolding send_done_files_def VList pyval.case
      by (intro valid_seq [OF _ valid_seq [OF files [OF that]]] valid_if text_lists_nothing valid_give)
  qed (auto simp: send_done_files_def intro!: valid_give same)
  have "valid (\<lambda>s. ?same (snd (tg_world s))) (show_event (listing env) chat event)
      (\<lambda>_ s. grown (snd (tg_world s))) (\<lambda>s. grown (snd (tg_world s)))"
  proof -
    have "valid (\<lambda>s. ?same (snd (tg_world s))) (send_text (listing env) chat True (show_text (listing env) event))
        (\<lambda>_ s. ?same (snd (tg_world s))) (\<lambda>s. grown (snd (tg_world s)))"
      by (rule valid_weaken [OF text_lists_nothing [of ?same]]) (auto intro: same)
    then show ?thesis
      unfolding show_event_def by (rule valid_seq) (intro valid_if valid_give sent, auto intro: same)
  qed
  then have "grown (snd (tg_world st'))"
    using assms by (cases r) (auto dest: validD)
  then show ?thesis
    by (auto simp: grown_def uploads_ok_def)
qed

section \<open>Examples\<close>

definition demo_bot :: "unit telegram_env" where
  "demo_bot =
     \<lparr>tv_prefix = ''telegram-'', tv_allowed = [7], tv_approval = ''review'', tv_token = ''t'', tv_max_total = 5, tv_max_file = 3,
      tv_send = (\<lambda>_ _ _. give ()), tv_document = (\<lambda>_ _ _ _. give ()), tv_typing = (\<lambda>_. give ()),
      tv_pending = (\<lambda>_. give None), tv_submit = (\<lambda>_ _ _. give True), tv_start = (\<lambda>_ _ _. give Started),
      tv_create_task = (\<lambda>_. give 0), tv_task_done = (\<lambda>_ _. True), tv_cancel = (\<lambda>_. give ()), tv_poll = give (),
      tv_stop_running = give (), tv_sleep = (\<lambda>_. give ())\<rparr>"

definition demo_chat :: "'s \<Rightarrow> 's telegram" where
  "demo_chat w = (new_telegram w)\<lparr>tg_application := True\<rparr>"

definition demo_file :: "string \<Rightarrow> string \<Rightarrow> pyval" where
  "demo_file name b64 = VDict (dict_of [(''path'', VStr name), (''content_b64'', VStr b64)])"

definition demo_done :: pydict where
  "demo_done = dict_of
     [(''type'', VStr ''done''), (''success'', VBool True), (''reply'', VStr ''ok.''),
      (''files'', VList [demo_file ''out/a'' ''YWJj'', demo_file ''b'' ''YWJjZA=='', demo_file ''c'' ''YWI='', demo_file ''d'' ''YQ==''])]"

theorem uploads_bounded_witness:
  "\<exists>r st'. show_event (listing demo_bot) 7 demo_done (demo_chat ((), [])) = (r, st') \<and> snd (tg_world st') = [(7, ''abc''), (7, ''ab'')]
     \<and> (\<Sum>(c, bytes) \<leftarrow> snd (tg_world st'). int (length bytes)) \<le> 5"
proof -
  have "case show_event (listing demo_bot) 7 demo_done (demo_chat ((), [])) of
      (r, st') \<Rightarrow> r = Done () \<and> snd (tg_world st') = [(7, ''abc''), (7, ''ab'')]"
    by code_simp
  then obtain st' where run: "show_event (listing demo_bot) 7 demo_done (demo_chat ((), [])) = (Done (), st')"
    and docs: "snd (tg_world st') = [(7, ''abc''), (7, ''ab'')]"
    by (auto split: prod.splits)
  have "tv_max_total demo_bot = 5" "snd (tg_world (demo_chat ((), []))) = []"
    by (simp_all add: demo_bot_def demo_chat_def new_telegram_def)
  with uploads_bounded [OF run] docs run show ?thesis by auto
qed

theorem chat_confined_witness:
  "\<exists>r st'. on_text_message (with_coordinator demo_cfg demo_tick True demo_launch nat demo_bot)
        \<lparr>up_chat = Some 8, up_text = Some ''hello''\<rparr> (demo_chat (initial_coord (\<lambda>_. None), ())) = (r, st') \<and> r \<noteq> Blocked
     \<and> fst (tg_world st') = initial_coord (\<lambda>_. None)"
proof -
  let ?run = "on_text_message (with_coordinator demo_cfg demo_tick True demo_launch nat demo_bot)
        \<lparr>up_chat = Some 8, up_text = Some ''hello''\<rparr> (demo_chat (initial_coord (\<lambda>_. None), ()))"
  have "fst ?run = Done ()"
    by code_simp
  then obtain st' where run: "?run = (Done (), st')" by (cases ?run) auto
  from chat_confined [OF run, of 8 9] run show ?thesis
    by (intro exI [of _ "Done ()"] exI [of _ st']) (simp add: demo_bot_def demo_chat_def new_telegram_def)
qed

end
