(* ===== verification/Cli.thy ===== *)
theory Cli
  imports TelegramText EffectLogic Coordinator
begin

text \<open>
  \<open>adapters/cli.py\<close>: the terminal adapter, over a sandbox of its own or over the coordinator.
  Reading a line, printing, the sandbox, the coordinator and the event queue are functions of
  the world. Only \<open>_latest_state\<close> changes in the adapter itself.
\<close>

section \<open>The adapter and its surroundings\<close>

record 's cli_env =
  cv_approval :: string
  cv_session :: string
  cv_coordinator :: bool
  cv_sandbox :: bool
  cv_input :: "string \<Rightarrow> ('s, string) effect"
  cv_print :: "string \<Rightarrow> ('s, unit) effect"
  cv_start :: "string \<Rightarrow> string \<Rightarrow> ('s, start_status) effect"
  cv_submit :: "string \<Rightarrow> bool \<Rightarrow> string \<Rightarrow> ('s, bool) effect"
  cv_stop_session :: "string \<Rightarrow> ('s, unit) effect"
  cv_next_event :: "('s, pydict option) effect"
  cv_run :: "pydict \<Rightarrow> ('s, unit) effect"
  cv_receive :: "('s, pydict option) effect"
  cv_send :: "pydict \<Rightarrow> ('s, unit) effect"
  cv_stop :: "('s, unit) effect"
  cv_persist :: "string \<Rightarrow> pydict \<Rightarrow> ('s, pydict option) effect"

record 's cli =
  cl_world :: 's
  cl_latest :: "pydict option"

type_synonym ('s, 'a) cact = "('s cli, 'a) effect"

text \<open>\<open>__init__\<close>: a state to resume goes to the coordinator first.\<close>

definition new_cli :: "'s cli_env \<Rightarrow> (string \<Rightarrow> pydict \<Rightarrow> 's \<Rightarrow> 's) \<Rightarrow> pydict option \<Rightarrow> 's \<Rightarrow> 's cli" where
  "new_cli env seed resume_state w =
     \<lparr>cl_world = (case resume_state of
                   Some s \<Rightarrow> if cv_coordinator env then seed (cv_session env) s w else w
                 | None \<Rightarrow> w),
      cl_latest = resume_state\<rparr>"

definition outer :: "('s, 'a) effect \<Rightarrow> ('s, 'a) cact" where
  "outer f st = (case f (cl_world st) of (r, w) \<Rightarrow> (r, st\<lparr>cl_world := w\<rparr>))"

definition say :: "'s cli_env \<Rightarrow> string \<Rightarrow> ('s, unit) cact" where
  "say env s = outer (cv_print env s)"

section \<open>Input\<close>

text \<open>\<open>CLIExitRequested\<close> is known by its name, \<open>EOFError\<close> too.\<close>

definition CLIExitRequested :: exn_kind where
  "CLIExitRequested = OtherException ''CLIExitRequested''"

definition is_exit_command :: "string \<Rightarrow> bool" where
  "is_exit_command s = (lower (strip s) \<in> {''/quit'', ''/exit''})"

definition read_input :: "'s cli_env \<Rightarrow> string \<Rightarrow> ('s, string) cact" where
  "read_input env prompt =
     handle_exn (\<lambda>k. k = OtherException ''EOFError'') (outer (cv_input env prompt)) (\<lambda>_. throw CLIExitRequested [])"

definition read_answer :: "'s cli_env \<Rightarrow> string \<Rightarrow> (string \<Rightarrow> string) \<Rightarrow> ('s, string) cact" where
  "read_answer env prompt f =
     seq (read_input env prompt) (\<lambda>s. if is_exit_command (f s) then throw CLIExitRequested [] else give (f s))"

definition get_cli_task :: "'s cli_env \<Rightarrow> ('s, pydict) cact" where
  "get_cli_task env =
     seq (read_answer env ''Task: '' strip) (\<lambda>s.
       if s = [] then throw ValueError ''Task cannot be empty.''
       else
         reading (\<lambda>st.
           (let task = dict_of [(''type'', VStr ''task''), (''text'', VStr s), (''session_id'', VStr (cv_session env)),
                                (''approval_mode'', VStr (cv_approval env))]
            in case cl_latest st of
                 None \<Rightarrow> give task
               | Some state \<Rightarrow>
                   seq (from_res (state_for_follow_up state)) (\<lambda>d. give (dset task ''state'' (VDict d))))))"

definition get_reply :: "'s cli_env \<Rightarrow> string \<Rightarrow> ('s, bool \<times> string) cact" where
  "get_reply env role =
     (if role = ''plan'' then
        seq (read_answer env ''Approve plan? [y/n]: '' (\<lambda>s. lower (strip s))) (\<lambda>answer.
          if answer \<in> {''y'', ''yes''} then give (True, [])
          else seq (read_answer env ''Plan feedback: '' strip) (\<lambda>feedback. give (False, feedback)))
      else if role = ''clarification'' then seq (read_answer env ''Reply: '' strip) (\<lambda>s. give (True, s))
      else throw ValueError (''Unsupported reply role: '' @ role))"

section \<open>Output\<close>

text \<open>
  \<open>result.get\<close> of a result that is no dictionary raises \<open>AttributeError\<close>, whose text is left out.
\<close>

definition show_lines :: "pydict \<Rightarrow> string list res" where
  "show_lines event =
     (let content = to_text (dget event ''content'') in
      if dget event ''type'' = VStr ''message'' then
        Inr (if dget event ''role'' = VStr ''plan'' then [newline # ''Plan:'', content]
             else if dget event ''role'' = VStr ''clarification'' then [newline # ''Clarification: '' @ content]
             else if dget event ''role'' = VStr ''status'' then [newline # ''Status: '' @ content]
             else [newline # ''Message: '' @ content])
      else if dget event ''type'' = VStr ''action'' then
        (case dget_or event ''result'' (VDict []) of
           VDict d \<Rightarrow>
             Inr [newline # ''Action: '' @ py_str (dget_or event ''tool'' (VStr ''unknown'')) @ '' (exit=''
                  @ py_str (dget d ''exit_code'') @ '')'']
         | _ \<Rightarrow> raise AttributeError [])
      else if dget event ''type'' = VStr ''done'' then
        Inr [newline # (if truthy (dget event ''success'') then ''Success'' else ''Failed'') @ '': '' @ to_text (dget event ''reply'')]
      else Inr [newline # ''Event: '' @ to_text (VDict event)])"

fun say_all :: "'s cli_env \<Rightarrow> string list \<Rightarrow> ('s, unit) cact" where
  "say_all env [] = give ()"
| "say_all env (l # ls) = seq (say env l) (\<lambda>_. say_all env ls)"

definition show_cli :: "'s cli_env \<Rightarrow> pydict \<Rightarrow> ('s, unit) cact" where
  "show_cli env event = seq (from_res (show_lines event)) (say_all env)"

section \<open>The event loop of one task\<close>

text \<open>
  Both modes share it: how the next event comes and how a reply is passed on differ. The result
  tells whether the user asked to leave; the number bounds the rounds.
\<close>

definition answer_event ::
    "'s cli_env \<Rightarrow> (bool \<Rightarrow> string \<Rightarrow> ('s, unit) cact) \<Rightarrow> pydict \<Rightarrow> pydict \<Rightarrow> ('s, bool) cact" where
  "answer_event env reply task event =
     (let ask = \<lambda>role. handle_exn (\<lambda>k. k = CLIExitRequested)
            (seq (get_reply env role) (\<lambda>(approved, s). seq (reply approved s) (\<lambda>_. give False))) (\<lambda>_. give True)
      in if dget event ''type'' \<noteq> VStr ''message'' then give False
         else if dget event ''role'' = VStr ''plan'' \<and> dget task ''approval_mode'' = VStr ''review'' then ask ''plan''
         else if dget event ''role'' = VStr ''clarification'' then ask ''clarification''
         else give False)"

fun event_loop ::
    "'s cli_env \<Rightarrow> ('s, pydict option) cact \<Rightarrow> (bool \<Rightarrow> string \<Rightarrow> ('s, unit) cact) \<Rightarrow> (pydict \<Rightarrow> ('s, unit) cact)
      \<Rightarrow> pydict \<Rightarrow> nat \<Rightarrow> ('s, bool) cact" where
  "event_loop env poll reply finished task 0 = (\<lambda>st. (Blocked, st))"
| "event_loop env poll reply finished task (Suc n) =
     seq poll (\<lambda>next_event.
       case next_event of
         None \<Rightarrow> event_loop env poll reply finished task n
       | Some event \<Rightarrow>
           seq (show_cli env event) (\<lambda>_.
           seq (answer_event env reply task event) (\<lambda>leave.
             if leave then give True
             else if dget event ''type'' = VStr ''done'' then seq (finished event) (\<lambda>_. give False)
             else event_loop env poll reply finished task n)))"

section \<open>Over the coordinator\<close>

definition cli_coordinator_events :: "'s cli_env \<Rightarrow> pydict \<Rightarrow> nat \<Rightarrow> ('s, bool) cact" where
  "cli_coordinator_events env task n =
     event_loop env (outer (cv_next_event env))
       (\<lambda>approved s. seq (outer (cv_submit env (cv_session env) approved s)) (\<lambda>_. give ()))
       (\<lambda>_. give ()) task n"

text \<open>A task that cannot be read is reported; the result of a round tells whether another follows.\<close>

definition read_task :: "'s cli_env \<Rightarrow> (pydict \<Rightarrow> ('s, bool) cact) \<Rightarrow> ('s, bool) cact" where
  "read_task env serve =
     seq (attempt (\<lambda>k. k = CLIExitRequested \<or> is_ValueError k) (get_cli_task env)) (\<lambda>r.
       case r of
         Inr task \<Rightarrow> serve task
       | Inl e \<Rightarrow>
           if exn_class e = CLIExitRequested then give False
           else seq (say env (newline # ''Error: '' @ exn_str e)) (\<lambda>_. give True))"

definition coordinator_round :: "'s cli_env \<Rightarrow> nat \<Rightarrow> ('s, bool) cact" where
  "coordinator_round env n =
     read_task env (\<lambda>task.
       seq (outer (cv_start env (cv_session env) (py_str (dget task ''text'')))) (\<lambda>status.
         case status of
           StartBusy \<Rightarrow> seq (say env (newline # ''A task is already running for this session.'')) (\<lambda>_. give True)
         | AtCapacity \<Rightarrow> seq (say env (newline # ''The coordinator is at capacity. Please retry shortly.'')) (\<lambda>_. give True)
         | Started \<Rightarrow>
             seq (cli_coordinator_events env task n) (\<lambda>leave.
               if leave then seq (outer (cv_stop_session env (cv_session env))) (\<lambda>_. give False) else give True)))"

fun rounds :: "('s, bool) cact \<Rightarrow> nat \<Rightarrow> ('s, unit) cact" where
  "rounds m 0 = (\<lambda>st. (Blocked, st))"
| "rounds m (Suc n) = seq m (\<lambda>go_on. if go_on then rounds m n else give ())"

definition run_with_coordinator :: "'s cli_env \<Rightarrow> nat \<Rightarrow> ('s, unit) cact" where
  "run_with_coordinator env n = rounds (coordinator_round env n) n"

section \<open>Over a sandbox\<close>

definition user_reply_event :: "bool \<Rightarrow> string \<Rightarrow> pydict" where
  "user_reply_event approved s = dict_of [(''type'', VStr ''user_reply''), (''approved'', VBool approved), (''text'', VStr s)]"

definition cli_sandbox_events :: "'s cli_env \<Rightarrow> pydict \<Rightarrow> nat \<Rightarrow> ('s, bool) cact" where
  "cli_sandbox_events env task n =
     event_loop env (outer (cv_receive env)) (\<lambda>approved s. outer (cv_send env (user_reply_event approved s)))
       (\<lambda>event. seq (outer (cv_persist env (py_str (dget task ''session_id'')) event)) (\<lambda>state.
          update (\<lambda>st. st\<lparr>cl_latest := state\<rparr>))) task n"

definition sandbox_round :: "'s cli_env \<Rightarrow> nat \<Rightarrow> ('s, bool) cact" where
  "sandbox_round env n =
     read_task env (\<lambda>task.
       seq (outer (cv_run env task)) (\<lambda>_.
       seq (cli_sandbox_events env task n) (\<lambda>leave. give (\<not> leave))))"

definition run_cli :: "'s cli_env \<Rightarrow> nat \<Rightarrow> ('s, unit) cact" where
  "run_cli env n =
     (if cv_coordinator env then run_with_coordinator env n
      else if \<not> cv_sandbox env then throw RuntimeError ''CLIAdapter requires either sandbox or coordinator.''
      else finally_do (rounds (sandbox_round env n) n) (outer (cv_stop env)))"

definition stop_cli :: "'s cli_env \<Rightarrow> ('s, unit) cact" where
  "stop_cli env =
     (if cv_coordinator env then outer (cv_stop_session env (cv_session env))
      else if cv_sandbox env then outer (cv_stop env)
      else give ())"

section \<open>No task is left running\<close>

text \<open>
  The world with a flag: a task of the session runs from a start that succeeds to its \<open>done\<close>
  event or to the stop of the session.
\<close>

definition plainly :: "('s, 'a) effect \<Rightarrow> ('s \<times> bool, 'a) effect" where
  "plainly f w = (case f (fst w) of (r, s) \<Rightarrow> (r, (s, snd w)))"

definition flagging :: "('a \<Rightarrow> bool \<Rightarrow> bool) \<Rightarrow> ('s, 'a) effect \<Rightarrow> ('s \<times> bool, 'a) effect" where
  "flagging g f w = (case f (fst w) of (r, s) \<Rightarrow> (r, (s, case r of Done x \<Rightarrow> g x (snd w) | _ \<Rightarrow> snd w)))"

definition is_done_event :: "pydict option \<Rightarrow> bool" where
  "is_done_event event = (case event of None \<Rightarrow> False | Some e \<Rightarrow> dget e ''type'' = VStr ''done'')"

definition watched :: "'s cli_env \<Rightarrow> ('s \<times> bool) cli_env" where
  "watched env =
     \<lparr>cv_approval = cv_approval env, cv_session = cv_session env, cv_coordinator = cv_coordinator env, cv_sandbox = cv_sandbox env,
      cv_input = (\<lambda>s. plainly (cv_input env s)), cv_print = (\<lambda>s. plainly (cv_print env s)),
      cv_start = (\<lambda>sid s. flagging (\<lambda>status b. b \<or> status = Started) (cv_start env sid s)),
      cv_submit = (\<lambda>sid approved s. plainly (cv_submit env sid approved s)),
      cv_stop_session = (\<lambda>sid. flagging (\<lambda>_ _. False) (cv_stop_session env sid)),
      cv_next_event = flagging (\<lambda>event b. b \<and> \<not> is_done_event event) (cv_next_event env),
      cv_run = (\<lambda>task. plainly (cv_run env task)), cv_receive = plainly (cv_receive env),
      cv_send = (\<lambda>event. plainly (cv_send env event)), cv_stop = plainly (cv_stop env),
      cv_persist = (\<lambda>sid event. plainly (cv_persist env sid event))\<rparr>"

lemma watched_simps [simp]:
  "cv_session (watched env) = cv_session env" "cv_approval (watched env) = cv_approval env"
  "cv_input (watched env) s = plainly (cv_input env s)" "cv_print (watched env) s = plainly (cv_print env s)"
  "cv_start (watched env) sid s = flagging (\<lambda>status b. b \<or> status = Started) (cv_start env sid s)"
  "cv_submit (watched env) sid approved s = plainly (cv_submit env sid approved s)"
  "cv_stop_session (watched env) sid = flagging (\<lambda>_ _. False) (cv_stop_session env sid)"
  "cv_next_event (watched env) = flagging (\<lambda>event b. b \<and> \<not> is_done_event event) (cv_next_event env)"
  by (simp_all add: watched_def)

abbreviation running :: "('s \<times> bool) cli \<Rightarrow> bool" where
  "running st \<equiv> snd (cl_world st)"

abbreviation anything :: "'st \<Rightarrow> bool" where
  "anything st \<equiv> True"

lemma flag_set:
  "valid (\<lambda>st. running st = b) (outer (flagging g f)) (\<lambda>x st. running st = g x b) anything"
  by (auto simp: valid_def outer_def flagging_def split: prod.splits outcome.splits)

lemma plain_keeps: "keeps (\<lambda>st. running st = b) (outer (plainly f))"
  by (auto simp: valid_def outer_def plainly_def split: prod.splits outcome.splits)

lemma reading_line_keeps: "keeps (\<lambda>st. running st = b) (read_answer (watched env) prompt f)"
  unfolding read_answer_def read_input_def watched_simps by (intro act_rules plain_keeps | assumption)+

lemma get_reply_keeps: "keeps (\<lambda>st. running st = b) (get_reply (watched env) role)"
  unfolding get_reply_def by (intro act_rules reading_line_keeps | assumption)+

lemma get_task_keeps: "keeps (\<lambda>st. running st = b) (get_cli_task (watched env))"
  unfolding get_cli_task_def Let_def by (intro act_rules reading_line_keeps | assumption)+

lemma say_keeps: "keeps (\<lambda>st. running st = b) (say (watched env) s)"
  by (simp add: say_def plain_keeps)

lemma show_keeps: "keeps (\<lambda>st. running st = b) (show_cli (watched env) event)"
proof -
  have "keeps (\<lambda>st. running st = b) (say_all (watched env) ls)" for ls
    by (induction ls) (simp_all, (intro act_rules say_keeps | assumption)+)
  then show ?thesis
    unfolding show_cli_def by (intro act_rules | assumption)+
qed

lemma answer_keeps:
  "keeps (\<lambda>st. running st = b)
     (answer_event (watched env) (\<lambda>approved s. seq (outer (cv_submit (watched env) (cv_session env) approved s)) (\<lambda>_. give ())) task event)"
  unfolding answer_event_def Let_def watched_simps by (intro act_rules get_reply_keeps plain_keeps | assumption)+

text \<open>Without leave the loop ends with the task; whatever came before, asking to leave is told.\<close>

lemma events_end:
  "valid anything (cli_coordinator_events (watched env) task n) (\<lambda>leave st. leave \<or> \<not> running st) anything"
  unfolding cli_coordinator_events_def watched_simps
proof (induction n)
  case (Suc n)
  let ?reply = "\<lambda>approved s. seq (outer (plainly (cv_submit env (cv_session env) approved s))) (\<lambda>_. give ())"
  have reply: "?reply = (\<lambda>approved s. seq (outer (cv_submit (watched env) (cv_session env) approved s)) (\<lambda>_. give ()))"
    by simp
  have poll: "valid anything (outer (flagging (\<lambda>event b. b \<and> \<not> is_done_event event) (cv_next_event env)))
      (\<lambda>event st. \<not> (is_done_event event \<and> running st)) anything"
    by (auto simp: valid_def outer_def flagging_def split: prod.splits outcome.splits)
  have one: "valid (\<lambda>st. \<not> (is_done_event (Some event) \<and> running st))
      (seq (show_cli (watched env) event) (\<lambda>_. seq (answer_event (watched env) ?reply task event) (\<lambda>leave.
         if leave then give True
         else if dget event ''type'' = VStr ''done'' then seq (give ()) (\<lambda>_. give False)
         else event_loop (watched env) (outer (flagging (\<lambda>event b. b \<and> \<not> is_done_event event) (cv_next_event env))) ?reply
                (\<lambda>_. give ()) task n))) (\<lambda>leave st. leave \<or> \<not> running st) anything" for event
  proof (cases "dget event ''type'' = VStr ''done''")
    case True
    then have idle: "(\<lambda>st. \<not> (is_done_event (Some event) \<and> running st)) = (\<lambda>st :: ('a \<times> bool) cli. running st = False)"
      by (simp add: is_done_event_def fun_eq_iff)
    have shown: "valid (\<lambda>st. running st = False) (show_cli (watched env) event) (\<lambda>_ st. running st = False) anything"
      by (rule valid_weaken [OF show_keeps [where b = False]]) simp_all
    have answered: "valid (\<lambda>st. running st = False) (answer_event (watched env) ?reply task event) (\<lambda>_ st. running st = False) anything"
      unfolding reply by (rule valid_weaken [OF answer_keeps [where b = False]]) simp_all
    show ?thesis
      unfolding idle using True
      by (intro valid_seq [OF shown] valid_seq [OF answered] valid_if valid_give) (auto simp: valid_def seq_def give_def)
  next
    case False
    have free: "valid anything m (\<lambda>_. anything) anything" for m :: "(('a \<times> bool) cli, 'b) effect"
      by (simp add: valid_def split: prod.split outcome.split)
    have "valid anything
      (seq (show_cli (watched env) event) (\<lambda>_. seq (answer_event (watched env) ?reply task event) (\<lambda>leave.
         if leave then give True
         else if dget event ''type'' = VStr ''done'' then seq (give ()) (\<lambda>_. give False)
         else event_loop (watched env) (outer (flagging (\<lambda>event b. b \<and> \<not> is_done_event event) (cv_next_event env))) ?reply
                (\<lambda>_. give ()) task n))) (\<lambda>leave st. leave \<or> \<not> running st) anything"
      by (rule valid_seq [OF free], rule valid_seq [OF free], rule valid_if, rule valid_give, simp,
          rule valid_if, simp add: False, rule Suc.IH)
    then show ?thesis by (rule valid_weaken) simp_all
  qed
  show ?case
    unfolding event_loop.simps
  proof (rule valid_seq [OF poll])
    fix next_event
    show "valid (\<lambda>st. \<not> (is_done_event next_event \<and> running st))
       (case next_event of
          None \<Rightarrow> event_loop (watched env) (outer (flagging (\<lambda>event b. b \<and> \<not> is_done_event event) (cv_next_event env))) ?reply (\<lambda>_. give ()) task n
        | Some event \<Rightarrow>
            seq (show_cli (watched env) event) (\<lambda>_. seq (answer_event (watched env) ?reply task event) (\<lambda>leave.
              if leave then give True
              else if dget event ''type'' = VStr ''done'' then seq (give ()) (\<lambda>_. give False)
              else event_loop (watched env) (outer (flagging (\<lambda>event b. b \<and> \<not> is_done_event event) (cv_next_event env))) ?reply
                     (\<lambda>_. give ()) task n)))
       (\<lambda>leave st. leave \<or> \<not> running st) anything"
    proof (cases next_event)
      case None
      then show ?thesis by (simp, intro valid_weaken [OF Suc.IH]) simp_all
    qed (simp only: option.case one)
  qed
qed (simp add: valid_def)

lemma round_ends:
  "valid (\<lambda>st. \<not> running st) (coordinator_round (watched env) n) (\<lambda>_ st. \<not> running st) anything"
proof -
  let ?idle = "\<lambda>st :: ('a \<times> bool) cli. running st = False"
  have said: "valid ?idle (say (watched env) s) (\<lambda>_. ?idle) anything" for s
    by (rule valid_weaken [OF say_keeps [where b = False]]) simp_all
  have stopped: "valid anything (outer (flagging (\<lambda>_ _. False) (cv_stop_session env sid))) (\<lambda>_. ?idle) anything" for sid
    by (auto simp: valid_def outer_def flagging_def split: prod.splits outcome.splits)
  have started: "valid ?idle (outer (flagging (\<lambda>status b. b \<or> status = Started) (cv_start env sid s)))
      (\<lambda>status st. running st = (status = Started)) anything" for sid s
    by (rule valid_weaken [OF flag_set [where b = False]]) auto
  have events: "valid anything (seq (cli_coordinator_events (watched env) task n) (\<lambda>leave.
      if leave then seq (outer (flagging (\<lambda>_ _. False) (cv_stop_session env (cv_session env)))) (\<lambda>_. give False) else give True))
      (\<lambda>_. ?idle) anything" for task
  proof (rule valid_seq [OF events_end])
    fix leave
    show "valid (\<lambda>st. leave \<or> \<not> running st)
        (if leave then seq (outer (flagging (\<lambda>_ _. False) (cv_stop_session env (cv_session env)))) (\<lambda>_. give False) else give True)
        (\<lambda>_. ?idle) anything"
      by (cases leave) (simp_all, rule valid_seq [OF stopped], simp_all add: valid_give)
  qed
  have tasks: "valid ?idle (attempt p (get_cli_task (watched env))) (\<lambda>_. ?idle) anything" for p
    by (rule valid_weaken [OF keeps_attempt [OF get_task_keeps [where b = False]]]) simp_all
  have "valid ?idle (coordinator_round (watched env) n) (\<lambda>_. ?idle) anything"
    unfolding coordinator_round_def read_task_def watched_simps
  proof (rule valid_seq [OF tasks], rule valid_sum)
    fix e
    show "valid ?idle (if exn_class e = CLIExitRequested then give False
        else seq (say (watched env) (newline # ''Error: '' @ exn_str e)) (\<lambda>_. give True)) (\<lambda>_. ?idle) anything"
      by (intro valid_if valid_give valid_seq [OF said])
  next
    fix task
    show "valid ?idle (seq (outer (flagging (\<lambda>status b. b \<or> status = Started) (cv_start env (cv_session env) (py_str (dget task ''text'')))))
        (\<lambda>status. case status of
           Started \<Rightarrow> seq (cli_coordinator_events (watched env) task n) (\<lambda>leave.
             if leave then seq (outer (flagging (\<lambda>_ _. False) (cv_stop_session env (cv_session env)))) (\<lambda>_. give False) else give True)
         | StartBusy \<Rightarrow> seq (say (watched env) (newline # ''A task is already running for this session.'')) (\<lambda>_. give True)
         | AtCapacity \<Rightarrow> seq (say (watched env) (newline # ''The coordinator is at capacity. Please retry shortly.'')) (\<lambda>_. give True)))
        (\<lambda>_. ?idle) anything"
    proof (rule valid_seq [OF started])
      fix status
      show "valid (\<lambda>st. running st = (status = Started)) (case status of
           Started \<Rightarrow> seq (cli_coordinator_events (watched env) task n) (\<lambda>leave.
             if leave then seq (outer (flagging (\<lambda>_ _. False) (cv_stop_session env (cv_session env)))) (\<lambda>_. give False) else give True)
         | StartBusy \<Rightarrow> seq (say (watched env) (newline # ''A task is already running for this session.'')) (\<lambda>_. give True)
         | AtCapacity \<Rightarrow> seq (say (watched env) (newline # ''The coordinator is at capacity. Please retry shortly.'')) (\<lambda>_. give True))
        (\<lambda>_. ?idle) anything"
        using valid_weaken [OF events [of task]] valid_seq [OF said valid_give]
        by (cases status) simp_all
    qed
  qed
  then show ?thesis by simp
qed

text \<open>
  C23. The terminal adapter leaves no task behind: when its run over the coordinator returns, the
  last task it started has ended in a \<open>done\<close> event or its session was stopped, in particular when
  the user leaves at a prompt of a running task. This holds for any user, coordinator and events.
\<close>

theorem cli_leaves_nothing_running:
  assumes "run_with_coordinator (watched env) n st = (Done (), st')" "\<not> running st"
  shows "\<not> running st'"
proof -
  have "valid (\<lambda>st. \<not> running st) (rounds (coordinator_round (watched env) k) n) (\<lambda>_ st. \<not> running st) anything" for k n
    by (induction n) (simp add: valid_def, simp, intro valid_seq [OF round_ends] valid_if valid_give)
  then show ?thesis
    using assms unfolding run_with_coordinator_def by (auto dest: validD(1))
qed

text \<open>A user who starts a task and leaves at its first prompt. The world counts the lines read.\<close>

definition demo_terminal :: "nat cli_env" where
  "demo_terminal =
     \<lparr>cv_approval = ''review'', cv_session = ''s'', cv_coordinator = True, cv_sandbox = False,
      cv_input = (\<lambda>_ n. (Done (if n = 0 then ''hello'' else ''/quit''), n + 1)), cv_print = (\<lambda>_. give ()),
      cv_start = (\<lambda>_ _. give Started), cv_submit = (\<lambda>_ _ _. give True), cv_stop_session = (\<lambda>_. give ()),
      cv_next_event = give (Some (dict_of [(''type'', VStr ''message''), (''role'', VStr ''clarification''), (''content'', VStr ''?'')])),
      cv_run = (\<lambda>_. give ()), cv_receive = give None, cv_send = (\<lambda>_. give ()), cv_stop = give (),
      cv_persist = (\<lambda>_ _. give None)\<rparr>"

theorem cli_leaves_nothing_running_witness:
  "\<exists>st'. run_with_coordinator (watched demo_terminal) 1 \<lparr>cl_world = (0, False), cl_latest = None\<rparr> = (Done (), st')
     \<and> fst (cl_world st') = 2 \<and> \<not> running st'"
proof -
  let ?run = "run_with_coordinator (watched demo_terminal) 1 \<lparr>cl_world = (0, False), cl_latest = None\<rparr>"
  have "case ?run of (r, st') \<Rightarrow> r = Done () \<and> fst (cl_world st') = 2"
    by code_simp
  then obtain st' where run: "?run = (Done (), st')" "fst (cl_world st') = 2"
    by (auto split: prod.splits)
  with cli_leaves_nothing_running [OF run(1)] show ?thesis by simp
qed

end
