(* ===== verification/Agent.thy ===== *)
theory Agent
  imports AgentConfig Effect
begin

text \<open>
  The agent loop of \<open>agent/agent.py\<close>: planning, the choice and execution of one decision per
  turn, prompts within a token budget, the summary of the history, delegation to a child, the
  output files and the final \<open>done\<close> event. The model runtime, the host services, the shell,
  the clock, the transport's sending half and the child runner act on a world of type \<open>'s\<close>;
  what the agent itself receives is a list of results of \<open>transport.receive()\<close>.
\<close>

section \<open>State\<close>

record 's agent =
  ag_tools :: tools
  ag_skills :: skills
  ag_surface :: "pyval list"
  ag_max_iterations :: int
  ag_token_budget :: int
  ag_summary_threshold :: nat
  ag_max_output :: int
  ag_output_dir :: path
  ag_clarify :: bool
  ag_timeout :: "rat option"
  ag_subagents :: bool
  ag_settings :: pydict
  ag_runtime :: "'s llm_runtime"
  ag_broker :: "'s Tools.service_call option"
  ag_shell :: "'s shell"
  ag_runner :: "(string \<Rightarrow> pydict \<Rightarrow> 's \<Rightarrow> pyval res \<times> 's) option"
  ag_send :: "pydict \<Rightarrow> 's \<Rightarrow> unit res \<times> 's"
  ag_clock :: "'s \<Rightarrow> rat \<times> 's"
  ag_files :: "'s \<Rightarrow> fs"
  ag_listing :: "'s \<Rightarrow> path list"

text \<open>\<open>as_sent\<close> lists the events the transport has taken.\<close>

record 's astate =
  as_world :: 's
  as_inbox :: "pydict option res list"
  as_sent :: "pydict list"
  as_history :: "pydict list"
  as_summary :: "string option"
  as_summarized :: nat
  as_spawned :: nat
  as_integrations :: "string list"
  as_session :: string
  as_deadline :: "rat option"

type_synonym ('s, 'a) act = "('s astate, 'a) effect"

definition world_op :: "('s \<Rightarrow> 'a res \<times> 's) \<Rightarrow> ('s, 'a) act" where
  "world_op f s = (case f (as_world s) of (r, w) \<Rightarrow> (outcome_of r, s\<lparr>as_world := w\<rparr>))"

section \<open>Events\<close>

definition send :: "'s agent \<Rightarrow> pydict \<Rightarrow> ('s, unit) act" where
  "send a event =
     seq (world_op (ag_send a event)) (\<lambda>_. update (\<lambda>s. s\<lparr>as_sent := as_sent s @ [event]\<rparr>))"

definition message_event :: "string \<Rightarrow> pyval \<Rightarrow> pydict" where
  "message_event role body =
     dict_of [(''type'', VStr ''message''), (''role'', VStr role), (''content'', body)]"

definition action_event :: "string \<Rightarrow> pydict \<Rightarrow> tool_result \<Rightarrow> pydict" where
  "action_event tool args result =
     dict_of [(''type'', VStr ''action''), (''tool'', VStr tool), (''args'', VDict args),
       (''result'', VDict (result_dict result))]"

text \<open>Sending an action and returning it, for the history.\<close>

definition emit_action :: "'s agent \<Rightarrow> string \<Rightarrow> pydict \<Rightarrow> tool_result \<Rightarrow> ('s, pydict) act" where
  "emit_action a tool args result =
     seq (send a (action_event tool args result)) (\<lambda>_. give (action_event tool args result))"

definition emit_llm_runtime_error :: "'s agent \<Rightarrow> exn \<Rightarrow> ('s, pydict) act" where
  "emit_llm_runtime_error a e =
     emit_action a ''agent_decision_error'' (dict_of [(''category'', VStr ''llm_runtime_error'')])
       (tool_error (exn_str e))"

definition emit_decision_parse_error :: "'s agent \<Rightarrow> exn \<Rightarrow> ('s, pydict) act" where
  "emit_decision_parse_error a e =
     emit_action a ''agent_decision_error'' []
       (tool_error (''Decision parse error: '' @ exn_str e @ '' ''
          @ ''Return a valid JSON tool call with tool/args and re-check ''
          @ ''the skill contracts.''))"

definition emit_control_action_error :: "'s agent \<Rightarrow> string \<Rightarrow> pydict \<Rightarrow> string \<Rightarrow> ('s, pydict) act" where
  "emit_control_action_error a tool args msg = emit_action a tool args (tool_error msg)"

definition remember :: "pydict \<Rightarrow> ('s, unit) act" where
  "remember event = update (\<lambda>s. s\<lparr>as_history := as_history s @ [event]\<rparr>)"

text \<open>The two loops that wait for an event; nothing more to receive is waiting without end.\<close>

fun next_task :: "pydict option res list \<Rightarrow> pydict option outcome \<times> pydict option res list" where
  "next_task [] = (Blocked, [])"
| "next_task (Inl e # inbox) = (Raised e, inbox)"
| "next_task (Inr None # inbox) = next_task inbox"
| "next_task (Inr (Some event) # inbox) =
     (if dget event ''type'' = VStr ''stop'' then (Done None, inbox)
      else if dget event ''type'' = VStr ''task'' then (Done (Some event), inbox)
      else next_task inbox)"

fun next_reply :: "pydict option res list \<Rightarrow> pydict outcome \<times> pydict option res list" where
  "next_reply [] = (Blocked, [])"
| "next_reply (Inl e # inbox) = (Raised e, inbox)"
| "next_reply (Inr None # inbox) = next_reply inbox"
| "next_reply (Inr (Some event) # inbox) =
     (if dget event ''type'' = VStr ''stop''
      then (Raised (Exn AgentError ''Received stop while waiting for user reply.''), inbox)
      else if dget event ''type'' = VStr ''user_reply'' then (Done event, inbox)
      else next_reply inbox)"

definition wait_for_task_event :: "('s, pydict option) act" where
  "wait_for_task_event s = (case next_task (as_inbox s) of (r, inbox) \<Rightarrow> (r, s\<lparr>as_inbox := inbox\<rparr>))"

definition wait_for_user_reply :: "('s, pydict) act" where
  "wait_for_user_reply s = (case next_reply (as_inbox s) of (r, inbox) \<Rightarrow> (r, s\<lparr>as_inbox := inbox\<rparr>))"

section \<open>Output files and the done event\<close>

definition output_file :: "string \<Rightarrow> string \<Rightarrow> pyval" where
  "output_file rel bytes =
     VDict (dict_of [(''path'', VStr rel), (''content_b64'', VStr (b64_encode bytes)),
       (''size_bytes'', VInt (int (length bytes)))])"

fun collect_files :: "fs \<Rightarrow> path \<Rightarrow> int \<Rightarrow> path list \<Rightarrow> int \<Rightarrow> pyval list \<Rightarrow> pyval list \<times> string option" where
  "collect_files f base limit [] used files = (files, None)"
| "collect_files f base limit (p # ps) used files =
     (case f p of
        Some (File bytes) \<Rightarrow>
          if \<not> strict_prefix base p then ([], Some (''Invalid output file path: '' @ path_str p))
          else
            (let rel = join ''/'' (drop (length base) p); size = int (length bytes)
             in if limit < size
                then ([], Some (''Output file '' @ quoted rel @ '' exceeds output limit of '' @ int_str limit @ '' bytes.''))
                else if limit < used + size
                then ([], Some (''Total output size exceeds output limit of '' @ int_str limit @ '' bytes.''))
                else collect_files f base limit ps (used + size) (files @ [output_file rel bytes]))
      | _ \<Rightarrow> collect_files f base limit ps used files)"

definition collect_output_files :: "'s agent \<Rightarrow> 's \<Rightarrow> pyval list \<times> string option" where
  "collect_output_files a w =
     (if ag_files a w (ag_output_dir a) = None then ([], None)
      else collect_files (ag_files a w) (ag_output_dir a) (ag_max_output a) (ag_listing a w) 0 [])"

definition build_done_event :: "'s agent \<Rightarrow> pyval \<Rightarrow> pyval \<Rightarrow> pydict list \<Rightarrow> bool \<Rightarrow> string \<Rightarrow> 's astate \<Rightarrow> pydict" where
  "build_done_event a goal plan history success reply s =
     (case collect_output_files a (as_world s) of (files, output_error) \<Rightarrow>
        dict_of [(''type'', VStr ''done''), (''success'', VBool (success \<and> output_error = None)),
          (''reply'', VStr (case output_error of
              None \<Rightarrow> reply
            | Some msg \<Rightarrow> reply @ [newline, newline] @ ''Output export error: '' @ msg)),
          (''state'', VDict (dict_of [(''goal'', goal), (''plan'', plan), (''history'', VList (map VDict history)),
             (''summary'', VStr (case as_summary s of None \<Rightarrow> [] | Some t \<Rightarrow> t))])),
          (''files'', VList files)])"

definition send_done :: "'s agent \<Rightarrow> pyval \<Rightarrow> pyval \<Rightarrow> bool \<Rightarrow> string \<Rightarrow> ('s, unit) act" where
  "send_done a goal plan success reply =
     reading (\<lambda>s. send a (build_done_event a goal plan (as_history s) success reply s))"

section \<open>Prompts\<close>

definition PLANNING_SYSTEM_PROMPT :: string where
  "PLANNING_SYSTEM_PROMPT =
     ''You are strangeclaw, a self-hosted autonomous agent. ''
     @ ''Create a concise, executable plan for the user goal using available tools and skills.''"

definition EXECUTION_SYSTEM_PROMPT :: string where
  "EXECUTION_SYSTEM_PROMPT =
     ''You are in an agentic loop: Inspect -> Choose -> Act -> Observe -> Repeat. ''
     @ ''On each turn, inspect goal/plan/history and choose exactly one structured decision. ''
     @ ''Use a normal tool/args tool call to execute tools. ''
     @ ''Use activated_skills in the user payload for workflow guidance and references. ''
     @ ''For control decisions, use tool='' @ quoted ''agent_done'' @ '', '' @ quoted ''agent_clarify''
     @ '', or '' @ quoted ''agent_replan'' @ ''. ''
     @ ''For stage-3 skill references, use tool='' @ quoted ''agent_read_skill_file'' @ '' ''
     @ ''with args.skill and args.path. ''
     @ ''For done use args.reply. For clarify use args.question. ''
     @ ''For replan you may set args.feedback.''"

definition SUMMARY_SYSTEM_PROMPT :: string where
  "SUMMARY_SYSTEM_PROMPT =
     ''Summarize agent execution history into concise bullet-style text that preserves ''
     @ ''decisions, tool outcomes, and unresolved questions.''"

definition prompt :: "string \<Rightarrow> string \<Rightarrow> pydict list" where
  "prompt system user =
     [dict_of [(''role'', VStr ''system''), (''content'', VStr system)],
      dict_of [(''role'', VStr ''user''), (''content'', VStr user)]]"

definition build_planning_prompt :: "'s agent \<Rightarrow> pyval \<Rightarrow> pyval \<Rightarrow> pydict list" where
  "build_planning_prompt a goal feedback =
     prompt PLANNING_SYSTEM_PROMPT (join [newline]
       ([''Goal:'' @ [newline] @ py_str goal, [], ''Available tools:'',
         json_pretty 0 (VList (map VStr (list_enabled (ag_tools a)))), [], ''Available skills:'',
         json_pretty 0 (VList (skills_index (ag_skills a))), [],
         ''Return JSON with keys: goal (string), steps (array of strings), ''
         @ ''referenced_skills (array of skill names, may be empty).'']
        @ (if truthy feedback then [[], ''User feedback for re-plan:'' @ [newline] @ py_str feedback] else [])))"

definition estimate_message_tokens :: "pydict list \<Rightarrow> int" where
  "estimate_message_tokens messages =
     max 1 (int (length (dumps_default (VList (map VDict messages)))) div 4)"

definition path_text :: "path \<Rightarrow> string" where
  "path_text p = ''/'' @ join ''/'' p"

definition execution_messages ::
    "'s agent \<Rightarrow> string list \<Rightarrow> pyval \<Rightarrow> pyval \<Rightarrow> pydict \<Rightarrow> pydict list \<Rightarrow> string \<Rightarrow> pydict list" where
  "execution_messages a integrations goal plan activated recent summary =
     prompt
       (EXECUTION_SYSTEM_PROMPT @ [newline] @ ''Configured integrations: ''
        @ (if integrations = [] then ''none'' else join '', '' integrations))
       (dumps_default (VDict (dict_of
          [(''goal'', goal), (''plan'', plan),
           (''enabled_tools'', VList (map VStr (list_enabled (ag_tools a)))),
           (''tool_schemas'', VList (ag_surface a)), (''activated_skills'', VDict activated),
           (''history_summary'', VStr summary), (''recent_history'', VList (map VDict recent)),
           (''output_instruction'',
              VStr (''Place any files for the user in '' @ path_text (ag_output_dir a) @ ''/.''))])))"

definition count_tokens :: "'s agent \<Rightarrow> pydict list \<Rightarrow> ('s, int) act" where
  "count_tokens a messages =
     handle_exn (\<lambda>k. k = LLMRuntimeError) (world_op (rt_count_tokens (ag_runtime a) messages))
       (\<lambda>e. give (estimate_message_tokens messages))"

text \<open>Dropping the oldest events first, then the summary, until the prompt fits.\<close>

fun fit_prompt ::
    "'s agent \<Rightarrow> (pydict list \<Rightarrow> string \<Rightarrow> pydict list) \<Rightarrow> pydict list \<Rightarrow> string \<Rightarrow> ('s, pydict list) act" where
  "fit_prompt a mk [] summary =
     seq (count_tokens a (mk [] summary)) (\<lambda>n.
       if n \<le> ag_token_budget a \<or> summary = [] then give (mk [] summary)
       else seq (count_tokens a (mk [] [])) (\<lambda>n. give (mk [] [])))"
| "fit_prompt a mk (e # recent) summary =
     seq (count_tokens a (mk (e # recent) summary)) (\<lambda>n.
       if n \<le> ag_token_budget a then give (mk (e # recent) summary)
       else fit_prompt a mk recent summary)"

definition summarize_history :: "'s agent \<Rightarrow> pydict list \<Rightarrow> ('s, unit) act" where
  "summarize_history a chunk =
     reading (\<lambda>s.
       seq (world_op (rt_complete (ag_runtime a)
              (prompt SUMMARY_SYSTEM_PROMPT (dumps_default (VDict (dict_of
                 [(''previous_summary'', VStr (case as_summary s of None \<Rightarrow> [] | Some t \<Rightarrow> t)),
                  (''new_events'', VList (map VDict chunk))]))))
              VNone)) (\<lambda>response.
       if strip (lr_text response) = [] then give ()
       else update (\<lambda>s. s\<lparr>as_summary := Some (strip (lr_text response))\<rparr>)))"

definition recent_history :: "'s agent \<Rightarrow> ('s, pydict list) act" where
  "recent_history a =
     reading (\<lambda>s.
       let history = as_history s; cutoff = length history - ag_summary_threshold a
       in if length history \<le> ag_summary_threshold a then give history
          else
            seq (if as_summarized s < cutoff
                 then seq (summarize_history a (take cutoff history)) (\<lambda>_. update (\<lambda>s. s\<lparr>as_summarized := cutoff\<rparr>))
                 else give ()) (\<lambda>_.
            give (drop cutoff history)))"

definition build_execution_prompt :: "'s agent \<Rightarrow> pyval \<Rightarrow> pyval \<Rightarrow> pydict \<Rightarrow> ('s, pydict list) act" where
  "build_execution_prompt a goal plan activated =
     seq (recent_history a) (\<lambda>recent.
     reading (\<lambda>s.
       fit_prompt a (execution_messages a (as_integrations s) goal plan activated) recent
         (case as_summary s of None \<Rightarrow> [] | Some t \<Rightarrow> t)))"

section \<open>Planning\<close>

text \<open>The first JSON object or array in a text.\<close>

definition raw_decode :: "string \<Rightarrow> pyval res" where
  "raw_decode s = bind_res (parse_value (2 * length s + 2) s) (\<lambda>(v, r). Inr v)"

fun first_json_object_or_array :: "string \<Rightarrow> pyval option res" where
  "first_json_object_or_array [] = Inr None"
| "first_json_object_or_array (c # cs) =
     (if c \<noteq> CHR ''{'' \<and> c \<noteq> CHR ''['' then first_json_object_or_array cs
      else
        (case raw_decode (c # cs) of
           Inr v \<Rightarrow> if is_VDict v \<or> is_VList v then Inr (Some v) else first_json_object_or_array cs
         | Inl e \<Rightarrow> if exn_class e = JSONDecodeError then first_json_object_or_array cs else Inl e))"

definition parse_json_if_possible :: "string \<Rightarrow> pyval res" where
  "parse_json_if_possible s =
     bind_res (first_json_object_or_array s) (\<lambda>v. Inr (case v of None \<Rightarrow> VStr s | Some v \<Rightarrow> v))"

definition generate_plan :: "'s agent \<Rightarrow> pyval \<Rightarrow> pyval \<Rightarrow> ('s, pyval) act" where
  "generate_plan a goal feedback =
     seq (world_op (rt_complete (ag_runtime a) (build_planning_prompt a goal feedback) VNone)) (\<lambda>response s.
       (outcome_of (parse_json_if_possible (lr_text response)), s))"

text \<open>\<open>d[key]\<close>\<close>

definition dict_item :: "pydict \<Rightarrow> string \<Rightarrow> pyval res" where
  "dict_item d key = (case dlookup d key of None \<Rightarrow> raise KeyError (repr_str key) | Some v \<Rightarrow> Inr v)"

definition item :: "pydict \<Rightarrow> string \<Rightarrow> ('s, pyval) act" where
  "item d key s = (outcome_of (dict_item d key), s)"

section \<open>What an action may do\<close>

text \<open>
  \<open>moves R m\<close>: whatever the start \<open>s\<close>, \<open>m\<close> ends in a state that \<open>R\<close> relates to \<open>s\<close>; the
  middle argument of \<open>R\<close> says whether \<open>m\<close> is left waiting.
\<close>

definition moves :: "('s astate \<Rightarrow> bool \<Rightarrow> 's astate \<Rightarrow> bool) \<Rightarrow> ('s, 'a) act \<Rightarrow> bool" where
  "moves R m \<longleftrightarrow> (\<forall>s. R s (fst (m s) = Blocked) (snd (m s)))"

lemma outcome_of_not_blocked [simp]: "outcome_of r \<noteq> Blocked"
  by (cases r) auto

text \<open>What the agent sends besides the event that ends a task.\<close>

definition task_event :: "pydict \<Rightarrow> bool" where
  "task_event event =
     ((\<exists>role body. event = message_event role body) \<or> (\<exists>tool args result. event = action_event tool args result))"

lemma task_event_simps [simp]: "task_event (message_event role body)" "task_event (action_event name args result)"
  unfolding task_event_def by blast+

text \<open>
  The operations an agent's environment offers, and what each may do to the agent's state, as
  one relation closed under sequence. Every loop of the agent is a sequence of these, so a law
  of the operations is a law of the loops.
\<close>

locale action_frame =
  fixes a :: "'s agent" and R :: "'s astate \<Rightarrow> bool \<Rightarrow> 's astate \<Rightarrow> bool" and waits :: bool
  assumes stay: "R s False s"
    and chain: "R s False t \<Longrightarrow> R t b u \<Longrightarrow> R s b u"
    and complete: "R s False (s\<lparr>as_world := snd (rt_complete (ag_runtime a) ms schema (as_world s))\<rparr>)"
    and tokens: "R s False (s\<lparr>as_world := snd (rt_count_tokens (ag_runtime a) ms (as_world s))\<rparr>)"
    and tool: "R s False (s\<lparr>as_world := snd (execute_tool (ag_tools a) (ag_shell a) (ag_broker a) call (as_world s))\<rparr>)"
    and clock: "R s False (s\<lparr>as_world := snd (ag_clock a (as_world s))\<rparr>)"
    and child: "ag_runner a = Some f \<Longrightarrow>
      read_pos_int_field (ag_settings a) ''max_children_per_task'' 3 = Inr m \<Longrightarrow> int (as_spawned s) < m \<Longrightarrow>
      R s False (s\<lparr>as_spawned := as_spawned s + 1, as_world := snd (f (as_session s) request (as_world s))\<rparr>)"
    and refused: "R s False (s\<lparr>as_world := snd (ag_send a event (as_world s))\<rparr>)"
    and taken: "task_event event \<Longrightarrow> ag_send a event (as_world s) = (Inr (), w) \<Longrightarrow>
      R s False (s\<lparr>as_world := w, as_sent := as_sent s @ [event]\<rparr>)"
    and history: "R s False (s\<lparr>as_history := h\<rparr>)"
    and summary: "R s False (s\<lparr>as_summary := v\<rparr>)"
    and summarized: "R s False (s\<lparr>as_summarized := n\<rparr>)"
    and reply: "waits \<Longrightarrow> next_reply (as_inbox s) = (r, inbox) \<Longrightarrow> R s (r = Blocked) (s\<lparr>as_inbox := inbox\<rparr>)"
begin

lemma give_moves [act_rules]: "moves R (give x)"
  by (simp add: moves_def give_def stay)

lemma throw_moves [act_rules]: "moves R (throw k msg)"
  by (simp add: moves_def throw_def stay)

lemma raised_moves [act_rules]: "moves R (\<lambda>s. (Raised e, s))" "moves R (item d key)"
  "moves R (\<lambda>s. (outcome_of r, s))"
  by (simp_all add: moves_def item_def stay)

lemma seq_moves [act_rules]:
  assumes "moves R m" and "\<And>x. moves R (f x)"
  shows "moves R (seq m f)"
  unfolding moves_def
proof
  fix s
  have m: "R s (fst (m s) = Blocked) (snd (m s))" using assms(1) by (simp add: moves_def)
  have "R (snd (m s)) (fst (f x (snd (m s))) = Blocked) (snd (f x (snd (m s))))" for x
    using assms(2) by (simp add: moves_def)
  then show "R s (fst (seq m f s) = Blocked) (snd (seq m f s))"
    using m chain by (cases "m s"; cases "fst (m s)") (auto simp: seq_def)
qed

lemma handle_moves [act_rules]:
  assumes "moves R m" and "\<And>e. moves R (h e)"
  shows "moves R (handle_exn p m h)"
  unfolding moves_def
proof
  fix s
  have m: "R s (fst (m s) = Blocked) (snd (m s))" using assms(1) by (simp add: moves_def)
  have "R (snd (m s)) (fst (h e (snd (m s))) = Blocked) (snd (h e (snd (m s))))" for e
    using assms(2) by (simp add: moves_def)
  then show "R s (fst (handle_exn p m h s) = Blocked) (snd (handle_exn p m h s))"
    using m chain by (cases "m s"; cases "fst (m s)") (auto simp: handle_exn_def)
qed

lemma attempt_moves [act_rules]: "moves R m \<Longrightarrow> moves R (attempt p m)"
  unfolding attempt_def by (intro act_rules)

lemma reading_moves [act_rules]: "(\<And>s. moves R (f s)) \<Longrightarrow> moves R (reading f)"
  by (auto simp: moves_def reading_def)

lemma if_moves [act_rules]: "(b \<Longrightarrow> moves R m) \<Longrightarrow> (\<not> b \<Longrightarrow> moves R n) \<Longrightarrow> moves R (if b then m else n)"
  by simp

lemma sum_moves [act_rules]:
  "(\<And>e. r = Inl e \<Longrightarrow> moves R (f e)) \<Longrightarrow> (\<And>x. r = Inr x \<Longrightarrow> moves R (g x)) \<Longrightarrow>
    moves R (case r of Inl e \<Rightarrow> f e | Inr x \<Rightarrow> g x)"
  by (cases r) auto

lemma option_moves [act_rules]:
  "moves R f \<Longrightarrow> (\<And>x. r = Some x \<Longrightarrow> moves R (g x)) \<Longrightarrow> moves R (case r of None \<Rightarrow> f | Some x \<Rightarrow> g x)"
  by (cases r) auto

lemma val_moves [act_rules]:
  assumes "\<And>s. v = VStr s \<Longrightarrow> moves R (f s)" and "moves R g"
  shows "moves R (case v of VStr s \<Rightarrow> f s | _ \<Rightarrow> g)"
  using assms by (cases v) auto

lemma world_moves:
  assumes "\<And>s. R s False (s\<lparr>as_world := snd (f (as_world s))\<rparr>)"
  shows "moves R (world_op f)"
  using assms by (simp add: moves_def world_op_def split: prod.split) (metis snd_conv)

lemmas complete_moves [act_rules] = world_moves [OF complete]
lemmas tokens_moves [act_rules] = world_moves [OF tokens]
lemmas tool_moves [act_rules] = world_moves [OF tool]

lemma update_moves [act_rules]:
  "moves R (update (as_history_update (\<lambda>_. h)))" "moves R (update (as_summary_update (\<lambda>_. t)))"
  "moves R (update (as_summarized_update (\<lambda>_. n)))"
  by (simp_all add: moves_def update_def history summary summarized)

lemma remember_moves [act_rules]: "moves R (remember event)"
  by (simp add: moves_def update_def remember_def history)

lemma send_moves [act_rules]:
  assumes "task_event event"
  shows "moves R (send a event)"
  unfolding moves_def
proof
  fix s
  show "R s (fst (send a event s) = Blocked) (snd (send a event s))"
    using refused [of s event] taken [OF assms, of s]
    by (cases "ag_send a event (as_world s)"; cases "fst (ag_send a event (as_world s))")
      (auto simp: send_def seq_def world_op_def update_def)
qed

lemma reply_moves [act_rules]: "waits \<Longrightarrow> moves R wait_for_user_reply"
  using reply by (auto simp: moves_def wait_for_user_reply_def split: prod.split)

lemma emit_moves [act_rules]:
  "moves R (emit_action a name args result)"
  "moves R (emit_llm_runtime_error a e)"
  "moves R (emit_decision_parse_error a e)"
  "moves R (emit_control_action_error a name args msg)"
proof -
  show "moves R (emit_action a name args result)" for name args result
    unfolding emit_action_def by (intro act_rules) simp
  then show "moves R (emit_llm_runtime_error a e)" "moves R (emit_decision_parse_error a e)"
    "moves R (emit_control_action_error a name args msg)"
    by (simp_all add: emit_llm_runtime_error_def emit_decision_parse_error_def emit_control_action_error_def)
qed

lemma generate_plan_moves [act_rules]: "moves R (generate_plan a goal feedback)"
  unfolding generate_plan_def by (intro act_rules)

end

lemma next_task_shorter:
  "next_task inbox = (r, rest) \<Longrightarrow> suffix rest inbox \<and> (inbox \<noteq> [] \<longrightarrow> length rest < length inbox)"
proof (induction inbox rule: next_task.induct)
  case (3 inbox)
  then show ?case by (auto simp: suffix_ConsI dest: suffix_length_le)
next
  case (4 event inbox)
  then show ?case by (auto simp: suffix_ConsI split: if_splits dest: suffix_length_le)
qed (auto simp: suffix_ConsI)

lemma next_reply_shorter:
  "next_reply inbox = (r, rest) \<Longrightarrow> suffix rest inbox \<and> (inbox \<noteq> [] \<longrightarrow> length rest < length inbox)"
proof (induction inbox rule: next_reply.induct)
  case (3 inbox)
  then show ?case by (auto simp: suffix_ConsI dest: suffix_length_le)
next
  case (4 event inbox)
  then show ?case by (auto simp: suffix_ConsI split: if_splits dest: suffix_length_le)
qed (auto simp: suffix_ConsI)

text \<open>What was received is never received again.\<close>

definition consumes :: "'s astate \<Rightarrow> bool \<Rightarrow> 's astate \<Rightarrow> bool" where
  "consumes s b t = suffix (as_inbox t) (as_inbox s)"

interpretation consuming: action_frame a consumes True for a :: "'s agent"
  by unfold_locales (auto simp: consumes_def dest: next_reply_shorter intro: suffix_order.trans)

section \<open>The planning loop\<close>

text \<open>One round ends with a plan, or with the feedback and the error count of the next round.\<close>

definition plan_round :: "'s agent \<Rightarrow> pyval \<Rightarrow> pyval \<Rightarrow> pyval \<Rightarrow> int \<Rightarrow> ('s, pyval + pyval \<times> int) act" where
  "plan_round a goal mode feedback errors =
     seq (attempt (\<lambda>k. k = LLMRuntimeError) (generate_plan a goal feedback)) (\<lambda>r.
       case r of
         Inl e \<Rightarrow>
           seq (emit_llm_runtime_error a e) (\<lambda>observation.
           seq (remember observation) (\<lambda>_.
             if ag_max_iterations a \<le> errors + 1
             then throw AgentError ''LLM runtime failed repeatedly during planning.''
             else give (Inr (feedback, errors + 1))))
       | Inr plan \<Rightarrow>
           seq (send a (message_event ''plan'' plan)) (\<lambda>_.
             if mode \<noteq> VStr ''review'' then give (Inl plan)
             else
               seq wait_for_user_reply (\<lambda>reply.
               seq (item reply ''approved'') (\<lambda>approved.
                 if truthy approved then give (Inl plan)
                 else give (Inr (dget_or reply ''text'' (VStr []), 0))))))"

lemma seq_DoneE:
  assumes "seq m f s = (Done y, t)"
  obtains x s' where "m s = (Done x, s')" "f x s' = (Done y, t)"
  using assms by (cases "m s"; cases "fst (m s)") (auto simp: seq_def)

lemma give_simp [simp]: "give x s = (r, t) \<longleftrightarrow> r = Done x \<and> t = s"
  by (auto simp: give_def)

lemma throw_simp [simp]: "throw k msg s = (r, t) \<longleftrightarrow> r = Raised (Exn k msg) \<and> t = s"
  by (auto simp: throw_def)

lemma consumes_le: "moves consumes m \<Longrightarrow> m s = (r, t) \<Longrightarrow> length (as_inbox t) \<le> length (as_inbox s)"
  unfolding moves_def consumes_def by (metis snd_conv suffix_length_le)

lemma wait_reply_shorter:
  "wait_for_user_reply s = (Done reply, t) \<Longrightarrow> length (as_inbox t) < length (as_inbox s)"
  using next_reply_shorter by (cases "as_inbox s") (fastforce simp: wait_for_user_reply_def split: prod.splits)+

text \<open>A round that does not end the loop has read a reply, or has counted an error.\<close>

lemma plan_round_progress:
  assumes "plan_round a goal mode feedback errors s = (Done (Inr (feedback', errors')), t)"
  shows "length (as_inbox t) < length (as_inbox s)
    \<or> length (as_inbox t) \<le> length (as_inbox s) \<and> errors' = errors + 1 \<and> errors' < ag_max_iterations a"
proof -
  obtain r s1 where g: "attempt (\<lambda>k. k = LLMRuntimeError) (generate_plan a goal feedback) s = (Done r, s1)"
    and rest: "(case r of
         Inl e \<Rightarrow>
           seq (emit_llm_runtime_error a e) (\<lambda>observation.
           seq (remember observation) (\<lambda>_.
             if ag_max_iterations a \<le> errors + 1
             then throw AgentError ''LLM runtime failed repeatedly during planning.''
             else give (Inr (feedback, errors + 1))))
       | Inr plan \<Rightarrow>
           seq (send a (message_event ''plan'' plan)) (\<lambda>_.
             if mode \<noteq> VStr ''review'' then give (Inl plan)
             else
               seq wait_for_user_reply (\<lambda>reply.
               seq (item reply ''approved'') (\<lambda>approved.
                 if truthy approved then give (Inl plan)
                 else give (Inr (dget_or reply ''text'' (VStr []), 0)))))) s1
       = (Done (Inr (feedback', errors')), t)"
    using assms unfolding plan_round_def by (rule seq_DoneE)
  have le: "length (as_inbox s1) \<le> length (as_inbox s)"
    using consumes_le [OF consuming.attempt_moves [OF consuming.generate_plan_moves] g] .
  show ?thesis
  proof (cases r)
    case (Inl e)
    have "length (as_inbox t) \<le> length (as_inbox s1)"
      using rest unfolding Inl sum.case
      by (elim seq_DoneE) (auto split: if_splits dest!: consumes_le [OF consuming.emit_moves(2)]
          consumes_le [OF consuming.remember_moves])
    with rest le show ?thesis
      unfolding Inl by (fastforce elim!: seq_DoneE split: if_splits)
  next
    case (Inr plan)
    from rest obtain u s2 where s2: "send a (message_event ''plan'' plan) s1 = (Done u, s2)"
      and r2: "(if mode \<noteq> VStr ''review'' then give (Inl plan)
             else
               seq wait_for_user_reply (\<lambda>reply.
               seq (item reply ''approved'') (\<lambda>approved.
                 if truthy approved then give (Inl plan)
                 else give (Inr (dget_or reply ''text'' (VStr []), 0))))) s2 = (Done (Inr (feedback', errors')), t)"
      unfolding Inr by (auto elim: seq_DoneE)
    have "length (as_inbox s2) \<le> length (as_inbox s1)"
      using consumes_le [OF consuming.send_moves s2] by simp
    moreover have "length (as_inbox t) < length (as_inbox s2)"
      using r2 by (fastforce simp: item_def elim!: seq_DoneE split: if_splits dest: wait_reply_shorter)
    ultimately show ?thesis using le by simp
  qed
qed

function planning_loop :: "'s agent \<Rightarrow> pyval \<Rightarrow> pyval \<Rightarrow> pyval \<Rightarrow> int \<Rightarrow> ('s, pyval) act" where
  "planning_loop a goal mode feedback errors s =
     (case plan_round a goal mode feedback errors s of
        (Done (Inl plan), s') \<Rightarrow> (Done plan, s')
      | (Done (Inr (feedback', errors')), s') \<Rightarrow> planning_loop a goal mode feedback' errors' s'
      | (Raised e, s') \<Rightarrow> (Raised e, s')
      | (Blocked, s') \<Rightarrow> (Blocked, s'))"
  by pat_completeness auto

termination
  by (relation "measures [\<lambda>(a, goal, mode, feedback, errors, s). length (as_inbox s),
       \<lambda>(a, goal, mode, feedback, errors, s). nat (ag_max_iterations a - errors)]")
    (auto dest!: plan_round_progress [OF sym])

declare planning_loop.simps [simp del]

definition planning_phase :: "'s agent \<Rightarrow> pyval \<Rightarrow> pyval \<Rightarrow> ('s, pyval) act" where
  "planning_phase a goal mode = planning_loop a goal mode VNone 0"

definition normalize_plan :: "pyval \<Rightarrow> pyval \<Rightarrow> pydict" where
  "normalize_plan plan goal =
     (case plan of
        VDict d \<Rightarrow>
          dict_of [(''goal'', case dget d ''goal'' of VStr g \<Rightarrow> if strip g = [] then goal else VStr g | _ \<Rightarrow> goal),
            (''steps'', case dget d ''steps'' of
               VList steps \<Rightarrow>
                 VList (map (\<lambda>v. VStr (strip (py_str v))) (filter (\<lambda>v. strip (py_str v) \<noteq> []) steps))
             | _ \<Rightarrow> VList []),
            (''referenced_skills'', case dget d ''referenced_skills'' of
               VList refs \<Rightarrow>
                 VList (map (\<lambda>v. VStr (strip (py_str v))) (filter (\<lambda>v. is_VStr v \<and> strip (py_str v) \<noteq> []) refs))
             | _ \<Rightarrow> VList [])]
      | VStr s \<Rightarrow>
          dict_of [(''goal'', goal), (''steps'', VList [VStr s]), (''referenced_skills'', VList [])]
      | _ \<Rightarrow> dict_of [(''goal'', goal), (''steps'', VList []), (''referenced_skills'', VList [])])"

text \<open>The documents of the named skills, or the error of the first unknown one.\<close>

fun activate_names :: "skills \<Rightarrow> pyval list \<Rightarrow> pydict \<Rightarrow> string + pydict" where
  "activate_names s [] activated = Inr activated"
| "activate_names s (v # vs) activated =
     (case v of
        VStr raw \<Rightarrow>
          if strip raw = [] then activate_names s vs activated
          else
            (case get_doc s (strip raw) of
               Inr doc \<Rightarrow> activate_names s vs (dset activated (strip raw) (VDict doc))
             | Inl e \<Rightarrow> Inl (''Unknown referenced skill '' @ quoted (strip raw) @ '' in plan: '' @ exn_str e @ ''. ''
                             @ ''Re-planning with available skills only.''))
      | _ \<Rightarrow> activate_names s vs activated)"

definition plan_refs :: "pydict \<Rightarrow> pyval list" where
  "plan_refs plan = (case dget_or plan ''referenced_skills'' (VList []) of VList refs \<Rightarrow> refs | _ \<Rightarrow> [])"

text \<open>The first argument counts the attempts left.\<close>

fun activate_referenced_skills ::
    "nat \<Rightarrow> 's agent \<Rightarrow> pyval \<Rightarrow> pyval \<Rightarrow> pydict \<Rightarrow> ('s, pydict \<times> pydict) act" where
  "activate_referenced_skills 0 a goal mode plan =
     throw AgentError (''Failed to produce a valid plan after 3 replan attempts ''
       @ ''due to unknown referenced_skills.'')"
| "activate_referenced_skills (Suc n) a goal mode plan =
     (case activate_names (ag_skills a) (plan_refs plan) [] of
        Inr activated \<Rightarrow> give (plan, activated)
      | Inl msg \<Rightarrow>
          seq (send a (message_event ''status'' (VStr msg))) (\<lambda>_.
          seq (planning_phase a goal mode) (\<lambda>plan'.
            activate_referenced_skills n a goal mode (normalize_plan plan' goal))))"

section \<open>Decisions\<close>

definition execution_decision :: "'s agent \<Rightarrow> pyval \<Rightarrow> pyval \<Rightarrow> pydict \<Rightarrow> ('s, tool_call) act" where
  "execution_decision a goal plan activated =
     seq (build_execution_prompt a goal plan activated) (\<lambda>messages.
     seq (world_op (rt_complete (ag_runtime a) messages (VList (ag_surface a)))) (\<lambda>response.
       case lr_action response of
         Some call \<Rightarrow> give call
       | None \<Rightarrow> throw AgentError ''LLM response did not contain exactly one structured execution decision.''))"

definition choose_next_decision :: "'s agent \<Rightarrow> pyval \<Rightarrow> pyval \<Rightarrow> pydict \<Rightarrow> ('s, tool_call option) act" where
  "choose_next_decision a goal plan activated =
     handle_exn (\<lambda>k. k = LLMRuntimeError \<or> k = AgentError)
       (seq (execution_decision a goal plan activated) (\<lambda>call. give (Some call)))
       (\<lambda>e. seq (if exn_class e = LLMRuntimeError then emit_llm_runtime_error a e
                 else emit_decision_parse_error a e) (\<lambda>observation.
            seq (remember observation) (\<lambda>_. give None)))"

record decision_outcome =
  do_done :: bool
  do_plan :: pyval
  do_observation :: "pydict option"
  do_replanned :: bool

definition go_on :: "pyval \<Rightarrow> pydict \<Rightarrow> ('s, decision_outcome) act" where
  "go_on plan observation =
     give \<lparr>do_done = False, do_plan = plan, do_observation = Some observation, do_replanned = False\<rparr>"

definition refuse :: "'s agent \<Rightarrow> pyval \<Rightarrow> string \<Rightarrow> pydict \<Rightarrow> string \<Rightarrow> ('s, decision_outcome) act" where
  "refuse a plan tool args msg = seq (emit_control_action_error a tool args msg) (go_on plan)"

definition decide_done :: "'s agent \<Rightarrow> pyval \<Rightarrow> pyval \<Rightarrow> pydict \<Rightarrow> ('s, decision_outcome) act" where
  "decide_done a goal plan args =
     (case dget args ''reply'' of
        VStr reply \<Rightarrow>
          if strip reply = []
          then refuse a plan ''agent_done'' args ''agent_done requires args.reply as a non-empty string.''
          else seq (send_done a goal plan True reply) (\<lambda>_.
               give \<lparr>do_done = True, do_plan = plan, do_observation = None, do_replanned = False\<rparr>)
      | _ \<Rightarrow> refuse a plan ''agent_done'' args ''agent_done requires args.reply as a non-empty string.'')"

definition DEFAULT_QUESTION :: string where
  "DEFAULT_QUESTION = ''Please clarify what you want next.''"

definition ask_user :: "'s agent \<Rightarrow> pyval \<Rightarrow> string \<Rightarrow> ('s, decision_outcome) act" where
  "ask_user a plan question =
     seq (send a (message_event ''clarification'' (VStr question))) (\<lambda>_.
     seq wait_for_user_reply (\<lambda>reply.
       go_on plan (dict_of [(''type'', VStr ''clarification''), (''question'', VStr question),
         (''user_reply'', dget_or reply ''text'' (VStr []))])))"

definition decide_clarify :: "'s agent \<Rightarrow> pyval \<Rightarrow> pydict \<Rightarrow> ('s, decision_outcome) act" where
  "decide_clarify a plan args =
     (if \<not> ag_clarify a
      then refuse a plan ''agent_clarify'' args
             (''clarification is unavailable in this context; proceed on stated ''
              @ ''assumptions or finish via agent_done and report what you need.'')
      else
        (case dget args ''question'' of
           VNone \<Rightarrow> ask_user a plan DEFAULT_QUESTION
         | VStr q \<Rightarrow> ask_user a plan (if q = [] then DEFAULT_QUESTION else q)
         | _ \<Rightarrow> refuse a plan ''agent_clarify'' args ''agent_clarify args.question must be a string when provided.''))"

definition replan :: "'s agent \<Rightarrow> pyval \<Rightarrow> pyval \<Rightarrow> string \<Rightarrow> ('s, decision_outcome) act" where
  "replan a goal mode feedback =
     seq (planning_phase a goal mode) (\<lambda>plan.
       give \<lparr>do_done = False, do_plan = plan,
         do_observation = (if feedback = [] then None
           else Some (dict_of [(''type'', VStr ''replan''), (''feedback'', VStr feedback)])),
         do_replanned = True\<rparr>)"

definition decide_replan :: "'s agent \<Rightarrow> pyval \<Rightarrow> pyval \<Rightarrow> pyval \<Rightarrow> pydict \<Rightarrow> ('s, decision_outcome) act" where
  "decide_replan a goal mode plan args =
     (case dget args ''feedback'' of
        VNone \<Rightarrow> replan a goal mode []
      | VStr feedback \<Rightarrow> replan a goal mode feedback
      | _ \<Rightarrow> refuse a plan ''agent_replan'' args ''agent_replan args.feedback must be a string when provided.'')"

definition decide_read_skill_file :: "'s agent \<Rightarrow> pyval \<Rightarrow> pydict \<Rightarrow> pydict \<Rightarrow> ('s, decision_outcome) act" where
  "decide_read_skill_file a plan activated args =
     (case (dget args ''skill'', dget args ''path'') of
        (VStr skill, VStr rel) \<Rightarrow>
          if skill = [] \<or> rel = []
          then refuse a plan ''agent_read_skill_file'' args
                 ''agent_read_skill_file requires args.skill and args.path as non-empty strings.''
          else if \<not> dhas activated skill
          then refuse a plan ''agent_read_skill_file'' (dict_of [(''skill'', VStr skill), (''path'', VStr rel)])
                 (''Skill file read denied: skill '' @ quoted skill @ '' is not activated for this plan.'')
          else
            reading (\<lambda>s.
              case read_file (ag_skills a) (ag_files a (as_world s)) skill rel of
                Inr body \<Rightarrow>
                  seq (emit_action a ''agent_read_skill_file'' (dict_of [(''skill'', VStr skill), (''path'', VStr rel)])
                         \<lparr>tr_exit_code = 0, tr_stdout = body, tr_stderr = []\<rparr>) (go_on plan)
              | Inl e \<Rightarrow>
                  if exn_class e = SkillsError
                  then seq (emit_action a ''agent_read_skill_file'' (dict_of [(''skill'', VStr skill), (''path'', VStr rel)])
                         (tool_error (''Skill file read error: '' @ exn_str e))) (go_on plan)
                  else (\<lambda>s. (Raised e, s)))
      | _ \<Rightarrow>
          refuse a plan ''agent_read_skill_file'' args
            ''agent_read_skill_file requires args.skill and args.path as non-empty strings.'')"

definition handle_control_decision ::
    "'s agent \<Rightarrow> tool_call \<Rightarrow> pyval \<Rightarrow> pyval \<Rightarrow> pyval \<Rightarrow> pydict \<Rightarrow> ('s, decision_outcome) act" where
  "handle_control_decision a call goal mode plan activated =
     (if tc_tool call = ''agent_done'' then decide_done a goal plan (tc_args call)
      else if tc_tool call = ''agent_clarify'' then decide_clarify a plan (tc_args call)
      else if tc_tool call = ''agent_replan'' then decide_replan a goal mode plan (tc_args call)
      else if tc_tool call = ''agent_read_skill_file'' then decide_read_skill_file a plan activated (tc_args call)
      else refuse a plan (tc_tool call) (tc_args call) ''Unsupported control tool.'')"

section \<open>Delegation\<close>

definition SUBAGENT_EVENTS_SUMMARY_MAX :: nat where
  "SUBAGENT_EVENTS_SUMMARY_MAX = 50"

definition shaped_file :: "pydict \<Rightarrow> pyval res" where
  "shaped_file d =
     (let size = dget_or d ''size_bytes'' (VInt 0)
      in bind_res (py_int (if truthy size then size else VInt 0)) (\<lambda>n.
           Inr (VDict (dict_of [(''path'', VStr (py_str (dget_or d ''path'' (VStr [])))), (''size_bytes'', VInt n)]))))"

definition shaped_text :: "int \<Rightarrow> pydict \<Rightarrow> string \<Rightarrow> (string \<times> pyval) list" where
  "shaped_text limit d key =
     (if dget d key = VNone then [] else [(key, VStr (truncate_to (py_str (dget d key)) limit))])"

definition shape_subagent_envelope :: "pydict \<Rightarrow> pyval \<Rightarrow> pydict res" where
  "shape_subagent_envelope settings envelope =
     (case envelope of
        VDict d \<Rightarrow>
          bind_res (read_pos_int_field settings ''max_result_chars'' 20000) (\<lambda>limit.
          bind_res (case dget d ''files'' of
              VList items \<Rightarrow>
                bind_res (map_res (\<lambda>v. shaped_file (as_dict v)) (filter is_VDict items)) (\<lambda>fs.
                  Inr [(''files'', VList fs)])
            | _ \<Rightarrow> Inr []) (\<lambda>files.
            Inr (dict_of
              ([(''success'', VBool (truthy (dget d ''success''))),
                (''status'', VStr (py_str (dget_or d ''status'' (VStr ''child_failed''))))]
               @ (if truthy (dget d ''child_id'') then [(''child_id'', VStr (py_str (dget d ''child_id'')))] else [])
               @ (if dget d ''duration_seconds'' = VNone then []
                  else [(''duration_seconds'', dget d ''duration_seconds'')])
               @ shaped_text limit d ''reason'' @ shaped_text limit d ''reply'' @ shaped_text limit d ''state_summary''
               @ files
               @ (case dget d ''events_summary'' of
                    VList events \<Rightarrow> [(''events_summary'', VList (take SUBAGENT_EVENTS_SUMMARY_MAX events))]
                  | _ \<Rightarrow> [])))))
      | _ \<Rightarrow>
          Inr (dict_of [(''success'', VBool False), (''status'', VStr ''child_failed''),
            (''reason'', VStr ''subagent returned an invalid result.'')]))"

text \<open>\<open>envelope.get\<close> of anything but a dictionary raises, after the shaping has accepted it.\<close>

definition envelope_exit_code :: "pyval \<Rightarrow> int res" where
  "envelope_exit_code envelope =
     (case envelope of
        VDict d \<Rightarrow> Inr (if truthy (dget d ''success'') then 0 else 1)
      | _ \<Rightarrow> raise AttributeError ''object has no attribute get'')"

definition emit_subagent_observation :: "'s agent \<Rightarrow> pydict \<Rightarrow> pyval \<Rightarrow> pyval \<Rightarrow> ('s, decision_outcome) act" where
  "emit_subagent_observation a args envelope plan =
     (case bind_res (shape_subagent_envelope (ag_settings a) envelope) (\<lambda>shaped.
           bind_res (envelope_exit_code envelope) (\<lambda>status. Inr (shaped, status))) of
        Inl e \<Rightarrow> (\<lambda>s. (Raised e, s))
      | Inr (shaped, status) \<Rightarrow>
          seq (emit_action a ''spawn_subagent'' args
                 \<lparr>tr_exit_code = status, tr_stdout = wrap_external_data shaped, tr_stderr = []\<rparr>)
            (go_on plan))"

definition failed_envelope :: "string \<Rightarrow> string \<Rightarrow> pyval" where
  "failed_envelope status reason =
     VDict (dict_of [(''success'', VBool False), (''status'', VStr status), (''reason'', VStr reason)])"

definition run_child :: "'s agent \<Rightarrow> (string \<Rightarrow> pydict \<Rightarrow> 's \<Rightarrow> pyval res \<times> 's) \<Rightarrow> pydict \<Rightarrow> ('s, pyval) act" where
  "run_child a runner request =
     reading (\<lambda>s.
     seq (update (\<lambda>s. s\<lparr>as_spawned := as_spawned s + 1\<rparr>)) (\<lambda>_.
       handle_exn (\<lambda>_. True) (world_op (runner (as_session s) request))
         (\<lambda>e. give (failed_envelope ''child_failed'' (exn_str e)))))"

definition handle_spawn_subagent :: "'s agent \<Rightarrow> pydict \<Rightarrow> pyval \<Rightarrow> ('s, decision_outcome) act" where
  "handle_spawn_subagent a args plan =
     (if \<not> ag_subagents a
      then emit_subagent_observation a args (failed_envelope ''disabled''
             (''subagents are disabled; both tools.spawn_subagent and ''
              @ ''subagents.enabled must be true.'')) plan
      else
        (case build_subagent_request (list_enabled (ag_tools a)) (ag_settings a) args of
           Inl e \<Rightarrow> (\<lambda>s. (Raised e, s))
         | Inr (Inl error) \<Rightarrow> emit_subagent_observation a args (failed_envelope ''invalid_request'' error) plan
         | Inr (Inr request) \<Rightarrow>
             (case read_pos_int_field (ag_settings a) ''max_children_per_task'' 3 of
                Inl e \<Rightarrow> (\<lambda>s. (Raised e, s))
              | Inr max_children \<Rightarrow>
                  reading (\<lambda>s.
                    if max_children \<le> int (as_spawned s)
                    then emit_subagent_observation a args (failed_envelope ''invalid_request''
                           (''max_children_per_task ('' @ int_str max_children @ '') reached for this task.'')) plan
                    else
                      (case ag_runner a of
                         None \<Rightarrow> emit_subagent_observation a args (failed_envelope ''child_failed''
                                   ''subagent runtime is not available in this sandbox.'') plan
                       | Some runner \<Rightarrow>
                           seq (run_child a runner request) (\<lambda>envelope.
                             emit_subagent_observation a args envelope plan))))))"

section \<open>The execution loop\<close>

definition run_tool :: "'s agent \<Rightarrow> tool_call \<Rightarrow> ('s, tool_result) act" where
  "run_tool a call = world_op (execute_tool (ag_tools a) (ag_shell a) (ag_broker a) call)"

definition act_on_decision ::
    "'s agent \<Rightarrow> tool_call \<Rightarrow> pyval \<Rightarrow> pyval \<Rightarrow> pyval \<Rightarrow> pydict \<Rightarrow> ('s, decision_outcome) act" where
  "act_on_decision a call goal mode plan activated =
     (if tc_tool call = ''spawn_subagent'' then handle_spawn_subagent a (tc_args call) plan
      else if tc_tool call \<in> set CONTROL_TOOL_NAMES then handle_control_decision a call goal mode plan activated
      else seq (run_tool a call) (\<lambda>result.
           seq (emit_action a (tc_tool call) (tc_args call) result) (go_on plan)))"

definition observe :: "pydict option \<Rightarrow> ('s, unit) act" where
  "observe observation = (case observation of None \<Rightarrow> give () | Some event \<Rightarrow> remember event)"

text \<open>The deadline, checked at the start of a turn.\<close>

definition out_of_time :: "'s agent \<Rightarrow> ('s, bool) act" where
  "out_of_time a =
     reading (\<lambda>s.
       case as_deadline s of
         None \<Rightarrow> give False
       | Some t \<Rightarrow> seq (world_op (\<lambda>w. case ag_clock a w of (now, w') \<Rightarrow> (Inr now, w'))) (\<lambda>now. give (t \<le> now)))"

text \<open>
  One turn after the choice of a decision: the plan and the skills of the next turn, or
  \<open>None\<close> when the task is done.
\<close>

definition take_turn ::
    "'s agent \<Rightarrow> tool_call \<Rightarrow> pyval \<Rightarrow> pyval \<Rightarrow> pydict \<Rightarrow> pydict \<Rightarrow> ('s, (pydict \<times> pydict) option) act" where
  "take_turn a call goal mode plan activated =
     seq (act_on_decision a call goal mode (VDict plan) activated) (\<lambda>out.
     seq (if do_replanned out
          then activate_referenced_skills 3 a goal mode (normalize_plan (do_plan out) goal)
          else give (as_dict (do_plan out), activated)) (\<lambda>next_turn.
     seq (observe (do_observation out)) (\<lambda>_.
       give (if do_done out then None else Some next_turn))))"

definition MAX_ITERATIONS_REPLY :: string where
  "MAX_ITERATIONS_REPLY = ''Stopped after reaching iteration limit.''"

definition iteration_limit :: "'s agent \<Rightarrow> pyval \<Rightarrow> pydict \<Rightarrow> ('s, unit) act" where
  "iteration_limit a goal plan =
     seq (send a (message_event ''clarification'' (VStr
            (''I reached the maximum iteration limit before finishing. ''
             @ ''Please clarify the goal or constraints.'')))) (\<lambda>_.
     send_done a goal (VDict plan) False MAX_ITERATIONS_REPLY)"

fun execution_loop :: "nat \<Rightarrow> 's agent \<Rightarrow> pyval \<Rightarrow> pyval \<Rightarrow> pydict \<Rightarrow> pydict \<Rightarrow> ('s, unit) act" where
  "execution_loop 0 a goal mode plan activated = iteration_limit a goal plan"
| "execution_loop (Suc n) a goal mode plan activated =
     seq (out_of_time a) (\<lambda>late.
       if late then give ()
       else
         seq (choose_next_decision a goal (VDict plan) activated) (\<lambda>decision.
           case decision of
             None \<Rightarrow> execution_loop n a goal mode plan activated
           | Some call \<Rightarrow>
               seq (take_turn a call goal mode plan activated) (\<lambda>next_turn.
                 case next_turn of
                   None \<Rightarrow> give ()
                 | Some (plan', activated') \<Rightarrow> execution_loop n a goal mode plan' activated')))"

section \<open>Tasks\<close>

definition load_integrations :: "'s agent \<Rightarrow> ('s, string list) act" where
  "load_integrations a =
     (case ag_broker a of
        None \<Rightarrow> give []
      | Some call \<Rightarrow>
          seq (attempt (\<lambda>k. k = HostServiceError)
                 (world_op (call ''broker'' (dict_of [(''action'', VStr ''list_integrations'')])))) (\<lambda>r.
            give (case r of
                Inl e \<Rightarrow> []
              | Inr response \<Rightarrow>
                  (case dget response ''integrations'' of
                     VList names \<Rightarrow> sort (map py_str (filter (\<lambda>v. is_VStr v \<and> strip (py_str v) \<noteq> []) names))
                   | _ \<Rightarrow> []))))"

text \<open>The history of an earlier run; the result is its plan.\<close>

definition resume_context :: "'s agent \<Rightarrow> pydict \<Rightarrow> ('s, pyval) act" where
  "resume_context a task =
     (case dget task ''state'' of
        VDict state \<Rightarrow>
          let history = (case dget state ''history'' of VList items \<Rightarrow> map as_dict (filter is_VDict items) | _ \<Rightarrow> [])
          in seq (update (\<lambda>s. s\<lparr>as_history := history,
                    as_summary := (case dget state ''summary'' of
                       VStr t \<Rightarrow> if strip t = [] then as_summary s else Some t | _ \<Rightarrow> as_summary s),
                    as_summarized :=
                      (if ag_summary_threshold a < length history then length history - ag_summary_threshold a
                       else as_summarized s)\<rparr>))
                 (\<lambda>_. give (dget state ''plan''))
      | _ \<Rightarrow> seq (update (\<lambda>s. s\<lparr>as_history := []\<rparr>)) (\<lambda>_. give VNone))"

definition give_up :: "'s agent \<Rightarrow> pyval \<Rightarrow> pyval \<Rightarrow> exn \<Rightarrow> ('s, unit) act" where
  "give_up a goal plan e =
     seq (emit_decision_parse_error a e) (\<lambda>observation.
     seq (remember observation) (\<lambda>_.
       send_done a goal plan False (''Unable to continue: '' @ exn_str e)))"

definition set_deadline :: "'s agent \<Rightarrow> ('s, unit) act" where
  "set_deadline a =
     (case ag_timeout a of
        None \<Rightarrow> update (\<lambda>s. s\<lparr>as_deadline := None\<rparr>)
      | Some seconds \<Rightarrow>
          seq (world_op (\<lambda>w. case ag_clock a w of (now, w') \<Rightarrow> (Inr now, w'))) (\<lambda>now.
            update (\<lambda>s. s\<lparr>as_deadline := Some (now + seconds)\<rparr>)))"

definition start_task :: "'s agent \<Rightarrow> pydict \<Rightarrow> ('s, unit) act" where
  "start_task a task =
     seq (update (\<lambda>s. s\<lparr>as_session := (let v = dget task ''session_id'' in if truthy v then py_str v else []),
            as_spawned := 0\<rparr>)) (\<lambda>_.
     seq (set_deadline a) (\<lambda>_.
     seq (load_integrations a) (\<lambda>names.
       update (\<lambda>s. s\<lparr>as_integrations := names, as_summary := None, as_summarized := 0\<rparr>))))"

definition run_plan :: "'s agent \<Rightarrow> pyval \<Rightarrow> pyval \<Rightarrow> pydict \<Rightarrow> ('s, unit) act" where
  "run_plan a goal mode plan =
     seq (attempt (\<lambda>k. k = AgentError) (activate_referenced_skills 3 a goal mode plan)) (\<lambda>r.
       case r of
         Inl e \<Rightarrow> give_up a goal (VDict plan) e
       | Inr (plan', activated) \<Rightarrow>
           execution_loop (nat (ag_max_iterations a)) a goal mode plan' activated)"

definition resumed :: "'s agent \<Rightarrow> pydict \<Rightarrow> pyval \<Rightarrow> pyval \<Rightarrow> ('s, unit) act" where
  "resumed a task goal mode =
     seq (resume_context a task) (\<lambda>plan.
     seq (attempt (\<lambda>k. k = AgentError) (if plan = VNone then planning_phase a goal mode else give plan)) (\<lambda>r.
       case r of
         Inl e \<Rightarrow> give_up a goal VNone e
       | Inr plan' \<Rightarrow> run_plan a goal mode (normalize_plan plan' goal)))"

definition run_task :: "'s agent \<Rightarrow> pydict \<Rightarrow> ('s, unit) act" where
  "run_task a task =
     seq (item task ''text'') (\<lambda>goal.
     seq (item task ''approval_mode'') (\<lambda>mode.
     seq (start_task a task) (\<lambda>_.
     resumed a task goal mode)))"

definition run_task_guarded :: "'s agent \<Rightarrow> pydict \<Rightarrow> ('s, unit) act" where
  "run_task_guarded a task =
     handle_exn (\<lambda>_. True) (run_task a task) (\<lambda>e.
       reading (\<lambda>s.
         send a (build_done_event a (VStr (py_str (dget_or task ''text'' (VStr [])))) VNone [] False
           (''Internal error: '' @ exn_str e) s)))"

end
