(* ===== verification/AgentFrame.thy ===== *)
theory AgentFrame
  imports Agent
begin

text \<open>
  Laws of the agent's operations lifted to its loops. \<open>action_frame\<close> (in \<open>Agent\<close>) names what
  single operations may do to the state; here every composed operation is shown to do no more,
  once for all such laws. \<open>task_frame\<close> adds what starts and ends a task.
\<close>

section \<open>Operations inside a task\<close>

context action_frame
begin

lemma plan_round_moves: "waits \<or> mode \<noteq> VStr ''review'' \<Longrightarrow> moves R (plan_round a goal mode feedback errors)"
  unfolding plan_round_def by (intro act_rules) auto

lemma planning_loop_state:
  "a' = a \<Longrightarrow> waits \<or> mode \<noteq> VStr ''review'' \<Longrightarrow>
    R s (fst (planning_loop a' goal mode feedback errors s) = Blocked) (snd (planning_loop a' goal mode feedback errors s))"
proof (induction a' goal mode feedback errors s rule: planning_loop.induct)
  case (1 a' goal mode feedback errors s)
  let ?r = "plan_round a goal mode feedback errors s"
  have m: "R s (fst ?r = Blocked) (snd ?r)"
    using plan_round_moves [OF 1(3)] by (simp add: moves_def)
  show ?case
  proof (cases "fst ?r")
    case (Done x)
    then show ?thesis
    proof (cases x)
      case (Inl plan)
      then show ?thesis using Done m 1(2) by (cases ?r) (simp add: planning_loop.simps [of a])
    next
      case (Inr y)
      obtain feedback' errors' where y: "y = (feedback', errors')" by (cases y)
      obtain t where t: "?r = (Done (Inr (feedback', errors')), t)" using Done Inr y by (cases ?r) auto
      have "R t (fst (planning_loop a' goal mode feedback' errors' t) = Blocked)
          (snd (planning_loop a' goal mode feedback' errors' t))"
        by (rule 1(1) [OF t [folded 1(2), symmetric] refl refl refl]) (use 1 in auto)
      then show ?thesis
        using m chain 1(2) by (simp add: planning_loop.simps [of a goal mode feedback errors s] t)
    qed
  next
    case (Raised e)
    then show ?thesis using m 1(2) by (cases ?r) (simp add: planning_loop.simps [of a])
  next
    case Blocked
    then show ?thesis using m 1(2) by (cases ?r) (simp add: planning_loop.simps [of a])
  qed
qed

lemma planning_phase_moves: "waits \<or> mode \<noteq> VStr ''review'' \<Longrightarrow> moves R (planning_phase a goal mode)"
  using planning_loop_state by (simp add: moves_def planning_phase_def)

lemma activate_moves:
  "waits \<or> mode \<noteq> VStr ''review'' \<Longrightarrow> moves R (activate_referenced_skills n a goal mode plan)"
  by (induction n arbitrary: plan) (auto intro!: act_rules planning_phase_moves simp: split: sum.split)

lemma count_tokens_moves [act_rules]: "moves R (count_tokens a messages)"
  unfolding count_tokens_def by (intro act_rules)

lemma fit_prompt_moves [act_rules]: "moves R (fit_prompt a mk recent text)"
  by (induction recent) (simp_all, (intro act_rules; assumption?)+)

lemma summarize_moves [act_rules]: "moves R (summarize_history a chunk)"
  unfolding summarize_history_def by (intro act_rules)

lemma recent_history_moves [act_rules]: "moves R (recent_history a)"
  unfolding recent_history_def Let_def by (intro act_rules)

lemma build_execution_prompt_moves [act_rules]: "moves R (build_execution_prompt a goal plan activated)"
  unfolding build_execution_prompt_def by (intro act_rules)

lemma execution_decision_moves [act_rules]: "moves R (execution_decision a goal plan activated)"
  unfolding execution_decision_def by (intro act_rules)

lemma choose_next_decision_moves [act_rules]: "moves R (choose_next_decision a goal plan activated)"
  unfolding choose_next_decision_def by (intro act_rules)

lemma refuse_moves [act_rules]: "moves R (refuse a plan name args msg)" "moves R (go_on plan event)"
  unfolding refuse_def go_on_def by (intro act_rules)+

lemma ask_user_moves: "waits \<Longrightarrow> moves R (ask_user a plan question)"
  unfolding ask_user_def by (intro act_rules) auto

lemma decide_clarify_moves: "waits \<or> \<not> ag_clarify a \<Longrightarrow> moves R (decide_clarify a plan args)"
  unfolding decide_clarify_def by (cases "dget args ''question''") (auto intro!: act_rules ask_user_moves)

lemma decide_replan_moves: "waits \<or> mode \<noteq> VStr ''review'' \<Longrightarrow> moves R (decide_replan a goal mode plan args)"
  unfolding decide_replan_def replan_def
  by (cases "dget args ''feedback''") (auto intro!: act_rules planning_phase_moves)

lemma decide_read_moves [act_rules]: "moves R (decide_read_skill_file a plan activated args)"
  unfolding decide_read_skill_file_def
  by (cases "dget args ''skill''"; cases "dget args ''path''") (auto intro!: act_rules)

lemma emit_subagent_moves [act_rules]: "moves R (emit_subagent_observation a args envelope plan)"
  unfolding emit_subagent_observation_def
  by (cases "bind_res (shape_subagent_envelope (ag_settings a) envelope) (\<lambda>shaped.
       bind_res (envelope_exit_code envelope) (\<lambda>status. Inr (shaped, status)))") (auto intro!: act_rules)

lemma run_child_state:
  assumes "ag_runner a = Some f" and "read_pos_int_field (ag_settings a) ''max_children_per_task'' 3 = Inr m"
    and "int (as_spawned s) < m"
  shows "R s (fst (run_child a f request s) = Blocked) (snd (run_child a f request s))"
  using child [OF assms, of request]
  by (auto simp: run_child_def reading_def seq_def update_def handle_exn_def world_op_def give_def
      split: prod.split outcome.split)

lemma handle_spawn_moves [act_rules]: "moves R (handle_spawn_subagent a args plan)"
proof -
  have "moves R (reading (\<lambda>s.
      if m \<le> int (as_spawned s) then emit_subagent_observation a args e plan
      else (case ag_runner a of
              None \<Rightarrow> emit_subagent_observation a args e' plan
            | Some runner \<Rightarrow> seq (run_child a runner request) (\<lambda>envelope. emit_subagent_observation a args envelope plan))))"
    if m: "read_pos_int_field (ag_settings a) ''max_children_per_task'' 3 = Inr m" for m e e' request
    unfolding moves_def
  proof
    fix s
    have o: "R t (fst (emit_subagent_observation a args e plan t) = Blocked) (snd (emit_subagent_observation a args e plan t))" for e t
      using emit_subagent_moves by (simp add: moves_def)
    have "R s (fst (seq (run_child a f request) (\<lambda>envelope. emit_subagent_observation a args envelope plan) s) = Blocked)
         (snd (seq (run_child a f request) (\<lambda>envelope. emit_subagent_observation a args envelope plan) s))"
      if "ag_runner a = Some f" "int (as_spawned s) < m" for f
      using run_child_state [OF that(1) m that(2), of request] o chain
      by (cases "run_child a f request s"; cases "fst (run_child a f request s)") (auto simp: seq_def)
    then show "R s (fst (reading (\<lambda>s.
      if m \<le> int (as_spawned s) then emit_subagent_observation a args e plan
      else (case ag_runner a of
              None \<Rightarrow> emit_subagent_observation a args e' plan
            | Some runner \<Rightarrow> seq (run_child a runner request) (\<lambda>envelope. emit_subagent_observation a args envelope plan))) s) = Blocked)
      (snd (reading (\<lambda>s.
      if m \<le> int (as_spawned s) then emit_subagent_observation a args e plan
      else (case ag_runner a of
              None \<Rightarrow> emit_subagent_observation a args e' plan
            | Some runner \<Rightarrow> seq (run_child a runner request) (\<lambda>envelope. emit_subagent_observation a args envelope plan))) s))"
      using o by (auto simp: reading_def split: option.split)
  qed
  then show ?thesis
    unfolding handle_spawn_subagent_def by (auto intro!: act_rules split: sum.split)
qed

lemma out_of_time_moves [act_rules]: "moves R (out_of_time a)"
proof -
  have "moves R (world_op (\<lambda>w. case ag_clock a w of (now, w') \<Rightarrow> (Inr now, w')))"
    by (rule world_moves) (use clock in \<open>simp add: split_beta\<close>)
  then show ?thesis unfolding out_of_time_def by (intro act_rules)
qed

lemma observe_moves [act_rules]: "moves R (observe event)"
  unfolding observe_def by (intro act_rules)

lemma prod_moves [act_rules]: "(\<And>x y. moves R (f x y)) \<Longrightarrow> moves R (case p of (x, y) \<Rightarrow> f x y)"
  by (cases p) simp

lemma resume_moves [act_rules]: "moves R (resume_context a task)"
proof -
  have "R s False (s\<lparr>as_history := h, as_summary := t, as_summarized := n\<rparr>)" for s h t n
    using chain [OF history [of s h] chain [OF summary [of "s\<lparr>as_history := h\<rparr>" t]
        summarized [of "s\<lparr>as_history := h, as_summary := t\<rparr>" n]]] .
  then have "moves R (update (\<lambda>s. s\<lparr>as_history := h, as_summary := t s, as_summarized := n s\<rparr>))" for h t n
    by (simp add: moves_def update_def)
  then show ?thesis
    unfolding resume_context_def Let_def by (cases "dget task ''state''") (auto intro!: act_rules)
qed

end

section \<open>Whole tasks\<close>

text \<open>What starts a task.\<close>

locale start_frame = action_frame a R waits
  for a :: "'s agent" and R :: "'s astate \<Rightarrow> bool \<Rightarrow> 's astate \<Rightarrow> bool" and waits :: bool +
  assumes opened: "R s False (s\<lparr>as_session := name, as_spawned := 0\<rparr>)"
    and deadline: "R s False (s\<lparr>as_deadline := limit\<rparr>)"
    and integrations: "R s False (s\<lparr>as_integrations := names\<rparr>)"
    and service: "ag_broker a = Some call \<Longrightarrow> R s False (s\<lparr>as_world := snd (call name payload (as_world s))\<rparr>)"
begin

lemma start_task_moves [act_rules]: "moves R (start_task a task)"
proof -
  have u: "moves R (update (\<lambda>s. s\<lparr>as_session := name, as_spawned := 0\<rparr>))"
    "moves R (update (\<lambda>s. s\<lparr>as_deadline := limit\<rparr>))" for name limit
    using opened deadline by (simp_all add: moves_def update_def)
  have i: "moves R (update (\<lambda>s. s\<lparr>as_integrations := names, as_summary := None, as_summarized := 0\<rparr>))" for names
  proof -
    have "R s False (s\<lparr>as_integrations := names, as_summary := None, as_summarized := 0\<rparr>)" for s
      using chain [OF integrations [of s names]
        chain [OF summary [of "s\<lparr>as_integrations := names\<rparr>" None]
          summarized [of "s\<lparr>as_integrations := names, as_summary := None\<rparr>" 0]]] .
    then show ?thesis by (simp add: moves_def update_def)
  qed
  have c: "moves R (world_op (\<lambda>w. case ag_clock a w of (now, w') \<Rightarrow> (Inr now, w')))"
    by (rule world_moves) (use clock in \<open>simp add: split_beta\<close>)
  have s: "moves R (world_op (call name payload))" if "ag_broker a = Some call" for call name payload
    by (rule world_moves) (use service [OF that] in simp)
  show ?thesis
    unfolding start_task_def set_deadline_def load_integrations_def Let_def by (intro act_rules u i c s)
qed

end

text \<open>Any event at all, the final one included.\<close>

locale end_frame = action_frame a R waits
  for a :: "'s agent" and R :: "'s astate \<Rightarrow> bool \<Rightarrow> 's astate \<Rightarrow> bool" and waits :: bool +
  assumes closing: "ag_send a event (as_world s) = (Inr (), w) \<Longrightarrow>
      R s False (s\<lparr>as_world := w, as_sent := as_sent s @ [event]\<rparr>)"
begin

lemma any_send_moves [act_rules]: "moves R (send a event)"
  unfolding moves_def
proof
  fix s
  show "R s (fst (send a event s) = Blocked) (snd (send a event s))"
    using refused [of s event] closing [of event s]
    by (cases "ag_send a event (as_world s)"; cases "fst (ag_send a event (as_world s))")
      (auto simp: send_def seq_def world_op_def update_def)
qed

lemma send_done_moves [act_rules]: "moves R (send_done a goal plan success reply)"
  unfolding send_done_def by (intro act_rules)

lemma decide_done_moves [act_rules]: "moves R (decide_done a goal plan args)"
  unfolding decide_done_def by (intro act_rules)

lemma act_moves:
  assumes "waits \<or> mode \<noteq> VStr ''review''" and "waits \<or> \<not> ag_clarify a"
  shows "moves R (act_on_decision a call goal mode plan activated)"
  unfolding act_on_decision_def handle_control_decision_def run_tool_def
  by (intro act_rules decide_clarify_moves decide_replan_moves assms)

lemma take_turn_moves:
  assumes "waits \<or> mode \<noteq> VStr ''review''" and "waits \<or> \<not> ag_clarify a"
  shows "moves R (take_turn a call goal mode plan activated)"
  unfolding take_turn_def by (intro act_rules act_moves activate_moves assms)

lemma execution_loop_moves:
  assumes "waits \<or> mode \<noteq> VStr ''review''" and "waits \<or> \<not> ag_clarify a"
  shows "moves R (execution_loop n a goal mode plan activated)"
proof (induction n arbitrary: plan activated)
  case 0
  show ?case unfolding execution_loop.simps iteration_limit_def by (intro act_rules) simp
next
  case (Suc n)
  show ?case
    unfolding execution_loop.simps by (intro act_rules take_turn_moves assms Suc)
qed

lemma give_up_moves [act_rules]: "moves R (give_up a goal plan e)"
  unfolding give_up_def by (intro act_rules)

lemma run_plan_moves:
  assumes "waits \<or> mode \<noteq> VStr ''review''" and "waits \<or> \<not> ag_clarify a"
  shows "moves R (run_plan a goal mode plan)"
  unfolding run_plan_def by (intro act_rules activate_moves execution_loop_moves assms)

lemma resumed_moves:
  assumes "waits \<or> mode \<noteq> VStr ''review''" and "waits \<or> \<not> ag_clarify a"
  shows "moves R (resumed a task goal mode)"
  unfolding resumed_def by (intro act_rules run_plan_moves planning_phase_moves assms)

end

locale task_frame = start_frame a R waits + end_frame a R waits
  for a :: "'s agent" and R :: "'s astate \<Rightarrow> bool \<Rightarrow> 's astate \<Rightarrow> bool" and waits :: bool
begin

lemma run_task_moves:
  assumes "waits \<or> (\<forall>mode. dlookup task ''approval_mode'' = Some mode \<longrightarrow> mode \<noteq> VStr ''review'')"
    and "waits \<or> \<not> ag_clarify a"
  shows "moves R (run_task a task)"
proof -
  show ?thesis
  proof (cases "dlookup task ''approval_mode''")
    case None
    then have "(item task ''approval_mode'' :: ('s, pyval) act) = (\<lambda>s. (Raised (Exn KeyError (repr_str ''approval_mode'')), s))"
      by (auto simp: item_def dict_item_def raise_def)
    then have "seq (item task ''approval_mode'') f = (\<lambda>s. (Raised (Exn KeyError (repr_str ''approval_mode'')), s))"
      for f :: "pyval \<Rightarrow> ('s, unit) act" by (auto simp: seq_def)
    then show ?thesis unfolding run_task_def by (auto intro!: act_rules)
  next
    case (Some mode)
    then have w: "waits \<or> mode \<noteq> VStr ''review''" using assms(1) by auto
    have "(item task ''approval_mode'' :: ('s, pyval) act) = give mode"
      using Some by (auto simp: item_def dict_item_def give_def)
    then have "seq (item task ''approval_mode'') f = f mode" for f :: "pyval \<Rightarrow> ('s, unit) act"
      by (auto simp: seq_def give_def)
    then show ?thesis
      unfolding run_task_def by (auto intro!: act_rules resumed_moves [OF w assms(2)])
  qed
qed

lemma run_task_guarded_moves:
  assumes "waits \<or> (\<forall>mode. dlookup task ''approval_mode'' = Some mode \<longrightarrow> mode \<noteq> VStr ''review'')"
    and "waits \<or> \<not> ag_clarify a"
  shows "moves R (run_task_guarded a task)"
  unfolding run_task_guarded_def by (intro act_rules run_task_moves assms)

end

text \<open>\<open>run_forever\<close> and \<open>run\<close>: each task takes at least its own event from the inbox.\<close>

interpretation consuming: task_frame a consumes True for a :: "'s agent"
  by unfold_locales (auto simp: consumes_def)

lemma wait_task_shorter:
  "wait_for_task_event s = (Done (Some task), t) \<Longrightarrow> length (as_inbox t) < length (as_inbox s)"
  using next_task_shorter by (cases "as_inbox s") (fastforce simp: wait_for_task_event_def split: prod.splits)+

lemma run_task_consumes: "run_task_guarded a task s = (r, t) \<Longrightarrow> length (as_inbox t) \<le> length (as_inbox s)"
  using consumes_le [OF consuming.run_task_guarded_moves] by blast

function run_forever :: "'s agent \<Rightarrow> ('s, unit) act" where
  "run_forever a s =
     (case wait_for_task_event s of
        (Done None, s') \<Rightarrow> (Done (), s')
      | (Done (Some task), s') \<Rightarrow>
          (case run_task_guarded a task s' of
             (Done _, s'') \<Rightarrow> run_forever a s''
           | (Raised e, s'') \<Rightarrow> (Raised e, s'')
           | (Blocked, s'') \<Rightarrow> (Blocked, s''))
      | (Raised e, s') \<Rightarrow> (Raised e, s')
      | (Blocked, s') \<Rightarrow> (Blocked, s'))"
  by pat_completeness auto

termination
  by (relation "measure (\<lambda>(a, s). length (as_inbox s))")
    (auto dest!: sym [THEN run_task_consumes] sym [THEN wait_task_shorter])

declare run_forever.simps [simp del]

definition run_once :: "'s agent \<Rightarrow> ('s, unit) act" where
  "run_once a =
     seq wait_for_task_event (\<lambda>task. case task of None \<Rightarrow> give () | Some event \<Rightarrow> run_task_guarded a event)"

end
