(* ===== verification/AgentProps.thy ===== *)
theory AgentProps
  imports AgentFrame
begin

text \<open>
  What the agent guarantees: a task ends in one final event and succeeds only on the model's
  word, an unattended agent waits for no one, prompts keep to their budget, children are
  counted, and output files are complete.
\<close>

section \<open>How a task ends\<close>

definition logs :: "'s astate \<Rightarrow> bool \<Rightarrow> 's astate \<Rightarrow> bool" where
  "logs s b t = (as_deadline t = as_deadline s \<and> (\<exists>evs. as_sent t = as_sent s @ evs \<and> list_all task_event evs))"

interpretation logging: action_frame a logs True for a :: "'s agent"
proof unfold_locales
  show "logs s False t \<Longrightarrow> logs t b u \<Longrightarrow> logs s b u" for s t u :: "'s astate" and b
    unfolding logs_def by (metis append_assoc list_all_append)
qed (simp_all add: logs_def)

text \<open>\<open>success\<close> is the model's: it answered a request with the whole action surface so.\<close>

definition answered_done :: "'s agent \<Rightarrow> string \<Rightarrow> bool" where
  "answered_done a reply = (\<exists>messages w r w' call. rt_complete (ag_runtime a) messages (VList (ag_surface a)) w = (Inr r, w')
     \<and> lr_action r = Some call \<and> tc_tool call = ''agent_done'' \<and> dget (tc_args call) ''reply'' = VStr reply
     \<and> strip reply \<noteq> [])"

definition final_event :: "'s agent \<Rightarrow> pydict \<Rightarrow> bool" where
  "final_event a d = (dget d ''type'' = VStr ''done''
     \<and> (dget d ''success'' = VBool False
        \<or> dget d ''success'' = VBool True \<and> (\<exists>reply. dget d ''reply'' = VStr reply \<and> answered_done a reply)))"

lemma final_not_task_event: "final_event a d \<Longrightarrow> \<not> task_event d"
  by (auto simp: final_event_def task_event_def message_event_def action_event_def dget_def dget_or_def)

definition closed_by :: "'s agent \<Rightarrow> pydict list \<Rightarrow> bool" where
  "closed_by a evs = (\<exists>earlier final. evs = earlier @ [final] \<and> list_all task_event earlier
     \<and> final_event a final)"

text \<open>
  The time is up in a state: the clock has just been read, nothing has happened since, and the
  reading was at the limit or beyond it.
\<close>

definition time_up :: "'s agent \<Rightarrow> rat \<Rightarrow> 's astate \<Rightarrow> bool" where
  "time_up a limit t = (\<exists>w now. ag_clock a w = (now, as_world t) \<and> limit \<le> now)"

text \<open>How an operation from state \<open>s\<close> ends, and what it has sent.\<close>

definition ends_task :: "'s agent \<Rightarrow> 's astate \<Rightarrow> unit outcome \<times> 's astate \<Rightarrow> pydict list \<Rightarrow> bool" where
  "ends_task a s e evs =
     (case fst e of
        Done _ \<Rightarrow> closed_by a evs
          \<or> (\<exists>limit. as_deadline s = Some limit \<and> time_up a limit (snd e)) \<and> list_all task_event evs
      | _ \<Rightarrow> list_all task_event evs)"

definition post :: "('s astate \<Rightarrow> 'a outcome \<times> 's astate \<Rightarrow> pydict list \<Rightarrow> bool) \<Rightarrow> ('s, 'a) act \<Rightarrow> bool" where
  "post P m \<longleftrightarrow> (\<forall>s. \<exists>evs. as_sent (snd (m s)) = as_sent s @ evs \<and> P s (m s) evs)"

lemma movesD: "moves R m \<Longrightarrow> m s = (r, t) \<Longrightarrow> R s (r = Blocked) t"
  unfolding moves_def by (metis fst_conv snd_conv)

lemma closed_by_after: "list_all task_event pre \<Longrightarrow> closed_by a evs \<Longrightarrow> closed_by a (pre @ evs)"
  unfolding closed_by_def by (metis append_assoc list_all_append)

lemma ends_task_after:
  assumes "as_sent t = as_sent s @ pre" and "list_all task_event pre" and "as_deadline t = as_deadline s"
    and "post (ends_task a) m"
  shows "\<exists>evs. as_sent (snd (m t)) = as_sent s @ evs \<and> ends_task a s (m t) evs"
proof -
  obtain evs where e: "as_sent (snd (m t)) = as_sent t @ evs" "ends_task a t (m t) evs"
    using assms(4) unfolding post_def by blast
  then have "ends_task a s (m t) (pre @ evs)"
    using assms(2,3) closed_by_after by (fastforce simp: ends_task_def split: outcome.splits)
  with e(1) assms(1) show ?thesis by (metis append_assoc)
qed

lemma seq_ends_task:
  assumes "moves logs m" and "\<And>x. post (ends_task a) (f x)"
  shows "post (ends_task a) (seq m f)"
  unfolding post_def
proof
  fix s
  obtain r t where m: "m s = (r, t)" by (cases "m s")
  obtain pre where p: "as_sent t = as_sent s @ pre" "list_all task_event pre" "as_deadline t = as_deadline s"
    using movesD [OF assms(1) m] by (auto simp: logs_def)
  show "\<exists>evs. as_sent (snd (seq m f s)) = as_sent s @ evs \<and> ends_task a s (seq m f s) evs"
  proof (cases r)
    case (Done x)
    then show ?thesis using ends_task_after [OF p assms(2)] by (simp add: seq_def m)
  qed (use p in \<open>auto simp: seq_def m ends_task_def\<close>)
qed

lemma build_done_final: "final_event a (build_done_event a goal plan history False reply s)"
  by (simp add: final_event_def build_done_event_def dget_def dget_or_def split: prod.split)

lemma build_done_success: "answered_done a reply \<Longrightarrow> final_event a (build_done_event a goal plan history True reply s)"
  by (auto simp: final_event_def build_done_event_def dget_def dget_or_def split: prod.split option.split)

text \<open>What is sent by one \<open>send\<close>: the event, or nothing when the transport refuses it.\<close>

lemma send_result:
  "(\<exists>t. send a event s = (Done (), t) \<and> as_sent t = as_sent s @ [event] \<and> as_deadline t = as_deadline s)
   \<or> (\<exists>e t. send a event s = (Raised e, t) \<and> as_sent t = as_sent s \<and> as_deadline t = as_deadline s)"
  by (cases "ag_send a event (as_world s)"; cases "fst (ag_send a event (as_world s))")
    (auto simp: send_def seq_def world_op_def update_def)

lemma send_final_ends:
  assumes "final_event a event"
  shows "\<exists>evs. as_sent (snd (send a event s)) = as_sent s @ evs \<and> ends_task a s' (send a event s) evs"
  using send_result [of a event s] assms by (auto simp: ends_task_def closed_by_def)

lemma send_done_ends: "post (ends_task a) (send_done a goal plan False reply)"
  unfolding post_def send_done_def reading_def using send_final_ends build_done_final by blast

lemma iteration_limit_ends: "post (ends_task a) (iteration_limit a goal plan)"
  unfolding iteration_limit_def by (intro seq_ends_task send_done_ends logging.send_moves) simp

lemma give_up_ends: "post (ends_task a) (give_up a goal plan e)"
  unfolding give_up_def by (intro seq_ends_task send_done_ends logging.emit_moves logging.remember_moves)

section \<open>A decision\<close>

lemma outcome_of_Done [simp]: "outcome_of r = Done x \<longleftrightarrow> r = Inr x"
  by (cases r) auto

lemma chosen_from_runtime:
  assumes "choose_next_decision a goal plan activated s = (Done (Some call), t)"
  shows "\<exists>messages w r w'. rt_complete (ag_runtime a) messages (VList (ag_surface a)) w = (Inr r, w') \<and> lr_action r = Some call"
proof -
  have "seq (execution_decision a goal plan activated) (\<lambda>call. give (Some call)) s = (Done (Some call), t)"
    using assms unfolding choose_next_decision_def handle_exn_def
    by (auto split: prod.splits outcome.splits if_splits elim!: seq_DoneE)
  then obtain s' where "execution_decision a goal plan activated s = (Done call, s')"
    by (auto elim!: seq_DoneE)
  then obtain messages response s1 s2 where
    "world_op (rt_complete (ag_runtime a) messages (VList (ag_surface a))) s1 = (Done response, s2)"
    "lr_action response = Some call"
    unfolding execution_decision_def by (auto elim!: seq_DoneE split: option.splits)
  then show ?thesis by (fastforce simp: world_op_def split: prod.splits)
qed

text \<open>Every decision but an accepted \<open>agent_done\<close> leaves the task open.\<close>

definition open_end :: "('s, decision_outcome) act \<Rightarrow> bool" where
  "open_end m = (\<forall>s out t. m s = (Done out, t) \<longrightarrow> \<not> do_done out)"

lemma open_end_seq: "(\<And>x. open_end (f x)) \<Longrightarrow> open_end (seq m f)"
  unfolding open_end_def by (blast elim: seq_DoneE)

lemma open_end_go_on: "open_end (go_on plan event)" "open_end (refuse a plan name args msg)"
proof -
  show "open_end (go_on plan event)" for plan event by (simp add: open_end_def go_on_def)
  then show "open_end (refuse a plan name args msg)" unfolding refuse_def by (intro open_end_seq)
qed

lemma open_end_raised: "open_end (\<lambda>s. (Raised e, s))"
  by (simp add: open_end_def)

lemma open_end_reading: "(\<And>s. open_end (f s)) \<Longrightarrow> open_end (reading f)"
  by (auto simp: open_end_def reading_def)

lemma open_end_if: "open_end m \<Longrightarrow> open_end n \<Longrightarrow> open_end (if b then m else n)"
  by simp

lemma open_end_give: "\<not> do_done out \<Longrightarrow> open_end (give out)"
  by (simp add: open_end_def)

lemmas open_end_rules = open_end_seq open_end_go_on open_end_raised open_end_reading open_end_if open_end_give

lemma open_end_decisions:
  "open_end (decide_clarify a plan args)"
  "open_end (decide_replan a goal mode plan args)"
  "open_end (decide_read_skill_file a plan activated args)"
  "open_end (emit_subagent_observation a args envelope plan)"
  "open_end (handle_spawn_subagent a args plan)"
proof -
  show "open_end (decide_clarify a plan args)"
    unfolding decide_clarify_def ask_user_def
    by (cases "dget args ''question''") (auto intro!: open_end_rules)
  show "open_end (decide_replan a goal mode plan args)"
    unfolding decide_replan_def replan_def
    by (cases "dget args ''feedback''") (auto intro!: open_end_rules)
  show "open_end (decide_read_skill_file a plan activated args)"
    unfolding decide_read_skill_file_def
    by (cases "dget args ''skill''"; cases "dget args ''path''") (auto intro!: open_end_rules split: sum.split)
  show e: "open_end (emit_subagent_observation a args envelope plan)" for args envelope plan
    unfolding emit_subagent_observation_def by (auto intro!: open_end_rules split: sum.split)
  show "open_end (handle_spawn_subagent a args plan)"
    unfolding handle_spawn_subagent_def by (auto intro!: open_end_rules e split: sum.split option.split)
qed

lemma act_quiet:
  assumes "\<not> (tc_tool call = ''agent_done'' \<and> (\<exists>reply. dget (tc_args call) ''reply'' = VStr reply \<and> strip reply \<noteq> []))"
  shows "moves logs (act_on_decision a call goal mode plan activated)
    \<and> open_end (act_on_decision a call goal mode plan activated)"
proof -
  have d: "moves logs (decide_done a goal plan (tc_args call)) \<and> open_end (decide_done a goal plan (tc_args call))"
    if "tc_tool call = ''agent_done''"
    using assms that unfolding decide_done_def
    by (auto intro!: open_end_rules logging.refuse_moves split: pyval.split)
  have c: "moves logs (handle_control_decision a call goal mode plan activated)
      \<and> open_end (handle_control_decision a call goal mode plan activated)"
    unfolding handle_control_decision_def
    using d by (auto intro!: open_end_rules open_end_decisions logging.refuse_moves logging.decide_clarify_moves
        logging.decide_replan_moves logging.decide_read_moves)
  have t: "moves logs (run_tool a call)" unfolding run_tool_def by (rule logging.tool_moves)
  show ?thesis
    unfolding act_on_decision_def
    using c by (auto intro!: open_end_rules open_end_decisions logging.handle_spawn_moves logging.seq_moves t
        logging.emit_moves logging.refuse_moves)
qed

lemma act_done:
  assumes "tc_tool call = ''agent_done''" and "dget (tc_args call) ''reply'' = VStr reply" and "strip reply \<noteq> []"
  shows "act_on_decision a call goal mode plan activated =
    seq (send_done a goal plan True reply) (\<lambda>_.
      give \<lparr>do_done = True, do_plan = plan, do_observation = None, do_replanned = False\<rparr>)"
  using assms
  by (simp add: act_on_decision_def CONTROL_TOOL_NAMES_def handle_control_decision_def decide_done_def)

definition turn_ends :: "'s agent \<Rightarrow> 's astate \<Rightarrow> 'a option outcome \<Rightarrow> pydict list \<Rightarrow> bool" where
  "turn_ends a s r evs = (case r of Done None \<Rightarrow> closed_by a evs | _ \<Rightarrow> list_all task_event evs)"

lemma take_turn_ends:
  assumes "\<exists>messages w r w'. rt_complete (ag_runtime a) messages (VList (ag_surface a)) w = (Inr r, w') \<and> lr_action r = Some call"
  shows "\<exists>evs. as_sent (snd (take_turn a call goal mode plan activated s)) = as_sent s @ evs
    \<and> turn_ends a s (fst (take_turn a call goal mode plan activated s)) evs
    \<and> as_deadline (snd (take_turn a call goal mode plan activated s)) = as_deadline s"
proof (cases "tc_tool call = ''agent_done'' \<and> (\<exists>reply. dget (tc_args call) ''reply'' = VStr reply \<and> strip reply \<noteq> [])")
  case True
  then obtain reply where r: "tc_tool call = ''agent_done''" "dget (tc_args call) ''reply'' = VStr reply" "strip reply \<noteq> []"
    by blast
  let ?e = "build_done_event a goal (VDict plan) (as_history s) True reply s"
  have "answered_done a reply" using r assms by (auto simp: answered_done_def)
  then have "final_event a ?e" by (rule build_done_success)
  then show ?thesis
    using send_result [of a ?e s]
    by (auto simp: take_turn_def act_done [OF r] seq_def send_done_def reading_def give_def observe_def
        turn_ends_def closed_by_def)
next
  case False
  note q = act_quiet [OF False, of a goal mode "VDict plan" activated]
  let ?m = "take_turn a call goal mode plan activated"
  have m: "moves logs ?m"
    unfolding take_turn_def
    by (intro logging.seq_moves logging.if_moves logging.activate_moves logging.observe_moves logging.give_moves
        q [THEN conjunct1]) simp_all
  have "fst (?m s) \<noteq> Done None"
  proof
    assume "fst (?m s) = Done None"
    then have "?m s = (Done None, snd (?m s))" by (cases "?m s") simp
    then have "\<exists>out t. act_on_decision a call goal mode (VDict plan) activated s = (Done out, t) \<and> do_done out"
      unfolding take_turn_def by (elim seq_DoneE) (auto split: if_splits)
    then show False using q unfolding open_end_def by blast
  qed
  then show ?thesis
    using movesD [OF m, of s "fst (?m s)" "snd (?m s)"]
    by (auto simp: logs_def turn_ends_def split: outcome.split option.split)
qed

lemma execution_loop_ends: "post (ends_task a) (execution_loop n a goal mode plan activated)"
proof (induction n arbitrary: plan activated)
  case 0
  show ?case by (simp add: iteration_limit_ends)
next
  case (Suc n)
  let ?go = "\<lambda>next_turn. case next_turn of None \<Rightarrow> give ()
      | Some (plan', activated') \<Rightarrow> execution_loop n a goal mode plan' activated'"
  have turn: "\<exists>evs. as_sent (snd (seq (take_turn a call goal mode plan activated) ?go s)) = as_sent s @ evs
      \<and> ends_task a s (seq (take_turn a call goal mode plan activated) ?go s) evs"
    if call: "\<exists>messages w r w'. rt_complete (ag_runtime a) messages (VList (ag_surface a)) w = (Inr r, w') \<and> lr_action r = Some call"
    for call s
  proof -
    obtain r t where m: "take_turn a call goal mode plan activated s = (r, t)" by (cases "take_turn a call goal mode plan activated s")
    obtain evs where e: "as_sent t = as_sent s @ evs" "turn_ends a s r evs" "as_deadline t = as_deadline s"
      using take_turn_ends [OF call, of goal mode plan activated s] m by auto
    show ?thesis
    proof (cases r)
      case (Done x)
      then show ?thesis
      proof (cases x)
        case (Some p)
        obtain plan' activated' where p: "p = (plan', activated')" by (cases p)
        have "list_all task_event evs" using e(2) Done Some by (simp add: turn_ends_def)
        from ends_task_after [OF e(1) this e(3) Suc.IH, of plan' activated'] show ?thesis
          using m Done Some p by (simp add: seq_def)
      qed (use e m Done in \<open>auto simp: seq_def give_def turn_ends_def ends_task_def\<close>)
    qed (use e m in \<open>auto simp: seq_def turn_ends_def ends_task_def\<close>)
  qed
  let ?rest = "seq (choose_next_decision a goal (VDict plan) activated) (\<lambda>decision.
           case decision of
             None \<Rightarrow> execution_loop n a goal mode plan activated
           | Some call \<Rightarrow> seq (take_turn a call goal mode plan activated) ?go)"
  have rest: "post (ends_task a) ?rest"
    unfolding post_def
  proof
    fix s
    obtain r t where m: "choose_next_decision a goal (VDict plan) activated s = (r, t)"
      by (cases "choose_next_decision a goal (VDict plan) activated s")
    obtain pre where pre: "as_sent t = as_sent s @ pre" "list_all task_event pre" "as_deadline t = as_deadline s"
      using movesD [OF logging.choose_next_decision_moves m] by (auto simp: logs_def)
    show "\<exists>evs. as_sent (snd (?rest s)) = as_sent s @ evs \<and> ends_task a s (?rest s) evs"
    proof (cases r)
      case (Done d)
      then show ?thesis
      proof (cases d)
        case None
        then show ?thesis using ends_task_after [OF pre Suc.IH] m Done by (simp add: seq_def)
      next
        case (Some call)
        then have call: "\<exists>messages w r w'. rt_complete (ag_runtime a) messages (VList (ag_surface a)) w = (Inr r, w') \<and> lr_action r = Some call"
          using chosen_from_runtime m Done by blast
        obtain evs where evs: "as_sent (snd (seq (take_turn a call goal mode plan activated) ?go t)) = as_sent t @ evs"
          "ends_task a t (seq (take_turn a call goal mode plan activated) ?go t) evs"
          using turn [OF call] by blast
        have "ends_task a s (seq (take_turn a call goal mode plan activated) ?go t) (pre @ evs)"
          using evs(2) pre closed_by_after by (fastforce simp: ends_task_def split: outcome.splits)
        then show ?thesis
          using m Done Some evs(1) pre(1) by (intro exI [of _ "pre @ evs"]) (simp add: seq_def)
      qed
    qed (use pre m in \<open>auto simp: seq_def ends_task_def\<close>)
  qed
  show ?case
    unfolding post_def
  proof
    fix s
    obtain r t where m: "out_of_time a s = (r, t)" by (cases "out_of_time a s")
    obtain pre where pre: "as_sent t = as_sent s @ pre" "list_all task_event pre" "as_deadline t = as_deadline s"
      using movesD [OF logging.out_of_time_moves m] by (auto simp: logs_def)
    have late: "\<exists>limit. as_deadline s = Some limit \<and> time_up a limit t" if "r = Done True"
      using m that
      by (auto simp: out_of_time_def reading_def give_def world_op_def time_up_def elim!: seq_DoneE
          split: option.splits prod.splits) (intro exI conjI, assumption, assumption)
    show "\<exists>evs. as_sent (snd (execution_loop (Suc n) a goal mode plan activated s)) = as_sent s @ evs
        \<and> ends_task a s (execution_loop (Suc n) a goal mode plan activated s) evs"
    proof (cases r)
      case (Done b)
      show ?thesis
      proof (cases b)
        case True
        then show ?thesis using m Done late pre by (auto simp: seq_def give_def ends_task_def)
      next
        case False
        then show ?thesis using ends_task_after [OF pre rest] m Done by (simp add: seq_def)
      qed
    qed (use pre m in \<open>auto simp: seq_def ends_task_def\<close>)
  qed
qed

section \<open>A task\<close>

lemma resume_quiet: "moves logs (resume_context a task)"
  unfolding moves_def resume_context_def logs_def
  by (auto simp: seq_def update_def give_def Let_def split: pyval.split)

lemma run_plan_ends: "post (ends_task a) (run_plan a goal mode plan)"
  unfolding run_plan_def
  by (intro seq_ends_task logging.attempt_moves logging.activate_moves)
    (auto intro: give_up_ends execution_loop_ends split: sum.split prod.split)

lemma resumed_ends: "post (ends_task a) (resumed a task goal mode)"
  unfolding resumed_def
  by (intro seq_ends_task resume_quiet logging.attempt_moves logging.if_moves logging.planning_phase_moves
      logging.give_moves) (auto intro: give_up_ends run_plan_ends split: sum.split)

definition says :: "'s astate \<Rightarrow> bool \<Rightarrow> 's astate \<Rightarrow> bool" where
  "says s b t = (\<exists>evs. as_sent t = as_sent s @ evs \<and> list_all task_event evs)"

interpretation saying: start_frame a says True for a :: "'s agent"
proof unfold_locales
  show "says s False t \<Longrightarrow> says t b u \<Longrightarrow> says s b u" for s t u :: "'s astate" and b
    unfolding says_def by (metis append_assoc list_all_append)
qed (simp_all add: says_def)

text \<open>The deadline is set from the first clock reading of the task.\<close>

lemma start_task_deadline:
  assumes "start_task a task s = (Done (), t)" and "as_deadline t = Some limit"
  shows "\<exists>seconds. ag_timeout a = Some seconds \<and> limit = fst (ag_clock a (as_world s)) + seconds"
proof -
  have l: "as_deadline t' = as_deadline s'" if "load_integrations a s' = (Done names, t')" for s' t' names
    using that
    by (cases "ag_broker a")
      (auto simp: load_integrations_def attempt_def handle_exn_def seq_def world_op_def give_def
        split: prod.splits outcome.splits if_splits)
  show ?thesis
    using assms unfolding start_task_def set_deadline_def
    by (cases "ag_timeout a")
      (auto elim!: seq_DoneE dest!: l simp: update_def world_op_def split: prod.splits)
qed

definition task_result :: "'s agent \<Rightarrow> 's astate \<Rightarrow> unit outcome \<times> 's astate \<Rightarrow> pydict list \<Rightarrow> bool" where
  "task_result a s e evs =
     (case fst e of
        Done _ \<Rightarrow> closed_by a evs
          \<or> (\<exists>seconds. ag_timeout a = Some seconds \<and> time_up a (fst (ag_clock a (as_world s)) + seconds) (snd e))
            \<and> list_all task_event evs
      | _ \<Rightarrow> list_all task_event evs)"

lemma run_task_result:
  fixes s :: "'s astate"
  shows "\<exists>evs. as_sent (snd (run_task a task s)) = as_sent s @ evs \<and> task_result a s (run_task a task s) evs"
proof -
  have item: "\<exists>evs. as_sent (snd (seq (item task key) f s)) = as_sent s @ evs \<and> task_result a s (seq (item task key) f s) evs"
    if "\<And>x. \<exists>evs. as_sent (snd (f x s)) = as_sent s @ evs \<and> task_result a s (f x s) evs"
    for key and f :: "pyval \<Rightarrow> ('s, unit) act"
    using that by (cases "dict_item task key") (auto simp: seq_def item_def task_result_def)
  have body: "\<exists>evs. as_sent (snd (seq (start_task a task) (\<lambda>_. resumed a task goal mode) s)) = as_sent s @ evs
      \<and> task_result a s (seq (start_task a task) (\<lambda>_. resumed a task goal mode) s) evs" for goal mode
  proof -
    obtain r t where m: "start_task a task s = (r, t)" by (cases "start_task a task s")
    obtain pre where pre: "as_sent t = as_sent s @ pre" "list_all task_event pre"
      using movesD [OF saying.start_task_moves m] by (auto simp: says_def)
    show ?thesis
    proof (cases r)
      case (Done u)
      obtain evs where evs: "as_sent (snd (resumed a task goal mode t)) = as_sent t @ evs"
        "ends_task a t (resumed a task goal mode t) evs"
        using resumed_ends unfolding post_def by blast
      have "task_result a s (resumed a task goal mode t) (pre @ evs)"
        using evs(2) pre(2) closed_by_after start_task_deadline m Done
        by (fastforce simp: ends_task_def task_result_def split: outcome.splits)
      then show ?thesis
        using m Done evs(1) pre(1) by (intro exI [of _ "pre @ evs"]) (simp add: seq_def)
    qed (use pre m in \<open>auto simp: seq_def task_result_def\<close>)
  qed
  show ?thesis
    unfolding run_task_def by (intro item body)
qed

lemma run_task_guarded_result:
  "\<exists>evs. as_sent (snd (run_task_guarded a task s)) = as_sent s @ evs
    \<and> task_result a s (run_task_guarded a task s) evs"
proof -
  obtain r t where m: "run_task a task s = (r, t)" by (cases "run_task a task s")
  obtain evs where evs: "as_sent t = as_sent s @ evs" "task_result a s (r, t) evs"
    using run_task_result [of a task s] m by auto
  show ?thesis
  proof (cases r)
    case (Raised e)
    define ev where "ev = build_done_event a (VStr (py_str (dget_or task ''text'' (VStr [])))) VNone [] False
           (''Internal error: '' @ exn_str e) t"
    have f: "final_event a ev" unfolding ev_def by (rule build_done_final)
    have g: "run_task_guarded a task s = send a ev t"
      by (simp add: run_task_guarded_def handle_exn_def m Raised reading_def ev_def)
    have q: "list_all task_event evs" using evs(2) Raised by (simp add: task_result_def)
    from send_result [of a ev t] show ?thesis
    proof
      assume "\<exists>t'. send a ev t = (Done (), t') \<and> as_sent t' = as_sent t @ [ev] \<and> as_deadline t' = as_deadline t"
      then show ?thesis
        unfolding g using f q evs(1) by (intro exI [of _ "evs @ [ev]"]) (auto simp: task_result_def closed_by_def)
    next
      assume "\<exists>e t'. send a ev t = (Raised e, t') \<and> as_sent t' = as_sent t \<and> as_deadline t' = as_deadline t"
      then show ?thesis
        unfolding g using q evs(1) by (auto simp: task_result_def)
    qed
  qed (use evs m in \<open>auto simp: run_task_guarded_def handle_exn_def\<close>)
qed

text \<open>A task raises only what the transport says when it refuses the guard's final event.\<close>

lemma run_task_guarded_raised:
  assumes "run_task_guarded a task s = (Raised e, t)"
  shows "\<exists>event w. dget event ''type'' = VStr ''done'' \<and> fst (ag_send a event w) = Inl e"
proof -
  obtain r s' where m: "run_task a task s = (r, s')" by (cases "run_task a task s")
  obtain e' where r: "r = Raised e'"
    using assms m by (cases r) (simp_all add: run_task_guarded_def handle_exn_def)
  define ev where "ev = build_done_event a (VStr (py_str (dget_or task ''text'' (VStr [])))) VNone [] False
         (''Internal error: '' @ exn_str e') s'"
  have "final_event a ev" unfolding ev_def by (rule build_done_final)
  moreover have "send a ev s' = (Raised e, t)"
    using assms by (simp add: run_task_guarded_def handle_exn_def m r reading_def ev_def)
  then have "fst (ag_send a ev (as_world s')) = Inl e"
    by (cases "ag_send a ev (as_world s')"; cases "fst (ag_send a ev (as_world s'))")
      (auto simp: send_def seq_def world_op_def update_def)
  ultimately show ?thesis unfolding final_event_def by blast
qed

text \<open>
  C4. Whatever the model, the tools, the children and the user do, a task that returns has
  ended in exactly one \<open>done\<close> event, the last one it sent; only an agent with a time limit
  (a child) may return without one, and only right after reading on the clock that this time
  has passed since the start of the task. A task that raises or waits has sent none, so the guard's
  \<open>done\<close> is never a second one. And \<open>success\<close> is claimed only for a reply that the model gave
  through \<open>agent_done\<close> when asked with the agent's whole action surface.
\<close>

theorem task_ends_with_one_done:
  "\<exists>evs. as_sent (snd (run_task_guarded a task s)) = as_sent s @ evs \<and>
     (case fst (run_task_guarded a task s) of
        Done _ \<Rightarrow>
          (\<exists>earlier final. evs = earlier @ [final] \<and> list_all task_event earlier
             \<and> dget final ''type'' = VStr ''done''
             \<and> (dget final ''success'' = VBool False
                \<or> dget final ''success'' = VBool True
                  \<and> (\<exists>reply. dget final ''reply'' = VStr reply \<and> answered_done a reply)))
          \<or> (\<exists>seconds. ag_timeout a = Some seconds
               \<and> (\<exists>w now. ag_clock a w = (now, as_world (snd (run_task_guarded a task s)))
                     \<and> fst (ag_clock a (as_world s)) + seconds \<le> now))
            \<and> list_all task_event evs
      | _ \<Rightarrow> list_all task_event evs)"
  using run_task_guarded_result [of a task s]
  unfolding task_result_def closed_by_def final_event_def time_up_def by (simp add: conj_assoc)

section \<open>An unattended agent\<close>

definition unattended :: "'s astate \<Rightarrow> bool \<Rightarrow> 's astate \<Rightarrow> bool" where
  "unattended s b t = (\<not> b \<and> as_inbox t = as_inbox s)"

interpretation alone: task_frame a unattended False for a :: "'s agent"
  by unfold_locales (auto simp: unattended_def)

text \<open>
  An agent that may not ask, given a task without plan review, never waits for a user and
  takes nothing from its inbox: the task always comes to an end.
\<close>

theorem unattended_task_terminates:
  assumes "\<not> ag_clarify a" and "dget task ''approval_mode'' \<noteq> VStr ''review''"
  shows "fst (run_task_guarded a task s) \<noteq> Blocked \<and> as_inbox (snd (run_task_guarded a task s)) = as_inbox s"
proof -
  have "\<forall>mode. dlookup task ''approval_mode'' = Some mode \<longrightarrow> mode \<noteq> VStr ''review''"
    using assms(2) by (auto simp: dget_def dget_or_def)
  then have "moves unattended (run_task_guarded a task)"
    using alone.run_task_guarded_moves [of task a] assms(1) by blast
  then show ?thesis by (simp add: moves_def unattended_def)
qed

section \<open>A small agent\<close>

text \<open>
  For the examples: a runtime that answers from a list of responses, no broker, a shell that
  prints its command, and an inbox that stays empty.
\<close>

type_synonym script = "llm_response list"

definition plan_answer :: llm_response where
  "plan_answer = \<lparr>lr_text = ''no plan'', lr_action = None, lr_usage = None\<rparr>"

definition call_answer :: "string \<Rightarrow> (string \<times> pyval) list \<Rightarrow> llm_response" where
  "call_answer name args =
     \<lparr>lr_text = [], lr_action = Some \<lparr>tc_tool = name, tc_args = dict_of args, tc_reason = None\<rparr>, lr_usage = None\<rparr>"

definition script_runtime :: "script llm_runtime" where
  "script_runtime =
     \<lparr>rt_complete = (\<lambda>messages schema w.
        case w of [] \<Rightarrow> (raise LLMRuntimeError ''no answer'', []) | r # rs \<Rightarrow> (Inr r, rs)),
      rt_count_tokens = (\<lambda>messages w. (Inr 1, w))\<rparr>"

definition demo_agent :: "script agent" where
  "demo_agent =
     \<lparr>ag_tools = new_tools [], ag_skills = \<lparr>ss_max_file_chars = 100, ss_skills = []\<rparr>, ag_surface = [],
      ag_max_iterations = 3, ag_token_budget = 10, ag_summary_threshold = 2, ag_max_output = 100,
      ag_output_dir = [''output''], ag_clarify = False, ag_timeout = None, ag_subagents = True, ag_settings = [],
      ag_runtime = script_runtime, ag_broker = None, ag_shell = (\<lambda>command timeout w. (Completed 0 command [], w)),
      ag_runner = None, ag_send = (\<lambda>event w. (Inr (), w)), ag_clock = (\<lambda>w. (0, w)), ag_files = (\<lambda>w. Map.empty),
      ag_listing = (\<lambda>w. [])\<rparr>"

definition fresh_state :: "'s \<Rightarrow> 's astate" where
  "fresh_state w = \<lparr>as_world = w, as_inbox = [], as_sent = [], as_history = [], as_summary = None,
     as_summarized = 0, as_spawned = 0, as_integrations = [], as_session = [], as_deadline = None\<rparr>"

definition demo_task :: pydict where
  "demo_task = dict_of [(''type'', VStr ''task''), (''text'', VStr ''go''), (''approval_mode'', VStr ''auto'')]"

lemma unattended_task_terminates_witness:
  "fst (run_task_guarded demo_agent demo_task (fresh_state [plan_answer])) \<noteq> Blocked
    \<and> as_inbox (snd (run_task_guarded demo_agent demo_task (fresh_state [plan_answer]))) = []"
proof -
  have a: "\<not> ag_clarify demo_agent" by (simp add: demo_agent_def)
  have m: "dget demo_task ''approval_mode'' \<noteq> VStr ''review''" by code_simp
  show ?thesis
    using unattended_task_terminates [OF a m, of "fresh_state [plan_answer]"] by (simp add: fresh_state_def)
qed

section \<open>A failed new plan\<close>

lemmas run_simps = run_task_guarded_def run_task_def resumed_def start_task_def resume_context_def run_plan_def set_deadline_def
  load_integrations_def planning_phase_def planning_loop.simps plan_round_def generate_plan_def
  choose_next_decision_def execution_decision_def build_execution_prompt_def recent_history_def count_tokens_def
  take_turn_def act_on_decision_def handle_control_decision_def decide_replan_def replan_def out_of_time_def
  emit_llm_runtime_error_def emit_decision_parse_error_def emit_action_def remember_def send_def attempt_def
  handle_exn_def seq_def give_def throw_def reading_def update_def world_op_def item_def dict_item_def

text \<open>
  When the model runtime fails while a new plan is made on the model's own request
  (\<open>agent_replan\<close>), the error leaves the loop: the task ends as an internal error, and its
  final event carries neither the plan nor the history of the task.
\<close>

theorem failed_replan_forgets:
  "\<exists>failed final. as_sent (snd (run_task_guarded (demo_agent\<lparr>ag_max_iterations := 1\<rparr>)
      (dict_of [(''text'', VStr goal), (''approval_mode'', VStr ''auto''),
         (''state'', VDict (dict_of [(''plan'', VStr ''p''), (''history'', VList [VDict earlier])]))])
      (fresh_state [call_answer ''agent_replan'' []]))) = [failed, final]
    \<and> dget final ''success'' = VBool False
    \<and> dget final ''reply'' = VStr ''Internal error: LLM runtime failed repeatedly during planning.''
    \<and> dget (as_dict (dget final ''state'')) ''plan'' = VNone
    \<and> dget (as_dict (dget final ''state'')) ''history'' = VList []"
  by (simp add: run_simps demo_agent_def fresh_state_def call_answer_def script_runtime_def CONTROL_TOOL_NAMES_def
      numeral_3_eq_3 plan_refs_def normalize_plan_def build_done_event_def collect_output_files_def
      dget_def dget_or_def raise_def)

section \<open>Prompts\<close>

lemma fit_prompt_result:
  assumes "fit_prompt a mk recent summary s = (Done messages, t)"
  shows "\<exists>n kept. messages = mk (drop n recent) kept \<and> (kept = summary \<or> kept = [])
    \<and> ((\<exists>s1 s2 count. count_tokens a messages s1 = (Done count, s2) \<and> count \<le> ag_token_budget a)
       \<or> drop n recent = [] \<and> kept = [])"
  using assms
proof (induction recent arbitrary: s)
  case Nil
  then obtain n s1 where c: "count_tokens a (mk [] summary) s = (Done n, s1)"
    and r: "(if n \<le> ag_token_budget a \<or> summary = [] then give (mk [] summary)
      else seq (count_tokens a (mk [] [])) (\<lambda>n. give (mk [] []))) s1 = (Done messages, t)"
    by (auto elim: seq_DoneE)
  show ?case
  proof (cases "n \<le> ag_token_budget a")
    case True
    then show ?thesis using c r by (intro exI [of _ 0] exI [of _ summary]) auto
  next
    case False
    then have "messages = mk [] []" using r by (auto split: if_splits elim!: seq_DoneE)
    then show ?thesis by (intro exI [of _ 0] exI [of _ "[]"]) auto
  qed
next
  case (Cons e recent)
  then obtain n s1 where c: "count_tokens a (mk (e # recent) summary) s = (Done n, s1)"
    and r: "(if n \<le> ag_token_budget a then give (mk (e # recent) summary)
       else fit_prompt a mk recent summary) s1 = (Done messages, t)"
    by (auto elim: seq_DoneE)
  show ?case
  proof (cases "n \<le> ag_token_budget a")
    case True
    then show ?thesis using c r by (intro exI [of _ 0] exI [of _ summary]) auto
  next
    case False
    then have f: "fit_prompt a mk recent summary s1 = (Done messages, t)" using r by simp
    obtain n' kept where "messages = mk (drop n' recent) kept \<and> (kept = summary \<or> kept = [])
      \<and> ((\<exists>s1 s2 count. count_tokens a messages s1 = (Done count, s2) \<and> count \<le> ag_token_budget a)
         \<or> drop n' recent = [] \<and> kept = [])"
      using Cons.IH [OF f] by blast
    then show ?thesis by (intro exI [of _ "Suc n'"] exI [of _ kept]) (unfold drop_Suc_Cons, assumption)
  qed
qed

lemma recent_history_result:
  assumes "recent_history a s = (Done recent, t)"
  shows "suffix recent (as_history s) \<and> length recent \<le> ag_summary_threshold a"
  using assms by (auto simp: recent_history_def reading_def Let_def suffix_drop split: if_splits elim!: seq_DoneE)

text \<open>
  C33. The prompt of a decision keeps to the token budget: its messages carry only the most
  recent events of the history (at most \<open>summary_threshold\<close>), and either they were counted
  within the budget or nothing was left to drop: no events and no summary.
\<close>

theorem prompt_within_budget:
  assumes "build_execution_prompt a goal plan activated s = (Done messages, t)"
  shows "\<exists>recent summary integrations. messages = execution_messages a integrations goal plan activated recent summary
    \<and> suffix recent (as_history s) \<and> length recent \<le> ag_summary_threshold a
    \<and> ((\<exists>s1 s2 count. count_tokens a messages s1 = (Done count, s2) \<and> count \<le> ag_token_budget a)
       \<or> recent = [] \<and> summary = [])"
proof -
  obtain recent s1 where r: "recent_history a s = (Done recent, s1)"
    and f: "fit_prompt a (execution_messages a (as_integrations s1) goal plan activated) recent
         (case as_summary s1 of None \<Rightarrow> [] | Some t \<Rightarrow> t) s1 = (Done messages, t)"
    using assms unfolding build_execution_prompt_def reading_def by (auto elim: seq_DoneE)
  note h = recent_history_result [OF r]
  obtain n kept where n: "messages = execution_messages a (as_integrations s1) goal plan activated (drop n recent) kept"
    "(\<exists>s1 s2 count. count_tokens a messages s1 = (Done count, s2) \<and> count \<le> ag_token_budget a)
       \<or> drop n recent = [] \<and> kept = []"
    using fit_prompt_result [OF f] by blast
  have "suffix (drop n recent) (as_history s)" and "length (drop n recent) \<le> ag_summary_threshold a"
    using h by (auto intro: suffix_order.trans suffix_drop)
  with n show ?thesis by blast
qed

lemma prompt_within_budget_witness:
  "\<exists>recent summary integrations. execution_messages demo_agent [] (VStr ''go'') VNone [] [demo_task] []
       = execution_messages demo_agent integrations (VStr ''go'') VNone [] recent summary
     \<and> suffix recent [demo_task] \<and> length recent \<le> 2"
proof -
  let ?s = "(fresh_state [])\<lparr>as_history := [demo_task]\<rparr>"
  have "build_execution_prompt demo_agent (VStr ''go'') VNone [] ?s
    = (Done (execution_messages demo_agent [] (VStr ''go'') VNone [] [demo_task] []), ?s)"
    by (simp add: run_simps demo_agent_def fresh_state_def script_runtime_def)
  from prompt_within_budget [OF this] show ?thesis
    by (auto simp: fresh_state_def demo_agent_def)
qed

section \<open>Children\<close>

text \<open>
  \<open>runs_of children a\<close>: \<open>children\<close> reads off the world how many children have been run; only
  the runner adds to it, one at a time.
\<close>

definition runs_of :: "('s \<Rightarrow> nat) \<Rightarrow> 's agent \<Rightarrow> bool" where
  "runs_of children a \<longleftrightarrow>
     (\<forall>w ms schema. children (snd (rt_complete (ag_runtime a) ms schema w)) = children w)
     \<and> (\<forall>w ms. children (snd (rt_count_tokens (ag_runtime a) ms w)) = children w)
     \<and> (\<forall>w call. children (snd (execute_tool (ag_tools a) (ag_shell a) (ag_broker a) call w)) = children w)
     \<and> (\<forall>w. children (snd (ag_clock a w)) = children w)
     \<and> (\<forall>w event. children (snd (ag_send a event w)) = children w)
     \<and> (\<forall>call w name payload. ag_broker a = Some call \<longrightarrow> children (snd (call name payload w)) = children w)
     \<and> (\<forall>f w session request. ag_runner a = Some f \<longrightarrow> children (snd (f session request w)) \<le> Suc (children w))"

definition counted :: "('s \<Rightarrow> nat) \<Rightarrow> nat \<Rightarrow> 's astate \<Rightarrow> bool \<Rightarrow> 's astate \<Rightarrow> bool" where
  "counted children m s b t =
     (as_spawned s \<le> as_spawned t \<and> children (as_world t) + as_spawned s \<le> children (as_world s) + as_spawned t
      \<and> (as_spawned s \<le> m \<longrightarrow> as_spawned t \<le> m))"

lemma counting_frame:
  assumes "runs_of children a" and "read_pos_int_field (ag_settings a) ''max_children_per_task'' 3 = Inr (int m)"
  shows "action_frame a (counted children m) True"
proof
  note r = assms(1) [unfolded runs_of_def]
  show "counted children m s False (s\<lparr>as_world := snd (rt_complete (ag_runtime a) ms schema (as_world s))\<rparr>)" for s ms schema
    using r by (simp add: counted_def)
  show "counted children m s False (s\<lparr>as_world := snd (rt_count_tokens (ag_runtime a) ms (as_world s))\<rparr>)" for s ms
    using r by (simp add: counted_def)
  show "counted children m s False (s\<lparr>as_world := snd (execute_tool (ag_tools a) (ag_shell a) (ag_broker a) call (as_world s))\<rparr>)" for s call
    using r by (simp add: counted_def)
  show "counted children m s False (s\<lparr>as_world := snd (ag_clock a (as_world s))\<rparr>)" for s
    using r by (simp add: counted_def)
  show "counted children m s False (s\<lparr>as_world := snd (ag_send a event (as_world s))\<rparr>)" for s event
    using r by (simp add: counted_def)
  show "counted children m s False (s\<lparr>as_world := w, as_sent := as_sent s @ [event]\<rparr>)"
    if "ag_send a event (as_world s) = (Inr (), w)" for s event w
  proof -
    have "children w = children (as_world s)" using r that by (metis snd_conv)
    then show ?thesis by (simp add: counted_def)
  qed
  show "counted children m s False (s\<lparr>as_spawned := as_spawned s + 1, as_world := snd (f (as_session s) request (as_world s))\<rparr>)"
    if "ag_runner a = Some f" "read_pos_int_field (ag_settings a) ''max_children_per_task'' 3 = Inr k" "int (as_spawned s) < k"
    for f k s request
  proof -
    have "children (snd (f (as_session s) request (as_world s))) \<le> Suc (children (as_world s))"
      using r that(1) by blast
    moreover have "as_spawned s < m" using that(2,3) assms(2) by simp
    ultimately show ?thesis by (simp add: counted_def)
  qed
qed (auto simp: counted_def)


lemma counting_end_frame:
  assumes "runs_of children a" and "read_pos_int_field (ag_settings a) ''max_children_per_task'' 3 = Inr (int m)"
  shows "end_frame a (counted children m) True"
proof (intro end_frame.intro end_frame_axioms.intro)
  show "action_frame a (counted children m) True" by (rule counting_frame [OF assms])
  show "counted children m s False (s\<lparr>as_world := w, as_sent := as_sent s @ [event]\<rparr>)"
    if "ag_send a event (as_world s) = (Inr (), w)" for s event w
  proof -
    have "children w = children (as_world s)"
      using assms(1) that unfolding runs_of_def by (metis snd_conv)
    then show ?thesis by (simp add: counted_def)
  qed
qed

lemma start_task_counts:
  assumes "runs_of children a" and "start_task a task s = (r, t)"
  shows "children (as_world t) = children (as_world s) \<and> (r = Done () \<longrightarrow> as_spawned t = 0)"
proof -
  have clock: "children (snd (ag_clock a w)) = children w" for w
    using assms(1) by (simp add: runs_of_def)
  have c: "children (as_world t') = children (as_world s') \<and> as_spawned t' = as_spawned s'"
    if "set_deadline a s' = (r', t')" for s' r' t'
    using that clock [of "as_world s'"]
    by (auto simp: set_deadline_def update_def seq_def world_op_def split: option.splits prod.splits)
  have i: "children (as_world t') = children (as_world s') \<and> as_spawned t' = as_spawned s'"
    if "load_integrations a s' = (r', t')" for s' r' t'
  proof (cases "ag_broker a")
    case (Some call)
    have "children (snd (call name payload w)) = children w" for name payload w
      using assms(1) Some by (simp add: runs_of_def)
    from this [of "''broker''" "dict_of [(''action'', VStr ''list_integrations'')]" "as_world s'"] show ?thesis
      using that Some
      by (auto simp: load_integrations_def attempt_def handle_exn_def seq_def world_op_def give_def
          split: prod.splits outcome.splits if_splits)
  qed (use that in \<open>simp add: load_integrations_def\<close>)
  show ?thesis
    using assms(2) unfolding start_task_def
    by (auto simp: seq_def update_def split: prod.splits outcome.splits dest!: c i)
qed

lemma run_task_counts:
  fixes s :: "'s astate"
  assumes "runs_of children a" and "read_pos_int_field (ag_settings a) ''max_children_per_task'' 3 = Inr (int m)"
  shows "children (as_world (snd (run_task a task s))) \<le> children (as_world s) + m"
proof -
  have r: "children (as_world (snd (resumed a task goal mode t))) \<le> children (as_world t) + m"
    if "as_spawned t = 0" for goal mode t
  proof -
    have "moves (counted children m) (resumed a task goal mode)"
      by (rule end_frame.resumed_moves [OF counting_end_frame [OF assms]]) auto
    from this [unfolded moves_def, rule_format, of t] show ?thesis
      using that by (simp add: counted_def)
  qed
  have start: "children (as_world (snd (seq (start_task a task) (\<lambda>_. resumed a task goal mode) s))) \<le> children (as_world s) + m"
    for goal mode
  proof -
    obtain x t where m: "start_task a task s = (x, t)" by (cases "start_task a task s")
    note c = start_task_counts [OF assms(1) m]
    show ?thesis
    proof (cases x)
      case (Done u)
      with c have "as_spawned t = 0" "children (as_world t) = children (as_world s)" by auto
      with r [of t goal mode] show ?thesis by (simp add: seq_def m Done)
    qed (use c in \<open>simp_all add: seq_def m\<close>)
  qed
  have item: "children (as_world (snd (seq (item task key) f s))) \<le> children (as_world s) + m"
    if "\<And>x. children (as_world (snd (f x s))) \<le> children (as_world s) + m"
    for key and f :: "pyval \<Rightarrow> ('s, unit) act"
    using that by (cases "dict_item task key") (auto simp: seq_def item_def)
  then show ?thesis unfolding run_task_def by (intro item start)
qed

text \<open>
  C25. At most \<open>max_children_per_task\<close> children are run for a task, however often the model
  asks for one and however the task ends.
\<close>

theorem children_bounded:
  assumes "runs_of children a" and "read_pos_int_field (ag_settings a) ''max_children_per_task'' 3 = Inr (int m)"
  shows "children (as_world (snd (run_task_guarded a task s))) \<le> children (as_world s) + m"
proof -
  have send: "children (as_world (snd (send a event t))) = children (as_world t)" for event t
  proof -
    have "children (snd (ag_send a event (as_world t))) = children (as_world t)"
      using assms(1) by (simp add: runs_of_def)
    then show ?thesis
      by (cases "ag_send a event (as_world t)"; cases "fst (ag_send a event (as_world t))")
        (auto simp: send_def seq_def world_op_def update_def)
  qed
  show ?thesis
    using run_task_counts [OF assms, of task s]
    by (cases "run_task a task s"; cases "fst (run_task a task s)")
      (auto simp: run_task_guarded_def handle_exn_def reading_def send)
qed

definition counting_agent :: "nat agent" where
  "counting_agent =
     \<lparr>ag_tools = new_tools [], ag_skills = \<lparr>ss_max_file_chars = 100, ss_skills = []\<rparr>, ag_surface = [],
      ag_max_iterations = 9, ag_token_budget = 10, ag_summary_threshold = 2, ag_max_output = 100,
      ag_output_dir = [''output''], ag_clarify = False, ag_timeout = None, ag_subagents = True,
      ag_settings = dict_of [(''max_children_per_task'', VInt 2)],
      ag_runtime = \<lparr>rt_complete = (\<lambda>messages schema w.
          (Inr (call_answer ''spawn_subagent'' [(''task'', VStr ''dig'')]), w)), rt_count_tokens = (\<lambda>messages w. (Inr 1, w))\<rparr>,
      ag_broker = None, ag_shell = (\<lambda>command timeout w. (Completed 0 command [], w)),
      ag_runner = Some (\<lambda>session request w. (Inr (VDict (dict_of [(''success'', VBool True)])), Suc w)),
      ag_send = (\<lambda>event w. (Inr (), w)), ag_clock = (\<lambda>w. (0, w)), ag_files = (\<lambda>w. Map.empty), ag_listing = (\<lambda>w. [])\<rparr>"

lemma counting_agent_tool:
  "snd (execute_tool (new_tools []) (\<lambda>command timeout w. (Completed 0 command [], w)) None call w) = w"
proof -
  have sh: "snd (execute_shell (\<lambda>command timeout w. (Completed 0 command [], w)) args w) = w" for args
    by (simp add: execute_shell_def split: pyval.split option.split)
  have b: "snd (call_broker None name payload w) = w" for name payload
    by (simp add: call_broker_def)
  have se: "snd (execute_web_search t None args w) = w" for t args
    unfolding execute_web_search_def using b by (simp split: pyval.split option.split sum.split)
  have fe: "snd (execute_web_fetch None args w) = w" for args
    unfolding execute_web_fetch_def using b by (simp split: pyval.split)
  have ht: "snd (execute_http_request None args w) = w" for args
    unfolding execute_http_request_def using b by (simp split: sum.split)
  show ?thesis
    unfolding execute_tool_def Let_def by (simp add: sh se fe ht)
qed

lemma children_bounded_witness:
  "as_world (snd (run_task_guarded counting_agent demo_task (fresh_state 0))) \<le> 2"
proof -
  have r: "runs_of (\<lambda>w. w) counting_agent"
    by (simp add: runs_of_def counting_agent_def counting_agent_tool)
  have m: "read_pos_int_field (ag_settings counting_agent) ''max_children_per_task'' 3 = Inr (int 2)"
    by (simp add: counting_agent_def read_pos_int_field_def positive_or_def int_or_none_def)
  from children_bounded [OF r m, of demo_task "fresh_state 0"] show ?thesis by (simp add: fresh_state_def)
qed

section \<open>Output files\<close>

definition exported :: "fs \<Rightarrow> path \<Rightarrow> path list \<Rightarrow> pyval list" where
  "exported f base ps =
     map (\<lambda>p. output_file (join ''/'' (drop (length base) p)) (file_content f p)) (filter (is_file f) ps)"

definition output_size :: "fs \<Rightarrow> path list \<Rightarrow> int" where
  "output_size f ps = sum_list (map (\<lambda>p. int (length (file_content f p))) (filter (is_file f) ps))"

lemma output_size_nonneg: "0 \<le> output_size f ps"
  unfolding output_size_def by (rule sum_list_nonneg) auto

lemma collect_files_exact:
  "0 \<le> used \<Longrightarrow> used \<le> limit \<Longrightarrow>
   (if (\<forall>p \<in> set ps. is_file f p \<longrightarrow> strict_prefix base p) \<and> used + output_size f ps \<le> limit
    then collect_files f base limit ps used files = (files @ exported f base ps, None)
    else \<exists>msg. collect_files f base limit ps used files = ([], Some msg))"
proof (induction ps arbitrary: used files)
  case Nil
  then show ?case by (simp add: exported_def output_size_def)
next
  case (Cons p ps)
  show ?case
  proof (cases "is_file f p")
    case False
    then have "collect_files f base limit (p # ps) used files = collect_files f base limit ps used files"
      by (auto simp: is_file_def split: option.splits node.splits)
    moreover have "output_size f (p # ps) = output_size f ps" "exported f base (p # ps) = exported f base ps"
      using False by (simp_all add: output_size_def exported_def)
    ultimately show ?thesis using Cons.IH [OF Cons.prems] False by simp
  next
    case True
    then obtain b where b: "f p = Some (File b)" by (auto simp: is_file_def split: option.splits node.splits)
    then have c: "file_content f p = b" by (simp add: file_content_def)
    have s: "output_size f (p # ps) = int (length b) + output_size f ps"
      and e: "exported f base (p # ps) = output_file (join ''/'' (drop (length base) p)) b # exported f base ps"
      using True by (simp_all add: output_size_def exported_def c)
    show ?thesis
    proof (cases "strict_prefix base p \<and> used + int (length b) \<le> limit")
      case False
      then have "\<exists>msg. collect_files f base limit (p # ps) used files = ([], Some msg)"
        using b Cons.prems by (auto simp: Let_def)
      moreover have "\<not> (strict_prefix base p \<and> used + output_size f (p # ps) \<le> limit)"
        using False s output_size_nonneg [of f ps] by auto
      ultimately show ?thesis using True by auto
    next
      case inside: True
      then have "collect_files f base limit (p # ps) used files =
          collect_files f base limit ps (used + int (length b)) (files @ [output_file (join ''/'' (drop (length base) p)) b])"
        using b Cons.prems by (auto simp: Let_def)
      then show ?thesis
        using Cons.IH [of "used + int (length b)" "files @ [output_file (join ''/'' (drop (length base) p)) b]"]
          inside Cons.prems True
        by (simp add: s e algebra_simps)
    qed
  qed
qed

text \<open>
  The output of a task is complete or refused: either all regular files below the output
  directory are exported, each under its relative path with contents that decode to the very
  bytes of the file, and together within the limit; or the event names an error and carries no
  file at all. It is refused only when the files exceed the limit or one lies outside.
\<close>

theorem output_files_exact:
  assumes "ag_files a w (ag_output_dir a) \<noteq> None" and "0 < ag_max_output a"
  shows "(collect_output_files a w = (exported (ag_files a w) (ag_output_dir a) (ag_listing a w), None)
       \<and> output_size (ag_files a w) (ag_listing a w) \<le> ag_max_output a
     \<or> (\<exists>msg. collect_output_files a w = ([], Some msg))
       \<and> (ag_max_output a < output_size (ag_files a w) (ag_listing a w)
          \<or> (\<exists>p \<in> set (ag_listing a w). is_file (ag_files a w) p \<and> \<not> strict_prefix (ag_output_dir a) p)))
     \<and> list_all (\<lambda>p. b64_decode (b64_encode (file_content (ag_files a w) p)) = Some (file_content (ag_files a w) p))
         (ag_listing a w)"
proof -
  have c: "collect_output_files a w =
      collect_files (ag_files a w) (ag_output_dir a) (ag_max_output a) (ag_listing a w) 0 []"
    using assms(1) by (simp add: collect_output_files_def del: not_None_eq)
  show ?thesis
    using collect_files_exact [of 0 "ag_max_output a" "ag_listing a w" "ag_files a w" "ag_output_dir a" "[]"] assms(2)
    by (auto simp: c list_all_iff b64_decode_encode split: if_splits)
qed

lemma output_files_exact_witness:
  "collect_output_files (demo_agent\<lparr>ag_files := (\<lambda>w. [[''output''] \<mapsto> Dir, [''output'', ''a''] \<mapsto> File ''hi'']),
       ag_listing := (\<lambda>w. [[''output'', ''a'']])\<rparr>) [] = ([output_file ''a'' ''hi''], None)"
proof -
  let ?a = "demo_agent\<lparr>ag_files := (\<lambda>w. [[''output''] \<mapsto> Dir, [''output'', ''a''] \<mapsto> File ''hi'']),
       ag_listing := (\<lambda>w. [[''output'', ''a'']])\<rparr>"
  have "ag_files ?a [] (ag_output_dir ?a) \<noteq> None" "0 < ag_max_output ?a" by (simp_all add: demo_agent_def)
  from output_files_exact [OF this] show ?thesis
    by (auto simp: demo_agent_def exported_def is_file_def file_content_def output_size_def strict_prefix_def)
qed

end
