(* ===== verification/Subagents.thy ===== *)
theory Subagents
  imports AgentProps
begin

text \<open>
  The construction of an agent (\<open>Agent.__init__\<close>) and the runner of child agents
  (\<open>agent/subagents.py\<close>), which runs a whole agent of the same model over a transport of its
  own. What the two agents share, the model runtime, the services and the shell, is the world.
\<close>

section \<open>Building an agent\<close>

record 's agent_env =
  ae_broker :: "'s Tools.service_call option"
  ae_shell :: "'s shell"
  ae_clock :: "'s \<Rightarrow> rat \<times> 's"
  ae_files :: "'s \<Rightarrow> fs"
  ae_listing :: "path \<Rightarrow> 's \<Rightarrow> path list"
  ae_skill_env :: skill_env
  ae_path :: "string \<Rightarrow> path"
  ae_default_runtime :: "pydict \<Rightarrow> 's llm_runtime res"

record 's agent_args =
  aa_send :: "pydict \<Rightarrow> 's \<Rightarrow> unit res \<times> 's"
  aa_skills_dir :: string
  aa_config :: "pydict option"
  aa_max_iterations :: int
  aa_output_dir :: path
  aa_config_path :: path
  aa_token_budget :: int
  aa_summary_threshold :: int
  aa_max_output :: int
  aa_runtime :: "'s llm_runtime option"
  aa_runner :: "(string \<Rightarrow> pydict \<Rightarrow> 's \<Rightarrow> pyval res \<times> 's) option"
  aa_clarify :: bool
  aa_timeout :: "rat option"

definition agent_config_of :: "fs \<Rightarrow> 's agent_args \<Rightarrow> pydict option res" where
  "agent_config_of f x =
     (case aa_config x of
        Some c \<Rightarrow> Inr (Some c)
      | None \<Rightarrow>
          if is_file f (aa_config_path x) \<or> aa_runtime x = None
          then bind_res (load_agent_config_file (aa_config_path x) f) (\<lambda>c. Inr (Some c))
          else Inr None)"

definition positive_args :: "'s agent_args \<Rightarrow> unit res" where
  "positive_args x =
     bind_res (ensure (0 < aa_max_iterations x) AgentError ''max_iterations must be greater than zero.'') (\<lambda>_.
     bind_res (ensure (0 < aa_token_budget x) AgentError ''token_budget must be greater than zero.'') (\<lambda>_.
     bind_res (ensure (0 < aa_summary_threshold x) AgentError ''summary_threshold must be greater than zero.'') (\<lambda>_.
       ensure (0 < aa_max_output x) AgentError ''max_output_total_bytes must be greater than zero.'')))"

text \<open>Maximum iterations, token budget and summary threshold: the configuration first.\<close>

definition limits_of :: "'s agent_args \<Rightarrow> pydict option \<Rightarrow> (int \<times> int \<times> int) res" where
  "limits_of x config =
     (case config of
        None \<Rightarrow> Inr (aa_max_iterations x, aa_token_budget x, aa_summary_threshold x)
      | Some c \<Rightarrow>
          bind_res (read_loop_max_iterations c (aa_max_iterations x)) (\<lambda>iterations.
          bind_res (read_context_int c ''token_budget'' (aa_token_budget x)) (\<lambda>budget.
          bind_res (read_context_int c ''summary_threshold'' (aa_summary_threshold x)) (\<lambda>threshold.
            Inr (iterations, budget, threshold)))))"

definition skills_dir_of :: "'s agent_args \<Rightarrow> pydict option \<Rightarrow> string" where
  "skills_dir_of x config =
     (case config of
        None \<Rightarrow> aa_skills_dir x
      | Some c \<Rightarrow> (case read_skills_directory c of None \<Rightarrow> aa_skills_dir x | Some d \<Rightarrow> d))"

definition new_agent :: "'s agent_env \<Rightarrow> fs \<Rightarrow> 's agent_args \<Rightarrow> 's agent res" where
  "new_agent env f x =
     bind_res (positive_args x) (\<lambda>_.
     bind_res (agent_config_of f x) (\<lambda>config.
     bind_res (limits_of x config) (\<lambda>(iterations, budget, threshold).
     bind_res (read_skills_max_file_chars config) (\<lambda>chars.
     bind_res (new_skills (ae_skill_env env) f (ae_path env (skills_dir_of x config)) chars) (\<lambda>skills.
     let cfg = (case config of None \<Rightarrow> [] | Some c \<Rightarrow> c); agent_tools = new_tools cfg;
         spawn = read_subagents_enabled config
     in
     bind_res (agent_surface agent_tools (aa_clarify x) spawn) (\<lambda>surface.
     bind_res (case aa_runtime x of
                 Some rt \<Rightarrow> Inr rt
               | None \<Rightarrow> bind_res (require_llm_config config) (ae_default_runtime env)) (\<lambda>rt.
       Inr \<lparr>ag_tools = agent_tools, ag_skills = skills, ag_surface = surface,
         ag_max_iterations = iterations, ag_token_budget = budget, ag_summary_threshold = nat threshold,
         ag_max_output = aa_max_output x, ag_output_dir = aa_output_dir x, ag_clarify = aa_clarify x,
         ag_timeout = aa_timeout x, ag_subagents = spawn, ag_settings = read_subagents_settings config,
         ag_runtime = rt, ag_broker = ae_broker env, ag_shell = ae_shell env, ag_runner = aa_runner x,
         ag_send = aa_send x, ag_clock = ae_clock env, ag_files = ae_files env,
         ag_listing = ae_listing env (aa_output_dir x)\<rparr>)))))))"

definition initial_state :: "'s \<Rightarrow> pydict option res list \<Rightarrow> 's astate" where
  "initial_state w inbox =
     \<lparr>as_world = w, as_inbox = inbox, as_sent = [], as_history = [], as_summary = None, as_summarized = 0,
      as_spawned = 0, as_integrations = [], as_session = [], as_deadline = None\<rparr>"

section \<open>The runner\<close>

record 's runner =
  ru_env :: "'s agent_env"
  ru_runtime :: "'s llm_runtime"
  ru_skills_dir :: string
  ru_config :: pydict
  ru_parent_tools :: "string list"
  ru_session :: string
  ru_output_root :: path
  ru_limits :: pydict
  ru_child_id :: "'s \<Rightarrow> string \<times> 's"
  ru_mkdir :: "path \<Rightarrow> 's \<Rightarrow> unit res \<times> 's"

definition EVENTS_SUMMARY_CAP :: nat where
  "EVENTS_SUMMARY_CAP = 50"

definition allowed_names :: "'s runner \<Rightarrow> pydict \<Rightarrow> string list" where
  "allowed_names r request =
     (case dget_or request ''allowed_tools'' (VList []) of
        VList vs \<Rightarrow> filter (\<lambda>n. n \<in> set (ru_parent_tools r)) (map py_str (filter is_VStr vs))
      | _ \<Rightarrow> [])"

definition build_child_config :: "'s runner \<Rightarrow> pydict \<Rightarrow> int \<Rightarrow> pydict" where
  "build_child_config r request max_iterations =
     (let child_tools = map (\<lambda>n. (n, VBool (n \<in> set (allowed_names r request)))) KNOWN_TOOLS
                        @ [(''spawn_subagent'', VBool False)];
          config = dset (ru_config r) ''tools'' (VDict (dict_of child_tools));
          config = dset config ''loop'' (VDict (dict_of [(''max_iterations'', VInt max_iterations)]));
          subagents = dset (as_dict (dget config ''subagents'')) ''enabled'' (VBool False)
      in dset config ''subagents'' (VDict subagents))"

definition request_text :: "pydict \<Rightarrow> string \<Rightarrow> string" where
  "request_text request key = strip (py_str (dget_or request key (VStr [])))"

definition compose_goal :: "pydict \<Rightarrow> string" where
  "compose_goal request =
     (let ctx = request_text request ''context''; expected = request_text request ''expected_output'';
          parts = [request_text request ''task'']
            @ (if ctx = [] then [] else [''Context:'' @ [newline] @ ctx])
            @ (if expected = [] then [] else [''Expected output:'' @ [newline] @ expected])
            @ (case dget request ''referenced_skills'' of
                 VList (v # vs) \<Rightarrow> [''Suggested skills: '' @ join '', '' (map py_str (v # vs))]
               | _ \<Rightarrow> [])
      in join [newline, newline] (filter (\<lambda>p. p \<noteq> []) parts))"

definition child_session_id :: "'s runner \<Rightarrow> string \<Rightarrow> string" where
  "child_session_id r child_id =
     (if ru_session r = [] then ''session'' else ru_session r) @ ''.sub.'' @ child_id"

definition child_task :: "'s runner \<Rightarrow> pydict \<Rightarrow> string \<Rightarrow> pydict" where
  "child_task r request child_id =
     dict_of [(''type'', VStr ''task''), (''text'', VStr (compose_goal request)),
       (''session_id'', VStr (child_session_id r child_id)), (''approval_mode'', VStr ''auto'')]"

text \<open>The last \<open>done\<close> event.\<close>

definition last_done :: "pydict list \<Rightarrow> pydict option" where
  "last_done events =
     (case filter (\<lambda>e. dget e ''type'' = VStr ''done'') events of [] \<Rightarrow> None | ds \<Rightarrow> Some (last ds))"

definition state_summary :: "pydict \<Rightarrow> string" where
  "state_summary d =
     (case dget d ''state'' of
        VDict state \<Rightarrow> (case dget state ''summary'' of VStr s \<Rightarrow> s | _ \<Rightarrow> [])
      | _ \<Rightarrow> [])"

definition exit_code_of :: "pydict \<Rightarrow> pyval" where
  "exit_code_of e = (case dget e ''result'' of VDict result \<Rightarrow> dget result ''exit_code'' | _ \<Rightarrow> VNone)"

definition summary_entry :: "pydict \<Rightarrow> pyval" where
  "summary_entry e = VDict (dict_of [(''tool'', dget e ''tool''), (''exit_code'', exit_code_of e)])"

definition full_entry :: "pydict \<Rightarrow> pyval" where
  "full_entry e =
     VDict (dict_of ([(''type'', dget e ''type'')]
       @ (if dget e ''type'' = VStr ''action''
          then [(''tool'', dget e ''tool'')]
               @ (if is_VDict (dget e ''result'') then [(''exit_code'', exit_code_of e)] else [])
          else if dget e ''type'' = VStr ''message'' then [(''role'', dget e ''role'')] else [])))"

definition last_entries :: "'a list \<Rightarrow> 'a list" where
  "last_entries xs = drop (length xs - EVENTS_SUMMARY_CAP) xs"

definition summarize_events :: "pydict list \<Rightarrow> string \<Rightarrow> pyval list" where
  "summarize_events events mode =
     (if mode = ''none'' then []
      else last_entries (if mode = ''summary''
        then map summary_entry (filter (\<lambda>e. dget e ''type'' = VStr ''action'') events)
        else map full_entry events))"

definition child_file :: "string \<Rightarrow> pydict \<Rightarrow> pyval" where
  "child_file child_id d =
     VDict (dict_of
       [(''path'', VStr (''subagents/'' @ child_id @ ''/'' @ py_str (dget_or d ''path'' (VStr [])))),
        (''size_bytes'', dget_or d ''size_bytes'' (VInt 0)),
        (''content_b64'', dget_or d ''content_b64'' (VStr []))])"

definition collect_child_files :: "string \<Rightarrow> pydict option \<Rightarrow> pyval list" where
  "collect_child_files child_id final =
     (case final of
        None \<Rightarrow> []
      | Some d \<Rightarrow>
          (case dget d ''files'' of
             VList items \<Rightarrow> map (\<lambda>v. child_file child_id (as_dict v)) (filter is_VDict items)
           | _ \<Rightarrow> []))"

text \<open>\<open>round(duration, 3)\<close>\<close>

definition round3 :: "rat \<Rightarrow> rat" where
  "round3 q = (if q < 0 then -1 else 1) * of_nat (round_half_even (\<bar>q\<bar> * 1000)) / 1000"

definition journal_mode :: "'s runner \<Rightarrow> string" where
  "journal_mode r =
     (let mode = lower (py_str (dget_or (ru_limits r) ''journal_events'' (VStr ''summary'')))
      in if mode \<in> {''none'', ''summary'', ''full''} then mode else ''summary'')"

definition verdict :: "pydict option \<Rightarrow> (string \<times> pyval) list" where
  "verdict final =
     (case final of
        None \<Rightarrow>
          [(''success'', VBool False), (''status'', VStr ''timeout''),
           (''reply'', VStr ''Subagent exceeded its time budget before finishing.''), (''state_summary'', VStr [])]
      | Some d \<Rightarrow>
          [(''success'', VBool (truthy (dget d ''success''))),
           (''status'', VStr (if truthy (dget d ''success'') then ''completed''
              else if dget d ''reply'' = VStr MAX_ITERATIONS_REPLY then ''max_iterations'' else ''child_failed'')),
           (''reply'', VStr (py_str (dget_or d ''reply'' (VStr [])))), (''state_summary'', VStr (state_summary d))])"

definition build_envelope :: "'s runner \<Rightarrow> string \<Rightarrow> pydict list \<Rightarrow> rat \<Rightarrow> pydict" where
  "build_envelope r child_id events duration =
     dict_of ([(''child_id'', VStr child_id), (''duration_seconds'', VFloat (FFin (round3 duration))),
        (''files'', VList (collect_child_files child_id (last_done events))),
        (''events_summary'', VList (summarize_events events (journal_mode r)))]
       @ verdict (last_done events))"

text \<open>An event through the in-process transport: encoded by the sender, decoded by the receiver.\<close>

definition transported :: "pydict \<Rightarrow> pydict res" where
  "transported event = bind_res (encode_event event) decode_event"

definition child_send :: "pydict \<Rightarrow> 's \<Rightarrow> unit res \<times> 's" where
  "child_send event w = (bind_res (encode_event event) (\<lambda>_. Inr ()), w)"

definition or_limit :: "'s runner \<Rightarrow> pydict \<Rightarrow> string \<Rightarrow> pyval \<Rightarrow> pyval" where
  "or_limit r request key fallback =
     (if truthy (dget request key) then dget request key else dget_or (ru_limits r) key fallback)"

definition float_seconds :: "pyval \<Rightarrow> rat res" where
  "float_seconds v = bind_res (py_float v) (\<lambda>f. case f of FFin q \<Rightarrow> Inr q | _ \<Rightarrow> outside_err)"

definition child_args :: "'s runner \<Rightarrow> pydict \<Rightarrow> path \<Rightarrow> 's agent_args res" where
  "child_args r request output_dir =
     bind_res (py_int (or_limit r request ''max_iterations'' (VInt 20))) (\<lambda>iterations.
     bind_res (float_seconds (or_limit r request ''timeout_seconds'' (VInt 600))) (\<lambda>timeout.
     bind_res (py_int (if truthy (dget (ru_limits r) ''max_files_bytes'') then dget (ru_limits r) ''max_files_bytes''
                       else VInt (10 * 1024 * 1024))) (\<lambda>bytes.
       Inr \<lparr>aa_send = child_send, aa_skills_dir = ru_skills_dir r,
         aa_config = Some (build_child_config r request iterations), aa_max_iterations = iterations,
         aa_output_dir = output_dir, aa_config_path = [''run'', ''strangeclaw'', ''config.json''],
         aa_token_budget = 4000, aa_summary_threshold = 10, aa_max_output = bytes,
         aa_runtime = Some (ru_runtime r), aa_runner = None, aa_clarify = False, aa_timeout = Some timeout\<rparr>)))"

text \<open>
  The child runs to its end before the call returns. A child that waits would wait without
  end; that none does is shown below.
\<close>

definition run_agent_child :: "'s runner \<Rightarrow> 's agent \<Rightarrow> pydict \<Rightarrow> 's \<Rightarrow> pydict list res \<times> 's" where
  "run_agent_child r child task w =
     (case transported task of
        Inl e \<Rightarrow> (Inl e, w)
      | Inr received \<Rightarrow>
          (case run_once child (initial_state w [Inr (Some received)]) of
             (Done _, s) \<Rightarrow> (map_res transported (as_sent s), as_world s)
           | (Raised e, s) \<Rightarrow> (Inl e, as_world s)
           | (Blocked, s) \<Rightarrow> (raise (OtherException ''waiting'') [], as_world s)))"

definition run_subagent :: "'s runner \<Rightarrow> pydict \<Rightarrow> 's \<Rightarrow> pyval res \<times> 's" where
  "run_subagent r request w =
     (case ru_child_id r w of (child_id, w1) \<Rightarrow>
     (case ru_mkdir r (ru_output_root r @ [child_id]) w1 of
        (Inl e, w2) \<Rightarrow> (Inl e, w2)
      | (Inr _, w2) \<Rightarrow>
          (case bind_res (child_args r request (ru_output_root r @ [child_id]))
                  (new_agent (ru_env r) (ae_files (ru_env r) w2)) of
             Inl e \<Rightarrow> (Inl e, w2)
           | Inr child \<Rightarrow>
               (case ae_clock (ru_env r) w2 of (started, w3) \<Rightarrow>
               (case run_agent_child r child (child_task r request child_id) w3 of
                  (Inl e, w4) \<Rightarrow> (Inl e, w4)
                | (Inr events, w4) \<Rightarrow>
                    (case ae_clock (ru_env r) w4 of (ended, w5) \<Rightarrow>
                      (Inr (VDict (build_envelope r child_id events (ended - started))), w5)))))))"

text \<open>\<open>Agent._resolve_subagent_runner\<close>: the runner of an agent that was given none.\<close>

definition resolve_subagent_runner ::
    "'s agent_env \<Rightarrow> 's agent_args \<Rightarrow> pydict option \<Rightarrow> 's llm_runtime \<Rightarrow> ('s \<Rightarrow> string \<times> 's)
     \<Rightarrow> (path \<Rightarrow> 's \<Rightarrow> unit res \<times> 's) \<Rightarrow> string \<Rightarrow> pydict \<Rightarrow> 's \<Rightarrow> pyval res \<times> 's" where
  "resolve_subagent_runner env x config rt new_id mkdir session =
     (case aa_runner x of
        Some f \<Rightarrow> f session
      | None \<Rightarrow>
          run_subagent \<lparr>ru_env = env, ru_runtime = rt, ru_skills_dir = skills_dir_of x config,
            ru_config = (case config of None \<Rightarrow> [] | Some c \<Rightarrow> c),
            ru_parent_tools = list_enabled (new_tools (case config of None \<Rightarrow> [] | Some c \<Rightarrow> c)),
            ru_session = session, ru_output_root = aa_output_dir x @ [''subagents''],
            ru_limits = read_subagents_settings config, ru_child_id = new_id, ru_mkdir = mkdir\<rparr>)"

text \<open>
  An agent that delegates. A child is built by \<open>new_agent\<close> alone: its delegation is switched
  off, so it never asks for a runner.
\<close>

definition delegating_agent ::
    "'s agent_env \<Rightarrow> fs \<Rightarrow> 's agent_args \<Rightarrow> ('s \<Rightarrow> string \<times> 's) \<Rightarrow> (path \<Rightarrow> 's \<Rightarrow> unit res \<times> 's) \<Rightarrow> 's agent res" where
  "delegating_agent env f x new_id mkdir =
     bind_res (agent_config_of f x) (\<lambda>config.
     bind_res (new_agent env f x) (\<lambda>a.
       Inr (a\<lparr>ag_runner := Some (resolve_subagent_runner env x config (ag_runtime a) new_id mkdir)\<rparr>)))"

section \<open>What a child may do\<close>




lemma child_config_tools:
  "set (to_enabled (new_tools (build_child_config r request n))) \<subseteq> set (allowed_names r request) \<inter> set KNOWN_TOOLS"
proof -
  define ts where "ts = map (\<lambda>n. (n, VBool (n \<in> set (allowed_names r request)))) KNOWN_TOOLS @ [(''spawn_subagent'', VBool False)]"
  have t: "dget (build_child_config r request n) ''tools'' = VDict (dict_of ts)"
    by (simp add: build_child_config_def Let_def ts_def)
  have "map_of ts k = Some (VBool (k \<in> set (allowed_names r request)))" if "k \<in> set KNOWN_TOOLS" for k
    using that by (auto simp: ts_def map_add_def map_of_map_restrict KNOWN_TOOLS_def)
  then have "truthy (dget_or (dict_of ts) k (VBool True)) \<Longrightarrow> k \<in> set KNOWN_TOOLS \<Longrightarrow> k \<in> set (allowed_names r request)" for k
    by (auto simp: dget_or_def)
  then show ?thesis unfolding new_tools_def by (auto simp: t)
qed

lemma child_config_reads:
  "read_subagents_enabled (Some (build_child_config r request n)) = False"
  "0 < n \<Longrightarrow> read_loop_max_iterations (build_child_config r request n) k = Inr n"
  by (simp_all add: read_subagents_enabled_def read_loop_max_iterations_def build_child_config_def Let_def
      positive_or_def int_or_none_def dget_def dget_or_def split: pyval.split)

definition child_of :: "'s runner \<Rightarrow> pydict \<Rightarrow> path \<Rightarrow> fs \<Rightarrow> 's agent res" where
  "child_of r request output_dir f = bind_res (child_args r request output_dir) (new_agent (ru_env r) f)"

lemma child_of_facts:
  assumes "child_of r request output_dir f = Inr child"
  shows "\<exists>n seconds. py_int (or_limit r request ''max_iterations'' (VInt 20)) = Inr n \<and> 0 < n
    \<and> ag_max_iterations child = n \<and> float_seconds (or_limit r request ''timeout_seconds'' (VInt 600)) = Inr seconds
    \<and> ag_timeout child = Some seconds \<and> ag_clock child = ae_clock (ru_env r) \<and> \<not> ag_clarify child \<and> \<not> ag_subagents child
    \<and> ag_output_dir child = output_dir \<and> ag_send child = child_send
    \<and> ag_tools child = new_tools (build_child_config r request n)
    \<and> agent_surface (ag_tools child) False False = Inr (ag_surface child)"
  using assms
  by (auto simp: child_of_def child_args_def new_agent_def bind_res_eq_Inr positive_args_def agent_config_of_def
      limits_of_def child_config_reads Let_def)

text \<open>
  C15. A child never has more than its parent gave it: it can use only tools that the parent
  has enabled and the request names, it takes at most the requested number of turns, and
  among the actions the model is offered there is neither delegation nor a question to the
  user.
\<close>

theorem child_confined:
  assumes "child_of r request output_dir f = Inr child"
  shows "set (list_enabled (ag_tools child)) \<subseteq> set (ru_parent_tools r) \<inter> set (allowed_names r request)
    \<and> py_int (or_limit r request ''max_iterations'' (VInt 20)) = Inr (ag_max_iterations child)
    \<and> \<not> ag_subagents child \<and> \<not> ag_clarify child \<and> ag_output_dir child = output_dir
    \<and> ''spawn_subagent'' \<notin> set (map schema_name (ag_surface child))
    \<and> ''agent_clarify'' \<notin> set (map schema_name (ag_surface child))"
proof -
  obtain n seconds where c: "py_int (or_limit r request ''max_iterations'' (VInt 20)) = Inr n"
    "ag_max_iterations child = n" "\<not> ag_clarify child" "\<not> ag_subagents child" "ag_output_dir child = output_dir"
    "ag_tools child = new_tools (build_child_config r request n)"
    "agent_surface (ag_tools child) False False = Inr (ag_surface child)"
    using child_of_facts [OF assms] by blast
  have names: "map schema_name (ag_surface child) = surface_names (ag_tools child) False False"
    using agent_surface_names [of "ag_tools child" False False] c(7) by auto
  have e: "set (to_enabled (ag_tools child)) \<subseteq> set (allowed_names r request)"
    using child_config_tools [of r request n] c(6) by auto
  have "set (allowed_names r request) \<subseteq> set (ru_parent_tools r)"
    by (auto simp: allowed_names_def split: pyval.splits)
  moreover have "''spawn_subagent'' \<notin> set (surface_names (ag_tools child) False False)"
    "''agent_clarify'' \<notin> set (surface_names (ag_tools child) False False)"
    by (auto simp: surface_names_def KNOWN_TOOLS_def CONTROL_TOOL_NAMES_def)
  ultimately show ?thesis
    using c e names by (auto simp: list_enabled_def)
qed


section \<open>An example, and the result of a run\<close>

definition demo_env :: "script agent_env" where
  "demo_env = \<lparr>ae_broker = None, ae_shell = ag_shell demo_agent, ae_clock = (\<lambda>w. (0, w)),
     ae_files = (\<lambda>w. [[''skills''] \<mapsto> Dir]), ae_listing = (\<lambda>p w. []),
     ae_skill_env = \<lparr>se_children = (\<lambda>p. []), se_tree = (\<lambda>p. []), se_yaml = (\<lambda>s. Inr VNone)\<rparr>,
     ae_path = (\<lambda>s. [s]), ae_default_runtime = (\<lambda>d. Inr script_runtime)\<rparr>"

definition demo_runner :: "script runner" where
  "demo_runner = \<lparr>ru_env = demo_env, ru_runtime = script_runtime, ru_skills_dir = ''skills'', ru_config = [],
     ru_parent_tools = [''shell'', ''web_search''], ru_session = ''s'', ru_output_root = [''output''], ru_limits = [],
     ru_child_id = (\<lambda>w. (''id'', w)), ru_mkdir = (\<lambda>p w. (Inr (), w))\<rparr>"

definition demo_child_request :: pydict where
  "demo_child_request = dict_of [(''task'', VStr ''dig''), (''allowed_tools'', VList [VStr ''shell'', VStr ''http_request'']),
     (''max_iterations'', VInt 4), (''timeout_seconds'', VInt 60)]"

lemma demo_child_exists: "\<exists>child. child_of demo_runner demo_child_request [''output''] [[''skills''] \<mapsto> Dir] = Inr child"
proof -
  have l: "or_limit demo_runner demo_child_request ''max_iterations'' (VInt 20) = VInt 4"
    "or_limit demo_runner demo_child_request ''timeout_seconds'' (VInt 600) = VInt 60"
    "ru_limits demo_runner = []"
    by (simp_all add: or_limit_def demo_child_request_def demo_runner_def dget_def dget_or_def)
  obtain x where x: "child_args demo_runner demo_child_request [''output''] = Inr x"
    and a: "aa_config x = Some (build_child_config demo_runner demo_child_request 4)" "aa_max_iterations x = 4"
      "aa_token_budget x = 4000" "aa_summary_threshold x = 10" "aa_max_output x = 10485760"
      "aa_skills_dir x = ''skills''" "aa_runtime x = Some script_runtime" "aa_clarify x = False"
    by (simp add: child_args_def l float_seconds_def) (simp add: demo_runner_def)
  have c: "read_context_int (build_child_config demo_runner demo_child_request 4) key k = Inr k"
    "read_skills_max_file_chars (Some (build_child_config demo_runner demo_child_request 4)) = Inr 20000"
    "read_skills_directory (build_child_config demo_runner demo_child_request 4) = None" for key k
    by (simp_all add: read_context_int_def read_skills_max_file_chars_def read_skills_directory_def
        build_child_config_def Let_def demo_runner_def)
  have s: "new_skills (ae_skill_env demo_env) [[''skills''] \<mapsto> Dir] (ae_path demo_env ''skills'') 20000
      = Inr \<lparr>ss_max_file_chars = 20000, ss_skills = []\<rparr>"
    by (simp add: new_skills_def demo_env_def discover_def)
  obtain surface where "agent_surface (new_tools (build_child_config demo_runner demo_child_request 4)) False False = Inr surface"
    using agent_surface_names by blast
  then show ?thesis
    by (simp add: child_of_def x new_agent_def a positive_args_def agent_config_of_def limits_of_def child_config_reads
        c s skills_dir_of_def demo_runner_def [THEN arg_cong [where f = ru_env]] Let_def)
qed

lemma child_confined_witness:
  "\<exists>child. child_of demo_runner demo_child_request [''output''] [[''skills''] \<mapsto> Dir] = Inr child
    \<and> set (list_enabled (ag_tools child)) \<subseteq> {''shell'', ''web_search''} \<inter> set (allowed_names demo_runner demo_child_request)"
proof -
  obtain child where c: "child_of demo_runner demo_child_request [''output''] [[''skills''] \<mapsto> Dir] = Inr child"
    using demo_child_exists by blast
  have "set (ru_parent_tools demo_runner) = {''shell'', ''web_search''}" by (simp add: demo_runner_def)
  with child_confined [OF c] c show ?thesis by auto
qed


lemma last_entries_length: "length (last_entries xs) \<le> 50"
  by (simp add: last_entries_def EVENTS_SUMMARY_CAP_def)

lemma summarize_length: "length (summarize_events events mode) \<le> 50"
  by (simp add: summarize_events_def last_entries_length)

lemma verdict_cases:
  "\<exists>status ok. map_of (verdict final) ''status'' = Some (VStr status) \<and> map_of (verdict final) ''success'' = Some (VBool ok)
    \<and> status \<in> {''timeout'', ''completed'', ''max_iterations'', ''child_failed''}
    \<and> (ok \<longleftrightarrow> status = ''completed'') \<and> (status = ''timeout'' \<longleftrightarrow> final = None)"
  by (cases final) (auto simp: verdict_def)

text \<open>
  The envelope of a run has one of four statuses: \<open>success\<close> is true exactly for
  \<open>completed\<close>, and \<open>timeout\<close> is given exactly when the child sent no \<open>done\<close> event; it lists at
  most fifty events, and every file it carries lies below \<open>subagents/<child>/\<close>.
\<close>

theorem envelope_classified:
  "\<exists>status ok files events_summary.
    dget (build_envelope r child_id events duration) ''status'' = VStr status
    \<and> status \<in> {''timeout'', ''completed'', ''max_iterations'', ''child_failed''}
    \<and> dget (build_envelope r child_id events duration) ''success'' = VBool ok \<and> (ok \<longleftrightarrow> status = ''completed'')
    \<and> (status = ''timeout'' \<longleftrightarrow> list_all (\<lambda>e. dget e ''type'' \<noteq> VStr ''done'') events)
    \<and> dget (build_envelope r child_id events duration) ''events_summary'' = VList events_summary
    \<and> length events_summary \<le> 50
    \<and> dget (build_envelope r child_id events duration) ''files'' = VList files
    \<and> list_all (\<lambda>v. \<exists>p. dget (as_dict v) ''path'' = VStr (''subagents/'' @ child_id @ ''/'' @ p)) files"
proof -
  let ?e = "build_envelope r child_id events duration"
  obtain status ok where v: "map_of (verdict (last_done events)) ''status'' = Some (VStr status)"
    "map_of (verdict (last_done events)) ''success'' = Some (VBool ok)"
    "status \<in> {''timeout'', ''completed'', ''max_iterations'', ''child_failed''}" "ok \<longleftrightarrow> status = ''completed''"
    "status = ''timeout'' \<longleftrightarrow> last_done events = None"
    using verdict_cases [of "last_done events"] by (elim exE conjE) (rule that)
  have d: "dget ?e ''status'' = VStr status" "dget ?e ''success'' = VBool ok"
    "dget ?e ''events_summary'' = VList (summarize_events events (journal_mode r))"
    "dget ?e ''files'' = VList (collect_child_files child_id (last_done events))"
    using v(1,2) by (simp_all add: build_envelope_def dget_def dget_or_def)
  have "last_done events = None \<longleftrightarrow> filter (\<lambda>e. dget e ''type'' = VStr ''done'') events = []"
    by (simp add: last_done_def split: list.split)
  then have "last_done events = None \<longleftrightarrow> list_all (\<lambda>e. dget e ''type'' \<noteq> VStr ''done'') events"
    by (simp only: filter_empty_conv list_all_iff)
  moreover have "list_all (\<lambda>v. \<exists>p. dget (as_dict v) ''path'' = VStr (''subagents/'' @ child_id @ ''/'' @ p))
      (collect_child_files child_id (last_done events))"
    by (auto simp: collect_child_files_def child_file_def list_all_iff dget_def dget_or_def split: option.split pyval.split)
  ultimately show ?thesis
    using v(3-5) d summarize_length
    by (intro exI [of _ status] exI [of _ ok] exI [of _ "collect_child_files child_id (last_done events)"]
        exI [of _ "summarize_events events (journal_mode r)"] conjI) (assumption | simp only:)+
qed

end
