(* ===== verification/Yolo.thy ===== *)
theory Yolo
  imports Subagents Broker EffectLogic
begin

text \<open>
  \<open>sandbox/yolo.py\<close>: the sandbox without a machine. A task gets a pair of in-process transports,
  a server with the request broker and an agent that runs in a thread of this process. The state
  holds every transport and every thread ever made, so that a thread that outlives its task is
  still there; the fields of the object refer to them by number.
\<close>

section \<open>The object\<close>

record yolo_settings =
  yc_config :: "pydict option"
  yc_skills_dir :: string
  yc_max_iterations :: int
  yc_output_dir :: string
  yc_token_budget :: int
  yc_summary_threshold :: int

text \<open>\<open>__init__\<close>: what the configuration says goes before the arguments.\<close>

definition int_setting :: "pyval \<Rightarrow> string \<Rightarrow> int \<Rightarrow> int res" where
  "int_setting section key dflt =
     (case section of VDict d \<Rightarrow> py_int (dget_or d key (VInt dflt)) | _ \<Rightarrow> Inr dflt)"

definition new_yolo_settings :: "pydict option \<Rightarrow> string \<Rightarrow> int \<Rightarrow> string \<Rightarrow> int \<Rightarrow> int \<Rightarrow> yolo_settings res" where
  "new_yolo_settings agent_config skills_dir max_iterations output_dir token_budget summary_threshold =
     (let c = (case agent_config of None \<Rightarrow> [] | Some d \<Rightarrow> d);
          dir = (case dget (as_dict (dget c ''skills'')) ''directory'' of VStr s \<Rightarrow> s | _ \<Rightarrow> skills_dir)
      in bind_res (int_setting (dget c ''loop'') ''max_iterations'' max_iterations) (\<lambda>iterations.
         bind_res (int_setting (dget c ''context'') ''token_budget'' token_budget) (\<lambda>budget.
         bind_res (int_setting (dget c ''context'') ''summary_threshold'' summary_threshold) (\<lambda>threshold.
           Inr \<lparr>yc_config = agent_config, yc_skills_dir = dir, yc_max_iterations = iterations,
                yc_output_dir = output_dir, yc_token_budget = budget, yc_summary_threshold = threshold\<rparr>))))"

text \<open>
  The transports of pair \<open>g\<close> are \<open>2 * g\<close> for the host and \<open>2 * g + 1\<close> for the agent; its thread
  is number \<open>g\<close>. \<open>yo_alive\<close> lists the threads that run.
\<close>

record 's yolo =
  yo_world :: 's
  yo_queues :: queues
  yo_ends :: "nat \<Rightarrow> inproc"
  yo_pairs :: nat
  yo_alive :: "nat list"
  yo_host :: "nat option"
  yo_agent :: "nat option"
  yo_thread :: "nat option"
  yo_error :: "exn option"
  yo_services :: "'s server option"
  yo_started :: bool

type_synonym ('s, 'a) yact = "('s yolo, 'a) effect"

record 's yolo_env =
  yv_settings :: yolo_settings
  yv_secrets :: "('s, secrets_file) effect"
  yv_broker :: "(string \<times> pydict) list \<Rightarrow> pydict \<Rightarrow> ('s, 's handler) effect"
  yv_request_id :: "'s \<Rightarrow> string \<times> 's"
  yv_agent :: "'s yolo agent_env"
  yv_runtime :: "'s yolo llm_runtime option"

definition new_yolo :: "'s \<Rightarrow> 's yolo" where
  "new_yolo w =
     \<lparr>yo_world = w, yo_queues = (\<lambda>_. []), yo_ends = (\<lambda>n. fst (inproc_pair n n)), yo_pairs = 0, yo_alive = [],
      yo_host = None, yo_agent = None, yo_thread = None, yo_error = None, yo_services = None, yo_started = False\<rparr>"

text \<open>\<open>RequestBroker(credentials, config).handle\<close>, for the broker modelled in \<open>Broker\<close>.\<close>

definition request_broker ::
    "'s net \<Rightarrow> (string \<times> pydict) list \<Rightarrow> pydict \<Rightarrow> ('s bstate, 's bstate handler) effect" where
  "request_broker net credentials config st =
     (case new_broker net (map (\<lambda>(name, r). (KStr name, VDict r)) credentials) config (snd st) of
        (Inl e, w) \<Rightarrow> (Raised e, (fst st, w))
      | (Inr (br, lims), w) \<Rightarrow> (Done (broker_handler net br), (lims, w)))"

definition out_of :: "('s, 'a) effect \<Rightarrow> ('s, 'a) yact" where
  "out_of f st = (case f (yo_world st) of (r, w) \<Rightarrow> (r, st\<lparr>yo_world := w\<rparr>))"

section \<open>The transports\<close>

definition end_send :: "nat \<Rightarrow> pydict \<Rightarrow> ('s, unit) yact" where
  "end_send t event st =
     (case inproc_send (yo_ends st t) (yo_queues st) event of
        Inl e \<Rightarrow> (Raised e, st)
      | Inr qs \<Rightarrow> (Done (), st\<lparr>yo_queues := qs\<rparr>))"

definition end_receive :: "nat \<Rightarrow> rat option \<Rightarrow> ('s, pydict option) yact" where
  "end_receive t timeout st =
     (case inproc_receive (yo_ends st t) (yo_queues st) timeout of (r, qs) \<Rightarrow> (r, st\<lparr>yo_queues := qs\<rparr>))"

definition close_end :: "nat option \<Rightarrow> 's yolo \<Rightarrow> 's yolo" where
  "close_end t st =
     (case t of None \<Rightarrow> st | Some n \<Rightarrow> st\<lparr>yo_ends := (yo_ends st)(n := inproc_close (yo_ends st n))\<rparr>)"

definition new_pair :: "'s yolo \<Rightarrow> 's yolo" where
  "new_pair st =
     (let g = yo_pairs st; (host_end, agent_end) = inproc_pair (2 * g) (2 * g + 1)
      in st\<lparr>yo_ends := (yo_ends st)(2 * g := host_end, 2 * g + 1 := agent_end), yo_pairs := g + 1,
            yo_host := Some (2 * g), yo_agent := Some (2 * g + 1), yo_error := None, yo_services := None\<rparr>)"

definition require_host_transport :: "('s, nat) yact" where
  "require_host_transport = reading (\<lambda>st.
     case yo_host st of
       None \<Rightarrow> throw RuntimeError ''YoloSandbox is not running.''
     | Some t \<Rightarrow>
         (case yo_error st of
            Some e \<Rightarrow> throw RuntimeError (''Agent thread failed: '' @ exn_str e)
          | None \<Rightarrow> give t))"

definition yolo_send :: "pydict \<Rightarrow> ('s, unit) yact" where
  "yolo_send event = seq require_host_transport (\<lambda>t. end_send t event)"

definition yolo_receive :: "rat option \<Rightarrow> ('s, pydict option) yact" where
  "yolo_receive timeout = seq require_host_transport (\<lambda>t. end_receive t timeout)"

section \<open>The thread of the agent\<close>

text \<open>\<open>_run_agent\<close>: the exception that is kept.\<close>

definition thread_failure :: "exn \<Rightarrow> exn option" where
  "thread_failure e =
     (if exn_class e = AgentError \<and> sublist ''Received stop while waiting for user reply.'' (exn_str e) then None
      else Some e)"

text \<open>
  What a running thread does: it sends or receives on its own end, works in the world, or ends,
  with the exception that left \<open>agent.run\<close>. An exception of the transport reaches the agent,
  which then acts on.
\<close>

datatype 's thread_act = Sends pydict | Receives "rat option" | Works "'s \<Rightarrow> 's" | Ends "exn option"

definition thread_step :: "nat \<Rightarrow> 's thread_act \<Rightarrow> 's yolo \<Rightarrow> 's yolo" where
  "thread_step g act st =
     (if g \<notin> set (yo_alive st) then st
      else
        (case act of
           Sends event \<Rightarrow> snd (end_send (2 * g + 1) event st)
         | Receives timeout \<Rightarrow> snd (end_receive (2 * g + 1) timeout st)
         | Works f \<Rightarrow> st\<lparr>yo_world := f (yo_world st)\<rparr>
         | Ends failure \<Rightarrow>
             st\<lparr>yo_alive := removeAll g (yo_alive st),
                yo_error := (case Option.bind failure thread_failure of None \<Rightarrow> yo_error st | Some e \<Rightarrow> Some e)\<rparr>))"

fun threads_run :: "(nat \<times> 's thread_act) list \<Rightarrow> 's yolo \<Rightarrow> 's yolo" where
  "threads_run [] st = st"
| "threads_run ((g, act) # rest) st = threads_run rest (thread_step g act st)"

definition thread_alive :: "'s yolo \<Rightarrow> bool" where
  "thread_alive st = (case yo_thread st of None \<Rightarrow> False | Some g \<Rightarrow> g \<in> set (yo_alive st))"

text \<open>The agent of a task: its broker is the server of this process, its transport its own end.\<close>

definition service_caller :: "'s yolo_env \<Rightarrow> 's server \<Rightarrow> 's yolo Tools.service_call" where
  "service_caller env srv service payload st =
     (case yv_request_id env (yo_world st) of (rid, w) \<Rightarrow>
      case call_yolo srv rid service payload w of (r, w') \<Rightarrow> (r, st\<lparr>yo_world := w'\<rparr>))"

definition agent_send :: "nat \<Rightarrow> pydict \<Rightarrow> 's yolo \<Rightarrow> unit res \<times> 's yolo" where
  "agent_send t event st =
     (case inproc_send (yo_ends st t) (yo_queues st) event of
        Inl e \<Rightarrow> (Inl e, st)
      | Inr qs \<Rightarrow> (Inr (), st\<lparr>yo_queues := qs\<rparr>))"

definition yolo_agent :: "'s yolo_env \<Rightarrow> 's server \<Rightarrow> nat \<Rightarrow> fs \<Rightarrow> 's yolo agent res" where
  "yolo_agent env srv t f =
     (let ae = (yv_agent env)\<lparr>ae_broker := Some (service_caller env srv)\<rparr>; s = yv_settings env
      in new_agent ae f
           \<lparr>aa_send = agent_send t, aa_skills_dir = yc_skills_dir s, aa_config = yc_config s,
            aa_max_iterations = yc_max_iterations s, aa_output_dir = ae_path ae (yc_output_dir s),
            aa_config_path = [''run'', ''strangeclaw'', ''config.json''], aa_token_budget = yc_token_budget s,
            aa_summary_threshold = yc_summary_threshold s, aa_max_output = 10 * 1024 * 1024,
            aa_runtime = yv_runtime env, aa_runner = None, aa_clarify = True, aa_timeout = None\<rparr>)"

section \<open>Operations\<close>

definition yolo_start :: "string option \<Rightarrow> ('s, unit) yact" where
  "yolo_start session_id = update (\<lambda>st. st\<lparr>yo_started := True\<rparr>)"

definition yolo_is_running :: "'s yolo \<Rightarrow> bool" where
  "yolo_is_running st = (yo_started st \<and> yo_error st = None)"

definition clear_fields :: "'s yolo \<Rightarrow> 's yolo" where
  "clear_fields st = st\<lparr>yo_host := None, yo_agent := None, yo_thread := None, yo_services := None\<rparr>"

definition close_both :: "'s yolo \<Rightarrow> 's yolo" where
  "close_both st = close_end (yo_agent st) (close_end (yo_host st) st)"

definition cleanup_inactive_runtime :: "'s yolo \<Rightarrow> 's yolo" where
  "cleanup_inactive_runtime st = (if thread_alive st then st else clear_fields (close_both st))"

text \<open>\<open>join\<close>: what the threads do until it returns.\<close>

definition spawn :: "('s, unit) yact" where
  "spawn = update (\<lambda>st. st\<lparr>yo_thread := Some (yo_pairs st - 1), yo_alive := (yo_pairs st - 1) # yo_alive st\<rparr>)"

definition yolo_send_task :: "'s yolo_env \<Rightarrow> pydict \<Rightarrow> (nat \<times> 's thread_act) list \<Rightarrow> ('s, unit) yact" where
  "yolo_send_task env task meanwhile =
     seq (reading (\<lambda>st. if yo_started st then give () else yolo_start None)) (\<lambda>_.
     seq (update cleanup_inactive_runtime) (\<lambda>_.
     seq (update (\<lambda>st. if thread_alive st then threads_run meanwhile st else st)) (\<lambda>_.
     seq (reading (\<lambda>st. if thread_alive st then throw RuntimeError ''YoloSandbox is already running.'' else give ())) (\<lambda>_.
     seq (update new_pair) (\<lambda>_.
     seq (out_of (yv_secrets env)) (\<lambda>file.
     seq (from_res (load_secrets file)) (\<lambda>credentials.
     seq (out_of (yv_broker env credentials (case yc_config (yv_settings env) of None \<Rightarrow> [] | Some c \<Rightarrow> c))) (\<lambda>h.
     let srv = register [] ''broker'' h in
     seq (update (\<lambda>st. st\<lparr>yo_services := Some srv\<rparr>)) (\<lambda>_.
     seq (reading (\<lambda>st. from_res (yolo_agent env srv (2 * (yo_pairs st - 1) + 1) (ae_files (yv_agent env) st)))) (\<lambda>_.
     seq spawn (\<lambda>_. yolo_send task)))))))))))"

text \<open>\<open>run\<close>\<close>

definition yolo_run :: "'s yolo_env \<Rightarrow> pydict \<Rightarrow> (nat \<times> 's thread_act) list \<Rightarrow> ('s, unit) yact" where
  "yolo_run env task meanwhile = seq (yolo_start None) (\<lambda>_. yolo_send_task env task meanwhile)"

definition yolo_stop :: "(nat \<times> 's thread_act) list \<Rightarrow> ('s, unit) yact" where
  "yolo_stop meanwhile =
     seq (reading (\<lambda>st.
       case yo_host st of
         None \<Rightarrow> give ()
       | Some t \<Rightarrow> handle_exn (\<lambda>_. True) (end_send t (dict_of [(''type'', VStr ''stop'')])) (\<lambda>_. give ()))) (\<lambda>_.
     seq (update (\<lambda>st. if yo_thread st \<noteq> None then threads_run meanwhile st else st)) (\<lambda>_.
       update (\<lambda>st. (clear_fields (close_both st))\<lparr>yo_started := False\<rparr>)))"

section \<open>Runs\<close>

datatype 's yolo_call =
    OpStart | OpTask pydict "(nat \<times> 's thread_act) list" | OpSend pydict | OpReceive "rat option"
  | OpStop "(nat \<times> 's thread_act) list" | OpThread nat "'s thread_act"

text \<open>A call that never returns has no later state.\<close>

definition returning :: "('s, 'a) yact \<Rightarrow> 's yolo \<Rightarrow> 's yolo option" where
  "returning m st = (case m st of (Blocked, _) \<Rightarrow> None | (_, st') \<Rightarrow> Some st')"

fun yolo_op :: "'s yolo_env \<Rightarrow> 's yolo_call \<Rightarrow> 's yolo \<Rightarrow> 's yolo option" where
  "yolo_op env OpStart = returning (yolo_start None)"
| "yolo_op env (OpTask task meanwhile) = returning (yolo_send_task env task meanwhile)"
| "yolo_op env (OpSend event) = returning (yolo_send event)"
| "yolo_op env (OpReceive timeout) = returning (yolo_receive timeout)"
| "yolo_op env (OpStop meanwhile) = returning (yolo_stop meanwhile)"
| "yolo_op env (OpThread g act) = returning (update (thread_step g act))"

fun yolo_ops :: "'s yolo_env \<Rightarrow> 's yolo_call list \<Rightarrow> 's yolo \<Rightarrow> 's yolo option" where
  "yolo_ops env [] st = Some st"
| "yolo_ops env (op # rest) st = Option.bind (yolo_op env op st) (yolo_ops env rest)"

section \<open>Runtimes are separate\<close>

text \<open>
  A thread that runs belongs to the current task, and the fields refer to its transports, or it
  is cut off: its end is closed and nothing refers to it.
\<close>

definition attached :: "'s yolo \<Rightarrow> nat \<Rightarrow> bool" where
  "attached st g =
     (yo_thread st = Some g \<and> yo_host st = Some (2 * g) \<and> yo_agent st = Some (2 * g + 1)
      \<and> \<not> ip_closed (yo_ends st (2 * g)) \<and> \<not> ip_closed (yo_ends st (2 * g + 1)))"

definition cut_off :: "'s yolo \<Rightarrow> nat \<Rightarrow> bool" where
  "cut_off st g = (ip_closed (yo_ends st (2 * g + 1)) \<and> yo_thread st \<noteq> Some g \<and> yo_host st \<noteq> Some (2 * g))"

definition threads_ok :: "'s yolo \<Rightarrow> bool" where
  "threads_ok st = list_all (\<lambda>g. g < yo_pairs st \<and> (attached st g \<or> cut_off st g)) (yo_alive st)"

text \<open>A pair has been made for a task whose thread does not run yet.\<close>

definition pair_ready :: "'s yolo \<Rightarrow> bool" where
  "pair_ready st =
     (\<exists>g. yo_pairs st = Suc g \<and> list_all (\<lambda>h. h < g \<and> cut_off st h) (yo_alive st)
        \<and> yo_host st = Some (2 * g) \<and> yo_agent st = Some (2 * g + 1)
        \<and> \<not> ip_closed (yo_ends st (2 * g)) \<and> \<not> ip_closed (yo_ends st (2 * g + 1)))"

lemmas thread_defs = threads_ok_def attached_def cut_off_def pair_ready_def

lemma thread_predicates_world [simp]:
  "threads_ok (st\<lparr>yo_queues := qs\<rparr>) = threads_ok st" "threads_ok (st\<lparr>yo_world := w\<rparr>) = threads_ok st"
  "threads_ok (st\<lparr>yo_error := e\<rparr>) = threads_ok st" "threads_ok (st\<lparr>yo_services := s\<rparr>) = threads_ok st"
  "threads_ok (st\<lparr>yo_started := b\<rparr>) = threads_ok st"
  "pair_ready (st\<lparr>yo_world := w\<rparr>) = pair_ready st" "pair_ready (st\<lparr>yo_services := s\<rparr>) = pair_ready st"
  by (simp_all add: thread_defs)

lemma threads_ok_end_send [simp]: "threads_ok (snd (end_send t event st)) = threads_ok st"
  by (simp add: end_send_def split: sum.split)

lemma threads_ok_end_receive [simp]: "threads_ok (snd (end_receive t timeout st)) = threads_ok st"
  by (simp add: end_receive_def split: prod.split)

lemma threads_ok_fewer:
  "threads_ok st \<Longrightarrow> threads_ok (st\<lparr>yo_alive := removeAll g (yo_alive st)\<rparr>)"
  by (auto simp: thread_defs list_all_iff)

lemma thread_step_ok: "threads_ok st \<Longrightarrow> threads_ok (thread_step g act st)"
  by (cases act) (auto simp: thread_step_def threads_ok_fewer)

lemma threads_run_ok: "threads_ok st \<Longrightarrow> threads_ok (threads_run acts st)"
  by (induction acts st rule: threads_run.induct) (auto intro: thread_step_ok)

lemma double_inj [simp]: "Suc (2 * m) \<noteq> 2 * n" "2 * n \<noteq> Suc (2 * m)"
  by presburger+

lemma cleared_ok:
  assumes "threads_ok st"
  shows "threads_ok (clear_fields (close_both st))"
    "thread_alive (clear_fields (close_both st)) = False"
  using assms
  by (auto simp: thread_defs list_all_iff clear_fields_def close_both_def close_end_def inproc_close_def thread_alive_def
      split: option.splits)

lemma cleanup_ok: "threads_ok st \<Longrightarrow> threads_ok (cleanup_inactive_runtime st)"
  by (simp add: cleanup_inactive_runtime_def cleared_ok)

lemma new_pair_ready:
  assumes "threads_ok st" "\<not> thread_alive st"
  shows "pair_ready (new_pair st)"
proof -
  have "list_all (\<lambda>g. g < yo_pairs st \<and> cut_off st g) (yo_alive st)"
    using assms by (auto simp: thread_defs list_all_iff thread_alive_def)
  then show ?thesis
    unfolding pair_ready_def
    by (intro exI [of _ "yo_pairs st"]) (auto simp: cut_off_def new_pair_def inproc_pair_def list_all_iff Let_def)
qed

lemma pair_ready_ok: "pair_ready st \<Longrightarrow> threads_ok st"
  by (fastforce simp: pair_ready_def threads_ok_def list_all_iff)

lemma spawned_ok:
  "pair_ready st \<Longrightarrow> threads_ok (st\<lparr>yo_thread := Some (yo_pairs st - 1), yo_alive := (yo_pairs st - 1) # yo_alive st\<rparr>)"
  by (fastforce simp: thread_defs list_all_iff)

lemma out_of_keeps: "keeps threads_ok (out_of f)" "valid pair_ready (out_of f) (\<lambda>_. pair_ready) threads_ok"
  by (auto simp: valid_def out_of_def pair_ready_ok split: prod.splits outcome.splits)

lemma keeps_snd: "(\<And>st. P st \<Longrightarrow> P (snd (m st))) \<Longrightarrow> keeps P m"
  by (rule validI) (metis snd_conv)+

lemma end_send_keeps: "keeps threads_ok (end_send t event)"
  by (rule keeps_snd) simp

lemma end_receive_keeps: "keeps threads_ok (end_receive t timeout)"
  by (rule keeps_snd) simp

lemma require_host_keeps: "keeps threads_ok require_host_transport"
  unfolding require_host_transport_def by (intro act_rules | assumption)+

lemma start_keeps: "keeps threads_ok (yolo_start session_id)"
  unfolding yolo_start_def by (rule valid_update) simp

lemma thread_keeps: "keeps threads_ok (update (thread_step g act))"
  by (rule valid_update) (rule thread_step_ok)

lemma yolo_send_keeps: "keeps threads_ok (yolo_send event)"
  unfolding yolo_send_def by (rule keeps_seq [OF require_host_keeps end_send_keeps])

lemma yolo_receive_keeps: "keeps threads_ok (yolo_receive timeout)"
  unfolding yolo_receive_def by (rule keeps_seq [OF require_host_keeps end_receive_keeps])

lemma yolo_send_task_keeps: "keeps threads_ok (yolo_send_task env task meanwhile)"
proof -
  have start: "keeps threads_ok (reading (\<lambda>st. if yo_started st then give () else yolo_start None))"
    by (intro act_rules start_keeps) simp_all
  have free: "valid threads_ok (reading (\<lambda>st. if thread_alive st then throw RuntimeError msg else give ()))
      (\<lambda>_ st. threads_ok st \<and> \<not> thread_alive st) threads_ok" for msg
    by (auto simp: valid_def reading_def throw_def give_def)
  have pair: "valid (\<lambda>st. threads_ok st \<and> \<not> thread_alive st) (update new_pair) (\<lambda>_. pair_ready) threads_ok"
    by (rule valid_update) (simp add: new_pair_ready)
  have res: "valid pair_ready (from_res r) (\<lambda>_. pair_ready) threads_ok" for r :: "'x res"
    by (rule valid_from_res) (simp_all add: pair_ready_ok)
  have services: "valid pair_ready (update (\<lambda>st. st\<lparr>yo_services := Some srv\<rparr>)) (\<lambda>_. pair_ready) threads_ok" for srv
    by (rule valid_update) simp
  have agent: "valid pair_ready (reading (\<lambda>st. from_res (h st))) (\<lambda>_. pair_ready) threads_ok" for h :: "_ \<Rightarrow> 'y res"
    by (rule valid_reading) (rule res)
  have run: "valid pair_ready spawn (\<lambda>_. threads_ok) threads_ok"
    unfolding spawn_def by (rule valid_update) (rule spawned_ok)
  have cleanup: "keeps threads_ok (update cleanup_inactive_runtime)"
    by (rule valid_update) (rule cleanup_ok)
  have join: "keeps threads_ok (update (\<lambda>st. if thread_alive st then threads_run meanwhile st else st))"
    by (rule valid_update) (simp add: threads_run_ok)
  show ?thesis
    unfolding yolo_send_task_def Let_def
    by (rule valid_seq [OF start], rule valid_seq [OF cleanup], rule valid_seq [OF join], rule valid_seq [OF free],
        rule valid_seq [OF pair], rule valid_seq [OF out_of_keeps(2)], rule valid_seq [OF res],
        rule valid_seq [OF out_of_keeps(2)], rule valid_seq [OF services], rule valid_seq [OF agent],
        rule valid_seq [OF run], rule yolo_send_keeps)
qed

lemma stop_keeps: "keeps threads_ok (yolo_stop meanwhile)"
proof -
  have ask: "keeps threads_ok (reading (\<lambda>st. case yo_host st of None \<Rightarrow> give ()
      | Some t \<Rightarrow> handle_exn (\<lambda>_. True) (end_send t event) (\<lambda>_. give ())))" for event
    by (intro act_rules end_send_keeps | assumption)+
  have join: "keeps threads_ok (update (\<lambda>st. if yo_thread st \<noteq> None then threads_run meanwhile st else st))"
    by (rule valid_update) (simp add: threads_run_ok)
  have close: "keeps threads_ok (update (\<lambda>st. (clear_fields (close_both st))\<lparr>yo_started := False\<rparr>))"
    by (rule valid_update) (simp add: cleared_ok)
  show ?thesis
    unfolding yolo_stop_def by (rule valid_seq [OF ask], rule valid_seq [OF join], rule close)
qed

lemma returning_ok: "keeps threads_ok m \<Longrightarrow> threads_ok st \<Longrightarrow> returning m st = Some st' \<Longrightarrow> threads_ok st'"
  by (auto simp: returning_def dest: validD split: prod.splits outcome.splits)

lemma op_ok: "threads_ok st \<Longrightarrow> yolo_op env op st = Some st' \<Longrightarrow> threads_ok st'"
  by (cases op)
     (auto intro: returning_ok [OF start_keeps] returning_ok [OF thread_keeps] returning_ok [OF yolo_send_keeps]
        returning_ok [OF yolo_receive_keeps] returning_ok [OF yolo_send_task_keeps] returning_ok [OF stop_keeps])

lemma ops_ok: "threads_ok st \<Longrightarrow> yolo_ops env ops st = Some st' \<Longrightarrow> threads_ok st'"
  by (induction ops arbitrary: st) (auto simp: bind_eq_Some_conv dest: op_ok)

lemma initial_ok: "threads_ok (new_yolo w)"
  by (simp add: new_yolo_def threads_ok_def)

text \<open>
  C11. Tasks of a Yolo sandbox do not mix. Whatever the host calls and however the threads run, a
  thread that still runs is the one of the current task and holds the other end of the host's
  transport, or it can neither send nor receive: a thread that outlived its task reaches no one.
\<close>

theorem yolo_tasks_separate:
  assumes "yolo_ops env ops (new_yolo w) = Some st" "g \<in> set (yo_alive st)"
  shows "if yo_thread st = Some g
    then yo_host st = Some (2 * g) \<and> yo_agent st = Some (2 * g + 1)
       \<and> \<not> ip_closed (yo_ends st (2 * g)) \<and> \<not> ip_closed (yo_ends st (2 * g + 1))
    else yo_host st \<noteq> Some (2 * g)
       \<and> agent_send (2 * g + 1) event st = (raise RuntimeError ''Transport is closed.'', st)
       \<and> end_receive (2 * g + 1) timeout st = throw RuntimeError ''Transport is closed.'' st"
proof -
  have "threads_ok st" by (rule ops_ok [OF initial_ok assms(1)])
  with assms(2) have "attached st g \<or> cut_off st g" by (auto simp: threads_ok_def list_all_iff)
  then show ?thesis
    by (auto simp: attached_def cut_off_def agent_send_def inproc_send_def end_receive_def inproc_receive_def
        throw_def raise_def)
qed

text \<open>A sandbox whose agent asks nothing of anyone.\<close>

definition demo_yolo :: "unit yolo_env" where
  "demo_yolo =
     \<lparr>yv_settings = \<lparr>yc_config = Some [], yc_skills_dir = ''skills'', yc_max_iterations = 5, yc_output_dir = ''out'',
        yc_token_budget = 100, yc_summary_threshold = 3\<rparr>,
      yv_secrets = give NoFile, yv_broker = (\<lambda>_ _. give (\<lambda>p w. (Inr VNone, w))), yv_request_id = (\<lambda>w. (''id'', w)),
      yv_agent = \<lparr>ae_broker = None, ae_shell = (\<lambda>command timeout w. (Completed 0 command [], w)), ae_clock = (\<lambda>w. (0, w)),
        ae_files = (\<lambda>w. [[''skills''] \<mapsto> Dir]), ae_listing = (\<lambda>p w. []),
        ae_skill_env = \<lparr>se_children = (\<lambda>p. []), se_tree = (\<lambda>p. []), se_yaml = (\<lambda>s. Inr VNone)\<rparr>,
        ae_path = (\<lambda>s. [s]), ae_default_runtime = (\<lambda>d. raise ValueError ''no model'')\<rparr>,
      yv_runtime = Some \<lparr>rt_complete = (\<lambda>messages schema w. (raise LLMRuntimeError ''no model'', w)),
        rt_count_tokens = (\<lambda>messages w. (Inr 1, w))\<rparr>\<rparr>"

definition demo_yolo_task :: pydict where
  "demo_yolo_task = dict_of [(''type'', VStr ''task''), (''text'', VStr ''hello''), (''session_id'', VStr ''s''),
     (''approval_mode'', VStr ''auto''), (''llm'', VDict [])]"

text \<open>A task is stopped, its thread does not end in time, and a second task starts.\<close>

definition overtaken :: "unit yolo_call list" where
  "overtaken = [OpTask demo_yolo_task [], OpStop [], OpTask demo_yolo_task []]"

lemma overtaken_run:
  "map_option (\<lambda>st. (yo_alive st, yo_thread st, yo_error st)) (yolo_ops demo_yolo overtaken (new_yolo ()))
     = Some ([1, 0], Some 1, None)"
  by code_simp

theorem yolo_tasks_separate_witness:
  "\<exists>st. yolo_ops demo_yolo overtaken (new_yolo ()) = Some st \<and> yo_thread st = Some 1 \<and> yo_host st = Some 2
     \<and> agent_send 1 demo_yolo_task st = (raise RuntimeError ''Transport is closed.'', st)"
proof -
  obtain st where st: "yolo_ops demo_yolo overtaken (new_yolo ()) = Some st" "yo_alive st = [1, 0]" "yo_thread st = Some 1"
    using overtaken_run by auto
  from yolo_tasks_separate [OF st(1), of 0 demo_yolo_task] yolo_tasks_separate [OF st(1), of 1] st(2,3)
  show ?thesis using st(1) by auto
qed

text \<open>
  The exception of a thread that outlived its task is charged to the task that runs now: the
  sandbox is no longer running and every further call fails with that exception, while the
  thread of the current task lives on.
\<close>

theorem stale_failure_charged:
  assumes "yolo_ops env ops (new_yolo w) = Some st" "{g, h} \<subseteq> set (yo_alive st)" "yo_thread st = Some h" "g \<noteq> h"
    and "thread_failure e = Some e"
  shows "\<exists>st'. yolo_ops env (ops @ [OpThread g (Ends (Some e))]) (new_yolo w) = Some st'
     \<and> h \<in> set (yo_alive st') \<and> thread_alive st' \<and> \<not> yolo_is_running st'
     \<and> yolo_receive timeout st' = throw RuntimeError (''Agent thread failed: '' @ exn_str e) st'
     \<and> yolo_send event st' = throw RuntimeError (''Agent thread failed: '' @ exn_str e) st'"
proof -
  define st' where "st' = thread_step g (Ends (Some e)) st"
  have more: "yolo_ops env (xs @ ys) s = Option.bind (yolo_ops env xs s) (yolo_ops env ys)" for xs ys s
    by (induction xs arbitrary: s) (auto split: bind_splits)
  have "yolo_ops env (ops @ [OpThread g (Ends (Some e))]) (new_yolo w) = Some st'"
    by (simp add: more assms(1) returning_def update_def st'_def)
  moreover have facts: "yo_thread st' = Some h" "h \<in> set (yo_alive st')" "yo_error st' = Some e" "yo_host st' = yo_host st"
    using assms(2-5) by (auto simp: st'_def thread_step_def)
  moreover have "yo_host st = Some (2 * h)"
    using ops_ok [OF initial_ok assms(1)] assms(2,3) by (auto simp: threads_ok_def attached_def cut_off_def list_all_iff)
  ultimately show ?thesis
    by (auto simp: thread_alive_def yolo_is_running_def yolo_receive_def yolo_send_def require_host_transport_def
        seq_def reading_def throw_def)
qed

theorem stale_failure_charged_witness:
  "\<exists>st'. yolo_ops demo_yolo (overtaken @ [OpThread 0 (Ends (Some (Exn RuntimeError ''Transport is closed.'')))]) (new_yolo ()) = Some st'
     \<and> 1 \<in> set (yo_alive st') \<and> \<not> yolo_is_running st'"
proof -
  obtain st where st: "yolo_ops demo_yolo overtaken (new_yolo ()) = Some st" "yo_alive st = [1, 0]" "yo_thread st = Some 1"
    using overtaken_run by auto
  have "thread_failure (Exn RuntimeError ''Transport is closed.'') = Some (Exn RuntimeError ''Transport is closed.'')"
    by (simp add: thread_failure_def)
  from stale_failure_charged [OF st(1) _ st(3) _ this, of 0] st(2) show ?thesis by auto
qed

end
