(* ===== verification/Sandboxes.thy ===== *)
theory Sandboxes
  imports FireSafety Yolo
begin

text \<open>
  What the coordinator relies on in a sandbox, as the locale \<open>sandbox_lifecycle\<close>, and that both
  sandboxes provide it. The client is the block of \<open>Coordinator.start_task\<close> that starts a new
  sandbox and sends the task, and stops the sandbox again when that fails.
\<close>

section \<open>The interface\<close>

definition reraise :: "exn \<Rightarrow> ('st, 'a) effect" where
  "reraise e st = (Raised e, st)"

definition begin_task ::
    "('st, unit) effect \<Rightarrow> (pydict \<Rightarrow> ('st, unit) effect) \<Rightarrow> ('st, unit) effect \<Rightarrow> pydict \<Rightarrow> ('st, unit) effect" where
  "begin_task start send_task stop task =
     seq start (\<lambda>_.
       handle_exn (\<lambda>_. True) (send_task task) (\<lambda>e.
         seq (handle_exn (\<lambda>_. True) stop (\<lambda>_. give ())) (\<lambda>_. reraise e)))"

lemma valid_reraise: "(\<And>st. P st \<Longrightarrow> E st) \<Longrightarrow> valid P (reraise e) Q E"
  by (simp add: valid_def reraise_def)

text \<open>
  A sandbox at rest holds nothing. Starting it ends in use, or at rest when it fails; a task,
  accepted or not, leaves it in use; stopping it never fails and ends at rest.
\<close>

locale sandbox_lifecycle =
  fixes start :: "('st, unit) effect"
    and send_task :: "pydict \<Rightarrow> ('st, unit) effect"
    and stop :: "('st, unit) effect"
    and at_rest :: "'st \<Rightarrow> bool"
    and in_use :: "'st \<Rightarrow> bool"
  assumes start_law: "valid at_rest start (\<lambda>_. in_use) at_rest"
    and task_law: "valid in_use (send_task task) (\<lambda>_. in_use) in_use"
    and stop_law: "valid in_use stop (\<lambda>_. at_rest) (\<lambda>_. False)"
begin

lemma begin_task_law: "valid at_rest (begin_task start send_task stop task) (\<lambda>_. in_use) at_rest"
proof -
  have stopped: "valid in_use (handle_exn (\<lambda>_. True) stop (\<lambda>_. give ())) (\<lambda>_. at_rest) at_rest"
    by (rule valid_handle_all [OF stop_law]) (simp add: valid_def)
  have undone: "valid in_use (seq (handle_exn (\<lambda>_. True) stop (\<lambda>_. give ())) (\<lambda>_. reraise e)) (\<lambda>_. in_use) at_rest" for e
    by (rule valid_seq [OF stopped valid_reraise])
  show ?thesis
    unfolding begin_task_def by (rule valid_seq [OF start_law valid_handle_all [OF task_law undone]])
qed

text \<open>A task that begins and is stopped later leaves nothing either, whatever it did in between.\<close>

lemma whole_task_law:
  assumes "valid in_use work (\<lambda>_. in_use) in_use"
  shows "valid at_rest (seq (begin_task start send_task stop task) (\<lambda>_. finally_do work stop)) (\<lambda>_. at_rest) at_rest"
proof -
  have worked: "valid in_use (attempt (\<lambda>_. True) work) (\<lambda>_. in_use) (\<lambda>_. False)"
    unfolding attempt_def
    by (rule valid_handle_all [OF valid_seq [OF assms valid_give]]) (simp_all add: valid_give)
  have result: "valid at_rest (case r of Inr x \<Rightarrow> give x | Inl e \<Rightarrow> (\<lambda>st. (Raised e, st))) (\<lambda>_. at_rest) at_rest" for r
    by (cases r) (simp_all add: valid_def give_def)
  have "valid in_use (finally_do work stop) (\<lambda>_. at_rest) at_rest"
    unfolding finally_do_def
    by (rule valid_seq [OF valid_weaken [OF worked]], assumption, assumption, simp,
        rule valid_seq [OF valid_weaken [OF stop_law]], assumption, assumption, simp, rule result)
  then show ?thesis by (rule valid_seq [OF begin_task_law])
qed

end

section \<open>Both sandboxes\<close>

lemma fire_lifecycle:
  assumes "steady env"
  shows "sandbox_lifecycle (fire_start (ledgered env) n session_id) (fire_send_task (ledgered env)) (fire_stop (ledgered env))
    (having idle) (having up)"
proof
  show "valid (having idle) (fire_start (ledgered env) n session_id) (\<lambda>_. having up) (having idle)"
    by (rule start_tracked [OF assms]) simp_all
  show "keeps (having up) (fire_send_task (ledgered env) task)" for task
    by (rule ledger_frame.send_task_keeps)
  show "valid (having up) (fire_stop (ledgered env)) (\<lambda>_. having idle) (\<lambda>_. False)"
    by (rule valid_weaken [OF stop_resting [OF assms]]) (auto elim: having_weaken simp: resting_def)
qed

lemma clean_begin_task:
  "keeps (clean env) (begin_task (fire_start (ledgered env) n session_id) (fire_send_task (ledgered env))
     (fire_stop (ledgered env)) task)"
  unfolding begin_task_def
  by (intro walk_rules clean_start clean_stop clean_frame.send_task_keeps valid_reraise | assumption)+

definition yolo_resting :: "'s yolo \<Rightarrow> bool" where
  "yolo_resting st \<longleftrightarrow>
     threads_ok st \<and> yo_host st = None \<and> yo_agent st = None \<and> yo_thread st = None \<and> yo_services st = None"

interpretation yolo_life: sandbox_lifecycle "yolo_start session_id" "\<lambda>task. yolo_send_task env task during"
    "yolo_stop meanwhile" yolo_resting threads_ok
  for session_id env during meanwhile
proof
  show "valid yolo_resting (yolo_start session_id) (\<lambda>_. threads_ok) yolo_resting"
    unfolding yolo_start_def by (rule valid_update) (simp add: yolo_resting_def)
  show "keeps threads_ok (yolo_send_task env task during)" for task
    by (rule yolo_send_task_keeps)
  have calm_send: "valid threads_ok (handle_exn (\<lambda>_. True) (end_send t event) (\<lambda>_. give ())) (\<lambda>_. threads_ok) (\<lambda>_. False)" for t event
    by (rule valid_handle_all [OF end_send_keeps]) (simp add: valid_give)
  have ask: "valid threads_ok (reading (\<lambda>st. case yo_host st of None \<Rightarrow> give ()
      | Some t \<Rightarrow> handle_exn (\<lambda>_. True) (end_send t event) (\<lambda>_. give ()))) (\<lambda>_. threads_ok) (\<lambda>_. False)" for event
    by (rule valid_reading, rule valid_option) (simp_all add: valid_give calm_send)
  show "valid threads_ok (yolo_stop meanwhile) (\<lambda>_. yolo_resting) (\<lambda>_. False)"
    unfolding yolo_stop_def
    by (rule valid_seq [OF ask], rule valid_seq [where R = "\<lambda>_. threads_ok"], rule valid_update, simp add: threads_run_ok,
        rule valid_update, simp add: yolo_resting_def cleared_ok, simp add: clear_fields_def)
qed

text \<open>
  C12. A task that cannot begin leaves nothing behind, in either sandbox. When the block of the
  coordinator that starts a new sandbox and sends the task raises, the Firecracker sandbox has
  released every resource it acquired (with no failure, when no release raises) and holds no
  handle, and the Yolo sandbox has no
  transport, no thread and no services; otherwise a machine is up with all its handles.
\<close>

theorem failed_start_leaves_nothing:
  assumes "steady env"
  shows "(case begin_task (fire_start (ledgered env) n session_id) (fire_send_task (ledgered env)) (fire_stop (ledgered env))
         task (new_fire (ledgered env) (w, [])) of
       (Done _, st) \<Rightarrow> up (handles st)
     | (Raised e, st) \<Rightarrow> idle (handles st) \<and> ledger st = {} \<and> (releasing env \<longrightarrow> failed st = {})
     | (Blocked, st) \<Rightarrow> True)
   \<and> (case begin_task (yolo_start session_id) (\<lambda>task. yolo_send_task yenv task during) (yolo_stop meanwhile)
         task (new_yolo u) of
       (Done _, st) \<Rightarrow> threads_ok st
     | (Raised e, st) \<Rightarrow> yo_host st = None \<and> yo_agent st = None \<and> yo_thread st = None \<and> yo_services st = None
     | (Blocked, st) \<Rightarrow> True)"
proof
  have new: "having idle (new_fire (ledgered env) (w, []))"
    by (simp add: tracked_def ledger_def handles_def new_fire_def idle_def)
  have empty: "having idle st \<Longrightarrow> ledger st = {}" for st :: "'a ledgered fire"
    by (auto simp: tracked_def idle_def)
  show "case begin_task (fire_start (ledgered env) n session_id) (fire_send_task (ledgered env)) (fire_stop (ledgered env))
         task (new_fire (ledgered env) (w, [])) of
       (Done _, st) \<Rightarrow> up (handles st)
     | (Raised e, st) \<Rightarrow> idle (handles st) \<and> ledger st = {} \<and> (releasing env \<longrightarrow> failed st = {})
     | (Blocked, st) \<Rightarrow> True"
    using valid_result [OF clean_begin_task new_clean [of env w], of n session_id task] valid_result [OF sandbox_lifecycle.begin_task_law [OF fire_lifecycle [OF assms, of n session_id], of task] new] empty
    by (auto simp: tracked_def clean_def split: prod.splits outcome.splits)
next
  have "yolo_resting (new_yolo u)" by (simp add: yolo_resting_def initial_ok) (simp add: new_yolo_def)
  from valid_result [OF yolo_life.begin_task_law [of session_id yenv during meanwhile task] this]
  show "case begin_task (yolo_start session_id) (\<lambda>task. yolo_send_task yenv task during) (yolo_stop meanwhile)
         task (new_yolo u) of
       (Done _, st) \<Rightarrow> threads_ok st
     | (Raised e, st) \<Rightarrow> yo_host st = None \<and> yo_agent st = None \<and> yo_thread st = None \<and> yo_services st = None
     | (Blocked, st) \<Rightarrow> True"
    by (auto simp: yolo_resting_def split: prod.splits outcome.splits)
qed

text \<open>A session whose name is refused, and secrets that cannot be read.\<close>

lemma refused_session:
  "fst (begin_task (fire_start (ledgered demo_fire_env) 2 (Some ''../x'')) (fire_send_task (ledgered demo_fire_env))
     (fire_stop (ledgered demo_fire_env)) task (new_fire (ledgered demo_fire_env) (0, [])))
   = Raised (Exn FirecrackerConfigError ''Invalid session_id format. Expected characters [a-zA-Z0-9-] only.'')"
proof -
  have "sanitize_session_id ''../x''
      = raise FirecrackerConfigError ''Invalid session_id format. Expected characters [a-zA-Z0-9-] only.''" by code_simp
  then show ?thesis
    by (simp add: begin_task_def fire_start_def is_running_def new_fire_def eval_effects give_def update_def from_res_def raise_def
        cong: lazy)
qed

lemma failed_start_leaves_nothing_witness:
  "(\<exists>e st. begin_task (fire_start (ledgered demo_fire_env) 2 (Some ''../x'')) (fire_send_task (ledgered demo_fire_env))
       (fire_stop (ledgered demo_fire_env)) [] (new_fire (ledgered demo_fire_env) (0, [])) = (Raised e, st)
       \<and> idle (handles st) \<and> ledger st = {})
   \<and> (\<exists>e st. begin_task (yolo_start None) (\<lambda>task. yolo_send_task (demo_yolo\<lparr>yv_secrets := throw SessionError ''no''\<rparr>) task []) (yolo_stop [])
       demo_yolo_task (new_yolo ()) = (Raised e, st) \<and> yo_host st = None \<and> yo_pairs st = 1)"
proof -
  let ?fire = "begin_task (fire_start (ledgered demo_fire_env) 2 (Some ''../x'')) (fire_send_task (ledgered demo_fire_env))
       (fire_stop (ledgered demo_fire_env)) [] (new_fire (ledgered demo_fire_env) (0, []))"
  let ?yolo = "begin_task (yolo_start None) (\<lambda>task. yolo_send_task (demo_yolo\<lparr>yv_secrets := throw SessionError ''no''\<rparr>) task []) (yolo_stop [])
       demo_yolo_task (new_yolo ())"
  have s: "steady demo_fire_env" by (simp add: steady_def demo_fire_env_def Let_def give_def)
  have f: "\<exists>e st. ?fire = (Raised e, st)" using refused_session [of "[]"] by (metis prod.collapse)
  have "fst ?yolo = Raised (Exn SessionError ''no'') \<and> yo_pairs (snd ?yolo) = 1" by code_simp
  then have y: "\<exists>e st. ?yolo = (Raised e, st) \<and> yo_pairs st = 1" by (metis prod.collapse)
  note claim = failed_start_leaves_nothing [OF s, where n = 2 and session_id = "Some ''../x''" and w = 0 and u = "()"]
  from f claim [of "[]"] have "\<exists>e st. ?fire = (Raised e, st) \<and> idle (handles st) \<and> ledger st = {}" by auto
  moreover have "\<exists>e st. ?yolo = (Raised e, st) \<and> yo_host st = None \<and> yo_pairs st = 1"
    using y failed_start_leaves_nothing [OF s, where session_id = None and task = demo_yolo_task and during = "[]" and meanwhile = "[]"
      and yenv = "demo_yolo\<lparr>yv_secrets := throw SessionError ''no''\<rparr>" and u = "()"] by auto
  ultimately show ?thesis by blast
qed

end
