(* ===== verification/Guest.thy ===== *)
theory Guest
  imports Subagents EffectLogic
begin

text \<open>
  The entry point inside the machine (\<open>main\<close> in \<open>agent/agent.py\<close>) and the opening and closing
  of the socket it talks through (\<open>VsockTransport\<close> in \<open>agent/transport.py\<close>). The socket calls,
  a service call over the open transport and the loop of the agent are operations of the world.
  Logging is not modelled.
\<close>

section \<open>The socket\<close>

datatype socket_address = UnixPath string | VsockPort int int

record 's guest_env =
  gv_af_unix :: int
  gv_af_vsock :: int
  gv_cid_any :: int
  gv_socket :: "int \<Rightarrow> ('s, unit) effect"
  gv_bind :: "socket_address \<Rightarrow> ('s, unit) effect"
  gv_listen :: "int \<Rightarrow> ('s, unit) effect"
  gv_accept :: "('s, unit) effect"
  gv_close_listener :: "('s, unit) effect"
  gv_setsockopt :: "int \<Rightarrow> ('s, unit) effect"
  gv_sendall :: "string \<Rightarrow> 's \<Rightarrow> string option \<times> 's"
  gv_close_conn :: "('s, unit) effect"
  gv_files :: "'s \<Rightarrow> fs"
  gv_agent :: "'s agent_env"
  gv_call :: "(string \<times> pyfloat) list \<Rightarrow> 's Tools.service_call"
  gv_run_forever :: "'s agent \<Rightarrow> ('s, unit) effect"

record 's link =
  lk_world :: 's
  lk_listener :: bool
  lk_closed :: bool

type_synonym ('s, 'a) gact = "('s link, 'a) effect"

definition linked :: "('s, 'a) effect \<Rightarrow> ('s, 'a) gact" where
  "linked f st = (case f (lk_world st) of (r, w) \<Rightarrow> (r, st\<lparr>lk_world := w\<rparr>))"

definition ignoring_OSError :: "('st, unit) effect \<Rightarrow> ('st, unit) effect" where
  "ignoring_OSError m = handle_exn (\<lambda>k. k \<in> {OSError, TimeoutError}) m (\<lambda>_. give ())"

definition accept_guest_connection :: "'s guest_env \<Rightarrow> int \<Rightarrow> int option \<Rightarrow> string option \<Rightarrow> ('s, unit) gact" where
  "accept_guest_connection env guest_port socket_family unix_socket_path =
     (let family = (case socket_family of None \<Rightarrow> gv_af_vsock env | Some f \<Rightarrow> f)
      in seq (linked (gv_socket env family)) (\<lambda>_.
         seq (update (\<lambda>st. st\<lparr>lk_listener := True\<rparr>)) (\<lambda>_.
         seq (if family = gv_af_unix env then
                (case unix_socket_path of
                   Some (c # p) \<Rightarrow> linked (gv_bind env (UnixPath (c # p)))
                 | _ \<Rightarrow> throw ValueError ''unix_socket_path is required when socket_family=AF_UNIX.'')
              else linked (gv_bind env (VsockPort (gv_cid_any env) guest_port))) (\<lambda>_.
         seq (linked (gv_listen env 1)) (\<lambda>_.
         seq (linked (gv_accept env)) (\<lambda>_.
         seq (linked (gv_close_listener env)) (\<lambda>_.
           update (\<lambda>st. st\<lparr>lk_listener := False\<rparr>))))))))"

text \<open>\<open>send\<close> on the open socket.\<close>

definition socket_send :: "'s guest_env \<Rightarrow> pydict \<Rightarrow> 's \<Rightarrow> unit res \<times> 's" where
  "socket_send env event w =
     (case encode_event event of
        Inl e \<Rightarrow> (Inl e, w)
      | Inr line \<Rightarrow>
          (case gv_sendall env line w of
             (None, w') \<Rightarrow> (Inr (), w')
           | (Some msg, w') \<Rightarrow> (raise RuntimeError (''Failed to send event on socket transport: '' @ msg), w')))"

definition link_send :: "'s guest_env \<Rightarrow> pydict \<Rightarrow> ('s, unit) gact" where
  "link_send env event = reading (\<lambda>st.
     if lk_closed st then throw RuntimeError ''Transport is closed.''
     else linked (\<lambda>w. case socket_send env event w of (r, w') \<Rightarrow> (outcome_of r, w')))"

definition agent_ready :: pydict where
  "agent_ready = dict_of [(''type'', VStr ''agent_ready'')]"

definition new_link :: "'s \<Rightarrow> 's link" where
  "new_link w = \<lparr>lk_world = w, lk_listener = False, lk_closed = False\<rparr>"

text \<open>\<open>VsockTransport.__init__\<close>; \<open>given\<close> tells whether a connected socket was given.\<close>

definition open_transport ::
    "'s guest_env \<Rightarrow> int \<Rightarrow> int \<Rightarrow> bool \<Rightarrow> int option \<Rightarrow> string option \<Rightarrow> ('s, unit) gact" where
  "open_transport env guest_port recv_buffer_size given socket_family unix_socket_path =
     (if guest_port \<le> 0 then throw ValueError ''guest_port must be greater than zero.''
      else if recv_buffer_size \<le> 0 then throw ValueError ''recv_buffer_size must be greater than zero.''
      else
        seq (if given then give () else accept_guest_connection env guest_port socket_family unix_socket_path) (\<lambda>_.
        seq (ignoring_OSError (linked (gv_setsockopt env recv_buffer_size))) (\<lambda>_.
          link_send env agent_ready)))"

definition close_transport :: "'s guest_env \<Rightarrow> ('s, unit) gact" where
  "close_transport env =
     seq (update (\<lambda>st. st\<lparr>lk_closed := True\<rparr>)) (\<lambda>_.
     seq (reading (\<lambda>st.
       if lk_listener st
       then seq (ignoring_OSError (linked (gv_close_listener env))) (\<lambda>_. update (\<lambda>st. st\<lparr>lk_listener := False\<rparr>))
       else give ())) (\<lambda>_.
       ignoring_OSError (linked (gv_close_conn env))))"

section \<open>The broker client\<close>

text \<open>\<open>BrokerClient.__init__\<close>: what each mode needs.\<close>

definition check_client :: "string \<Rightarrow> bool \<Rightarrow> bool \<Rightarrow> bool \<Rightarrow> unit res" where
  "check_client mode server send_fn receive_fn =
     bind_res (ensure (mode \<in> {''yolo'', ''fire''}) ValueError (''Unsupported broker client mode: '' @ mode)) (\<lambda>_.
     bind_res (ensure (mode \<noteq> ''yolo'' \<or> server) ValueError
                 ''BrokerClient yolo mode requires a HostServiceServer instance.'') (\<lambda>_.
       ensure (mode \<noteq> ''fire'' \<or> send_fn \<and> receive_fn) ValueError
         ''BrokerClient fire mode requires send_fn and receive_fn.''))"

section \<open>The entry point\<close>

record guest_args =
  gs_vsock_port :: "int option"
  gs_skills_dir :: string
  gs_max_iterations :: int
  gs_token_budget :: int
  gs_summary_threshold :: int
  gs_output_dir :: string
  gs_config_path :: path

text \<open>The defaults of \<open>_parse_args\<close>.\<close>

definition default_args :: guest_args where
  "default_args =
     \<lparr>gs_vsock_port = None, gs_skills_dir = ''/opt/strangeclaw/skills'', gs_max_iterations = 50, gs_token_budget = 4000,
      gs_summary_threshold = 10, gs_output_dir = ''/output'',
      gs_config_path = [''run'', ''strangeclaw'', ''config.json'']\<rparr>"

definition proxy_runtime :: "'s Tools.service_call \<Rightarrow> 's llm_runtime" where
  "proxy_runtime call =
     \<lparr>rt_complete = proxy_complete (call ''llm''), rt_count_tokens = proxy_count_tokens (call ''llm'')\<rparr>"

definition guest_agent :: "'s guest_env \<Rightarrow> guest_args \<Rightarrow> pydict \<Rightarrow> pyfloat \<Rightarrow> fs \<Rightarrow> 's agent res" where
  "guest_agent env args config llm_timeout f =
     (let call = gv_call env [(''_default'', FFin 60), (''broker'', FFin 60), (''llm'', llm_timeout)];
          ae = (gv_agent env)\<lparr>ae_broker := Some call\<rparr>
      in new_agent ae f
           \<lparr>aa_send = socket_send env, aa_skills_dir = gs_skills_dir args, aa_config = Some config,
            aa_max_iterations = gs_max_iterations args, aa_output_dir = ae_path ae (gs_output_dir args),
            aa_config_path = gs_config_path args, aa_token_budget = gs_token_budget args,
            aa_summary_threshold = gs_summary_threshold args, aa_max_output = 10 * 1024 * 1024,
            aa_runtime = Some (proxy_runtime call), aa_runner = None, aa_clarify = True, aa_timeout = None\<rparr>)"

definition guest_main :: "'s guest_env \<Rightarrow> guest_args \<Rightarrow> ('s, unit) gact" where
  "guest_main env args =
     (case gs_vsock_port args of
        None \<Rightarrow> throw ValueError ''Missing required --vsock-port for guest execution.''
      | Some port \<Rightarrow>
          seq (reading (\<lambda>st. from_res (load_agent_config_file (gs_config_path args) (gv_files env (lk_world st))))) (\<lambda>config.
          seq (from_res (validate_guest_proxy_config config (gs_config_path args))) (\<lambda>_.
          seq (open_transport env port (65 * 1024) False None None) (\<lambda>_.
            finally_do
              (seq (from_res (read_host_service_llm_timeout config)) (\<lambda>llm_timeout.
               seq (from_res (check_client ''fire'' False True True)) (\<lambda>_.
               seq (reading (\<lambda>st. from_res (guest_agent env args config llm_timeout (gv_files env (lk_world st))))) (\<lambda>a.
                 linked (gv_run_forever env a)))))
              (close_transport env)))))"

section \<open>Facts\<close>

text \<open>A configuration with a model of its own is refused before any socket is touched.\<close>

lemma guest_refuses_llm:
  assumes "load_agent_config_file (gs_config_path args) (gv_files env (lk_world st)) = Inr config" "dhas config ''llm''"
    and "gs_vsock_port args = Some port"
  shows "\<exists>e. guest_main env args st = (Raised e, st) \<and> exn_class e = AgentError"
  using assms
  by (simp add: guest_main_def seq_def reading_def from_res_def validate_guest_proxy_config_def agent_error_def raise_def)

lemma client_fire_ok: "check_client ''fire'' False True True = Inr ()"
  by (simp add: check_client_def)

text \<open>A transport that opens has announced the agent: what it sent is one line.\<close>

lemma open_connected:
  assumes "open_transport env port bufsize True fam path (new_link w) = (Done (), st)"
  shows "\<exists>w1 line. encode_event agent_ready = Inr line \<and> gv_sendall env line w1 = (None, lk_world st) \<and> \<not> lk_closed st"
proof -
  have quiet: "\<not> lk_closed s \<Longrightarrow> \<not> lk_closed (snd (ignoring_OSError (linked f) s))" for f and s :: "'a link"
    by (auto simp: ignoring_OSError_def linked_def handle_exn_def give_def split: prod.splits outcome.splits)
  obtain s where s: "ignoring_OSError (linked (gv_setsockopt env bufsize)) (new_link w) = (Done (), s)"
    and send: "link_send env agent_ready s = (Done (), st)"
    using assms unfolding open_transport_def
    by (auto simp: throw_def give_def elim!: seq_cases split: if_splits)
  have "\<not> lk_closed s" using quiet [of "new_link w"] s by (simp add: new_link_def) (metis snd_conv)
  with send show ?thesis
    by (auto simp: link_send_def reading_def linked_def socket_send_def raise_def split: prod.splits sum.splits option.splits)
qed

end
