(* ===== verification/ExitHandlers.thy ===== *)
theory ExitHandlers
  imports Prelude "HOL-Library.AList"
begin

text \<open>
  The exit handlers of \<open>FireSandbox\<close> in \<open>sandbox/fire.py\<close>. The table of signal handlers and the
  list of \<open>atexit\<close> belong to the process, so several sandboxes share them: a sandbox is known by
  a number here, and remembers the handlers it has replaced. \<open>main_thread\<close> tells whether the
  caller runs in the main thread: \<open>signal.signal\<close> raises anywhere else.
\<close>

datatype signal = SIGTERM | SIGINT

text \<open>
  What \<open>getsignal\<close> tells of a signal: nothing that Python installed (\<open>None\<close>), one of the two
  constants, a function, or \<open>_handle_exit_signal\<close> of a sandbox.
\<close>

datatype disposition = Foreign | SIG_DFL | SIG_IGN | Function string | Sandbox nat

record process =
  ps_table :: "signal \<Rightarrow> disposition"
  ps_atexit :: "nat list"
  ps_registered :: "nat \<Rightarrow> bool"
  ps_previous :: "nat \<Rightarrow> (signal \<times> disposition) list"
  ps_stopping :: "nat \<Rightarrow> bool"

fun is_callable :: "disposition \<Rightarrow> bool" where
  "is_callable (Function f) = True"
| "is_callable (Sandbox n) = True"
| "is_callable _ = False"

text \<open>\<open>signal.signal\<close>, with its exceptions swallowed as all callers do.\<close>

definition set_signal :: "bool \<Rightarrow> signal \<Rightarrow> disposition \<Rightarrow> process \<Rightarrow> process" where
  "set_signal main_thread sig d p =
     (if main_thread \<and> d \<noteq> Foreign then p\<lparr>ps_table := (ps_table p)(sig := d)\<rparr> else p)"

definition take_signal :: "bool \<Rightarrow> nat \<Rightarrow> signal \<Rightarrow> process \<Rightarrow> process" where
  "take_signal main_thread n sig p =
     set_signal main_thread sig (Sandbox n)
       (p\<lparr>ps_previous := (ps_previous p)(n := AList.update sig (ps_table p sig) (ps_previous p n))\<rparr>)"

definition register_exit_handlers :: "bool \<Rightarrow> nat \<Rightarrow> process \<Rightarrow> process" where
  "register_exit_handlers main_thread n p =
     (if ps_registered p n then p
      else
        take_signal main_thread n SIGINT (take_signal main_thread n SIGTERM
          (p\<lparr>ps_atexit := ps_atexit p @ [n], ps_registered := (ps_registered p)(n := True)\<rparr>)))"

fun give_back :: "bool \<Rightarrow> (signal \<times> disposition) list \<Rightarrow> process \<Rightarrow> process" where
  "give_back main_thread [] p = p"
| "give_back main_thread ((sig, d) # rest) p = give_back main_thread rest (set_signal main_thread sig d p)"

definition unregister_exit_handlers :: "bool \<Rightarrow> nat \<Rightarrow> process \<Rightarrow> process" where
  "unregister_exit_handlers main_thread n p =
     (let q = (if ps_registered p n
               then p\<lparr>ps_atexit := removeAll n (ps_atexit p), ps_registered := (ps_registered p)(n := False)\<rparr> else p);
          r = give_back main_thread (ps_previous q n) q
      in r\<lparr>ps_previous := (ps_previous r)(n := [])\<rparr>)"

text \<open>
  \<open>stop\<close>, as far as the handlers go: it returns at once when it is already stopping, and ends
  with the handlers given back. An exit handler runs in the main thread. What it calls after the
  stop is the handler the sandbox replaced, if it still knows one that can be called; comparing
  two bound methods with \<open>is not\<close> is always true.
\<close>

definition stop_handlers :: "bool \<Rightarrow> nat \<Rightarrow> process \<Rightarrow> process" where
  "stop_handlers main_thread n p =
     (if ps_stopping p n then p else unregister_exit_handlers main_thread n p)"

definition handle_exit_signal :: "nat \<Rightarrow> signal \<Rightarrow> process \<Rightarrow> disposition option \<times> process" where
  "handle_exit_signal n sig p =
     (let q = stop_handlers True n p
      in (case map_of (ps_previous q n) sig of
            Some d \<Rightarrow> if is_callable d then Some d else None
          | None \<Rightarrow> None, q))"

text \<open>
  A signal arrives: the functions it calls in turn, through the sandboxes that pass it on. The
  first argument bounds how many.
\<close>

fun deliver_signal :: "nat \<Rightarrow> signal \<Rightarrow> disposition \<Rightarrow> process \<Rightarrow> disposition list \<times> process" where
  "deliver_signal 0 sig d p = ([], p)"
| "deliver_signal (Suc k) sig d p =
     (case d of
        Sandbox n \<Rightarrow>
          (case handle_exit_signal n sig p of
             (None, q) \<Rightarrow> ([Sandbox n], q)
           | (Some d', q) \<Rightarrow> (case deliver_signal k sig d' q of (ds, r) \<Rightarrow> (Sandbox n # ds, r)))
      | _ \<Rightarrow> ([d], p))"

section \<open>Facts\<close>

lemma set_signal_fields [simp]:
  "ps_previous (set_signal b sig d p) = ps_previous p" "ps_atexit (set_signal b sig d p) = ps_atexit p"
  "ps_registered (set_signal b sig d p) = ps_registered p" "ps_stopping (set_signal b sig d p) = ps_stopping p"
  by (simp_all add: set_signal_def)

lemma give_back_fields [simp]:
  "ps_previous (give_back b xs p) = ps_previous p" "ps_atexit (give_back b xs p) = ps_atexit p"
  "ps_registered (give_back b xs p) = ps_registered p" "ps_stopping (give_back b xs p) = ps_stopping p"
  by (induction b xs p rule: give_back.induct) simp_all

lemma give_back_off_main [simp]: "give_back False xs p = p"
  by (induction "False" xs p rule: give_back.induct) (simp_all add: set_signal_def)

lemma unregister_forgets: "ps_previous (unregister_exit_handlers b n p) n = []"
  by (simp add: unregister_exit_handlers_def Let_def)

text \<open>
  A sandbox that takes its handlers in the main thread and gives them back there, whatever
  happened in between as long as it left the handlers as they were, leaves the process as it
  found it: every signal handler and the list of \<open>atexit\<close>.
\<close>

theorem handlers_given_back:
  assumes "\<not> ps_registered p n" "ps_previous p n = []" "n \<notin> set (ps_atexit p)"
    and "ps_table p SIGTERM \<noteq> Foreign" "ps_table p SIGINT \<noteq> Foreign"
  shows "unregister_exit_handlers True n (register_exit_handlers True n p) = p"
proof -
  have "(ps_table p)(SIGTERM := ps_table p SIGTERM, SIGINT := ps_table p SIGINT) = ps_table p" by simp
  with assms show ?thesis
    by (cases p)
       (simp add: unregister_exit_handlers_def register_exit_handlers_def take_signal_def set_signal_def Let_def fun_eq_iff
         removeAll_append)
qed

text \<open>
  C39. A signal is passed on only while \<open>stop\<close> is already running. Otherwise, whatever handler
  the sandbox replaced (Python's own for \<open>SIGINT\<close> raises \<open>KeyboardInterrupt\<close>), its exit handler
  stops the sandbox, which forgets the handler before it is looked up, so nothing else is
  called and the program goes on. A signal that arrives during a \<open>stop\<close> finds the handler still
  remembered, and calls it when it is a function.
\<close>

theorem exit_signal_swallowed:
  shows "fst (handle_exit_signal n sig p)
      = (if ps_stopping p n
         then (case map_of (ps_previous p n) sig of Some d \<Rightarrow> if is_callable d then Some d else None | None \<Rightarrow> None)
         else None)
    \<and> (\<not> ps_stopping p n \<longrightarrow> fst (deliver_signal (Suc k) sig (Sandbox n) p) = [Sandbox n])"
  by (simp add: handle_exit_signal_def stop_handlers_def unregister_forgets split: prod.split)

text \<open>
  C40. When a sandbox that took its handlers in the main thread is stopped by another thread, as
  the idle reaper does, both signals stay with the stopped sandbox, and from then on every one
  of them is swallowed and changes nothing.
\<close>

theorem signals_lost_off_main_thread:
  assumes "\<not> ps_registered p n" "\<not> ps_stopping p n"
  shows "ps_table (stop_handlers False n (register_exit_handlers True n p)) sig = Sandbox n
    \<and> deliver_signal (Suc k) sig (Sandbox n) (stop_handlers False n (register_exit_handlers True n p))
        = ([Sandbox n], stop_handlers False n (register_exit_handlers True n p))"
proof -
  define q where "q = stop_handlers False n (register_exit_handlers True n p)"
  have t: "ps_table q sig = Sandbox n" and s: "\<not> ps_stopping q n" "ps_previous q n = []" "\<not> ps_registered q n"
    using assms unfolding q_def
    by (cases sig; simp add: stop_handlers_def unregister_exit_handlers_def register_exit_handlers_def take_signal_def
        set_signal_def Let_def)+
  from s have "handle_exit_signal n sig q = (None, q)"
    by (simp add: handle_exit_signal_def stop_handlers_def unregister_exit_handlers_def Let_def fun_upd_idem)
  with t show ?thesis unfolding q_def by simp
qed

text \<open>A process as Python starts it, with two sandboxes.\<close>

definition demo_process :: process where
  "demo_process =
     \<lparr>ps_table = (\<lambda>sig. if sig = SIGINT then Function ''default_int_handler'' else SIG_DFL), ps_atexit = [],
      ps_registered = (\<lambda>_. False), ps_previous = (\<lambda>_. []), ps_stopping = (\<lambda>_. False)\<rparr>"

lemma handlers_given_back_witness:
  "unregister_exit_handlers True 0 (register_exit_handlers True 0 demo_process) = demo_process"
  by (rule handlers_given_back) (simp_all add: demo_process_def)

lemma exit_signal_swallowed_witness:
  "ps_table (register_exit_handlers True 0 demo_process) SIGINT = Sandbox 0
    \<and> fst (deliver_signal 5 SIGINT (Sandbox 0) (register_exit_handlers True 0 demo_process)) = [Sandbox 0]
    \<and> fst (handle_exit_signal 0 SIGINT
        ((register_exit_handlers True 0 demo_process)\<lparr>ps_stopping := (\<lambda>_. True)\<rparr>))
      = Some (Function ''default_int_handler'')"
proof -
  let ?p = "(register_exit_handlers True 0 demo_process)\<lparr>ps_stopping := (\<lambda>_. True)\<rparr>"
  have "map_of (ps_previous ?p 0) SIGINT = Some (Function ''default_int_handler'')"
    by (simp add: register_exit_handlers_def take_signal_def set_signal_def demo_process_def)
  then have "fst (handle_exit_signal 0 SIGINT ?p) = Some (Function ''default_int_handler'')"
    using exit_signal_swallowed [of 0 SIGINT ?p] by simp
  moreover have "ps_table (register_exit_handlers True 0 demo_process) SIGINT = Sandbox 0"
      "\<not> ps_stopping (register_exit_handlers True 0 demo_process) 0"
    by (simp_all add: register_exit_handlers_def take_signal_def set_signal_def demo_process_def)
  moreover from this(2) have
      "fst (deliver_signal 5 SIGINT (Sandbox 0) (register_exit_handlers True 0 demo_process)) = [Sandbox 0]"
    using exit_signal_swallowed [of 0 SIGINT "register_exit_handlers True 0 demo_process" 4]
    by (simp add: numeral_eq_Suc)
  ultimately show ?thesis by blast
qed

lemma signals_lost_off_main_thread_witness:
  "ps_table (stop_handlers False 0 (register_exit_handlers True 0 demo_process)) SIGTERM = Sandbox 0"
proof -
  have "\<not> ps_registered demo_process 0" "\<not> ps_stopping demo_process 0" by (simp_all add: demo_process_def)
  from signals_lost_off_main_thread [OF this, of SIGTERM] show ?thesis by simp
qed

text \<open>
  Two sandboxes that stop in the order they started: the first one takes the handlers from the
  second one, and then the second one hands them to the first one, which has stopped.
\<close>

lemma crossed_order:
  "ps_table (unregister_exit_handlers True 0 (register_exit_handlers True 1 (register_exit_handlers True 0 demo_process))) SIGTERM = SIG_DFL"
  "ps_table (unregister_exit_handlers True 1 (unregister_exit_handlers True 0
     (register_exit_handlers True 1 (register_exit_handlers True 0 demo_process)))) SIGTERM = Sandbox 0"
  by (simp_all add: register_exit_handlers_def unregister_exit_handlers_def take_signal_def set_signal_def Let_def demo_process_def)

end
