(* ===== verification/Program.thy ===== *)
theory Program
  imports Cli Telegram Yolo Config FireConfig Coordinator
begin

text \<open>
  \<open>main.py\<close>: from the configuration file to the sandboxes, the coordinator and the adapters, and
  the run of the adapters until everything is stopped. \<open>argparse\<close> is not modelled: \<open>resume\<close> is
  the text given with \<open>--resume\<close>. An object that is built is represented by what it was given.
\<close>

section \<open>Sandboxes\<close>

datatype sandbox_factory = YoloFactory pydict | FireFactory fire_config pydict

definition build_sandbox_factory :: "path_env \<Rightarrow> pydict \<Rightarrow> sandbox_factory res" where
  "build_sandbox_factory env config =
     (let mode = dget config ''mode''
      in if mode = VStr ''yolo'' then Inr (YoloFactory config)
         else if mode = VStr ''fire''
         then bind_res (load_firecracker_config env config) (\<lambda>fc. Inr (FireFactory fc config))
         else raise ValueError (''Unsupported mode: '' @ py_str mode))"

text \<open>What a call of the factory builds: the settings of a sandbox, or its template and host part.\<close>

datatype sandbox_object = YoloObject yolo_settings | FireObject fire_config pydict

definition make_sandbox :: "sandbox_factory \<Rightarrow> sandbox_object res" where
  "make_sandbox factory =
     (case factory of
        YoloFactory config \<Rightarrow>
          bind_res (new_yolo_settings (Some config) ''./skills'' 50 ''/output'' 4000 10) (\<lambda>s. Inr (YoloObject s))
      | FireFactory fc config \<Rightarrow>
          bind_res (coerce_agent_config_template None (Some config)) (\<lambda>template. Inr (FireObject fc template)))"

section \<open>Reading the configuration\<close>

definition must_be :: "string \<Rightarrow> string \<Rightarrow> 'a res" where
  "must_be field what = raise ValueError (''Config field '' @ field @ '' must be '' @ what)"

definition enabled_adapters :: "pydict \<Rightarrow> string list res" where
  "enabled_adapters config =
     (case dget config ''adapters'' of
        VDict d \<Rightarrow>
          (case dget d ''enabled'' of
             VList xs \<Rightarrow>
               let names = filter (\<lambda>s. s \<noteq> []) (map (\<lambda>x. strip (py_str x)) xs)
               in if names = [] then raise ValueError ''Config field adapters.enabled cannot be empty.'' else Inr names
           | _ \<Rightarrow> must_be ''adapters.enabled'' ''a list.'')
      | _ \<Rightarrow> must_be ''adapters'' ''a mapping.'')"

record telegram_params =
  tp_token :: string
  tp_allowed :: "int list"
  tp_max_total :: int
  tp_max_file :: int
  tp_prefix :: string

definition telegram_adapter_config :: "pydict \<Rightarrow> bool \<Rightarrow> telegram_params res" where
  "telegram_adapter_config config multi_adapter_mode =
     (case dget_or config ''telegram'' (VDict []) of
        VDict d \<Rightarrow>
          bind_res (case dget_or d ''allowed_chat_ids'' (VList []) of
                      VNone \<Rightarrow> Inr []
                    | VList ids \<Rightarrow> map_res py_int ids
                    | _ \<Rightarrow> must_be ''telegram.allowed_chat_ids'' ''a list when provided.'') (\<lambda>allowed.
          bind_res (ensure (truthy (dget_or d ''local_mode'' (VBool True)) \<or> allowed \<noteq> []) ValueError
                      ''telegram.allowed_chat_ids must be configured when telegram.local_mode is false.'') (\<lambda>_.
          bind_res (py_int (dget_or d ''max_output_total_bytes'' (VInt (50 * 1024 * 1024)))) (\<lambda>total.
          bind_res (py_int (dget_or d ''max_output_file_bytes'' (VInt (10 * 1024 * 1024)))) (\<lambda>file.
            Inr \<lparr>tp_token = py_str (dget_or d ''token'' (VStr [])), tp_allowed = allowed, tp_max_total = total,
                 tp_max_file = file, tp_prefix = (if multi_adapter_mode then ''telegram-'' else [])\<rparr>))))
      | _ \<Rightarrow> must_be ''telegram'' ''a mapping.'')"

definition coordinator_max_active_sessions :: "pydict \<Rightarrow> int option res" where
  "coordinator_max_active_sessions config =
     (case dget config ''coordinator'' of
        VNone \<Rightarrow> Inr None
      | VDict d \<Rightarrow>
          if dget d ''max_active_sessions'' = VNone then Inr None
          else
            bind_res (py_int (dget d ''max_active_sessions'')) (\<lambda>n.
              if n \<le> 0 then raise ValueError ''coordinator.max_active_sessions must be greater than zero.''
              else Inr (Some n))
      | _ \<Rightarrow> must_be ''coordinator'' ''a mapping.'')"

definition session_journal_config :: "pydict \<Rightarrow> pydict res" where
  "session_journal_config config =
     (case dget_or config ''session_journal'' (VDict []) of
        VDict d \<Rightarrow>
          bind_res (py_int (dget_or d ''max_bytes'' (VInt (1 * 1024 * 1024)))) (\<lambda>n.
            Inr (dict_of [(''enabled'', VBool (truthy (dget_or d ''enabled'' (VBool False)))), (''max_bytes'', VInt n)]))
      | _ \<Rightarrow> must_be ''session_journal'' ''a mapping.'')"

definition fire_lifecycle_status_messages_enabled :: "pydict \<Rightarrow> bool res" where
  "fire_lifecycle_status_messages_enabled config =
     (case dget_or config ''firecracker'' (VDict []) of
        VDict d \<Rightarrow>
          (case dget_or d ''lifecycle_status_messages'' (VBool True) of
             VBool b \<Rightarrow> Inr b
           | _ \<Rightarrow> must_be ''firecracker.lifecycle_status_messages'' ''a boolean.'')
      | _ \<Rightarrow> must_be ''firecracker'' ''a mapping.'')"

definition session_idle_timeout_seconds :: "pydict \<Rightarrow> int res" where
  "session_idle_timeout_seconds config =
     (case dget_or config ''firecracker'' (VDict []) of
        VDict d \<Rightarrow>
          (let v = dget_or d ''session_idle_timeout_seconds'' (VInt 1800)
           in if is_VBool v then must_be ''firecracker.session_idle_timeout_seconds'' ''an integer.''
              else
                bind_res (py_int v) (\<lambda>n.
                  if n < 0 then must_be ''firecracker.session_idle_timeout_seconds'' ''greater than or equal to zero.''
                  else Inr n))
      | _ \<Rightarrow> must_be ''firecracker'' ''a mapping.'')"

section \<open>Adapters\<close>

datatype adapter =
    CliAdapter string pydict "string option" "pydict option"
  | TelegramAdapter string pydict telegram_params

text \<open>\<open>pm_child\<close> is the operator \<open>/\<close> of \<open>pathlib\<close>.\<close>

record program_env =
  pm_config :: config_env
  pm_paths :: path_env
  pm_home :: path
  pm_child :: "path \<Rightarrow> string \<Rightarrow> path"

definition resuming :: "string option \<Rightarrow> bool" where
  "resuming resume = (case resume of None \<Rightarrow> False | Some s \<Rightarrow> s \<noteq> [])"

text \<open>\<open>llm\<close> and \<open>approval_mode\<close> are there: \<open>load_config\<close> has checked it.\<close>

definition approval_of :: "pydict \<Rightarrow> string" where
  "approval_of config = py_str (dget config ''approval_mode'')"

definition llm_of :: "pydict \<Rightarrow> pydict" where
  "llm_of config = as_dict (dget config ''llm'')"

definition build_adapter :: "program_env \<Rightarrow> fs \<Rightarrow> pydict \<Rightarrow> string option \<Rightarrow> bool \<Rightarrow> string \<Rightarrow> adapter res" where
  "build_adapter env f config resume multi_adapter_mode name =
     (if name = ''cli'' then
        bind_res
          (case resume of
             Some sid \<Rightarrow>
               if sid = [] then Inr None
               else
                 bind_res (session_load (pm_child env (pm_home env @ [''.strangeclaw'', ''sessions'']) sid) f) (\<lambda>state.
                   if state = None then raise ValueError (''Cannot resume: session state not found for '' @ sid)
                   else Inr state)
           | None \<Rightarrow> Inr None) (\<lambda>state.
        Inr (CliAdapter (approval_of config) (llm_of config) resume state))
      else if name = ''telegram'' then
        (if resuming resume then raise ValueError ''Resume is only supported with the cli adapter.''
         else
           bind_res (telegram_adapter_config config multi_adapter_mode) (\<lambda>params.
             Inr (TelegramAdapter (approval_of config) (llm_of config) params)))
      else raise ValueError (''Unsupported adapter: '' @ name))"

record program =
  pr_factory :: sandbox_factory
  pr_coordinator :: coord_cfg
  pr_adapters :: "(string \<times> adapter) list"

definition build_coordinator :: "program_env \<Rightarrow> pydict \<Rightarrow> coord_cfg res" where
  "build_coordinator env config =
     bind_res (coordinator_max_active_sessions config) (\<lambda>max_active.
     bind_res (session_journal_config config) (\<lambda>journal.
     bind_res (fire_lifecycle_status_messages_enabled config) (\<lambda>fire_status.
     bind_res (session_idle_timeout_seconds config) (\<lambda>idle.
       new_coordinator (pm_home env) (approval_of config) max_active (Some journal) fire_status (VInt idle) 60))))"

text \<open>
  \<open>main\<close> up to the adapters it has created. The first message has a long dash (U+2014), which
  is no character of the model and is written as a hyphen.
\<close>

definition prepare :: "program_env \<Rightarrow> fs \<Rightarrow> string option \<Rightarrow> program res" where
  "prepare env f resume =
     bind_res (load_config (pm_config env) None) (\<lambda>config.
     bind_res (ensure (\<not> (dget config ''mode'' = VStr ''fire'' \<and> resuming resume)) ValueError
                 (''Cannot resume Fire mode sessions - VM filesystem is ephemeral. '' @ ''Start a new session.'')) (\<lambda>_.
     bind_res (build_sandbox_factory (pm_paths env) config) (\<lambda>factory.
     bind_res (enabled_adapters config) (\<lambda>names.
     bind_res (case filter (\<lambda>n. n \<notin> {''cli'', ''telegram''}) names of
                 [] \<Rightarrow> Inr ()
               | n # _ \<Rightarrow> raise ValueError (''Unsupported adapter: '' @ n)) (\<lambda>_.
     bind_res (ensure (\<not> (resuming resume \<and> 1 < length names)) ValueError
                 ''Resume cannot be used when multiple adapters are enabled.'') (\<lambda>_.
     bind_res (build_coordinator env config) (\<lambda>c.
     bind_res (map_res (build_adapter env f config resume (1 < length names)) names) (\<lambda>adapters.
       Inr \<lparr>pr_factory = factory, pr_coordinator = c, pr_adapters = zip names adapters\<rparr>))))))))"

text \<open>The first adapter on the terminal runs in the foreground, otherwise the first of all.\<close>

fun first_cli :: "nat \<Rightarrow> (string \<times> adapter) list \<Rightarrow> nat" where
  "first_cli n [] = 0"
| "first_cli n ((name, a) # rest) = (if name = ''cli'' then n else first_cli (Suc n) rest)"

definition foreground_index :: "(string \<times> adapter) list \<Rightarrow> nat" where
  "foreground_index created = first_cli 0 created"

section \<open>The run\<close>

text \<open>
  The operations on the adapter with an index: starting its thread, running it here, stopping it,
  and waiting for its thread. The state lists the adapters whose threads were started.
\<close>

record 's running_env =
  rn_start :: "nat \<Rightarrow> ('s, unit) effect"
  rn_run :: "nat \<Rightarrow> ('s, unit) effect"
  rn_stop :: "nat \<Rightarrow> ('s, unit) effect"
  rn_stop_all :: "('s, unit) effect"
  rn_join :: "nat \<Rightarrow> ('s, unit) effect"

record 's prog =
  pg_world :: 's
  pg_background :: "nat list"

type_synonym ('s, 'a) pact = "('s prog, 'a) effect"

definition acting :: "('s, 'a) effect \<Rightarrow> ('s, 'a) pact" where
  "acting f st = (case f (pg_world st) of (r, w) \<Rightarrow> (r, st\<lparr>pg_world := w\<rparr>))"

fun each :: "('a \<Rightarrow> ('st, unit) effect) \<Rightarrow> 'a list \<Rightarrow> ('st, unit) effect" where
  "each f [] = give ()"
| "each f (x # xs) = seq (f x) (\<lambda>_. each f xs)"

definition start_adapter :: "'s running_env \<Rightarrow> nat \<Rightarrow> ('s, unit) pact" where
  "start_adapter env i =
     seq (acting (rn_start env i)) (\<lambda>_. update (\<lambda>st. st\<lparr>pg_background := pg_background st @ [i]\<rparr>))"

text \<open>\<open>KeyboardInterrupt\<close> is no \<open>Exception\<close>. Both adapters have a \<open>stop\<close>.\<close>

definition stop_adapter :: "'s running_env \<Rightarrow> nat \<Rightarrow> ('s, unit) pact" where
  "stop_adapter env i = handle_exn is_exception (acting (rn_stop env i)) (\<lambda>_. give ())"

definition run_program :: "'s running_env \<Rightarrow> nat \<Rightarrow> nat \<Rightarrow> ('s, unit) pact" where
  "run_program env count foreground =
     finally_do
       (handle_exn (\<lambda>k. \<not> is_exception k)
          (seq (each (start_adapter env) (filter (\<lambda>i. i \<noteq> foreground) [0..<count])) (\<lambda>_.
             acting (rn_run env foreground)))
          (\<lambda>_. give ()))
       (reading (\<lambda>st.
          seq (each (stop_adapter env) (pg_background st)) (\<lambda>_.
          seq (acting (rn_stop_all env)) (\<lambda>_.
          seq (each (stop_adapter env) [0..<count]) (\<lambda>_.
            each (\<lambda>i. acting (rn_join env i)) (pg_background st))))))"

definition main :: "program_env \<Rightarrow> (program \<Rightarrow> 's running_env) \<Rightarrow> fs \<Rightarrow> string option \<Rightarrow> ('s, unit) pact" where
  "main env operations f resume =
     (case prepare env f resume of
        Inl e \<Rightarrow> (\<lambda>st. (Raised e, st))
      | Inr p \<Rightarrow>
          run_program (operations p) (length (pr_adapters p)) (foreground_index (pr_adapters p)))"

section \<open>What the loader accepts, the program can use\<close>

lemma loaded_sections:
  assumes "load_config env path = Inr config"
  shows "\<exists>c. run_sections config_sections c = Inr config"
proof -
  obtain resolved source where "(case resolved of
       VDict c \<Rightarrow> bind_res (validate_required_fields c source) (\<lambda>_. validate_optional_fields c)
     | _ \<Rightarrow> config_error (''Config file '' @ source @ '' must contain a top-level mapping.'')) = Inr config"
    using assms unfolding load_config_def bind_res_eq_Inr by blast
  then show ?thesis
    by (cases resolved) (auto simp: validate_optional_fields_def bind_res_eq_Inr config_error_def raise_def)
qed

text \<open>
  C22. Every configuration the loader accepts is one the coordinator can be built from: none of
  the readers of \<open>main\<close> refuses it, and the limits the coordinator works with are the validated
  ones: at least one session, a journal of at least one byte, a timeout that is not negative.
\<close>

theorem accepted_config_builds_coordinator:
  assumes "load_config (pm_config env) path = Inr config"
  shows "\<exists>c n. build_coordinator env config = Inr c
     \<and> c_approval_mode c = approval_of config \<and> c_home c = pm_home env
     \<and> c_max_active c = Some n \<and> 0 < n \<and> dget (as_dict (dget config ''coordinator'')) ''max_active_sessions'' = VInt n
     \<and> 0 < c_journal_max_bytes c \<and> dget (as_dict (dget config ''session_journal'')) ''max_bytes'' = VInt (c_journal_max_bytes c)
     \<and> dget (as_dict (dget config ''session_journal'')) ''enabled'' = VBool (c_journal_enabled c)
     \<and> dget (as_dict (dget config ''firecracker'')) ''lifecycle_status_messages'' = VBool (c_fire_status c)
     \<and> 0 \<le> c_idle_timeout c \<and> dget (as_dict (dget config ''firecracker'')) ''session_idle_timeout_seconds'' = VInt (c_idle_timeout c)"
proof -
  obtain c0 where c0: "run_sections config_sections c0 = Inr config"
    using loaded_sections [OF assms] by blast
  have there: "(''coordinator'', coordinator_fields) \<in> set config_sections" "(''session_journal'', session_journal_fields) \<in> set config_sections"
    "(''firecracker'', firecracker_fields) \<in> set config_sections"
    by (simp_all add: config_sections_def)
  obtain d1 n where coordinator: "dlookup config ''coordinator'' = Some (VDict d1)" "dlookup d1 ''max_active_sessions'' = Some (VInt n)" "0 < n"
    using section_value(1,3) [OF c0 there(1)] by (auto elim: coordinator_shape)
  obtain d2 b m where journal: "dlookup config ''session_journal'' = Some (VDict d2)" "dlookup d2 ''enabled'' = Some (VBool b)"
      "dlookup d2 ''max_bytes'' = Some (VInt m)" "0 < m"
    using section_value(1,3) [OF c0 there(2)] by (auto elim: session_journal_shape)
  obtain d3 k t where fire: "dlookup config ''firecracker'' = Some (VDict d3)" "dlookup d3 ''lifecycle_status_messages'' = Some (VBool k)"
      "dlookup d3 ''session_idle_timeout_seconds'' = Some (VInt t)" "0 \<le> t"
    using section_value(1,3) [OF c0 there(3)] by (auto elim!: firecracker_shape)
  have readers: "coordinator_max_active_sessions config = Inr (Some n)"
      "session_journal_config config = Inr (dict_of [(''enabled'', VBool b), (''max_bytes'', VInt m)])"
      "fire_lifecycle_status_messages_enabled config = Inr k" "session_idle_timeout_seconds config = Inr t"
    using coordinator journal fire
    by (simp_all add: coordinator_max_active_sessions_def session_journal_config_def fire_lifecycle_status_messages_enabled_def
        session_idle_timeout_seconds_def dget_def dget_or_def)
  have "build_coordinator env config
      = Inr \<lparr>c_approval_mode = approval_of config, c_max_active = Some n, c_journal_enabled = b, c_journal_max_bytes = m,
             c_fire_status = k, c_idle_timeout = t, c_home = pm_home env\<rparr>"
    using coordinator(3) fire(4) by (simp add: build_coordinator_def readers new_coordinator_def dget_or_def)
  then show ?thesis
    using coordinator journal fire by (simp add: dget_def dget_or_def)
qed

definition demo_program_env :: program_env where
  "demo_program_env =
     \<lparr>pm_config = demo_config_env (VInt 30), pm_paths = \<lparr>pe_expanduser = id, pe_exists = (\<lambda>p. True), pe_is_file = (\<lambda>p. True),
        pe_executable = (\<lambda>p. True), pe_resolve = id\<rparr>, pm_home = [''h''], pm_child = (\<lambda>d s. d @ [s])\<rparr>"

lemma accepted_config_builds_coordinator_witness:
  "\<exists>c. load_config (demo_config_env (VInt 30)) None = Inr (demo_config (VInt 30))
     \<and> build_coordinator demo_program_env (demo_config (VInt 30)) = Inr c \<and> c_approval_mode c = approval_of (demo_config (VInt 30))
     \<and> 0 \<le> c_idle_timeout c"
proof -
  have l: "load_config (pm_config demo_program_env) None = Inr (demo_config (VInt 30))"
    using demo_config_loads(1) by (simp add: demo_program_env_def)
  show ?thesis
    using accepted_config_builds_coordinator [OF l] demo_config_loads(1) by blast
qed

text \<open>The whole program, from that configuration file to its parts.\<close>

lemma demo_prepared:
  "case prepare demo_program_env (\<lambda>_. None) None of
     Inl e \<Rightarrow> False
   | Inr p \<Rightarrow> map fst (pr_adapters p) = [''cli''] \<and> c_max_active (pr_coordinator p) = Some 8
       \<and> is_ok (make_sandbox (pr_factory p)) \<and> foreground_index (pr_adapters p) = 0"
  by code_simp

section \<open>Nothing is left running\<close>

text \<open>
  What was asked of the surroundings, with the operations recorded: a thread when it was
  started, every other operation when it is called.
\<close>

datatype request = StartThread nat | RunAdapter nat | StopAdapter nat | StopAll | JoinThread nat

definition noted :: "request \<Rightarrow> ('s, unit) effect \<Rightarrow> ('s \<times> request list, unit) effect" where
  "noted q f w = (case f (fst w) of (r, s) \<Rightarrow> (r, (s, snd w @ [q])))"

definition noted_done :: "request \<Rightarrow> ('s, unit) effect \<Rightarrow> ('s \<times> request list, unit) effect" where
  "noted_done q f w = (case f (fst w) of (r, s) \<Rightarrow> (r, (s, if r = Done () then snd w @ [q] else snd w)))"

definition recorded_env :: "'s running_env \<Rightarrow> ('s \<times> request list) running_env" where
  "recorded_env env =
     \<lparr>rn_start = (\<lambda>i. noted_done (StartThread i) (rn_start env i)), rn_run = (\<lambda>i. noted (RunAdapter i) (rn_run env i)),
      rn_stop = (\<lambda>i. noted (StopAdapter i) (rn_stop env i)), rn_stop_all = noted StopAll (rn_stop_all env),
      rn_join = (\<lambda>i. noted (JoinThread i) (rn_join env i))\<rparr>"

text \<open>\<open>Coordinator.stop_all\<close> and \<open>Thread.join\<close> raise nothing, and \<open>stop\<close> at most an \<open>Exception\<close>.\<close>

definition orderly :: "'s running_env \<Rightarrow> bool" where
  "orderly env \<longleftrightarrow>
     (\<forall>w i e. fst (rn_stop env i w) = Raised e \<longrightarrow> is_exception (exn_class e))
     \<and> (\<forall>w e. fst (rn_stop_all env w) \<noteq> Raised e) \<and> (\<forall>w i e. fst (rn_join env i w) \<noteq> Raised e)"

abbreviation log_of :: "('s \<times> request list) prog \<Rightarrow> request list" where
  "log_of st \<equiv> snd (pg_world st)"

text \<open>The state after a noted operation: the log is longer by it.\<close>

definition logs_more :: "request list \<Rightarrow> ('s \<times> request list, unit) pact \<Rightarrow> bool" where
  "logs_more qs m = (\<forall>l b. valid (\<lambda>st. log_of st = l \<and> pg_background st = b) m
     (\<lambda>_ st. log_of st = l @ qs \<and> pg_background st = b) (\<lambda>_. False))"

lemma logs_more_seq: "logs_more xs m \<Longrightarrow> logs_more ys m' \<Longrightarrow> logs_more (xs @ ys) (seq m (\<lambda>_. m'))"
proof -
  assume a: "logs_more xs m" "logs_more ys m'"
  show ?thesis
    unfolding logs_more_def append_assoc [symmetric]
    using a unfolding logs_more_def by (blast intro: valid_seq)
qed

lemma logs_more_each: "(\<And>x. logs_more [q x] (f x)) \<Longrightarrow> logs_more (map q xs) (each f xs)"
proof (induction xs)
  case Nil
  show ?case by (simp add: logs_more_def valid_give)
next
  case (Cons x xs)
  then show ?case using logs_more_seq [of "[q x]" "f x" "map q xs" "each f xs"] by simp
qed

lemma orderly_logs:
  assumes "orderly env"
  shows "logs_more [StopAdapter i] (stop_adapter (recorded_env env) i)" "logs_more [StopAll] (acting (rn_stop_all (recorded_env env)))"
    "logs_more [JoinThread i] (acting (rn_join (recorded_env env) i))"
  using assms
  by (auto simp: logs_more_def valid_def stop_adapter_def acting_def recorded_env_def noted_def handle_exn_def give_def orderly_def
      split: prod.splits outcome.splits) (metis fst_conv)+

text \<open>
  Up to the closing part: the threads started are the ones remembered, a first part of the
  adapters in the background in their order, and the adapter in the foreground runs only when
  all of them were started.
\<close>

definition started_all :: "nat list \<Rightarrow> ('s \<times> request list) prog \<Rightarrow> bool" where
  "started_all is st \<longleftrightarrow> pg_background st = is \<and> log_of st = map StartThread is"

definition start_failed :: "nat list \<Rightarrow> ('s \<times> request list) prog \<Rightarrow> bool" where
  "start_failed is st \<longleftrightarrow> (\<exists>i rest. is = pg_background st @ i # rest) \<and> log_of st = map StartThread (pg_background st)"

definition begun :: "nat list \<Rightarrow> nat \<Rightarrow> ('s \<times> request list) prog \<Rightarrow> bool" where
  "begun is foreground st \<longleftrightarrow> start_failed is st
     \<or> pg_background st = is \<and> log_of st = map StartThread is @ [RunAdapter foreground]"

lemma start_one:
  "valid (started_all js) (start_adapter (recorded_env env) i) (\<lambda>_. started_all (js @ [i])) (start_failed (js @ i # is))"
  by (auto simp: valid_def start_adapter_def acting_def recorded_env_def noted_done_def started_all_def start_failed_def
      seq_def update_def split: prod.splits outcome.splits)

lemma start_each:
  "valid (started_all js) (each (start_adapter (recorded_env env)) is) (\<lambda>_. started_all (js @ is)) (start_failed (js @ is))"
proof (induction "is" arbitrary: js)
  case (Cons i "is")
  show ?case
    using valid_seq [OF start_one [of js env i "is"]] Cons.IH [of "js @ [i]"] by simp
qed (simp add: valid_give)

lemma before_stopping:
  "valid (started_all []) (handle_exn p
     (seq (each (start_adapter (recorded_env env)) is) (\<lambda>_. acting (rn_run (recorded_env env) foreground))) (\<lambda>_. give ()))
     (\<lambda>_. begun is foreground) (begun is foreground)"
proof -
  have run: "valid (started_all is) (acting (rn_run (recorded_env env) foreground)) (\<lambda>_. begun is foreground)
      (begun is foreground)"
    by (auto simp: valid_def acting_def recorded_env_def noted_def begun_def started_all_def split: prod.splits outcome.splits)
  have "valid (started_all []) (each (start_adapter (recorded_env env)) is) (\<lambda>_. started_all is) (begun is foreground)"
    by (rule valid_weaken [OF start_each [of "[]" env "is"]]) (simp_all add: begun_def)
  from valid_seq [OF this run] show ?thesis
    by (rule valid_handle) (simp_all add: valid_give)
qed

lemma finally_cases:
  assumes "finally_do m f st = (r, st')" "r \<noteq> Blocked"
  obtains r1 st1 where "m st = (r1, st1)" "r1 \<noteq> Blocked" "fst (f st1) \<noteq> Blocked" "snd (f st1) = st'"
    "fst (f st1) = Done () \<Longrightarrow> r = r1"
  using assms
  by (auto simp: finally_do_def attempt_def seq_def handle_exn_def give_def split: prod.splits outcome.splits sum.splits)

text \<open>
  C10. The whole life of the program's adapters, however their run ends: by its own end, an
  exception or an interrupt. The threads of the adapters in the background are started in their
  order, and the adapter in the foreground runs once all of them were (unless a start fails, and
  then nothing more is started or run). After that, in this order, exactly the adapters whose
  threads were started are stopped, all sessions of the coordinator are stopped, every adapter
  is stopped and exactly the started threads are waited for. An interrupt does not leave
  \<open>main\<close>.
\<close>

theorem program_stops_everything:
  assumes "orderly env" "run_program (recorded_env env) count foreground \<lparr>pg_world = (w, []), pg_background = []\<rparr> = (r, st)"
    and "r \<noteq> Blocked"
  shows "\<exists>started ran. log_of st = map StartThread started @ ran @ map StopAdapter started @ [StopAll]
        @ map StopAdapter [0..<count] @ map JoinThread started
     \<and> (started = filter (\<lambda>i. i \<noteq> foreground) [0..<count] \<and> ran = [RunAdapter foreground]
        \<or> (\<exists>i rest. filter (\<lambda>i. i \<noteq> foreground) [0..<count] = started @ i # rest) \<and> ran = [])
     \<and> (\<forall>e. r = Raised e \<longrightarrow> is_exception (exn_class e))"
proof -
  let ?is = "filter (\<lambda>i. i \<noteq> foreground) [0..<count]"
  let ?body = "handle_exn (\<lambda>k. \<not> is_exception k)
      (seq (each (start_adapter (recorded_env env)) ?is) (\<lambda>_. acting (rn_run (recorded_env env) foreground))) (\<lambda>_. give ())"
  let ?closing = "\<lambda>b. seq (each (stop_adapter (recorded_env env)) b) (\<lambda>_. seq (acting (rn_stop_all (recorded_env env))) (\<lambda>_.
      seq (each (stop_adapter (recorded_env env)) [0..<count]) (\<lambda>_. each (\<lambda>i. acting (rn_join (recorded_env env) i)) b)))"
  obtain r1 st1 where body: "?body \<lparr>pg_world = (w, []), pg_background = []\<rparr> = (r1, st1)" "r1 \<noteq> Blocked"
    and final: "fst (?closing (pg_background st1) st1) \<noteq> Blocked" "snd (?closing (pg_background st1) st1) = st"
      "fst (?closing (pg_background st1) st1) = Done () \<Longrightarrow> r = r1"
    using finally_cases [OF assms(2) [unfolded run_program_def] assms(3)] unfolding reading_def by blast
  have q: "begun ?is foreground st1"
  proof -
    have "started_all [] \<lparr>pg_world = (w, []), pg_background = []\<rparr>" by (simp add: started_all_def)
    from validD [OF before_stopping this] body show ?thesis by (cases r1) blast+
  qed
  have "logs_more (map StopAdapter b @ [StopAll] @ map StopAdapter [0..<count] @ map JoinThread b) (?closing b)" for b
    by (intro logs_more_seq logs_more_each orderly_logs assms(1))
  then have "valid (\<lambda>st. log_of st = l \<and> pg_background st = b) (?closing b) (\<lambda>_ st. log_of st = l @
      map StopAdapter b @ [StopAll] @ map StopAdapter [0..<count] @ map JoinThread b \<and> pg_background st = b) (\<lambda>_. False)" for l b
    unfolding logs_more_def by blast
  note ending = validD [OF this [of "log_of st1" "pg_background st1"], of st1]
  obtain rf where rf: "?closing (pg_background st1) st1 = (rf, st)" "rf \<noteq> Blocked"
    using final(1,2) by (metis prod.collapse)
  have quiet: "log_of st1 = log_of st1 \<and> pg_background st1 = pg_background st1" by simp
  obtain u where u: "rf = Done u" using ending(2) [OF quiet] rf by (cases rf) blast+
  have kept: "log_of st = log_of st1 @ map StopAdapter (pg_background st1) @ [StopAll] @ map StopAdapter [0..<count]
      @ map JoinThread (pg_background st1)"
    using ending(1) [OF quiet] rf(1) u by auto
  have "r = r1" by (rule final(3)) (simp add: rf(1) u)
  moreover have "is_exception (exn_class e)" if "r1 = Raised e" for e
    using body(1) that by (auto simp: handle_exn_def give_def split: prod.splits outcome.splits if_splits)
  moreover obtain ran where "log_of st1 = map StartThread (pg_background st1) @ ran"
      "pg_background st1 = ?is \<and> ran = [RunAdapter foreground] \<or> (\<exists>i rest. ?is = pg_background st1 @ i # rest) \<and> ran = []"
    using q unfolding begun_def start_failed_def by force
  ultimately show ?thesis
    using kept by (intro exI [of _ "pg_background st1"] exI [of _ ran]) simp
qed

text \<open>Two adapters: the one in the foreground is interrupted, the other one fails to stop.\<close>

definition demo_running :: "unit running_env" where
  "demo_running =
     \<lparr>rn_start = (\<lambda>_. give ()), rn_run = (\<lambda>_. throw (OtherException ''KeyboardInterrupt'') []),
      rn_stop = (\<lambda>i. if i = 1 then throw RuntimeError ''not running'' else give ()), rn_stop_all = give (),
      rn_join = (\<lambda>_. give ())\<rparr>"

lemma program_stops_everything_witness:
  "\<exists>st. run_program (recorded_env demo_running) 2 0 \<lparr>pg_world = ((), []), pg_background = []\<rparr> = (Done (), st)
     \<and> log_of st = [StartThread 1, RunAdapter 0, StopAdapter 1, StopAll, StopAdapter 0, StopAdapter 1, JoinThread 1]"
proof -
  let ?run = "run_program (recorded_env demo_running) 2 0 \<lparr>pg_world = ((), []), pg_background = []\<rparr>"
  have "fst ?run = Done () \<and> StartThread 1 \<in> set (log_of (snd ?run))" by code_simp
  then obtain st where run: "?run = (Done (), st)" "StartThread 1 \<in> set (log_of st)" by (cases ?run) auto
  have "orderly demo_running" by (simp add: orderly_def demo_running_def throw_def give_def is_exception_def)
  from program_stops_everything [OF this run(1)] obtain started ran where log: "log_of st = map StartThread started @ ran
        @ map StopAdapter started @ [StopAll] @ map StopAdapter [0..<2] @ map JoinThread started"
      and part: "started = [1] \<and> ran = [RunAdapter 0] \<or> (\<exists>i rest. [1] = started @ i # rest) \<and> ran = []"
    by (auto simp: numeral_2_eq_2)
  have "started \<noteq> []" using run(2) log part by auto
  with part have "started = [1] \<and> ran = [RunAdapter 0]" by (auto simp: Cons_eq_append_conv)
  with log run(1) show ?thesis by (simp add: numeral_2_eq_2)
qed

end
