(* ===== verification/Spec2Isabelle.thy ===== *)
theory Spec2Isabelle
  imports CoordinatorOrder ToolBroker FireSafety TelegramSafety Cli Sandboxes Guest ExitHandlers Program
begin

text \<open>
  A verification development for strangeClaw, an agent that plans and runs tools in a sandbox.

  \<^bold>\<open>The program.\<close> A task enters through an adapter, on a terminal (\<open>adapters/cli.py\<close>) or in
  Telegram (\<open>adapters/telegram.py\<close>). The coordinator (\<open>coordinator.py\<close>) keeps one record per
  session and gives a task a sandbox and a worker thread, which relays the sandbox's events to
  the adapter and the user's replies back. A sandbox is a Firecracker machine
  (\<open>sandbox/fire.py\<close>) or a thread of the same process (\<open>sandbox/yolo.py\<close>). In it runs the agent
  (\<open>agent/agent.py\<close>): it asks a model for decisions, runs tools, delegates to child agents
  (\<open>agent/subagents.py\<close>), and ends with a \<open>done\<close> event. Whatever needs a credential or the
  network is a request to the host: the broker (\<open>sandbox/broker.py\<close>) applies a policy per
  integration and adds the credential, and the LLM service (\<open>sandbox/llm_service.py\<close>) holds the
  model's key. \<open>main.py\<close> builds all this from the configuration (\<open>config.py\<close>) and stops it.

  \<^bold>\<open>Conventions.\<close> Python values are \<open>pyval\<close>, a dict an association list in insertion order
  (\<open>PyVal\<close>). Strings are HOL strings, code points 0 to 255. Finite floats are rationals: rounding
  is not modelled, infinities and NaN are. A function that may raise gives \<open>'a res\<close>, an exception
  or a value (\<open>Prelude\<close>). Code that changes a state gives an \<open>effect\<close> (\<open>Effect\<close>): a result, an
  exception, or \<open>Blocked\<close> when it waits without end. What is outside the repository (the model's
  library, HTTP, DNS, YAML, processes, sockets, clocks, commands, the bot) is a parameter: a
  record of operations on an arbitrary world, in \<open>*_env\<close>, \<open>net\<close> or \<open>shell\<close>.

  \<^bold>\<open>Theories, from the bottom up.\<close>
  \<^item> Language and libraries: \<open>Prelude\<close>, \<open>PyStr\<close>, \<open>PyVal\<close>, \<open>PyJson\<close> (\<open>json\<close>), \<open>Pattern\<close> (\<open>re\<close>),
    \<open>Files\<close> (paths and files), \<open>IpAddr\<close> (\<open>ipaddress\<close>), \<open>Url\<close> (\<open>urllib.parse\<close>, \<open>fnmatch\<close>),
    \<open>Effect\<close>, and \<open>EffectLogic\<close> with its rules about effects.
  \<^item> \<open>Protocol\<close>: \<open>agent/protocol.py\<close>. \<open>Transport\<close>: both transports of \<open>agent/transport.py\<close>.
  \<^item> \<open>HostServices\<close>: \<open>sandbox/host_services.py\<close>, \<open>agent/broker_client.py\<close>.
  \<^item> \<open>LlmClient\<close>: \<open>agent/llm.py\<close>, \<open>agent/llm_types.py\<close>. \<open>LlmService\<close>: \<open>sandbox/llm_service.py\<close> and
    its client \<open>agent/llm_proxy.py\<close>.
  \<^item> \<open>BrokerPolicy\<close>, \<open>BrokerNet\<close>, \<open>Broker\<close>: \<open>sandbox/broker.py\<close>. \<open>Secrets\<close>: \<open>host_secrets.py\<close>.
  \<^item> \<open>Session\<close>: \<open>session.py\<close> and \<open>adapters/session_persistence.py\<close>.
  \<^item> \<open>Coordinator\<close>: \<open>coordinator.py\<close>; a block under the lock is one step. \<open>CoordinatorSafety\<close> and
    \<open>CoordinatorOrder\<close>: its steps in any order (\<open>coord_step\<close>, \<open>reachable\<close>) and the invariants.
  \<^item> \<open>Tools\<close>: \<open>agent/tools.py\<close>. \<open>Skills\<close>: \<open>agent/skills.py\<close>. \<open>ToolBroker\<close>: tool against broker.
  \<^item> \<open>AgentConfig\<close>, \<open>Agent\<close>, \<open>AgentFrame\<close>: settings, loop and lifted laws of \<open>agent/agent.py\<close>;
    \<open>AgentProps\<close>: what it guarantees. \<open>Subagents\<close>: construction of an agent and
    \<open>agent/subagents.py\<close>. \<open>Guest\<close>: \<open>main\<close> of \<open>agent/agent.py\<close> and the opening of its socket.
  \<^item> \<open>Config\<close>: \<open>config.py\<close>. \<open>FireConfig\<close>, \<open>FireNet\<close>, \<open>FireSandbox\<close>, \<open>ExitHandlers\<close>: settings and API
    requests, network, lifecycle and signal handlers of \<open>sandbox/fire.py\<close>; \<open>FireSafety\<close>: what
    becomes of its resources. \<open>Yolo\<close>: \<open>sandbox/yolo.py\<close>. \<open>Sandboxes\<close>: what both offer the coordinator.
  \<^item> \<open>TelegramText\<close>, \<open>Telegram\<close>, \<open>TelegramSafety\<close>: \<open>adapters/telegram.py\<close>, the last one over the
    modelled coordinator. \<open>Cli\<close>: \<open>adapters/cli.py\<close>. \<open>Program\<close>: \<open>main.py\<close>.

  \<^bold>\<open>Interfaces.\<close> A contract between components is a locale, interpreted where it is provided:
  \<open>line_codec\<close> (encoding of events, for the transports), \<open>envelope_service\<close> (what a host service
  answers: broker and LLM service), \<open>redirect_guard\<close> (a check before each redirect),
  \<open>action_frame\<close> to \<open>task_frame\<close> (laws of the agent's atomic actions, lifted to a task),
  \<open>resource_pool\<close> (leases of guest CIDs), \<open>fire_frame\<close> (what a sandbox operation may change),
  \<open>sandbox_lifecycle\<close> (starting, using and stopping one),
  \<open>splitter\<close> (cutting a text), \<open>coordinator_view\<close> (what an adapter may see changed).

  \<^bold>\<open>What is shown.\<close> Each claim is stated with its number in front of its theorem.
  \<^item> Secrets and confinement: credentials leave only for requests a policy allows, replies are
    redacted, public fetches reach public addresses only, the machine is configured without a
    credential, children have fewer rights than their parents, files stay in their directories,
    a chat reaches its own session only.
  \<^item> Sessions and resources: the coordinator keeps its limit, one worker and one sandbox per
    session, and loses no reply; a Firecracker sandbox forgets no resource (a ledger lists what is
    held and what failed to be released), a start that raises leaves nothing held, tasks in Yolo
    mode do not mix, the terminal adapter and \<open>main\<close> leave nothing running.
  \<^item> Ends: a task ends in one final event, an unattended agent and every child come to an end;
    only a child whose clock has passed its limit ends without that event.
  \<^item> Agreement: both call modes of the broker client, the proxy and the model's client, host and
    guest configuration, the loader and the readers of the configuration.
  \<^item> Round trips and bounds: events, framing, texts, the journal, prompts, rate limits, output.
  \<^item> Errors: behaviours of the code that its own comments or purpose do not intend.

  \<^bold>\<open>Bounds.\<close> Loops over data are structural or have a measure. Parsers (\<open>json_loads\<close>, redirects)
  take fuel that their callers compute from the input, and lemmas show it is enough. Loops that
  wait for the world (receiving, connecting, polling, typing, event loops of the adapters) take
  a number of rounds; with none left they are \<open>Blocked\<close>, and the theorems hold for every number.
  \<open>run_forever\<close> of the agent terminates because each task takes its event from the inbox.

  \<^bold>\<open>Not modelled.\<close> Logging, \<open>argparse\<close>, the default factories for processes and sockets, and
  the HTTP exchange over the Firecracker API socket, which only pass values on; symbolic links;
  text outside the 8-bit characters; the scripts, skills and tests. In \<open>Guest\<close> the agent's
  reading of events and the waiting for a service answer, which share one socket, are two
  operations of the world; each is modelled on its own in \<open>Transport\<close> and \<open>HostServices\<close>.

  \<^bold>\<open>Simplifications.\<close> \<open>fe_connect\<close> opens the socket and connects it in one operation. A request to
  a child carries its tools as a list, as the parser of the request leaves them. Reading an
  output file, and the lock file of the CIDs, does not fail. \<open>KeyboardInterrupt\<close> is told apart from \<open>Exception\<close> in the adapters
  and \<open>main\<close>, not inside the sandboxes.
\<close>

end
